(* ===== verification/Gfire_Prelude.thy ===== *)
theory Gfire_Prelude
  imports Main "HOL-Library.Word"
begin

text \<open>
  Shared vocabulary of the development: Go's scalar types, the outcome of a call (a value, an
  error or a panic), the environment a call reads (clock, fresh UUIDs, map iteration order), and
  the generic lemmas on maps, lists and decimal printing that the component theories use.

  \<^item> An instant (\<^verbatim>\<open>time.Time\<close>) is an \<open>int\<close>: nanoseconds since Go's zero time, so
    \<^verbatim>\<open>t.IsZero()\<close> is \<open>t = 0\<close>. A \<^verbatim>\<open>time.Duration\<close> is a 64-bit word read with \<open>sint\<close>.
  \<^item> Go strings and \<^verbatim>\<open>[]byte\<close> values are \<open>string\<close> (a HOL \<open>char\<close> is a byte); a slice that
    may be \<^verbatim>\<open>nil\<close> is a \<open>string option\<close>.
  \<^item> \<open>now_at e i\<close> is what \<^verbatim>\<open>time.Now()\<close> gives at its \<open>i\<close>-th call site in the method (in a
    loop, in the \<open>i\<close>-th iteration), \<open>new_uuid e i\<close> the same for \<^verbatim>\<open>uuid.NewString()\<close>, \<open>key_order e\<close> the order in which a \<^verbatim>\<open>range\<close> over
    a map visits keys, and \<open>rfc3339 e\<close> the rendering of an instant in its location.
\<close>

named_theorems go_simps \<open>unfolding rules of the Go primitives\<close>

section \<open>Types\<close>

type_synonym time = int
type_synonym int64 = "64 word"
type_synonym duration = int64
type_synonym bytes = "string option"

datatype error =
    ErrNotFound
  | ErrStateConflict
  | ErrQueueEmpty
  | ErrAlreadyExists
  | ErrLockNotHeld
  | ErrTerminalState
  | CtxCanceled
  | CtxDeadlineExceeded
  | ErrMsg string
  | ErrWrap string error
  | ErrNote error string

datatype 'a result = Ok 'a | Err error | Panic string

type_synonym ctx = "error option"

record env =
  now_at :: "nat \<Rightarrow> time"
  new_uuid :: "nat \<Rightarrow> string"
  key_order :: "string list"
  rfc3339 :: "time \<Rightarrow> string"

text \<open>The environments of the successive calls a routine makes.\<close>

type_synonym world = "nat \<Rightarrow> env"

definition later :: "nat \<Rightarrow> world \<Rightarrow> world" where
  "later k w = (\<lambda>i. w (i + k))"

fun is_ok :: "'a result \<Rightarrow> bool" where
  "is_ok (Ok _) = True"
| "is_ok _ = False"

fun is_panic :: "'a result \<Rightarrow> bool" where
  "is_panic (Panic _) = True"
| "is_panic _ = False"

fun map_result :: "('a \<Rightarrow> 'b) \<Rightarrow> 'a result \<Rightarrow> 'b result" where
  "map_result f (Ok a) = Ok (f a)"
| "map_result f (Err e) = Err e"
| "map_result f (Panic p) = Panic p"

text \<open>\<^verbatim>\<open>if err != nil { return err }\<close> between two calls that share the state.\<close>

fun and_then :: "'s \<times> 'a result \<Rightarrow> ('s \<Rightarrow> 'a \<Rightarrow> 's \<times> 'b result) \<Rightarrow> 's \<times> 'b result" where
  "and_then (s, Ok a) f = f s a"
| "and_then (s, Err e) f = (s, Err e)"
| "and_then (s, Panic p) f = (s, Panic p)"

section \<open>Errors\<close>

text \<open>\<^verbatim>\<open>errors.Is(err, target)\<close>: \<open>ErrWrap p e\<close> is \<^verbatim>\<open>fmt.Errorf("p: %w", e)\<close> and
  \<open>ErrNote e m\<close> is \<^verbatim>\<open>fmt.Errorf("%w: %s", e, m)\<close>.\<close>

fun errors_Is :: "error \<Rightarrow> error \<Rightarrow> bool" where
  "errors_Is (ErrWrap p e) t = (ErrWrap p e = t \<or> errors_Is e t)"
| "errors_Is (ErrNote e m) t = (ErrNote e m = t \<or> errors_Is e t)"
| "errors_Is e t = (e = t)"

fun Error :: "error \<Rightarrow> string" where
  "Error ErrNotFound = ''not found''"
| "Error ErrStateConflict = ''state conflict''"
| "Error ErrQueueEmpty = ''queue empty''"
| "Error ErrAlreadyExists = ''already exists''"
| "Error ErrLockNotHeld = ''lock not held''"
| "Error ErrTerminalState = ''terminal state''"
| "Error CtxCanceled = ''context canceled''"
| "Error CtxDeadlineExceeded = ''context deadline exceeded''"
| "Error (ErrMsg m) = m"
| "Error (ErrWrap p e) = p @ '': '' @ Error e"
| "Error (ErrNote e m) = Error e @ '': '' @ m"

section \<open>Byte slices\<close>

definition blen :: "bytes \<Rightarrow> nat" where
  "blen b = (case b of None \<Rightarrow> 0 | Some xs \<Rightarrow> length xs)"

text \<open>\<^verbatim>\<open>append([]byte(nil), b...)\<close>: a copy, \<^verbatim>\<open>nil\<close> when there is nothing to copy.\<close>

definition append_nil :: "bytes \<Rightarrow> bytes" where
  "append_nil b = (case b of None \<Rightarrow> None | Some xs \<Rightarrow> if xs = [] then None else Some xs)"

definition btake :: "nat \<Rightarrow> bytes \<Rightarrow> bytes" where
  "btake n b = map_option (take n) b"

section \<open>Time and durations\<close>

definition time_add :: "time \<Rightarrow> duration \<Rightarrow> time" where
  "time_add t d = t + sint d"

definition max_duration :: int where
  "max_duration = 2 ^ 63 - 1"

definition min_duration :: int where
  "min_duration = - (2 ^ 63)"

text \<open>\<^verbatim>\<open>t.Sub(u)\<close> saturates at the largest and smallest duration.\<close>

definition time_sub :: "time \<Rightarrow> time \<Rightarrow> duration" where
  "time_sub t u = word_of_int (max min_duration (min max_duration (t - u)))"

definition millisecond :: duration where "millisecond = 1000000"
definition second :: duration where "second = 1000 * millisecond"
definition minute :: duration where "minute = 60 * second"
definition hour :: duration where "hour = 60 * minute"

definition unix_epoch :: time where
  "unix_epoch = 62135596800 * 1000000000"

definition UnixNano :: "time \<Rightarrow> int64" where
  "UnixNano t = word_of_int (t - unix_epoch)"

section \<open>Maps\<close>

text \<open>
  \<^verbatim>\<open>for k := range m\<close> visits every key once in an order the runtime chooses; \<open>order\<close> is that
  choice. It is a complete iteration when \<open>covers order m\<close>.
\<close>

definition range_keys :: "('k \<rightharpoonup> 'v) \<Rightarrow> 'k list \<Rightarrow> 'k list" where
  "range_keys m order = filter (\<lambda>k. m k \<noteq> None) (remdups order)"

definition covers :: "'k list \<Rightarrow> ('k \<rightharpoonup> 'v) \<Rightarrow> bool" where
  "covers order m \<longleftrightarrow> dom m \<subseteq> set order"

text \<open>A read of a \<^verbatim>\<open>map[string]int64\<close> gives 0 for a missing key; \<^verbatim>\<open>m[k] += d\<close> wraps.\<close>

definition counter_at :: "(string \<rightharpoonup> int64) \<Rightarrow> string \<Rightarrow> int64" where
  "counter_at m k = (case m k of None \<Rightarrow> 0 | Some v \<Rightarrow> v)"

definition bump :: "string \<Rightarrow> int64 \<Rightarrow> (string \<rightharpoonup> int64) \<Rightarrow> (string \<rightharpoonup> int64)" where
  "bump k d m = m(k \<mapsto> counter_at m k + d)"

definition int_at :: "(string \<rightharpoonup> int) \<Rightarrow> string \<Rightarrow> int" where
  "int_at m k = (case m k of None \<Rightarrow> 0 | Some v \<Rightarrow> v)"

definition list_at :: "('k \<rightharpoonup> 'v list) \<Rightarrow> 'k \<Rightarrow> 'v list" where
  "list_at m k = (case m k of None \<Rightarrow> [] | Some xs \<Rightarrow> xs)"

section \<open>Decimal printing\<close>

definition digit_char :: "nat \<Rightarrow> char" where
  "digit_char d = char_of (48 + d)"

fun show_nat :: "nat \<Rightarrow> string" where
  "show_nat n = (if n < 10 then [digit_char n] else show_nat (n div 10) @ [digit_char (n mod 10)])"

declare show_nat.simps [simp del]

definition show_int :: "int \<Rightarrow> string" where
  "show_int i = (if i < 0 then CHR ''-'' # show_nat (nat (- i)) else show_nat (nat i))"

definition is_digit :: "char \<Rightarrow> bool" where
  "is_digit ch \<longleftrightarrow> 48 \<le> (of_char ch :: nat) \<and> (of_char ch :: nat) \<le> 57"

definition digits_value :: "string \<Rightarrow> nat" where
  "digits_value ds = foldl (\<lambda>n ch. 10 * n + (of_char ch - 48)) 0 ds"

text \<open>\<^verbatim>\<open>strconv.ParseInt(s, 10, 64)\<close> without its range check: a sign, digits, nothing else.\<close>

definition parse_int :: "string \<Rightarrow> int option" where
  "parse_int s =
     (let neg = (s \<noteq> [] \<and> hd s = CHR ''-'');
          ds = (if s \<noteq> [] \<and> (hd s = CHR ''-'' \<or> hd s = CHR ''+'') then tl s else s)
      in if ds = [] \<or> \<not> list_all is_digit ds then None
         else Some (if neg then - int (digits_value ds) else int (digits_value ds)))"

text \<open>The value \<^verbatim>\<open>strconv\<close> returns: 0 for a syntax error, the nearest limit outside 64 bits.\<close>

definition Atoi :: "string \<Rightarrow> int" where
  "Atoi s = (case parse_int s of None \<Rightarrow> 0 | Some n \<Rightarrow> max (- (2 ^ 63)) (min (2 ^ 63 - 1) n))"

section \<open>Trimming\<close>

text \<open>The UTF-8 encodings of the white-space runes that \<^verbatim>\<open>strings.TrimSpace\<close> strips.\<close>

definition bytes_of :: "nat list \<Rightarrow> string" where
  "bytes_of = map char_of"

definition space_runes :: "string list" where
  "space_runes = map (\<lambda>b. bytes_of [b]) [9, 10, 11, 12, 13, 32] @
     map bytes_of [[194, 133], [194, 160], [225, 154, 128], [226, 128, 168], [226, 128, 169],
       [226, 128, 175], [226, 129, 159], [227, 128, 128]] @
     map (\<lambda>b. bytes_of [226, 128, b]) [128 ..< 139]"

definition has_prefix :: "string \<Rightarrow> string \<Rightarrow> bool" where
  "has_prefix p s \<longleftrightarrow> take (length p) s = p"

definition ascii :: "string \<Rightarrow> bool" where
  "ascii s \<longleftrightarrow> list_all (\<lambda>ch. (of_char ch :: nat) < 128) s"

fun trim_front :: "string list \<Rightarrow> nat \<Rightarrow> string \<Rightarrow> string" where
  "trim_front rs 0 s = s"
| "trim_front rs (Suc n) s =
     (case find (\<lambda>r. has_prefix r s) rs of
        None \<Rightarrow> s
      | Some r \<Rightarrow> trim_front rs n (drop (length r) s))"

definition TrimSpace :: "string \<Rightarrow> string" where
  "TrimSpace s =
     (let s = trim_front space_runes (length s) s;
          s = rev (trim_front (map rev space_runes) (length s) (rev s))
      in s)"

section \<open>Lemmas\<close>

lemma result_casesE [case_names Ok Err Panic]:
  obtains a where "r = Ok a" | e where "r = Err e" | p where "r = Panic p"
  by (cases r) auto

lemma set_range_keys [simp]: "set (range_keys m order) = dom m \<inter> set order"
  by (auto simp: range_keys_def)

lemma distinct_range_keys [simp]: "distinct (range_keys m order)"
  by (simp add: range_keys_def)

lemma set_range_keys_covers: "covers order m \<Longrightarrow> set (range_keys m order) = dom m"
  by (auto simp: covers_def)

lemma counter_at_bump [simp]:
  "counter_at (bump k d m) k' = (if k' = k then counter_at m k + d else counter_at m k')"
  by (simp add: bump_def counter_at_def)

lemma int_at_upd [simp]: "int_at (m(k \<mapsto> v)) k' = (if k' = k then v else int_at m k')"
  by (simp add: int_at_def)

lemma list_at_upd [simp]: "list_at (m(k \<mapsto> xs)) k' = (if k' = k then xs else list_at m k')"
  by (simp add: list_at_def)

lemma list_at_upd_None [simp]: "list_at (m(k := None)) k' = (if k' = k then [] else list_at m k')"
  by (simp add: list_at_def)

lemma list_at_Some: "m k = Some xs \<Longrightarrow> list_at m k = xs"
  by (simp add: list_at_def)

lemma blen_btake: "blen (btake n b) = min n (blen b)"
  by (cases b) (simp_all add: blen_def btake_def)

lemma blen_append_nil [simp]: "blen (append_nil b) = blen b"
  by (cases b) (simp_all add: blen_def append_nil_def)

lemma digit_char_inj: "a < 10 \<Longrightarrow> b < 10 \<Longrightarrow> digit_char a = digit_char b \<Longrightarrow> a = b"
proof -
  assume ab: "a < 10" "b < 10" and eq: "digit_char a = digit_char b"
  have "of_char (char_of (48 + a) :: char) = (of_char (char_of (48 + b) :: char) :: nat)"
    using eq by (simp add: digit_char_def)
  then have "(48 + a) mod 256 = (48 + b) mod 256"
    by simp
  with ab show "a = b" by simp
qed

lemma show_nat_nonempty [simp]: "show_nat n \<noteq> []"
  by (subst show_nat.simps) simp

lemma show_nat_nonempty' [simp]: "[] \<noteq> show_nat n"
  using show_nat_nonempty [of n] by (metis)

lemma show_nat_inj: "show_nat m = show_nat n \<Longrightarrow> m = n"
proof (induction m arbitrary: n rule: show_nat.induct)
  case (1 m)
  consider (both) "m < 10" "n < 10" | (l) "m < 10" "\<not> n < 10" | (r) "\<not> m < 10" "n < 10"
    | (big) "\<not> m < 10" "\<not> n < 10"
    by blast
  then show ?case
  proof cases
    case both
    with "1.prems" show ?thesis
      by (auto simp: show_nat.simps [of m] show_nat.simps [of n] dest: digit_char_inj)
  next
    case l
    with "1.prems" show ?thesis
      by (simp add: show_nat.simps [of m] show_nat.simps [of n])
  next
    case r
    with "1.prems" show ?thesis
      by (simp add: show_nat.simps [of m] show_nat.simps [of n])
  next
    case big
    with "1.prems" have "show_nat (m div 10) = show_nat (n div 10)"
      and "digit_char (m mod 10) = digit_char (n mod 10)"
      by (simp_all add: show_nat.simps [of m] show_nat.simps [of n])
    with "1.IH" [OF big(1)] digit_char_inj [of "m mod 10" "n mod 10"]
    have "m div 10 = n div 10" and "m mod 10 = n mod 10" by simp_all
    then show ?thesis by (metis div_mult_mod_eq)
  qed
qed

lemma digit_char_props:
  assumes "d < 10"
  shows "is_digit (digit_char d)" "of_char (digit_char d) = 48 + d" "digit_char d \<noteq> CHR ''-''" "digit_char d \<noteq> CHR ''+''"
proof -
  have v: "of_char (digit_char d) = 48 + d" using assms by (simp add: digit_char_def)
  then show "is_digit (digit_char d)" "of_char (digit_char d) = 48 + d" using assms by (simp_all add: is_digit_def)
  show "digit_char d \<noteq> CHR ''-''" "digit_char d \<noteq> CHR ''+''" using v by (auto dest: arg_cong [where f = of_char])
qed

lemma show_nat_digits: "list_all is_digit (show_nat n)"
  by (induction n rule: show_nat.induct) (subst show_nat.simps, simp add: digit_char_props)

lemma digits_value_show_nat: "digits_value (show_nat n) = n"
proof (induction n rule: show_nat.induct)
  case (1 n)
  then show ?case
    by (subst show_nat.simps) (auto simp: digits_value_def digit_char_props)
qed

lemma show_nat_hd: "hd (show_nat n) \<noteq> CHR ''-''" "hd (show_nat n) \<noteq> CHR ''+''"
proof -
  have "is_digit (hd (show_nat n))"
    using show_nat_digits [of n] by (metis list.pred_inject(2) list.collapse show_nat_nonempty)
  then show "hd (show_nat n) \<noteq> CHR ''-''" "hd (show_nat n) \<noteq> CHR ''+''" by (auto simp: is_digit_def)
qed

lemma parse_show_int [simp]: "parse_int (show_int i) = Some i"
  using show_nat_hd [of "nat i"]
  by (auto simp: parse_int_def show_int_def Let_def digits_value_show_nat show_nat_digits)

lemma Atoi_show_int: "- (2 ^ 63) \<le> i \<Longrightarrow> i < 2 ^ 63 \<Longrightarrow> Atoi (show_int i) = i"
  by (simp add: Atoi_def)

lemma sint_int64: "- (2 ^ 63) \<le> x \<Longrightarrow> x < 2 ^ 63 \<Longrightarrow> sint (word_of_int x :: int64) = x"
  by (simp add: int_word_sint mod_pos_pos_trivial)

lemma sint_time_sub: "sint (time_sub t u) = max min_duration (min max_duration (t - u))"
  by (simp add: time_sub_def sint_int64 min_duration_def max_duration_def)

lemma time_sub_exact:
  "min_duration \<le> t - u \<Longrightarrow> t - u \<le> max_duration \<Longrightarrow> sint (time_sub t u) = t - u"
  by (simp add: sint_time_sub)

lemmas duration_units = millisecond_def second_def minute_def hour_def

end
