(* ===== verification/Job_Domain.thy ===== *)
theory Job_Domain
  imports Gfire_Prelude
begin

text \<open>
  The package \<^verbatim>\<open>internal/job\<close>: the job record and its append-only state history, the state
  names with their two classifications, tickets, continuations, recurring definitions and server
  records. The cron parser (\<^verbatim>\<open>robfig/cron\<close>) is a parameter: \<open>cron expr\<close> is the parsed
  schedule, a function from an instant to the next fire time, or \<open>None\<close> for a parse error.
\<close>

section \<open>Jobs and their states\<close>

record job =
  j_ID :: string
  j_Name :: string
  j_Args :: bytes
  j_Queue :: string
  j_RetryMax :: int
  j_Timeout :: duration
  j_IdempotencyKey :: string
  j_CreatedAt :: time
  j_Result :: bytes

record jobState =
  js_Name :: string
  js_Reason :: string
  js_Data :: "(string \<times> string) list"
  js_CreatedAt :: time

record jobWithStates =
  jw_Job :: job
  jw_States :: "jobState list"

text \<open>A job literal \<^verbatim>\<open>&domain.Job{Name: n, Args: a, Queue: q}\<close> leaves the other fields zero.\<close>

definition new_job :: "string \<Rightarrow> bytes \<Rightarrow> string \<Rightarrow> job" where
  "new_job n a q = \<lparr>j_ID = '''', j_Name = n, j_Args = a, j_Queue = q, j_RetryMax = 0, j_Timeout = 0,
     j_IdempotencyKey = '''', j_CreatedAt = 0, j_Result = None\<rparr>"

definition new_state :: "string \<Rightarrow> string \<Rightarrow> (string \<times> string) list \<Rightarrow> time \<Rightarrow> jobState" where
  "new_state n r d t = \<lparr>js_Name = n, js_Reason = r, js_Data = d, js_CreatedAt = t\<rparr>"

definition current_of :: "jobState list \<Rightarrow> string" where
  "current_of sts = (if sts = [] then '''' else js_Name (last sts))"

definition CurrentState :: "jobWithStates \<Rightarrow> string" where
  "CurrentState jw = current_of (jw_States jw)"

definition StateEnqueued :: string where "StateEnqueued = ''Enqueued''"
definition StateProcessing :: string where "StateProcessing = ''Processing''"
definition StateSucceeded :: string where "StateSucceeded = ''Succeeded''"
definition StateFailed :: string where "StateFailed = ''Failed''"
definition StateScheduled :: string where "StateScheduled = ''Scheduled''"
definition StateDeleted :: string where "StateDeleted = ''Deleted''"
definition StateAwaiting :: string where "StateAwaiting = ''Awaiting''"
definition StateDead :: string where "StateDead = ''Dead''"
definition StateCancelled :: string where "StateCancelled = ''Cancelled''"

definition TerminalStates :: "string \<Rightarrow> bool" where
  "TerminalStates s \<longleftrightarrow> s = StateSucceeded \<or> s = StateFailed \<or> s = StateDeleted \<or> s = StateDead
     \<or> s = StateCancelled"

definition IrreversibleStates :: "string \<Rightarrow> bool" where
  "IrreversibleStates s \<longleftrightarrow> s = StateSucceeded \<or> s = StateDead \<or> s = StateCancelled
     \<or> s = StateDeleted"

section \<open>Tickets, continuations, recurring definitions, servers\<close>

record jobTicket =
  t_JobID :: string
  t_Token :: string

record continuationEntry =
  c_ChildName :: string
  c_ChildArgs :: bytes
  c_ChildQueue :: string
  c_Condition :: string
  c_CreatedAt :: time

definition ConditionOnSucceeded :: string where "ConditionOnSucceeded = ''OnSucceeded''"
definition ConditionOnFailed :: string where "ConditionOnFailed = ''OnFailed''"
definition ConditionOnAny :: string where "ConditionOnAny = ''OnAny''"

record recurringJobEntry =
  r_ID :: string
  r_JobName :: string
  r_Args :: bytes
  r_Queue :: string
  r_CronExpr :: string
  r_LastRun :: "time option"
  r_NextRun :: "time option"
  r_Enabled :: bool
  r_CreatedAt :: time
  r_UpdatedAt :: time

record serverInfo =
  sv_ID :: string
  sv_StartedAt :: time
  sv_LastHeartbeat :: time
  sv_WorkerCount :: int
  sv_Queues :: "string list"
  sv_Status :: string

definition ServerStatusActive :: string where "ServerStatusActive = ''active''"

type_synonym cron = "string \<Rightarrow> (time \<Rightarrow> time) option"

definition ParseRecurringCron :: "cron \<Rightarrow> string \<Rightarrow> (time \<Rightarrow> time) result" where
  "ParseRecurringCron cron expr =
     (case cron expr of None \<Rightarrow> Err (ErrMsg ''cron parse'') | Some sched \<Rightarrow> Ok sched)"

definition NextRecurringRun :: "cron \<Rightarrow> string \<Rightarrow> time \<Rightarrow> time result" where
  "NextRecurringRun cron expr t =
     (case ParseRecurringCron cron expr of
        Ok sched \<Rightarrow> Ok (sched t)
      | Err e \<Rightarrow> Err e
      | Panic p \<Rightarrow> Panic p)"

section \<open>Lemmas\<close>

lemmas state_defs = StateEnqueued_def StateProcessing_def StateSucceeded_def StateFailed_def
  StateScheduled_def StateDeleted_def StateAwaiting_def StateDead_def StateCancelled_def

lemma state_names_distinct:
  "distinct [StateEnqueued, StateProcessing, StateSucceeded, StateFailed, StateScheduled,
     StateDeleted, StateAwaiting, StateDead, StateCancelled, '''']"
  by (simp add: state_defs)

lemmas state_neq [simp] = state_names_distinct [simplified distinct.simps list.set
    insert_iff empty_iff de_Morgan_disj not_False_eq_True simp_thms]

lemma state_names_distinct_rev:
  "distinct ['''', StateCancelled, StateDead, StateAwaiting, StateDeleted, StateScheduled,
     StateFailed, StateSucceeded, StateProcessing, StateEnqueued]"
  by (simp add: state_defs)

lemmas state_neq_sym [simp] = state_names_distinct_rev [simplified distinct.simps list.set
    insert_iff empty_iff de_Morgan_disj not_False_eq_True simp_thms]

lemma ascii_states [simp]:
  "ascii StateEnqueued" "ascii StateProcessing" "ascii StateSucceeded" "ascii StateFailed" "ascii StateScheduled"
  "ascii StateDeleted" "ascii StateDead" "ascii StateCancelled"
  by (simp_all add: state_defs ascii_def)

lemma ascii_Nil [simp]: "ascii []"
  by (simp add: ascii_def)

lemma irreversible_terminal: "IrreversibleStates s \<Longrightarrow> TerminalStates s"
  by (auto simp: IrreversibleStates_def TerminalStates_def)

lemma terminal_cases: "TerminalStates s \<longleftrightarrow> IrreversibleStates s \<or> s = StateFailed"
  by (auto simp: IrreversibleStates_def TerminalStates_def)

lemma not_irreversible [simp]:
  "\<not> IrreversibleStates StateEnqueued" "\<not> IrreversibleStates StateProcessing"
  "\<not> IrreversibleStates StateFailed" "\<not> IrreversibleStates StateScheduled"
  by (simp_all add: IrreversibleStates_def)

lemma irreversible [simp]:
  "IrreversibleStates StateSucceeded" "IrreversibleStates StateDead"
  "IrreversibleStates StateCancelled" "IrreversibleStates StateDeleted"
  by (simp_all add: IrreversibleStates_def)

lemma current_of_append [simp]: "current_of (sts @ [st]) = js_Name st"
  by (simp add: current_of_def)

lemma current_of_names: "map js_Name sts = ns @ [n] \<Longrightarrow> current_of (h @ sts) = n"
  by (cases sts rule: rev_cases) (auto simp: current_of_def)

lemma current_of_single [simp]: "current_of [st] = js_Name st"
  by (simp add: current_of_def)

lemma new_state_sel [simp]:
  "js_Name (new_state n r d t) = n" "js_Reason (new_state n r d t) = r"
  "js_Data (new_state n r d t) = d" "js_CreatedAt (new_state n r d t) = t"
  by (simp_all add: new_state_def)

lemma new_job_sel [simp]:
  "j_ID (new_job n a q) = ''''" "j_Name (new_job n a q) = n" "j_Args (new_job n a q) = a"
  "j_Queue (new_job n a q) = q" "j_RetryMax (new_job n a q) = 0" "j_Timeout (new_job n a q) = 0"
  "j_IdempotencyKey (new_job n a q) = ''''" "j_Result (new_job n a q) = None"
  by (simp_all add: new_job_def)

end
