(* ===== verification/Retry_Policy.thy ===== *)
theory Retry_Policy
  imports Job_Domain
begin

text \<open>
  The retry policy (\<^verbatim>\<open>internal/engine/retry.go\<close>): the delay before a retry, computed on 64-bit
  durations with Go's wrap-around, and the number of attempts a job gets. \<open>jitter\<close> is the value of
  \<^verbatim>\<open>rand.Int63n(int64(time.Second))\<close>, so \<open>0 \<le> sint jitter < sint second\<close>.
\<close>

definition defaultRetryMax :: int where "defaultRetryMax = 10"
definition maxRetryDelay :: duration where "maxRetryDelay = hour"
definition retryBaseDelay :: duration where "retryBaseDelay = minute"

definition RetryDelay :: "int64 \<Rightarrow> int \<Rightarrow> duration" where
  "RetryDelay jitter attempt =
     (let attempt = (if attempt < 0 then 0 else attempt);
          shift = (if attempt > 30 then 30 else attempt);
          delay = retryBaseDelay * push_bit (nat shift) 1;
          delay = (if sint delay > sint maxRetryDelay then maxRetryDelay else delay)
      in delay + jitter)"

definition effectiveRetryMax :: "int \<Rightarrow> int" where
  "effectiveRetryMax retryMax = (if retryMax = 0 then defaultRetryMax else retryMax)"

text \<open>A doubling minute capped at an hour, plus the jitter: the order in which the code applies the two.\<close>

definition ideal_delay :: "int \<Rightarrow> int \<Rightarrow> int" where
  "ideal_delay jitter attempt = min (60000000000 * 2 ^ nat attempt) 3600000000000 + jitter"

text \<open>The documented formula (\<^verbatim>\<open>SPECIFICATIONS.md\<close>, section 14): the jitter is inside the cap.\<close>

definition documented_delay :: "int \<Rightarrow> int \<Rightarrow> int" where
  "documented_delay jitter attempt = min (60000000000 * 2 ^ nat attempt + jitter) 3600000000000"

lemmas retry_consts = maxRetryDelay_def retryBaseDelay_def duration_units

lemma sint_add_small:
  fixes a b :: "64 word"
  assumes "- (2 ^ 62) \<le> sint a" "sint a < 2 ^ 62" "- (2 ^ 62) \<le> sint b" "sint b < 2 ^ 62"
  shows "sint (a + b) = sint a + sint b"
proof -
  have "- (2 ^ 63) \<le> sint a + sint b" "sint a + sint b < 2 ^ 63" using assms by auto
  then show ?thesis by (simp add: sint_word_ariths signed_take_bit_int_eq_self)
qed

lemma delay_table:
  "n \<le> 27 \<or> n = 30 \<Longrightarrow>
   sint (if sint (retryBaseDelay * push_bit n 1) > sint maxRetryDelay then maxRetryDelay
     else retryBaseDelay * push_bit n 1) = min (60000000000 * 2 ^ n) 3600000000000"
proof -
  assume "n \<le> 27 \<or> n = 30"
  then have "n \<in> set ([0..<28] @ [30])" by auto
  then show ?thesis
    by (auto simp: retry_consts upt_conv_Cons)
qed

text \<open>
  For every attempt number except 28 and 29 (negative ones included, which count as 0) the delay is
  one minute doubled per attempt, capped at one hour, plus the jitter; so it lies
  between one minute and one hour and one second.
\<close>
lemma delay_ideal:
  assumes jit: "0 \<le> sint jitter" "sint jitter < sint second" and a: "attempt \<noteq> 28" "attempt \<noteq> 29"
  shows "sint (RetryDelay jitter attempt) = ideal_delay (sint jitter) (max 0 attempt) \<and>
    60000000000 \<le> sint (RetryDelay jitter attempt) \<and> sint (RetryDelay jitter attempt) < 3601000000000"
proof -
  define n where "n = nat (min 30 (max 0 attempt))"
  define d where "d = (if sint (retryBaseDelay * push_bit n 1) > sint maxRetryDelay then maxRetryDelay
     else retryBaseDelay * push_bit n 1)"
  have "n \<le> 27 \<or> n = 30" using a by (auto simp: n_def)
  then have d: "sint d = min (60000000000 * 2 ^ n) 3600000000000"
    unfolding d_def by (rule delay_table)
  have "(1::int) \<le> 2 ^ n" by simp
  with d have lo: "60000000000 \<le> sint d" "sint d \<le> 3600000000000" by auto
  have n: "RetryDelay jitter attempt = d + jitter"
    by (simp add: RetryDelay_def d_def n_def Let_def min_def max_def)
  have jit': "sint jitter < 1000000000" using jit by (simp add: duration_units)
  have "sint (RetryDelay jitter attempt) = sint d + sint jitter"
    unfolding n by (rule sint_add_small) (use lo jit jit' in auto)
  moreover have "min (60000000000 * 2 ^ n) 3600000000000 = min (60000000000 * 2 ^ nat (max 0 attempt)) (3600000000000::int)"
  proof (cases "attempt \<le> 30")
    case False
    then have "n = 30" "30 \<le> nat (max 0 attempt)" by (auto simp: n_def)
    moreover have "(2::int) ^ 30 \<le> 2 ^ nat (max 0 attempt)"
      by (rule power_increasing) (use \<open>30 \<le> nat (max 0 attempt)\<close> in auto)
    ultimately show ?thesis by simp
  qed (simp add: n_def)
  ultimately show ?thesis using d lo jit jit' unfolding ideal_delay_def by linarith
qed

text \<open>
  At attempts 28 and 29 the product overflows a 64-bit duration and wraps to a negative delay of
  more than 74 years: the cap does not catch it and the retry is due at once.
\<close>
lemma delay_overflow:
  assumes "0 \<le> sint jitter" "sint jitter < sint second" and "attempt = 28 \<or> attempt = 29"
  shows "sint (RetryDelay jitter attempt) < - (74 * 365 * 24 * sint hour)"
proof -
  define d where "d = retryBaseDelay * push_bit (nat attempt) 1"
  have d: "- (2 ^ 62) - 2 ^ 59 \<le> sint d \<and> sint d < - (74 * 365 * 24 * sint hour) - sint second"
    using assms(3) by (auto simp: d_def retry_consts)
  have neg: "\<not> sint d > sint maxRetryDelay" using d by (simp add: retry_consts)
  have "RetryDelay jitter attempt = d + jitter"
    using assms(3) neg by (auto simp: RetryDelay_def d_def Let_def)
  moreover have "sint (d + jitter) = sint d + sint jitter"
    using d assms(1,2) by (simp add: sint_word_ariths signed_take_bit_int_eq_self duration_units)
  ultimately show ?thesis using d assms(2) by simp
qed

section \<open>Properties\<close>

lemma ideal_documented:
  assumes "0 \<le> jitter" "jitter < 1000000000" "0 \<le> attempt"
  shows "ideal_delay jitter attempt = documented_delay jitter attempt + (if attempt < 6 then 0 else jitter)"
proof (cases "attempt < 6")
  case True
  with assms(3) have "attempt \<in> {0, 1, 2, 3, 4, 5}" by auto
  with assms(1,2) show ?thesis by (auto simp: ideal_delay_def documented_delay_def)
next
  case False
  then have "(2::int) ^ 6 \<le> 2 ^ nat attempt" by (intro power_increasing) auto
  with False assms(1) show ?thesis by (simp add: ideal_delay_def documented_delay_def)
qed

text \<open>
  C22. The retry delay for every attempt number, against the documented formula
  \<^verbatim>\<open>min(1 minute * 2^attempt + jitter, 1 hour)\<close>. Up to attempt 5 (a negative attempt counts as 0) it is the
  documented delay. From attempt 6 on, where the cap applies, the code adds the jitter after the cap, so the
  delay is the documented hour plus the jitter. At attempts 28 and 29 the product overflows a 64-bit
  duration and wraps to a negative delay of more than 74 years: the cap does not catch it and the retry is
  due at once.
\<close>
theorem retry_delay_exact:
  assumes "0 \<le> sint jitter" "sint jitter < sint second"
  shows "if attempt = 28 \<or> attempt = 29 then sint (RetryDelay jitter attempt) < - (74 * 365 * 24 * sint hour)
    else sint (RetryDelay jitter attempt) =
        documented_delay (sint jitter) (max 0 attempt) + (if attempt < 6 then 0 else sint jitter) \<and>
      (6 \<le> attempt \<longrightarrow> sint (RetryDelay jitter attempt) = sint hour + sint jitter) \<and>
      60000000000 \<le> sint (RetryDelay jitter attempt)"
proof (cases "attempt = 28 \<or> attempt = 29")
  case True
  with delay_overflow [OF assms, of attempt] show ?thesis by auto
next
  case False
  have jit: "sint jitter < 1000000000" using assms(2) by (simp add: duration_units)
  have "documented_delay (sint jitter) (max 0 attempt) = sint hour" if "6 \<le> attempt"
  proof -
    have "(2::int) ^ 6 \<le> 2 ^ nat attempt" using that by (intro power_increasing) auto
    with that assms(1) show ?thesis by (simp add: documented_delay_def duration_units max_def)
  qed
  with False delay_ideal [OF assms, of attempt] ideal_documented [OF assms(1) jit, of "max 0 attempt"] show ?thesis
    by auto
qed

theorem retry_delay_exact_witness:
  "sint (RetryDelay 7 3) = 480000000007 \<and> sint (RetryDelay 7 40) = 3600000000007 \<and> sint (RetryDelay 0 28) < 0"
  using retry_delay_exact [of 7 3] retry_delay_exact [of 7 40] retry_delay_exact [of 0 28]
  by (simp add: documented_delay_def duration_units)

end
