(* ===== verification/Handler_Pipeline.thy ===== *)
theory Handler_Pipeline
  imports Job_Domain
begin

text \<open>
  Running a handler: \<^verbatim>\<open>internal/handler\<close> (the registry of external commands, the subprocess
  runner, the two built-in runners) and \<^verbatim>\<open>internal/middleware\<close> (the middleware chain, the panic
  barrier, the attempt counter). A Go function of type \<^verbatim>\<open>([]byte, error)\<close> returns both components,
  or panics: \<open>ret\<close>. A child process is a parameter: \<open>proc path stdin\<close> is what happens to the command
  started with that input, as far as the runner observes it.
\<close>

section \<open>Handlers\<close>

datatype ret = Ret bytes "error option" | Panics string

definition MaxResultBytes :: nat where "MaxResultBytes = 65536"

type_synonym runner = "ctx \<Rightarrow> job \<Rightarrow> ret"

type_synonym registry = "string \<rightharpoonup> string"

text \<open>\<^verbatim>\<open>make\<close> and the copying loop: the keys come in the order \<open>order\<close>.\<close>

definition NewRegistry :: "string list \<Rightarrow> (string \<rightharpoonup> string) \<Rightarrow> registry" where
  "NewRegistry order entries =
     foldl (\<lambda>cmds k. cmds(k := entries k)) Map.empty (range_keys entries order)"

text \<open>
  What happens to the child process. It does not start (\<^verbatim>\<open>cmd.Start\<close> also fails when the context is
  already done). Or the \<^verbatim>\<open>select\<close> sees the end of the context first: then \<^verbatim>\<open>exec.CommandContext\<close>, whose own
  goroutine watches the context, kills the process at once, before or after the runner's SIGTERM (\<open>early\<close>),
  and \<^verbatim>\<open>cmd.Wait()\<close> returns within five seconds of it or not (\<open>in_time\<close>). Or the \<^verbatim>\<open>select\<close> sees the result of
  \<^verbatim>\<open>cmd.Wait()\<close> first, with the output, the error output and the error of the process, which the watching
  goroutine may have killed (\<open>killed\<close>).
\<close>

datatype proc_event =
    StartFails error
  | CtxFirst error bool bool
  | Finished string string "error option" bool

datatype signal_sent = SIGTERM | SIGKILL

definition trimResult :: "bytes \<Rightarrow> bytes" where
  "trimResult b = (if blen b \<le> MaxResultBytes then b else btake MaxResultBytes b)"

definition runSubprocess ::
  "(string \<Rightarrow> bytes \<Rightarrow> proc_event) \<Rightarrow> string \<Rightarrow> bytes \<Rightarrow> signal_sent list \<times> ret" where
  "runSubprocess proc cmdPath args =
     (case proc cmdPath args of
        StartFails e \<Rightarrow> ([], Ret None (Some (ErrWrap ''start handler'' e)))
      | CtxFirst e early in_time \<Rightarrow>
          ((if early then [SIGKILL, SIGTERM] else [SIGTERM, SIGKILL]) @ (if in_time then [] else [SIGKILL]),
           Ret None (Some e))
      | Finished stdout stderr err killed \<Rightarrow>
          let sent = (if killed then [SIGKILL] else []);
              out = trimResult (append_nil (Some stdout))
          in (case err of
                Some e \<Rightarrow>
                  let msg = TrimSpace stderr in
                  if msg \<noteq> '''' then (sent, Ret out (Some (ErrNote e msg))) else (sent, Ret out (Some e))
              | None \<Rightarrow> (sent, Ret out None)))"

definition Registry_Run :: "(string \<Rightarrow> bytes \<Rightarrow> proc_event) \<Rightarrow> registry \<Rightarrow> runner" where
  "Registry_Run proc r c job =
     (case r (j_Name job) of
        None \<Rightarrow> Ret None (Some (ErrMsg (''unknown handler: '' @ j_Name job)))
      | Some cmdPath \<Rightarrow> snd (runSubprocess proc cmdPath (j_Args job)))"

definition NopRunner :: runner where
  "NopRunner c job = Ret None None"

definition EchoRunner :: runner where
  "EchoRunner c job =
     (if j_Args job = None then Ret (Some ''{}'') None else Ret (trimResult (j_Args job)) None)"

section \<open>Middleware\<close>

record jobContext =
  jc_Context :: ctx
  jc_Job :: job
  jc_Attempt :: int
  jc_StartedAt :: time
  jc_Items :: "string \<rightharpoonup> string"

definition NewJobContext :: "env \<Rightarrow> ctx \<Rightarrow> job \<Rightarrow> int \<Rightarrow> jobContext" where
  "NewJobContext e c job attempt = \<lparr>jc_Context = c, jc_Job = job, jc_Attempt = attempt,
     jc_StartedAt = now_at e 0, jc_Items = Map.empty\<rparr>"

type_synonym handlerFunc = "jobContext \<Rightarrow> ret"
type_synonym middlewareFunc = "jobContext \<Rightarrow> handlerFunc \<Rightarrow> handlerFunc"

record pipeline =
  p_middlewares :: "middlewareFunc list"
  p_runner :: runner

definition NewPipeline :: "runner \<Rightarrow> middlewareFunc list \<Rightarrow> pipeline" where
  "NewPipeline r ms = \<lparr>p_middlewares = ms, p_runner = r\<rparr>"

text \<open>The loop of \<open>Execute\<close>: index \<open>i\<close> runs from the last middleware down to the first.\<close>

fun wrap_from :: "middlewareFunc list \<Rightarrow> nat \<Rightarrow> handlerFunc \<Rightarrow> handlerFunc" where
  "wrap_from ms 0 h = h"
| "wrap_from ms (Suc i) h = wrap_from ms i (\<lambda>c. (ms ! i) c h c)"

definition Execute :: "pipeline \<Rightarrow> jobContext \<Rightarrow> ret" where
  "Execute p c =
     wrap_from (p_middlewares p) (length (p_middlewares p))
       (\<lambda>c. p_runner p (jc_Context c) (jc_Job c)) c"

definition PanicRecovery :: middlewareFunc where
  "PanicRecovery ctx next c =
     (case next c of
        Panics r \<Rightarrow> Ret None (Some (ErrMsg (''panic: '' @ r)))
      | Ret result err \<Rightarrow> Ret result err)"

definition AttemptCount :: "jobState list \<Rightarrow> int" where
  "AttemptCount states = foldl (\<lambda>n st. if js_Name st = StateFailed then n + 1 else n) 0 states"

section \<open>Lemmas\<close>

lemma wrap_from_fold:
  "wrap_from ms i h = foldr (\<lambda>m next c. m c next c) (take i ms) h" if "i \<le> length ms"
  using that by (induction i arbitrary: h) (simp_all add: take_Suc_conv_app_nth)

lemma Execute_foldr:
  "Execute (NewPipeline r ms) c =
     foldr (\<lambda>m next c. m c next c) ms (\<lambda>c. r (jc_Context c) (jc_Job c)) c"
  by (simp only: Execute_def NewPipeline_def wrap_from_fold pipeline.select_convs order_refl take_all)

lemma AttemptCount_fold:
  "foldl (\<lambda>n st. if js_Name st = StateFailed then n + 1 else n) n states =
   n + int (length (filter (\<lambda>st. js_Name st = StateFailed) states))"
  by (induction states arbitrary: n) auto

lemma AttemptCount_filter:
  "AttemptCount states = int (length (filter (\<lambda>st. js_Name st = StateFailed) states))"
  using AttemptCount_fold [of 0] by (simp add: AttemptCount_def)

lemma AttemptCount_append:
  "AttemptCount (h @ [st]) = AttemptCount h + (if js_Name st = StateFailed then 1 else 0)"
  by (simp add: AttemptCount_filter)

lemma AttemptCount_names:
  "AttemptCount (h @ sts) = AttemptCount h + int (count_list (map js_Name sts) StateFailed)"
proof -
  have "length (filter (\<lambda>st. js_Name st = StateFailed) sts) = count_list (map js_Name sts) StateFailed" for sts
    by (induction sts) auto
  then show ?thesis by (simp add: AttemptCount_filter)
qed

lemma AttemptCount_nonneg [simp]: "0 \<le> AttemptCount h"
  by (simp add: AttemptCount_filter)

lemma AttemptCount_single [simp]: "AttemptCount [st] = (if js_Name st = StateFailed then 1 else 0)"
  by (simp add: AttemptCount_def)

lemma blen_None [simp]: "blen None = 0"
  by (simp add: blen_def)


section \<open>Properties\<close>

text \<open>
  C30. Middleware runs outermost first around the handler: the loop of Execute builds the nested
  composition in which the first middleware sees the call first and the runner is innermost. With the
  panic barrier in front, as the engine builds its pipeline, no panic of the handler or of any inner
  middleware escapes: it becomes an error with the panic's text and no result, and every ordinary
  return passes through unchanged.
\<close>
theorem pipeline_semantics:
  "Execute (NewPipeline r ms) c =
     foldr (\<lambda>m next c. m c next c) ms (\<lambda>c. r (jc_Context c) (jc_Job c)) c \<and>
   Execute (NewPipeline r (PanicRecovery # ms)) c =
     (case Execute (NewPipeline r ms) c of
        Panics t \<Rightarrow> Ret None (Some (ErrMsg (''panic: '' @ t)))
      | Ret out err \<Rightarrow> Ret out err)"
  by (simp only: Execute_foldr foldr_Cons o_apply PanicRecovery_def)



end
