(* ===== verification/Storage_Interface.thy ===== *)
theory Storage_Interface
  imports Job_Domain
begin

text \<open>
  The Go interface \<^verbatim>\<open>storage.Storage\<close> (\<^verbatim>\<open>internal/storage/storage.go\<close>) as a record of
  operations over an abstract store \<open>'s\<close>: the engine and the API call a store only through this
  record, as the Go code calls it only through the interface. The locale \<open>storage_contract\<close> states
  what the callers rely on (the comments of the interface), in terms of three observations of a
  store: the state history of a job, its record, and the set of ids waiting in a queue.

  \<^verbatim>\<open>Dequeue\<close> blocks. Its model takes the list of what happens while it is blocked: at each
  step the other goroutines transform the store, then one case of the \<^verbatim>\<open>select\<close> fires. It returns
  \<open>None\<close> when the list ends and the call is still waiting.
\<close>

datatype wake = WCtxDone error | WDeadline | WSignal | WTick

type_synonym 's waits = "(('s \<Rightarrow> 's) \<times> wake) list"

record lock =
  lk_resource :: string
  lk_ownerID :: string
  lk_expiresAt :: time
  lk_released :: bool

record 's storage_ops =
  op_Enqueue :: "env \<Rightarrow> ctx \<Rightarrow> string \<Rightarrow> job \<Rightarrow> 's \<Rightarrow> 's \<times> string result"
  op_Dequeue :: "env \<Rightarrow> ctx \<Rightarrow> string list \<Rightarrow> 's waits \<Rightarrow> 's \<Rightarrow> ('s \<times> jobTicket result) option"
  op_Requeue :: "env \<Rightarrow> ctx \<Rightarrow> string \<Rightarrow> string \<Rightarrow> 's \<Rightarrow> 's \<times> unit result"
  op_ApplyState :: "env \<Rightarrow> ctx \<Rightarrow> string \<Rightarrow> string \<Rightarrow> jobState \<Rightarrow> 's \<Rightarrow> 's \<times> unit result"
  op_HeartbeatJob :: "env \<Rightarrow> ctx \<Rightarrow> string \<Rightarrow> 's \<Rightarrow> 's \<times> unit result"
  op_GetOrphanedJobs :: "env \<Rightarrow> ctx \<Rightarrow> duration \<Rightarrow> 's \<Rightarrow> jobTicket list result"
  op_GetJob :: "ctx \<Rightarrow> string \<Rightarrow> 's \<Rightarrow> jobWithStates result"
  op_GetJobsByState ::
    "env \<Rightarrow> ctx \<Rightarrow> string \<Rightarrow> int \<Rightarrow> int \<Rightarrow> 's \<Rightarrow> jobWithStates list result"
  op_GetQueueLength :: "ctx \<Rightarrow> string \<Rightarrow> 's \<Rightarrow> int64 result"
  op_GetQueues :: "env \<Rightarrow> ctx \<Rightarrow> 's \<Rightarrow> string list result"
  op_RegisterServer :: "env \<Rightarrow> ctx \<Rightarrow> serverInfo \<Rightarrow> duration \<Rightarrow> 's \<Rightarrow> 's \<times> unit result"
  op_UnregisterServer :: "ctx \<Rightarrow> string \<Rightarrow> 's \<Rightarrow> 's \<times> unit result"
  op_Heartbeat :: "env \<Rightarrow> ctx \<Rightarrow> string \<Rightarrow> duration \<Rightarrow> 's \<Rightarrow> 's \<times> unit result"
  op_GetServers :: "env \<Rightarrow> ctx \<Rightarrow> 's \<Rightarrow> serverInfo list result"
  op_AddScheduled :: "env \<Rightarrow> ctx \<Rightarrow> time \<Rightarrow> job \<Rightarrow> 's \<Rightarrow> 's \<times> string result"
  op_GetDueScheduled :: "env \<Rightarrow> ctx \<Rightarrow> time \<Rightarrow> int \<Rightarrow> 's \<Rightarrow> 's \<times> jobTicket list result"
  op_RemoveScheduled :: "ctx \<Rightarrow> string \<Rightarrow> 's \<Rightarrow> 's \<times> unit result"
  op_UpsertRecurring :: "env \<Rightarrow> ctx \<Rightarrow> recurringJobEntry \<Rightarrow> 's \<Rightarrow> 's \<times> unit result"
  op_RemoveRecurring :: "ctx \<Rightarrow> string \<Rightarrow> 's \<Rightarrow> 's \<times> unit result"
  op_GetRecurringJobs :: "env \<Rightarrow> ctx \<Rightarrow> 's \<Rightarrow> recurringJobEntry list result"
  op_UpdateRecurringLastRun ::
    "env \<Rightarrow> ctx \<Rightarrow> string \<Rightarrow> time \<Rightarrow> time \<Rightarrow> 's \<Rightarrow> 's \<times> unit result"
  op_AddContinuation :: "env \<Rightarrow> ctx \<Rightarrow> string \<Rightarrow> continuationEntry \<Rightarrow> 's \<Rightarrow> 's \<times> unit result"
  op_GetContinuations :: "ctx \<Rightarrow> string \<Rightarrow> 's \<Rightarrow> continuationEntry list result"
  op_RemoveContinuations :: "ctx \<Rightarrow> string \<Rightarrow> 's \<Rightarrow> 's \<times> unit result"
  op_IncrementCounter :: "ctx \<Rightarrow> string \<Rightarrow> int64 \<Rightarrow> 's \<Rightarrow> 's \<times> unit result"
  op_GetCounter :: "ctx \<Rightarrow> string \<Rightarrow> 's \<Rightarrow> int64 result"
  op_GetAllCounters :: "env \<Rightarrow> ctx \<Rightarrow> int \<Rightarrow> int \<Rightarrow> 's \<Rightarrow> (string \<times> int64) list result"
  op_AcquireLock :: "env \<Rightarrow> ctx \<Rightarrow> string \<Rightarrow> duration \<Rightarrow> 's \<Rightarrow> 's \<times> lock result"
  op_Release :: "ctx \<Rightarrow> lock \<Rightarrow> 's \<Rightarrow> 's \<times> lock \<times> unit result"
  op_RemoveExpired :: "env \<Rightarrow> ctx \<Rightarrow> time \<Rightarrow> 's \<Rightarrow> 's \<times> int64 result"
  op_ScheduleRetry :: "env \<Rightarrow> ctx \<Rightarrow> string \<Rightarrow> time \<Rightarrow> 's \<Rightarrow> 's \<times> unit result"
  op_SetJobResult :: "ctx \<Rightarrow> string \<Rightarrow> bytes \<Rightarrow> 's \<Rightarrow> 's \<times> unit result"
  op_DeleteJob :: "env \<Rightarrow> ctx \<Rightarrow> string \<Rightarrow> 's \<Rightarrow> 's \<times> unit result"
  op_EnqueueIdempotent ::
    "env \<Rightarrow> ctx \<Rightarrow> string \<Rightarrow> job \<Rightarrow> 's \<Rightarrow> 's \<times> (string \<times> bool) result"
  op_Close :: "'s \<Rightarrow> 's \<times> unit result"

text \<open>
  The contract. \<open>hist s id\<close> is the state history of job \<open>id\<close>, \<open>job_of s id\<close> its record and
  \<open>queued s q\<close> the ids waiting in queue \<open>q\<close>. The laws are about a live context (\<open>None\<close>): a store
  reached over a network may refuse a call whose context is done. They are about ids of the form the
  system creates (\<open>ok_id\<close>) and calls whose environment the store can handle (\<open>ok_env\<close>): a store that
  encodes keys and instants as text has such limits. State names are plain text, and a retry limit is
  a 64-bit integer.
\<close>

locale storage_contract =
  fixes ops :: "'s storage_ops"
    and ok_id :: "string \<Rightarrow> bool"
    and ok_env :: "env \<Rightarrow> bool"
    and inv :: "'s \<Rightarrow> bool"
    and hist :: "'s \<Rightarrow> string \<Rightarrow> jobState list option"
    and job_of :: "'s \<Rightarrow> string \<Rightarrow> job option"
    and queued :: "'s \<Rightarrow> string \<Rightarrow> string set"
  assumes hist_job: "inv s \<Longrightarrow> (hist s i = None) = (job_of s i = None)"
    and hist_nonempty: "inv s \<Longrightarrow> hist s i = Some h \<Longrightarrow> h \<noteq> []"
    and job_id: "inv s \<Longrightarrow> job_of s i = Some j \<Longrightarrow> j_ID j = i"
    and apply_missing: "inv s \<Longrightarrow> ok_id i \<Longrightarrow> hist s i = None \<Longrightarrow> ok_env e \<Longrightarrow> js_CreatedAt st = 0 \<Longrightarrow>
      op_ApplyState ops e None i cur st s = (s, Err ErrNotFound)"
    and apply_conflict: "inv s \<Longrightarrow> hist s i = Some h \<Longrightarrow> current_of h \<noteq> cur \<Longrightarrow> ok_env e \<Longrightarrow> js_CreatedAt st = 0 \<Longrightarrow>
      op_ApplyState ops e None i cur st s = (s, Err ErrStateConflict)"
    and apply_ok: "inv s \<Longrightarrow> hist s i = Some h \<Longrightarrow> current_of h = cur \<Longrightarrow> ok_env e \<Longrightarrow>
      js_CreatedAt st = 0 \<Longrightarrow> ascii (js_Name st) \<Longrightarrow>
      \<exists>s' st'. op_ApplyState ops e None i cur st s = (s', Ok ()) \<and> inv s' \<and>
        hist s' = (hist s)(i \<mapsto> h @ [st']) \<and> js_Name st' = js_Name st \<and>
        (ascii (js_Reason st) \<longrightarrow> js_Reason st' = js_Reason st) \<and>
        job_of s' = job_of s \<and> queued s' = queued s"
    and result_missing: "inv s \<Longrightarrow> ok_id i \<Longrightarrow> job_of s i = None \<Longrightarrow>
      op_SetJobResult ops None i r s = (s, Err ErrNotFound)"
    and result_ok: "inv s \<Longrightarrow> job_of s i = Some j \<Longrightarrow>
      \<exists>s' r'. op_SetJobResult ops None i r s = (s', Ok ()) \<and> inv s' \<and> hist s' = hist s \<and>
        job_of s' = (job_of s)(i \<mapsto> j\<lparr>j_Result := r'\<rparr>) \<and> blen r' \<le> 65536 \<and>
        (blen r \<le> 65536 \<longrightarrow> 0 < blen r \<longrightarrow> r' = r) \<and> queued s' = queued s"
    and retry_missing: "inv s \<Longrightarrow> ok_id i \<Longrightarrow> hist s i = None \<Longrightarrow>
      op_ScheduleRetry ops e None i at s = (s, Err ErrNotFound)"
    and retry_conflict: "inv s \<Longrightarrow> hist s i = Some h \<Longrightarrow> current_of h \<noteq> StateFailed \<Longrightarrow>
      op_ScheduleRetry ops e None i at s = (s, Err ErrStateConflict)"
    and retry_ok: "inv s \<Longrightarrow> hist s i = Some h \<Longrightarrow> current_of h = StateFailed \<Longrightarrow> ok_env e \<Longrightarrow>
      \<exists>s' st'. op_ScheduleRetry ops e None i at s = (s', Ok ()) \<and> inv s' \<and>
        hist s' = (hist s)(i \<mapsto> h @ [st']) \<and> js_Name st' = StateScheduled \<and>
        job_of s' = job_of s \<and> queued s' = queued s"
    and get_missing: "inv s \<Longrightarrow> ok_id i \<Longrightarrow> job_of s i = None \<Longrightarrow> op_GetJob ops None i s = Err ErrNotFound"
    and get_ok: "inv s \<Longrightarrow> job_of s i = Some j \<Longrightarrow> hist s i = Some h \<Longrightarrow>
      op_GetJob ops None i s = Ok \<lparr>jw_Job = j, jw_States = h\<rparr>"
    and requeue_missing: "inv s \<Longrightarrow> ok_id i \<Longrightarrow> hist s i = None \<Longrightarrow>
      op_Requeue ops e None i why s = (s, Err ErrNotFound)"
    and requeue_terminal: "inv s \<Longrightarrow> hist s i = Some h \<Longrightarrow> IrreversibleStates (current_of h) \<Longrightarrow>
      op_Requeue ops e None i why s = (s, Err ErrTerminalState)"
    and requeue_ok: "inv s \<Longrightarrow> hist s i = Some h \<Longrightarrow> job_of s i = Some j \<Longrightarrow>
      \<not> IrreversibleStates (current_of h) \<Longrightarrow> ok_env e \<Longrightarrow> ascii why \<Longrightarrow>
      \<exists>s' st'. op_Requeue ops e None i why s = (s', Ok ()) \<and> inv s' \<and>
        hist s' = (hist s)(i \<mapsto> h @ [st']) \<and> js_Name st' = StateEnqueued \<and>
        js_Reason st' = why \<and> job_of s' = job_of s \<and>
        queued s' = (queued s)(j_Queue j := insert i (queued s (j_Queue j)))"
    and enqueue_ok: "inv s \<Longrightarrow> j_ID j = '''' \<Longrightarrow> q \<noteq> '''' \<Longrightarrow> j_Queue j = q \<Longrightarrow>
      new_uuid e 0 = u \<Longrightarrow> u \<noteq> '''' \<Longrightarrow> ok_id u \<Longrightarrow> hist s u = None \<Longrightarrow> ok_env e \<Longrightarrow>
      - (2 ^ 63) \<le> j_RetryMax j \<Longrightarrow> j_RetryMax j < 2 ^ 63 \<Longrightarrow>
      \<exists>s' st' j'. op_Enqueue ops e None q j s = (s', Ok u) \<and> inv s' \<and>
        hist s' = (hist s)(u \<mapsto> [st']) \<and> js_Name st' = StateEnqueued \<and>
        job_of s' = (job_of s)(u \<mapsto> j') \<and> j_ID j' = u \<and> j_Name j' = j_Name j \<and>
        (0 < blen (j_Args j) \<longrightarrow> j_Args j' = j_Args j) \<and> j_Queue j' = q \<and>
        j_RetryMax j' = (if j_RetryMax j = 0 then 10 else j_RetryMax j) \<and>
        queued s' = (queued s)(q := insert u (queued s q))"
begin

text \<open>
  Two workers that read the same current state cannot both move the job: the compare-and-append of
  \<open>ApplyState\<close> lets one of two competing transitions through.
\<close>

lemma apply_race:
  assumes inv: "inv s" and h: "hist s i = Some h" "current_of h = cur" and ne: "js_Name st \<noteq> cur"
    and e: "ok_env e" "ok_env e'" and st: "js_CreatedAt st = 0" "js_CreatedAt st2 = 0" "ascii (js_Name st)"
  shows "\<exists>s'. op_ApplyState ops e None i cur st s = (s', Ok ()) \<and>
    op_ApplyState ops e' None i cur st2 s' = (s', Err ErrStateConflict)"
proof -
  from apply_ok [OF inv h e(1) st(1,3)] obtain s' st' where s': "op_ApplyState ops e None i cur st s = (s', Ok ())"
    "inv s'" "hist s' = (hist s)(i \<mapsto> h @ [st'])" "js_Name st' = js_Name st"
    by metis
  have "op_ApplyState ops e' None i cur st2 s' = (s', Err ErrStateConflict)"
    by (rule apply_conflict [where h = "h @ [st']"]) (use s' ne e st in auto)
  with s' show ?thesis by blast
qed

end

end
