(* ===== verification/Continuations.thy ===== *)
theory Continuations
  imports Storage_Interface "HOL-Library.AList"
begin

text \<open>
  Continuations (\<^verbatim>\<open>internal/engine/continuations.go\<close>): when a job reaches a terminal state, its
  registered children whose condition matches are enqueued, with the parent's result merged into
  their arguments. The byte level of \<^verbatim>\<open>encoding/json\<close> is the record \<open>json_codec\<close>: \<open>cd_Unmarshal\<close>
  gives the value a text decodes to (\<open>None\<close> for a syntax error) and \<open>cd_Marshal\<close> its encoding.
\<close>

section \<open>Definitions\<close>

datatype json =
    JNull
  | JBool bool
  | JNum string
  | JStr string
  | JArr "json list"
  | JObj "(string \<times> json) list"

record json_codec =
  cd_Unmarshal :: "string \<Rightarrow> json option"
  cd_Marshal :: "json \<Rightarrow> string option"

definition raw :: "bytes \<Rightarrow> string" where
  "raw b = (case b of None \<Rightarrow> [] | Some xs \<Rightarrow> xs)"

definition continuationMatches :: "string \<Rightarrow> string \<Rightarrow> bool" where
  "continuationMatches terminalState condition =
     (if condition = ConditionOnSucceeded then terminalState = StateSucceeded
      else if condition = ConditionOnFailed then
        terminalState = StateFailed \<or> terminalState = StateDead
      else if condition = ConditionOnAny then True
      else False)"

text \<open>Decoding into a \<^verbatim>\<open>map[string]any\<close> leaves the map nil unless the text is an object.\<close>

definition mergeContinuationArgs :: "json_codec \<Rightarrow> bytes \<Rightarrow> bytes \<Rightarrow> bytes" where
  "mergeContinuationArgs cd parentResult childArgs =
     (if blen parentResult = 0 then append_nil childArgs
      else
        let base = (if blen childArgs > 0 then
                      (case cd_Unmarshal cd (raw childArgs) of Some (JObj kvs) \<Rightarrow> kvs | _ \<Rightarrow> [])
                    else []);
            base = (case cd_Unmarshal cd (raw parentResult) of
                      Some pr \<Rightarrow> AList.update ''_parent_result'' pr base
                    | None \<Rightarrow> base)
        in case cd_Marshal cd (JObj base) of
             None \<Rightarrow> append_nil childArgs
           | Some out \<Rightarrow> Some out)"

definition child_queue :: "continuationEntry \<Rightarrow> string" where
  "child_queue entry = (if c_ChildQueue entry = '''' then ''default'' else c_ChildQueue entry)"

fun fire_entries ::
  "'s storage_ops \<Rightarrow> json_codec \<Rightarrow> world \<Rightarrow> ctx \<Rightarrow> string \<Rightarrow> bytes \<Rightarrow> nat \<Rightarrow> continuationEntry list
     \<Rightarrow> 's \<Rightarrow> 's" where
  "fire_entries ops cd w c terminalState result n [] s = s"
| "fire_entries ops cd w c terminalState result n (entry # entries) s =
     (if \<not> continuationMatches terminalState (c_Condition entry)
      then fire_entries ops cd w c terminalState result n entries s
      else
        let args = mergeContinuationArgs cd result (c_ChildArgs entry);
            queue = child_queue entry;
            child = new_job (c_ChildName entry) args queue;
            (s, _) = op_Enqueue ops (w n) c queue child s
        in fire_entries ops cd w c terminalState result (Suc n) entries s)"

definition fireContinuations ::
  "'s storage_ops \<Rightarrow> json_codec \<Rightarrow> world \<Rightarrow> ctx \<Rightarrow> string \<Rightarrow> string \<Rightarrow> 's \<Rightarrow> 's" where
  "fireContinuations ops cd w c parentID terminalState s =
     (case op_GetContinuations ops c parentID s of
        Ok entries \<Rightarrow>
          if entries = [] then s
          else (case op_GetJob ops c parentID s of
                  Ok parent \<Rightarrow>
                    fire_entries ops cd w c terminalState (j_Result (jw_Job parent)) 0 entries s
                | _ \<Rightarrow> s)
      | _ \<Rightarrow> s)"

section \<open>Lemmas\<close>

text \<open>The children a terminal state releases, in the order of registration.\<close>

definition matching_children :: "string \<Rightarrow> continuationEntry list \<Rightarrow> continuationEntry list" where
  "matching_children terminalState = filter (\<lambda>en. continuationMatches terminalState (c_Condition en))"

text \<open>The ids the loop hands out, starting at call \<open>n\<close>, are usable: non-empty, unused, all different.\<close>

fun fresh_ids :: "world \<Rightarrow> nat \<Rightarrow> nat \<Rightarrow> (string \<Rightarrow> bool) \<Rightarrow> bool" where
  "fresh_ids w n 0 used = True"
| "fresh_ids w n (Suc m) used =
     (new_uuid (w n) 0 \<noteq> '''' \<and> \<not> used (new_uuid (w n) 0) \<and>
      fresh_ids w (Suc n) m (\<lambda>i. used i \<or> i = new_uuid (w n) 0))"

text \<open>The child that entry \<open>en\<close> of the parent's list asks for has been created as job \<open>u\<close>.\<close>

definition child_created ::
  "json_codec \<Rightarrow> bytes \<Rightarrow> continuationEntry \<Rightarrow> jobState list option \<Rightarrow> job option \<Rightarrow> bool" where
  "child_created cd result en h j \<longleftrightarrow>
     (case (h, j) of
        (Some [st], Some job) \<Rightarrow>
          js_Name st = StateEnqueued \<and> j_Name job = c_ChildName en \<and> j_Queue job = child_queue en \<and>
          (let args = mergeContinuationArgs cd result (c_ChildArgs en) in
           0 < blen args \<longrightarrow> j_Args job = args)
      | _ \<Rightarrow> False)"

lemma matching_children_simps [simp]:
  "matching_children t [] = []"
  "matching_children t (en # es) =
     (if continuationMatches t (c_Condition en) then en # matching_children t es else matching_children t es)"
  by (simp_all add: matching_children_def)

lemma child_queue_nonempty [simp]: "child_queue en \<noteq> ''''"
  by (simp add: child_queue_def)

context storage_contract
begin

lemma fire_entries_spec:
  assumes "inv s" "fresh_ids w n (length (matching_children t es)) (\<lambda>i. hist s i \<noteq> None \<or> \<not> ok_id i)"
    and env: "\<And>k. ok_env (w k)"
  shows "inv (fire_entries ops cd w None t result n es s) \<and>
    (\<forall>i. hist s i \<noteq> None \<longrightarrow> hist (fire_entries ops cd w None t result n es s) i = hist s i \<and>
       job_of (fire_entries ops cd w None t result n es s) i = job_of s i) \<and>
    (\<forall>q. queued s q \<subseteq> queued (fire_entries ops cd w None t result n es s) q) \<and>
    dom (hist (fire_entries ops cd w None t result n es s)) =
      dom (hist s) \<union> (\<lambda>k. new_uuid (w (n + k)) 0) ` {..<length (matching_children t es)} \<and>
    (\<forall>k < length (matching_children t es).
       child_created cd result (matching_children t es ! k)
         (hist (fire_entries ops cd w None t result n es s) (new_uuid (w (n + k)) 0))
         (job_of (fire_entries ops cd w None t result n es s) (new_uuid (w (n + k)) 0)) \<and>
       new_uuid (w (n + k)) 0 \<in>
         queued (fire_entries ops cd w None t result n es s) (child_queue (matching_children t es ! k)))"
  using assms(1,2)
proof (induction es arbitrary: n s)
  case Nil
  then show ?case by simp
next
  case (Cons en es)
  show ?case
  proof (cases "continuationMatches t (c_Condition en)")
    case False
    with Cons show ?thesis by simp
  next
    case True
    let ?args = "mergeContinuationArgs cd result (c_ChildArgs en)"
    let ?u = "new_uuid (w n) 0"
    let ?m = "length (matching_children t es)"
    from Cons.prems True have u: "?u \<noteq> ''''" "hist s ?u = None" "ok_id ?u"
      and fresh: "fresh_ids w (Suc n) ?m (\<lambda>i. (hist s i \<noteq> None \<or> \<not> ok_id i) \<or> i = ?u)" by simp_all
    obtain s1 st j where s1: "op_Enqueue ops (w n) None (child_queue en)
          (new_job (c_ChildName en) ?args (child_queue en)) s = (s1, Ok ?u)"
      "inv s1" "hist s1 = (hist s)(?u \<mapsto> [st])" "js_Name st = StateEnqueued"
      "job_of s1 = (job_of s)(?u \<mapsto> j)" "j_Name j = c_ChildName en" "j_Queue j = child_queue en"
      "0 < blen ?args \<longrightarrow> j_Args j = ?args"
      "queued s1 = (queued s)(child_queue en := insert ?u (queued s (child_queue en)))"
      using enqueue_ok [OF Cons.prems(1), of "new_job (c_ChildName en) ?args (child_queue en)"
          "child_queue en" "w n" ?u] u env by auto
    define s2 where "s2 = fire_entries ops cd w None t result (Suc n) es s1"
    have step: "fire_entries ops cd w None t result n (en # es) s = s2"
      using True s1(1) by (simp add: s2_def)
    have "(\<lambda>i. hist s1 i \<noteq> None \<or> \<not> ok_id i) = (\<lambda>i. (hist s i \<noteq> None \<or> \<not> ok_id i) \<or> i = ?u)" using s1(3) by auto
    with fresh have IH: "inv s2 \<and>
      (\<forall>i. hist s1 i \<noteq> None \<longrightarrow> hist s2 i = hist s1 i \<and> job_of s2 i = job_of s1 i) \<and>
      (\<forall>q. queued s1 q \<subseteq> queued s2 q) \<and>
      dom (hist s2) = dom (hist s1) \<union> (\<lambda>k. new_uuid (w (Suc n + k)) 0) ` {..<?m} \<and>
      (\<forall>k < ?m. child_created cd result (matching_children t es ! k)
         (hist s2 (new_uuid (w (Suc n + k)) 0)) (job_of s2 (new_uuid (w (Suc n + k)) 0)) \<and>
       new_uuid (w (Suc n + k)) 0 \<in> queued s2 (child_queue (matching_children t es ! k)))"
      unfolding s2_def by (intro Cons.IH [OF s1(2)]) simp
    have old: "hist s2 i = hist s i" "job_of s2 i = job_of s i" if "hist s i \<noteq> None" for i
      using IH that s1(3,5) u(2) by (auto split: if_splits)
    have new: "hist s2 ?u = Some [st]" "job_of s2 ?u = Some j" using IH s1(3,5) by auto
    have "queued s1 (child_queue en) \<subseteq> queued s2 (child_queue en)" using IH by blast
    with s1(9) have newq: "?u \<in> queued s2 (child_queue en)" by auto
    have mono: "queued s q \<subseteq> queued s2 q" for q
      using IH s1(9) by (auto split: if_splits)
    have dom2: "dom (hist s2) = dom (hist s) \<union> (\<lambda>k. new_uuid (w (n + k)) 0) ` {..<Suc ?m}"
      using IH s1(3) by (simp add: lessThan_Suc_eq_insert_0 image_image)
    have kids: "child_created cd result ((en # matching_children t es) ! k)
         (hist s2 (new_uuid (w (n + k)) 0)) (job_of s2 (new_uuid (w (n + k)) 0)) \<and>
       new_uuid (w (n + k)) 0 \<in> queued s2 (child_queue ((en # matching_children t es) ! k))"
      if "k < Suc ?m" for k
      using that new newq s1(4,6,7,8) IH by (cases k) (simp_all add: child_created_def Let_def)
    show ?thesis
      unfolding step using IH old mono dom2 kids True by simp
  qed
qed

end

end
