(* ===== verification/Engine_Core.thy ===== *)
theory Engine_Core
  imports Retry_Policy Handler_Pipeline Continuations
begin

text \<open>
  The engine (\<^verbatim>\<open>internal/engine/{config,engine,worker}.go\<close>): configuration and its defaults, start
  and stop, the bookkeeping of in-flight jobs and cancel functions, and the processing of one ticket
  from the lookup of the job to its final state and its continuations.

  The run context is \<open>e_runCtx\<close> (\<open>None\<close> before \<open>Start\<close>). A cancel function is a number: the
  per-job context it cancels; \<open>e_cancelled\<close> collects the contexts whose cancel function was called.
  In \<open>processTicket\<close>, \<open>jc deadline i\<close> is the state of the per-job context with that deadline at its
  \<open>i\<close>-th use, and \<open>others\<close> is what the other goroutines do to engine and store while the handler runs.
\<close>

section \<open>Configuration\<close>

record config =
  cfg_ServerID :: string
  cfg_Workers :: int
  cfg_Queues :: "string list"
  cfg_QueueLimits :: "string \<rightharpoonup> int"
  cfg_DequeueTimeout :: duration
  cfg_DefaultTimeout :: duration
  cfg_ShutdownTimeout :: duration
  cfg_JobHeartbeatInterval :: duration
  cfg_SchedulerInterval :: duration
  cfg_SchedulerBatchSize :: int
  cfg_ServerHeartbeatTTL :: duration
  cfg_ServerHeartbeatEvery :: duration
  cfg_OrphanJobStaleAge :: duration
  cfg_CleanupInterval :: duration
  cfg_JobRetention :: duration

definition DefaultConfig :: "int \<Rightarrow> config" where
  "DefaultConfig numCPU =
     (let workers = numCPU * 2;
          workers = (if workers < 2 then 2 else workers)
      in \<lparr>cfg_ServerID = ''local'', cfg_Workers = workers, cfg_Queues = [''default''],
          cfg_QueueLimits = Map.empty, cfg_DequeueTimeout = 2 * second, cfg_DefaultTimeout = 30 * second,
          cfg_ShutdownTimeout = 30 * second, cfg_JobHeartbeatInterval = 60 * second,
          cfg_SchedulerInterval = second, cfg_SchedulerBatchSize = 100,
          cfg_ServerHeartbeatTTL = 30 * second, cfg_ServerHeartbeatEvery = 0,
          cfg_OrphanJobStaleAge = 0, cfg_CleanupInterval = 0, cfg_JobRetention = 0\<rparr>)"

text \<open>\<^verbatim>\<open>if c.F <= 0 { c.F = d }\<close> for a duration field; the fields are set independently.\<close>

definition or_default :: "duration \<Rightarrow> duration \<Rightarrow> duration" where
  "or_default d v = (if sint v \<le> 0 then d else v)"

definition normalize :: "int \<Rightarrow> config \<Rightarrow> config" where
  "normalize numCPU c = c\<lparr>
     cfg_ServerID := (if cfg_ServerID c = '''' then ''local'' else cfg_ServerID c),
     cfg_Workers := (if cfg_Workers c \<le> 0 then cfg_Workers (DefaultConfig numCPU) else cfg_Workers c),
     cfg_Queues := (if cfg_Queues c = [] then [''default''] else cfg_Queues c),
     cfg_DequeueTimeout := or_default (2 * second) (cfg_DequeueTimeout c),
     cfg_DefaultTimeout := or_default (30 * second) (cfg_DefaultTimeout c),
     cfg_ShutdownTimeout := or_default (30 * second) (cfg_ShutdownTimeout c),
     cfg_JobHeartbeatInterval := or_default (60 * second) (cfg_JobHeartbeatInterval c),
     cfg_SchedulerInterval := or_default second (cfg_SchedulerInterval c),
     cfg_SchedulerBatchSize := (if cfg_SchedulerBatchSize c \<le> 0 then 100 else cfg_SchedulerBatchSize c),
     cfg_ServerHeartbeatTTL := or_default (30 * second) (cfg_ServerHeartbeatTTL c),
     cfg_ServerHeartbeatEvery := or_default (5 * second) (cfg_ServerHeartbeatEvery c),
     cfg_OrphanJobStaleAge := or_default (5 * minute) (cfg_OrphanJobStaleAge c)\<rparr>"

section \<open>The engine's own state\<close>

datatype goroutine = GWorker nat | GScheduler | GCoordinator | GCleanup | GRecurring

record engine =
  e_cfg :: config
  e_pipeline :: pipeline
  e_runCtx :: "ctx option"
  e_goroutines :: "goroutine list"
  e_active :: "string \<rightharpoonup> int"
  e_cancels :: "string \<rightharpoonup> nat"
  e_cancelled :: "nat set"
  e_startOnce :: bool
  e_stopOnce :: bool

definition engine_New :: "int \<Rightarrow> config \<Rightarrow> runner \<Rightarrow> engine" where
  "engine_New numCPU cfg r = \<lparr>e_cfg = normalize numCPU cfg,
     e_pipeline = NewPipeline r [PanicRecovery], e_runCtx = None, e_goroutines = [],
     e_active = Map.empty, e_cancels = Map.empty, e_cancelled = {}, e_startOnce = False,
     e_stopOnce = False\<rparr>"

text \<open>\<open>parent\<close> is the state of the caller's context; \<^verbatim>\<open>context.WithCancel\<close> inherits it.\<close>

definition Start ::
  "'s storage_ops \<Rightarrow> env \<Rightarrow> ctx \<Rightarrow> engine \<Rightarrow> 's \<Rightarrow> (engine \<times> 's) \<times> unit result" where
  "Start ops e parent en s =
     (if e_startOnce en then ((en, s), Ok ())
      else
        let en = en\<lparr>e_startOnce := True, e_runCtx := Some parent\<rparr>;
            cfg = e_cfg en;
            sv = \<lparr>sv_ID = cfg_ServerID cfg, sv_StartedAt = now_at e 5, sv_LastHeartbeat = 0,
                  sv_WorkerCount = cfg_Workers cfg, sv_Queues = cfg_Queues cfg,
                  sv_Status = ServerStatusActive\<rparr>;
            (s, r) = op_RegisterServer ops e parent sv (cfg_ServerHeartbeatTTL cfg) s
        in case r of
             Err err \<Rightarrow>
               ((en\<lparr>e_runCtx := Some (Some CtxCanceled)\<rparr>, s), Err (ErrWrap ''register server'' err))
           | Panic p \<Rightarrow> ((en, s), Panic p)
           | Ok _ \<Rightarrow>
               let gs = map GWorker [0..<nat (cfg_Workers cfg)] @ [GScheduler] @ [GCoordinator] @
                        (if sint (cfg_CleanupInterval cfg) > 0 \<and> sint (cfg_JobRetention cfg) > 0
                         then [GCleanup] else []) @ [GRecurring]
               in ((en\<lparr>e_goroutines := e_goroutines en @ gs\<rparr>, s), Ok ()))"

text \<open>
  \<open>drained\<close> tells whether the goroutines end before the caller's context does, \<open>err\<close> is that
  context's error. Goroutines that have ended are gone.
\<close>

definition Stop ::
  "'s storage_ops \<Rightarrow> bool \<Rightarrow> error \<Rightarrow> engine \<Rightarrow> 's \<Rightarrow> (engine \<times> 's) \<times> unit result" where
  "Stop ops drained err en s =
     (if e_stopOnce en then ((en, s), Ok ())
      else
        let en = en\<lparr>e_stopOnce := True\<rparr>;
            en = (case e_runCtx en of
                    None \<Rightarrow> en
                  | Some c \<Rightarrow> en\<lparr>e_runCtx := Some (if c = None then Some CtxCanceled else c)\<rparr>);
            (en, stopErr) = (if drained then (en\<lparr>e_goroutines := []\<rparr>, Ok ()) else (en, Err err));
            (s, _) = op_UnregisterServer ops None (cfg_ServerID (e_cfg en)) s
        in ((en, s), stopErr))"

definition ErrNotProcessing :: error where
  "ErrNotProcessing = ErrMsg ''job not processing on this engine''"

definition CancelJob :: "string \<Rightarrow> engine \<Rightarrow> engine \<times> unit result" where
  "CancelJob jobID en =
     (case e_cancels en jobID of
        None \<Rightarrow> (en, Err ErrNotProcessing)
      | Some k \<Rightarrow> (en\<lparr>e_cancelled := insert k (e_cancelled en)\<rparr>, Ok ()))"

definition registerCancel :: "string \<Rightarrow> nat \<Rightarrow> engine \<Rightarrow> engine" where
  "registerCancel jobID k en = en\<lparr>e_cancels := (e_cancels en)(jobID \<mapsto> k)\<rparr>"

definition unregisterCancel :: "string \<Rightarrow> engine \<Rightarrow> engine" where
  "unregisterCancel jobID en = en\<lparr>e_cancels := (e_cancels en)(jobID := None)\<rparr>"

definition incActive :: "string \<Rightarrow> engine \<Rightarrow> engine" where
  "incActive queue en =
     en\<lparr>e_active := (e_active en)(queue \<mapsto> int_at (e_active en) queue + 1)\<rparr>"

definition decActive :: "string \<Rightarrow> engine \<Rightarrow> engine" where
  "decActive queue en =
     (if int_at (e_active en) queue > 0
      then en\<lparr>e_active := (e_active en)(queue \<mapsto> int_at (e_active en) queue - 1)\<rparr>
      else en)"

definition ActiveCount :: "string list \<Rightarrow> engine \<Rightarrow> int" where
  "ActiveCount order en =
     foldl (\<lambda>n q. n + int_at (e_active en) q) 0 (range_keys (e_active en) order)"

definition queuesUnderLimit :: "engine \<Rightarrow> string list" where
  "queuesUnderLimit en =
     filter (\<lambda>q. let limit = int_at (cfg_QueueLimits (e_cfg en)) q in
       limit \<le> 0 \<or> int_at (e_active en) q < limit) (cfg_Queues (e_cfg en))"

definition jobTimeout :: "engine \<Rightarrow> job \<Rightarrow> duration" where
  "jobTimeout en job =
     (if sint (j_Timeout job) > 0 then j_Timeout job else cfg_DefaultTimeout (e_cfg en))"

definition isQueueEmpty :: "error \<Rightarrow> bool" where
  "isQueueEmpty err = errors_Is err ErrQueueEmpty"

section \<open>Finishing a job\<close>

definition finalizeSuccess ::
  "'s storage_ops \<Rightarrow> world \<Rightarrow> (nat \<Rightarrow> ctx) \<Rightarrow> string \<Rightarrow> bytes \<Rightarrow> 's \<Rightarrow> 's \<times> string result" where
  "finalizeSuccess ops w c jobID result s =
     and_then (if blen result > 0 then op_SetJobResult ops (c 0) jobID result s else (s, Ok ()))
       (\<lambda>s _.
     and_then (op_ApplyState ops (w 0) (c 1) jobID StateProcessing (new_state StateSucceeded '''' [] 0) s)
       (\<lambda>s _. (s, Ok StateSucceeded)))"

definition finalizeFailure ::
  "'s storage_ops \<Rightarrow> world \<Rightarrow> (nat \<Rightarrow> ctx) \<Rightarrow> int64 \<Rightarrow> job \<Rightarrow> int \<Rightarrow> error \<Rightarrow> 's \<Rightarrow> 's \<times> string result"
where
  "finalizeFailure ops w c jitter job attempt execErr s =
     (let reason = Error execErr in
      if errors_Is execErr CtxCanceled \<or> errors_Is execErr CtxDeadlineExceeded then
        and_then (op_ApplyState ops (w 0) (c 0) (j_ID job) StateProcessing
                    (new_state StateCancelled reason [] 0) s)
          (\<lambda>s _. (s, Ok StateCancelled))
      else
        and_then (op_ApplyState ops (w 0) (c 0) (j_ID job) StateProcessing
                    (new_state StateFailed reason [(''attempt'', show_int (attempt + 1))] 0) s)
          (\<lambda>s _.
        if attempt + 1 \<ge> effectiveRetryMax (j_RetryMax job) then
          and_then (op_ApplyState ops (w 1) (c 1) (j_ID job) StateFailed
                      (new_state StateDead ''retry exhausted'' [] 0) s)
            (\<lambda>s _. (s, Ok StateDead))
        else
          let at = time_add (now_at (w 1) 9) (RetryDelay jitter attempt) in
          and_then (op_ScheduleRetry ops (w 1) (c 1) (j_ID job) at s)
            (\<lambda>s _. (s, Ok ''''))))"

text \<open>The branch of \<open>processTicket\<close> on the handler's outcome.\<close>

definition finish ::
  "'s storage_ops \<Rightarrow> world \<Rightarrow> (nat \<Rightarrow> ctx) \<Rightarrow> int64 \<Rightarrow> job \<Rightarrow> int \<Rightarrow> ret \<Rightarrow> 's \<Rightarrow> 's \<times> string result" where
  "finish ops w c jitter job attempt out s =
     (case out of
        Ret result None \<Rightarrow> finalizeSuccess ops w c (j_ID job) result s
      | Ret _ (Some execErr) \<Rightarrow> finalizeFailure ops w c jitter job attempt execErr s
      | Panics p \<Rightarrow> (s, Panic p))"

definition processTicket ::
  "'s storage_ops \<Rightarrow> json_codec \<Rightarrow> world \<Rightarrow> (time \<Rightarrow> nat \<Rightarrow> ctx) \<Rightarrow> nat \<Rightarrow> int64 \<Rightarrow>
     (engine \<times> 's \<Rightarrow> engine \<times> 's) \<Rightarrow> jobTicket \<Rightarrow> engine \<Rightarrow> 's \<Rightarrow> engine \<times> 's" where
  "processTicket ops cd w jc cancel jitter others ticket en s =
     (case op_GetJob ops None (t_JobID ticket) s of
        Ok jw \<Rightarrow>
          let job = jw_Job jw;
              en = incActive (j_Queue job) en;
              attempt = AttemptCount (jw_States jw);
              timeout = jobTimeout en job;
              jobCtx = jc (time_add (now_at (w 0) 8) timeout);
              en = registerCancel (j_ID job) cancel en;
              mctx = NewJobContext (w 0) (jobCtx 0) job attempt;
              out = Execute (e_pipeline en) mctx;
              (en, s) = others (en, s);
              (s, terminal) = finish ops (later 1 w) (\<lambda>i. jobCtx (i + 1)) jitter job attempt out s;
              s = (case terminal of
                     Ok t \<Rightarrow> if t \<noteq> '''' then fireContinuations ops cd (later 3 w) None (j_ID job) t s else s
                   | _ \<Rightarrow> s);
              en = unregisterCancel (j_ID job) en;
              en = en\<lparr>e_cancelled := insert cancel (e_cancelled en)\<rparr>;
              en = decActive (j_Queue job) en
          in (en, s)
      | _ \<Rightarrow> (en, s))"

text \<open>
  The loop of \<^verbatim>\<open>jobHeartbeat\<close>, over what its \<^verbatim>\<open>select\<close> receives; before each receive the other
  goroutines act on the store. When the list ends the goroutine is still waiting.
\<close>

datatype beat = BeatCtxDone | BeatDone | BeatTick env

fun jobHeartbeat :: "'s storage_ops \<Rightarrow> string \<Rightarrow> (('s \<Rightarrow> 's) \<times> beat) list \<Rightarrow> 's \<Rightarrow> 's" where
  "jobHeartbeat ops jobID [] s = s"
| "jobHeartbeat ops jobID ((others, b) # bs) s =
     (let s = others s in
      case b of
        BeatCtxDone \<Rightarrow> s
      | BeatDone \<Rightarrow> s
      | BeatTick e \<Rightarrow> jobHeartbeat ops jobID bs (fst (op_HeartbeatJob ops e None jobID s)))"

text \<open>
  \<^verbatim>\<open>WaitUntilIdle\<close>, over the engine states it sees and what its \<^verbatim>\<open>select\<close> receives in between
  (the context's error or a tick); \<open>None\<close> while it is still waiting.
\<close>

fun WaitUntilIdle :: "(engine \<times> string list \<times> error option) list \<Rightarrow> unit result option" where
  "WaitUntilIdle [] = None"
| "WaitUntilIdle ((en, order, w) # rest) =
     (if ActiveCount order en = 0 then Some (Ok ())
      else case w of
             Some err \<Rightarrow> Some (Err (ErrWrap ''wait idle'' err))
           | None \<Rightarrow> WaitUntilIdle rest)"

section \<open>What a run of the handler means for the job\<close>

text \<open>The states one processed ticket adds, as a function of the handler's outcome.\<close>

definition is_cancel :: "error \<Rightarrow> bool" where
  "is_cancel err \<longleftrightarrow> errors_Is err CtxCanceled \<or> errors_Is err CtxDeadlineExceeded"

fun verdict :: "ret \<Rightarrow> int \<Rightarrow> int \<Rightarrow> string list" where
  "verdict (Ret _ None) attempt retryMax = [StateSucceeded]"
| "verdict (Ret _ (Some err)) attempt retryMax =
     (if is_cancel err then [StateCancelled]
      else if attempt + 1 \<ge> effectiveRetryMax retryMax then [StateFailed, StateDead]
      else [StateFailed, StateScheduled])"
| "verdict (Panics _) attempt retryMax = []"

definition terminal_of :: "string list \<Rightarrow> string" where
  "terminal_of names = (if last names = StateScheduled then '''' else last names)"

section \<open>Lemmas over the storage contract\<close>

lemma or_default_pos: "0 < sint d \<Longrightarrow> 0 < sint (or_default d v)"
  by (simp add: or_default_def)

lemma or_default_keep: "0 < sint v \<Longrightarrow> or_default d v = v"
  by (simp add: or_default_def)

lemma default_durations_pos:
  "0 < sint (2 * second)" "0 < sint (30 * second)" "0 < sint (60 * second)" "0 < sint second"
  "0 < sint (5 * second)" "0 < sint (5 * minute)"
  by (simp_all add: duration_units)

lemmas normalized_pos = default_durations_pos [THEN or_default_pos]

lemma and_then_keeps:
  assumes "P (fst p)" and "\<And>s a. P s \<Longrightarrow> P (fst (f s a))"
  shows "P (fst (and_then p f))"
proof (cases p)
  case (Pair s r)
  with assms show ?thesis by (cases r) auto
qed

lemma engine_sel [simp]:
  "e_pipeline (incActive q en) = e_pipeline en" "e_pipeline (decActive q en) = e_pipeline en"
  "e_pipeline (registerCancel i k en) = e_pipeline en" "e_pipeline (unregisterCancel i en) = e_pipeline en"
  "e_cfg (incActive q en) = e_cfg en" "e_cfg (decActive q en) = e_cfg en"
  "e_cfg (registerCancel i k en) = e_cfg en" "e_cfg (unregisterCancel i en) = e_cfg en"
  "e_active (registerCancel i k en) = e_active en" "e_active (unregisterCancel i en) = e_active en"
  "e_cancels (incActive q en) = e_cancels en" "e_cancels (decActive q en) = e_cancels en"
  "e_cancels (registerCancel i k en) = (e_cancels en)(i \<mapsto> k)"
  "e_cancels (unregisterCancel i en) = (e_cancels en)(i := None)"
  by (simp_all add: incActive_def decActive_def registerCancel_def unregisterCancel_def)

lemma jobTimeout_incActive [simp]: "jobTimeout (incActive q en) j = jobTimeout en j"
  by (simp add: jobTimeout_def)

lemma int_at_incActive: "int_at (e_active (incActive q en)) p = int_at (e_active en) p + (if p = q then 1 else 0)"
  by (simp add: incActive_def)

lemma int_at_decActive:
  "int_at (e_active (decActive q en)) p =
     (if p = q then (if int_at (e_active en) q > 0 then int_at (e_active en) q - 1 else int_at (e_active en) q)
      else int_at (e_active en) p)"
  by (simp add: decActive_def)

context storage_contract
begin

lemma store_result:
  assumes "inv s" "job_of s i = Some j"
  obtains s1 r' where
    "(if blen result > 0 then op_SetJobResult ops None i result s else (s, Ok ())) = (s1, Ok ())"
    "inv s1" "hist s1 = hist s" "job_of s1 = (job_of s)(i \<mapsto> j\<lparr>j_Result := r'\<rparr>)"
    "queued s1 = queued s" "0 < blen result \<Longrightarrow> blen result \<le> 65536 \<Longrightarrow> r' = result"
    "blen result = 0 \<Longrightarrow> r' = j_Result j"
proof (cases "blen result > 0")
  case True
  with result_ok [OF assms, of result] that show ?thesis by auto
next
  case False
  with assms that [of s "j_Result j"] show ?thesis by (simp add: fun_upd_idem)
qed

lemma failed_next:
  assumes inv: "inv s" and h: "hist s i = Some h" "current_of h = StateFailed" and e: "ok_env e"
  shows "\<exists>s' st'. (if P then op_ApplyState ops e None i StateFailed (new_state StateDead ''retry exhausted'' [] 0) s
      else op_ScheduleRetry ops e None i at s) = (s', Ok ()) \<and> inv s' \<and>
    hist s' = (hist s)(i \<mapsto> h @ [st']) \<and> js_Name st' = (if P then StateDead else StateScheduled) \<and>
    job_of s' = job_of s \<and> queued s' = queued s"
  using apply_ok [OF inv h e, of "new_state StateDead ''retry exhausted'' [] 0"] retry_ok [OF inv h e, of at]
  by (cases P) auto

lemma finish_spec:
  assumes inv: "inv s" and j: "job_of s i = Some j" and h: "hist s i = Some h" "current_of h = StateProcessing"
    and c: "c 0 = None" "c 1 = None" and out: "out = Ret result err" and id: "j_ID job = i"
    and e: "ok_env (w 0)" "ok_env (w 1)"
  shows "\<exists>s' sts r'. finish ops w c jitter job attempt out s =
      (s', Ok (terminal_of (verdict out attempt (j_RetryMax job)))) \<and> inv s' \<and>
    hist s' = (hist s)(i \<mapsto> h @ sts) \<and> map js_Name sts = verdict out attempt (j_RetryMax job) \<and>
    job_of s' = (job_of s)(i \<mapsto> j\<lparr>j_Result := r'\<rparr>) \<and> queued s' = queued s \<and>
    (err = None \<and> 0 < blen result \<and> blen result \<le> 65536 \<longrightarrow> r' = result)"
proof (cases err)
  case None
  obtain s1 r' where s1:
    "(if blen result > 0 then op_SetJobResult ops None i result s else (s, Ok ())) = (s1, Ok ())"
    "inv s1" "hist s1 = hist s" "job_of s1 = (job_of s)(i \<mapsto> j\<lparr>j_Result := r'\<rparr>)"
    "queued s1 = queued s" "0 < blen result \<Longrightarrow> blen result \<le> 65536 \<Longrightarrow> r' = result"
    using store_result [OF inv j, of result] by metis
  have h1: "hist s1 i = Some h" using s1(3) h by simp
  from apply_ok [OF s1(2) h1 h(2) e(1), of "new_state StateSucceeded '''' [] 0"]
  obtain s' st where s': "op_ApplyState ops (w 0) None i StateProcessing (new_state StateSucceeded '''' [] 0) s1 = (s', Ok ())"
    "inv s'" "hist s' = (hist s1)(i \<mapsto> h @ [st])" "js_Name st = StateSucceeded"
    "job_of s' = job_of s1" "queued s' = queued s1" by auto
  have "finish ops w c jitter job attempt out s = (s', Ok StateSucceeded)"
    using None out id c s1(1) s'(1) by (auto simp: finish_def finalizeSuccess_def split: if_splits)
  with None out s1 s' show ?thesis
    by (intro exI [of _ s'] exI [of _ "[st]"] exI [of _ r']) (simp add: terminal_of_def)
next
  case (Some x)
  have jj: "job_of s = (job_of s)(i \<mapsto> j\<lparr>j_Result := j_Result j\<rparr>)" using j by (simp add: fun_upd_idem)
  show ?thesis
  proof (cases "is_cancel x")
    case True
    from apply_ok [OF inv h e(1), of "new_state StateCancelled (Error x) [] 0"]
    obtain s' st where s': "op_ApplyState ops (w 0) None i StateProcessing (new_state StateCancelled (Error x) [] 0) s = (s', Ok ())"
      "inv s'" "hist s' = (hist s)(i \<mapsto> h @ [st])" "js_Name st = StateCancelled" "job_of s' = job_of s" "queued s' = queued s"
      by auto
    with True Some out id c jj show ?thesis
      by (intro exI [of _ s'] exI [of _ "[st]"] exI [of _ "j_Result j"])
        (simp add: finish_def finalizeFailure_def is_cancel_def terminal_of_def)
  next
    case False
    let ?st = "new_state StateFailed (Error x) [(''attempt'', show_int (attempt + 1))] 0"
    from apply_ok [OF inv h e(1), of ?st]
    obtain s1 st where s1: "op_ApplyState ops (w 0) None i StateProcessing ?st s = (s1, Ok ())"
      "inv s1" "hist s1 = (hist s)(i \<mapsto> h @ [st])" "js_Name st = StateFailed" "job_of s1 = job_of s" "queued s1 = queued s"
      by auto
    have h1: "hist s1 i = Some (h @ [st])" "current_of (h @ [st]) = StateFailed" using s1 by simp_all
    let ?last = "if attempt + 1 \<ge> effectiveRetryMax (j_RetryMax job) then StateDead else StateScheduled"
    let ?at = "time_add (now_at (w 1) 9) (RetryDelay jitter attempt)"
    obtain s' st' where s': "(if attempt + 1 \<ge> effectiveRetryMax (j_RetryMax job)
        then op_ApplyState ops (w 1) None i StateFailed (new_state StateDead ''retry exhausted'' [] 0) s1
        else op_ScheduleRetry ops (w 1) None i ?at s1) = (s', Ok ())"
      "inv s'" "hist s' = (hist s1)(i \<mapsto> (h @ [st]) @ [st'])" "js_Name st' = ?last"
      "job_of s' = job_of s1" "queued s' = queued s1"
      using failed_next [OF s1(2) h1 e(2), of "attempt + 1 \<ge> effectiveRetryMax (j_RetryMax job)" ?at]
      by metis
    have "finish ops w c jitter job attempt out s = (s', Ok (if ?last = StateDead then StateDead else ''''))"
      using Some out id c s1(1) s'(1) False
      by (auto simp: finish_def finalizeFailure_def is_cancel_def Let_def split: if_splits)
    then show ?thesis
      using Some out False s1 s' jj
      by (intro exI [of _ s'] exI [of _ "[st, st']"] exI [of _ "j_Result j"]) (auto simp: terminal_of_def)
  qed
qed

text \<open>
  A worker that lost its job (it is no longer Processing) changes no state: only a non-empty result
  of a successful handler is still written over the stored one.
\<close>

lemma finish_stale:
  assumes inv: "inv s" and h: "hist s i = Some h" "current_of h \<noteq> StateProcessing"
    and c: "c 0 = None" "c 1 = None" and out: "out = Ret result err" and id: "j_ID job = i" and e: "ok_env (w 0)"
  shows "\<exists>s'. finish ops w c jitter job attempt out s = (s', Err ErrStateConflict) \<and> inv s' \<and>
    hist s' = hist s \<and> queued s' = queued s \<and> (err \<noteq> None \<or> blen result = 0 \<longrightarrow> s' = s)"
proof (cases err)
  case None
  obtain j where j: "job_of s i = Some j" using hist_job [OF inv, of i] h by auto
  obtain s1 where s1:
    "(if blen result > 0 then op_SetJobResult ops None i result s else (s, Ok ())) = (s1, Ok ())"
    "inv s1" "hist s1 = hist s" "queued s1 = queued s"
    using store_result [OF inv j, of result] by metis
  have h1: "hist s1 i = Some h" using s1(3) h by simp
  have "finish ops w c jitter job attempt out s = (s1, Err ErrStateConflict)"
    using None out id c s1(1) apply_conflict [OF s1(2) h1 h(2) e]
    by (auto simp: finish_def finalizeSuccess_def split: if_splits)
  with s1 None show ?thesis by (intro exI [of _ s1]) auto
next
  case (Some x)
  have "finish ops w c jitter job attempt out s = (s, Err ErrStateConflict)"
    using Some out id c apply_conflict [OF inv h e] by (simp add: finish_def finalizeFailure_def Let_def)
  with Some inv show ?thesis by simp
qed

end

end
