(* ===== verification/Gfire_Config.thy ===== *)
theory Gfire_Config
  imports Engine_Core
begin

text \<open>
  The configuration package (\<^verbatim>\<open>internal/config\<close>): the document, its defaults, the translation to the
  engine's configuration, validation, loading and the log-safe summaries. Third-party and system code enters as parameters: \<open>viper\<close> (the file reader and the
  decoder that overlays file and environment on the defaults) and \<open>urls\<close> (the URL parser and printer).
\<close>

section \<open>The document\<close>

record serverConfig =
  sc_Host :: string
  sc_Port :: int
  sc_Workers :: int
  sc_Queues :: "string list"
  sc_DequeueTimeout :: duration
  sc_ShutdownTimeout :: duration
  sc_MaxBodySize :: int64
  sc_DefaultTimeout :: duration
  sc_ServerID :: string

record heartbeatConfig =
  hb_Interval :: duration
  hb_Timeout :: duration
  hb_OrphanTimeout :: duration

record schedulerConfig =
  sd_Interval :: duration
  sd_BatchSize :: int

record cleanupConfig =
  cl_Interval :: duration
  cl_JobRetention :: duration

record redisConfig =
  rd_Addr :: string
  rd_Password :: string
  rd_DB :: int

record postgresConfig =
  pg_DSN :: string
  pg_MaxConns :: "32 word"
  pg_MinConns :: "32 word"

record storageConfig =
  st_Backend :: string
  st_Redis :: redisConfig
  st_Postgres :: postgresConfig

record loggingConfig =
  lg_Level :: string
  lg_Format :: string

record authConfig =
  au_Enabled :: bool
  au_Token :: string

record handlerEntry =
  he_Name :: string
  he_Cmd :: string

record fileConfig =
  fc_Server :: serverConfig
  fc_Heartbeat :: heartbeatConfig
  fc_Scheduler :: schedulerConfig
  fc_Cleanup :: cleanupConfig
  fc_Storage :: storageConfig
  fc_Logging :: loggingConfig
  fc_MetricsEnabled :: bool
  fc_Auth :: authConfig
  fc_Handlers :: "handlerEntry list"
  fc_QueueLimits :: "string \<rightharpoonup> int"

definition Defaults :: fileConfig where
  "Defaults = \<lparr>
     fc_Server = \<lparr>sc_Host = ''0.0.0.0'', sc_Port = 8080, sc_Workers = 4, sc_Queues = [''default''],
       sc_DequeueTimeout = 5 * second, sc_ShutdownTimeout = 30 * second, sc_MaxBodySize = push_bit 20 10,
       sc_DefaultTimeout = 30 * second, sc_ServerID = ''''\<rparr>,
     fc_Heartbeat = \<lparr>hb_Interval = 5 * second, hb_Timeout = 30 * second, hb_OrphanTimeout = 5 * minute\<rparr>,
     fc_Scheduler = \<lparr>sd_Interval = second, sd_BatchSize = 100\<rparr>,
     fc_Cleanup = \<lparr>cl_Interval = hour, cl_JobRetention = 24 * hour\<rparr>,
     fc_Storage = \<lparr>st_Backend = ''memory'', st_Redis = \<lparr>rd_Addr = '''', rd_Password = '''', rd_DB = 0\<rparr>,
       st_Postgres = \<lparr>pg_DSN = '''', pg_MaxConns = 0, pg_MinConns = 0\<rparr>\<rparr>,
     fc_Logging = \<lparr>lg_Level = ''info'', lg_Format = ''text''\<rparr>,
     fc_MetricsEnabled = True,
     fc_Auth = \<lparr>au_Enabled = False, au_Token = ''''\<rparr>,
     fc_Handlers = [],
     fc_QueueLimits = Map.empty\<rparr>"

definition EngineConfig :: "fileConfig \<Rightarrow> string \<Rightarrow> config" where
  "EngineConfig c serverID =
     (let serverID = (if serverID = '''' then sc_ServerID (fc_Server c) else serverID);
          serverID = (if serverID = '''' then ''local'' else serverID)
      in \<lparr>cfg_ServerID = serverID, cfg_Workers = sc_Workers (fc_Server c),
          cfg_Queues = sc_Queues (fc_Server c), cfg_QueueLimits = fc_QueueLimits c,
          cfg_DequeueTimeout = sc_DequeueTimeout (fc_Server c),
          cfg_DefaultTimeout = sc_DefaultTimeout (fc_Server c),
          cfg_ShutdownTimeout = sc_ShutdownTimeout (fc_Server c),
          cfg_JobHeartbeatInterval = 60 * second,
          cfg_SchedulerInterval = sd_Interval (fc_Scheduler c),
          cfg_SchedulerBatchSize = sd_BatchSize (fc_Scheduler c),
          cfg_ServerHeartbeatTTL = hb_Timeout (fc_Heartbeat c),
          cfg_ServerHeartbeatEvery = hb_Interval (fc_Heartbeat c),
          cfg_OrphanJobStaleAge = hb_OrphanTimeout (fc_Heartbeat c),
          cfg_CleanupInterval = cl_Interval (fc_Cleanup c),
          cfg_JobRetention = cl_JobRetention (fc_Cleanup c)\<rparr>)"

definition HandlerRegistry :: "string list \<Rightarrow> fileConfig \<Rightarrow> registry" where
  "HandlerRegistry order c =
     (let m = fold (\<lambda>h m. if he_Name h \<noteq> '''' \<and> he_Cmd h \<noteq> '''' then m(he_Name h \<mapsto> he_Cmd h) else m)
                (fc_Handlers c) Map.empty
      in NewRegistry order m)"

section \<open>Addresses\<close>

definition joinHostPort :: "string \<Rightarrow> int \<Rightarrow> string" where
  "joinHostPort host port =
     (if CHR '':'' \<in> set host \<and> \<not> has_prefix ''['' host
      then ''['' @ host @ '']:'' @ show_int port
      else host @ '':'' @ show_int port)"

definition ListenAddr :: "fileConfig \<Rightarrow> string" where
  "ListenAddr c =
     (let host = (if sc_Host (fc_Server c) = '''' then ''0.0.0.0'' else sc_Host (fc_Server c));
          port = (if sc_Port (fc_Server c) = 0 then 8080 else sc_Port (fc_Server c))
      in joinHostPort host port)"

section \<open>Validation and loading\<close>

text \<open>
  \<^verbatim>\<open>%q\<close>: a quoted string. Bytes from 128 on belong to multi-byte runes and are kept (a rune that is
  not printable would be escaped).
\<close>

definition hex_digit :: "nat \<Rightarrow> char" where
  "hex_digit d = (if d < 10 then char_of (48 + d) else char_of (87 + d))"

definition quote_char :: "char \<Rightarrow> string" where
  "quote_char ch =
     (let n = (of_char ch :: nat) in
      if n = 34 \<or> n = 92 then bytes_of [92, n]
      else if n = 7 then bytes_of [92] @ ''a'' else if n = 8 then bytes_of [92] @ ''b''
      else if n = 12 then bytes_of [92] @ ''f'' else if n = 10 then bytes_of [92] @ ''n''
      else if n = 13 then bytes_of [92] @ ''r'' else if n = 9 then bytes_of [92] @ ''t''
      else if n = 11 then bytes_of [92] @ ''v''
      else if n < 32 \<or> n = 127 then bytes_of [92] @ ''x'' @ [hex_digit (n div 16), hex_digit (n mod 16)]
      else [ch])"

definition quoted :: "string \<Rightarrow> string" where
  "quoted s = bytes_of [34] @ concat (map quote_char s) @ bytes_of [34]"

definition Validate :: "fileConfig \<Rightarrow> unit result" where
  "Validate c =
     (let backends = [''memory'', ''postgres'', ''redis''] in
      if st_Backend (fc_Storage c) \<notin> set backends
      then Err (ErrMsg (''unknown storage.backend: '' @ quoted (st_Backend (fc_Storage c)) @
                  '' (valid: memory, postgres, redis)''))
      else Ok ())"

text \<open>
  \<^verbatim>\<open>bindEnv\<close>: the keys an environment variable can override, each with the variable viper derives from
  the prefix and the key replacer.
\<close>

definition upper :: "char \<Rightarrow> char" where
  "upper ch = (let n = (of_char ch :: nat) in if 97 \<le> n \<and> n \<le> 122 then char_of (n - 32) else ch)"

definition env_name :: "string \<Rightarrow> string" where
  "env_name k = map (\<lambda>ch. if ch = CHR ''.'' then CHR ''_'' else upper ch) (''GFIRE_'' @ k)"

definition env_keys :: "string list" where
  "env_keys = [''server.host'', ''server.port'', ''server.workers'', ''server.server_id'', ''server.dequeue_timeout'',
     ''server.shutdown_timeout'', ''server.max_body_size'', ''server.default_timeout'', ''heartbeat.interval'',
     ''heartbeat.timeout'', ''heartbeat.orphan_timeout'', ''scheduler.interval'', ''scheduler.batch_size'',
     ''cleanup.interval'', ''cleanup.job_retention'', ''storage.backend'', ''storage.redis.addr'',
     ''storage.redis.password'', ''storage.redis.db'', ''storage.postgres.dsn'', ''storage.postgres.max_conns'',
     ''storage.postgres.min_conns'', ''logging.level'', ''logging.format'', ''metrics.enabled'', ''auth.enabled'',
     ''auth.token'']"

definition bindEnv :: "(string \<times> string) list" where
  "bindEnv = map (\<lambda>k. (k, env_name k)) env_keys"

record viper =
  vp_ReadInConfig :: "string \<Rightarrow> error option"
  vp_Unmarshal :: "(string \<times> string) list \<Rightarrow> string option \<Rightarrow> fileConfig \<Rightarrow> fileConfig result"

text \<open>
  \<open>env_path\<close> is the value of \<^verbatim>\<open>GFIRE_CONFIG\<close>; \<open>vp_Unmarshal\<close> gets the bound variables and the file that was
  read, if any.
\<close>

definition Load :: "viper \<Rightarrow> string \<Rightarrow> string \<Rightarrow> fileConfig result" where
  "Load v env_path path =
     (let cfg = Defaults;
          finish = (\<lambda>file.
            case vp_Unmarshal v bindEnv file cfg of
              Err e \<Rightarrow> Err (ErrWrap ''unmarshal config'' e)
            | Panic p \<Rightarrow> Panic p
            | Ok cfg \<Rightarrow>
                (case Validate cfg of
                   Err e \<Rightarrow> Err (ErrWrap ''invalid config'' e)
                 | Panic p \<Rightarrow> Panic p
                 | Ok _ \<Rightarrow> Ok cfg))
      in if path \<noteq> '''' then
           (case vp_ReadInConfig v path of
              Some e \<Rightarrow> Err (ErrWrap ''read config'' e)
            | None \<Rightarrow> finish (Some path))
         else if env_path \<noteq> '''' then
           (case vp_ReadInConfig v env_path of
              Some e \<Rightarrow> Err (ErrWrap ''read GFIRE_CONFIG'' e)
            | None \<Rightarrow> finish (Some env_path))
         else finish None)"

section \<open>Summaries for the log\<close>

record url =
  u_Scheme :: string
  u_User :: "(string \<times> string option) option"
  u_Host :: string
  u_Path :: string
  u_RawQuery :: string

record urls =
  url_Parse :: "string \<Rightarrow> url option"
  url_String :: "url \<Rightarrow> string"

definition redactDSN :: "urls \<Rightarrow> string \<Rightarrow> string" where
  "redactDSN us dsn =
     (if dsn = '''' then ''(default)''
      else case url_Parse us dsn of
        None \<Rightarrow> ''[configured]''
      | Some u \<Rightarrow>
          if u_Host u = '''' then ''[configured]''
          else
            let u = (case u_User u of
                       None \<Rightarrow> u
                     | Some (user, _) \<Rightarrow> u\<lparr>u_User := Some (user, Some ''****'')\<rparr>);
                u = u\<lparr>u_RawQuery := ''''\<rparr>
            in url_String us u)"

definition redisAddrSummary :: "storageConfig \<Rightarrow> string" where
  "redisAddrSummary cfg =
     (let addr = (if rd_Addr (st_Redis cfg) = '''' then ''localhost:6379'' else rd_Addr (st_Redis cfg));
          addr = (if rd_Password (st_Redis cfg) \<noteq> '''' then addr @ '' auth=***'' else addr);
          addr = (if rd_DB (st_Redis cfg) \<noteq> 0 then addr @ '' db='' @ show_int (rd_DB (st_Redis cfg)) else addr)
      in addr)"

definition StorageSummary :: "urls \<Rightarrow> fileConfig \<Rightarrow> string" where
  "StorageSummary us c =
     (let cfg = fc_Storage c;
          backend = (if st_Backend cfg = '''' then ''memory'' else st_Backend cfg)
      in if backend = ''memory'' then ''memory''
         else if backend = ''postgres'' \<or> backend = ''postgresql'' then
           ''postgres ('' @ redactDSN us (pg_DSN (st_Postgres cfg)) @ '')''
         else if backend = ''redis'' then ''redis ('' @ redisAddrSummary cfg @ '')''
         else if backend = ''valkey'' then ''valkey ('' @ redisAddrSummary cfg @ '')''
         else backend)"

fun join :: "string \<Rightarrow> string list \<Rightarrow> string" where
  "join sep [] = ''''"
| "join sep [x] = x"
| "join sep (x # y # xs) = x @ sep @ join sep (y # xs)"

definition HandlersSummary :: "fileConfig \<Rightarrow> string" where
  "HandlersSummary c =
     (if fc_Handlers c = [] then ''echo (dev default)''
      else
        let names = map he_Name (filter (\<lambda>h. he_Name h \<noteq> '''') (fc_Handlers c)) in
        if names = [] then ''echo (dev default)'' else join '', '' names)"

section \<open>Lemmas\<close>

text \<open>Reading an address back: the port is what follows the last colon, brackets are stripped.\<close>

definition split_port :: "string \<Rightarrow> string \<times> string" where
  "split_port s =
     (let p = rev (takeWhile (\<lambda>ch. ch \<noteq> CHR '':'') (rev s))
      in (take (length s - Suc (length p)) s, p))"

definition unbracket :: "string \<Rightarrow> string" where
  "unbracket h = (if h \<noteq> [] \<and> hd h = CHR ''['' \<and> last h = CHR '']'' then butlast (tl h) else h)"

lemma digit_char_not_colon: "d < 10 \<Longrightarrow> digit_char d \<noteq> CHR '':''"
proof
  assume d: "d < 10" and "digit_char d = CHR '':''"
  then have "of_char (char_of (48 + d) :: char) = (of_char CHR '':'' :: nat)" by (simp add: digit_char_def)
  with d show False by simp
qed

lemma show_nat_no_colon: "CHR '':'' \<notin> set (show_nat n)"
proof (induction n rule: show_nat.induct)
  case (1 n)
  have "digit_char (n mod 10) \<noteq> CHR '':''" by (rule digit_char_not_colon) simp
  moreover have "n < 10 \<Longrightarrow> digit_char n \<noteq> CHR '':''" by (rule digit_char_not_colon)
  ultimately show ?case using 1 by (subst show_nat.simps) (auto simp: eq_commute [of "CHR '':''"])
qed

lemma show_int_no_colon: "CHR '':'' \<notin> set (show_int i)"
  using show_nat_no_colon by (simp add: show_int_def)

lemma split_port_append: "CHR '':'' \<notin> set p \<Longrightarrow> split_port (h @ '':'' @ p) = (h, p)"
proof -
  assume "CHR '':'' \<notin> set p"
  then have "takeWhile (\<lambda>ch. ch \<noteq> CHR '':'') (rev p @ CHR '':'' # rev h) = rev p"
    by (subst takeWhile_append2) auto
  then show ?thesis by (simp add: split_port_def)
qed

lemma fold_map_upd:
  "fold (\<lambda>x m. if P x then m(f x \<mapsto> g x) else m) xs m = m ++ map_of (rev (map (\<lambda>x. (f x, g x)) (filter P xs)))"
  by (induction xs arbitrary: m) (auto simp: map_add_def fun_eq_iff split: option.split)

lemma NewRegistry_copy: "covers order m \<Longrightarrow> NewRegistry order m = m"
proof -
  assume cov: "covers order m"
  have "foldl (\<lambda>cmds k. cmds(k := m k)) c ks = (\<lambda>k. if k \<in> set ks then m k else c k)" for ks c
    by (induction ks arbitrary: c) (auto simp: fun_eq_iff)
  then show ?thesis
    using set_range_keys_covers [OF cov] by (auto simp: NewRegistry_def fun_eq_iff)
qed

section \<open>Properties\<close>

lemma Load_valid: "Load v env_path path = Ok cfg \<Longrightarrow> st_Backend (fc_Storage cfg) \<in> {''memory'', ''postgres'', ''redis''}"
  by (auto simp: Load_def Validate_def Let_def split: if_splits option.splits result.splits)

lemma EngineConfig_id: "cfg_ServerID (EngineConfig c sid) =
    (if sid \<noteq> '''' then sid else if sc_ServerID (fc_Server c) \<noteq> '''' then sc_ServerID (fc_Server c) else ''local'')"
  by (simp add: EngineConfig_def Let_def)

lemma env_names_distinct: "distinct (map snd bindEnv)"
  by code_simp

text \<open>
  The listen address can be read back: for every host that is not already bracketed, splitting the
  joined address at its last colon gives the decimal port and, after stripping brackets, the host;
  IPv6 addresses, which contain colons, are bracketed so that this holds for them too.
\<close>
lemma join_split:
  assumes "\<not> has_prefix ''['' host"
  shows "snd (split_port (joinHostPort host port)) = show_int port \<and>
    unbracket (fst (split_port (joinHostPort host port))) = host"
proof (cases "CHR '':'' \<in> set host")
  case True
  then have "joinHostPort host port = (''['' @ host @ '']'') @ '':'' @ show_int port"
    using assms by (simp add: joinHostPort_def)
  then show ?thesis
    by (simp only: split_port_append [OF show_int_no_colon]) (simp add: unbracket_def)
next
  case False
  then have "joinHostPort host port = host @ '':'' @ show_int port" by (simp add: joinHostPort_def)
  moreover have "unbracket host = host" using assms by (cases host) (simp_all add: unbracket_def has_prefix_def)
  ultimately show ?thesis by (simp only: split_port_append [OF show_int_no_colon]) simp
qed

text \<open>
  The startup log does not reveal secrets: the storage summary is the same for any two non-empty
  Redis passwords, and the same for any two database URLs that differ only in the password and the
  query string.
\<close>
lemma summary_hides_secrets:
  assumes "p \<noteq> ''''" "p' \<noteq> ''''"
    and "url_Parse us dsn = Some (u\<lparr>u_User := Some (name, pw), u_RawQuery := qs\<rparr>)"
    and "url_Parse us dsn' = Some (u\<lparr>u_User := Some (name, pw'), u_RawQuery := qs'\<rparr>)"
    and "dsn \<noteq> ''''" "dsn' \<noteq> ''''"
  shows "StorageSummary us (c\<lparr>fc_Storage := (fc_Storage c)\<lparr>st_Redis := (st_Redis (fc_Storage c))\<lparr>rd_Password := p\<rparr>,
      st_Postgres := (st_Postgres (fc_Storage c))\<lparr>pg_DSN := dsn\<rparr>\<rparr>\<rparr>) =
    StorageSummary us (c\<lparr>fc_Storage := (fc_Storage c)\<lparr>st_Redis := (st_Redis (fc_Storage c))\<lparr>rd_Password := p'\<rparr>,
      st_Postgres := (st_Postgres (fc_Storage c))\<lparr>pg_DSN := dsn'\<rparr>\<rparr>\<rparr>)"
proof -
  have "redactDSN us dsn = redactDSN us dsn'"
    using assms(3-6) by (simp add: redactDSN_def)
  moreover have "redisAddrSummary ((fc_Storage c)\<lparr>st_Redis := (st_Redis (fc_Storage c))\<lparr>rd_Password := p\<rparr>,
      st_Postgres := (st_Postgres (fc_Storage c))\<lparr>pg_DSN := dsn\<rparr>\<rparr>) =
    redisAddrSummary ((fc_Storage c)\<lparr>st_Redis := (st_Redis (fc_Storage c))\<lparr>rd_Password := p'\<rparr>,
      st_Postgres := (st_Postgres (fc_Storage c))\<lparr>pg_DSN := dsn'\<rparr>\<rparr>)"
    using assms(1,2) by (simp add: redisAddrSummary_def Let_def)
  ultimately show ?thesis by (simp add: StorageSummary_def Let_def)
qed

text \<open>
  The handler registry is what the configuration lists: a job name resolves to the command of the
  last entry with that name among the entries that have both a name and a command, and to nothing if
  there is none.
\<close>
lemma registry_lookup:
  assumes "\<forall>h \<in> set (fc_Handlers c). he_Name h \<in> set order"
  shows "HandlerRegistry order c n =
    map_option he_Cmd (find (\<lambda>h. he_Name h = n) (rev (filter (\<lambda>h. he_Name h \<noteq> '''' \<and> he_Cmd h \<noteq> '''') (fc_Handlers c))))"
proof -
  let ?P = "\<lambda>h. he_Name h \<noteq> '''' \<and> he_Cmd h \<noteq> ''''"
  let ?m = "fold (\<lambda>h m. if ?P h then m(he_Name h \<mapsto> he_Cmd h) else m) (fc_Handlers c) Map.empty"
  have m: "?m = map_of (map (\<lambda>h. (he_Name h, he_Cmd h)) (rev (filter ?P (fc_Handlers c))))"
    unfolding fold_map_upd by (simp add: rev_map)
  have "dom ?m \<subseteq> set order" using assms by (auto simp: m dom_map_of_conv_image_fst)
  then have "HandlerRegistry order c = ?m"
    by (simp add: HandlerRegistry_def Let_def NewRegistry_copy covers_def)
  moreover have "map_of (map (\<lambda>h. (he_Name h, he_Cmd h)) hs) n = map_option he_Cmd (find (\<lambda>h. he_Name h = n) hs)" for hs
    by (induction hs) auto
  ultimately show ?thesis by (simp add: m)
qed

end
