(* ===== verification/Api_Openapi.thy ===== *)
theory Api_Openapi
  imports Continuations
begin

text \<open>
  The OpenAPI document (\<^verbatim>\<open>internal/api/openapi.go\<close>) as a JSON value, in the order of the source, and what a
  reader finds in it: the operations it documents, their statuses and the schemas they refer to. Text
  outside ASCII is given by its bytes.
\<close>

section \<open>The document\<close>

definition openapi_info :: "(string \<times> json) list" where
  "openapi_info = [
     (''openapi'', JStr ''3.0.3''),
     (''info'', JObj
       [(''title'', JStr ''GFire''),
        (''description'', JStr (''Standalone background job service '' @ [CHR 0xE2, CHR 0x80, CHR 0x94] @ '' REST API'')),
        (''version'', JStr ''0.6.1'')]),
     (''servers'', JArr
       [JObj [(''url'', JStr ''http://localhost:8080''), (''description'', JStr ''Local development'')]])]"

definition openapi_health :: "(string \<times> json) list" where
  "openapi_health = [
     (''/healthz'', JObj
       [(''get'', JObj
         [(''summary'', JStr ''Health check''),
          (''operationId'', JStr ''healthz''),
          (''responses'', JObj [(''200'', JObj [(''description'', JStr ''OK'')])])])]),
     (''/readyz'', JObj
       [(''get'', JObj
         [(''summary'', JStr ''Readiness probe (storage reachable)''),
          (''operationId'', JStr ''readyz''),
          (''responses'', JObj
           [(''200'', JObj [(''description'', JStr ''Storage reachable'')]),
            (''503'', JObj [(''description'', JStr ''Storage unreachable'')])])])])]"

definition openapi_jobs :: "(string \<times> json) list" where
  "openapi_jobs = [
     (''/v1/jobs'', JObj
       [(''get'', JObj
         [(''summary'', JStr ''List jobs''),
          (''operationId'', JStr ''listJobs''),
          (''parameters'', JArr
           [JObj
            [(''name'', JStr ''state''),
             (''in'', JStr ''query''),
             (''schema'', JObj [(''type'', JStr ''string'')])],
            JObj
            [(''name'', JStr ''limit''),
             (''in'', JStr ''query''),
             (''schema'', JObj [(''type'', JStr ''integer''), (''default'', JNum ''50'')])],
            JObj
            [(''name'', JStr ''offset''),
             (''in'', JStr ''query''),
             (''schema'', JObj [(''type'', JStr ''integer''), (''default'', JNum ''0'')])]]),
          (''responses'', JObj [(''200'', JObj [(''description'', JStr ''Paginated job list'')])])])]),
     (''/v1/jobs/enqueue'', JObj
       [(''post'', JObj
         [(''summary'', JStr ''Enqueue a job''),
          (''operationId'', JStr ''enqueueJob''),
          (''parameters'', JArr
           [JObj
            [(''name'', JStr ''Idempotency-Key''),
             (''in'', JStr ''header''),
             (''schema'', JObj [(''type'', JStr ''string'')]),
             (''description'', JStr ''Client retry deduplication key'')]]),
          (''requestBody'', JObj
           [(''required'', JBool True),
            (''content'', JObj
             [(''application/json'', JObj [(''schema'', JObj [(''$ref'', JStr ''#/components/schemas/EnqueueRequest'')])])])]),
          (''responses'', JObj
           [(''201'', JObj [(''description'', JStr ''Job enqueued'')]),
            (''400'', JObj [(''description'', JStr ''Invalid request'')])])])]),
     (''/v1/jobs/enqueue/batch'', JObj
       [(''post'', JObj
         [(''summary'', JStr ''Batch enqueue jobs (partial acceptance)''),
          (''operationId'', JStr ''batchEnqueue''),
          (''parameters'', JArr
           [JObj
            [(''name'', JStr ''Idempotency-Key''),
             (''in'', JStr ''header''),
             (''schema'', JObj [(''type'', JStr ''string'')]),
             (''description'', JStr ''Per-job key:index'')]]),
          (''requestBody'', JObj
           [(''required'', JBool True),
            (''content'', JObj
             [(''application/json'', JObj [(''schema'', JObj [(''$ref'', JStr ''#/components/schemas/BatchEnqueueRequest'')])])])]),
          (''responses'', JObj [(''201'', JObj [(''description'', JStr ''Jobs enqueued (partial acceptance possible)'')])])])]),
     (''/v1/jobs/schedule'', JObj
       [(''post'', JObj
         [(''summary'', JStr ''Schedule a job for delayed execution''),
          (''operationId'', JStr ''scheduleJob''),
          (''requestBody'', JObj
           [(''required'', JBool True),
            (''content'', JObj
             [(''application/json'', JObj [(''schema'', JObj [(''$ref'', JStr ''#/components/schemas/ScheduleRequest'')])])])]),
          (''responses'', JObj [(''201'', JObj [(''description'', JStr ''Job scheduled'')])])])])]"

definition openapi_job :: "(string \<times> json) list" where
  "openapi_job = [
     (''/v1/jobs/{id}'', JObj
       [(''get'', JObj
         [(''summary'', JStr ''Get job detail + state history''),
          (''operationId'', JStr ''getJob''),
          (''parameters'', JArr
           [JObj
            [(''name'', JStr ''id''),
             (''in'', JStr ''path''),
             (''required'', JBool True),
             (''schema'', JObj [(''type'', JStr ''string'')])]]),
          (''responses'', JObj
           [(''200'', JObj [(''description'', JStr ''Job detail'')]),
            (''404'', JObj [(''description'', JStr ''Job not found'')])])])]),
     (''/v1/jobs/{id}/requeue'', JObj
       [(''post'', JObj
         [(''summary'', JStr ''Requeue a failed job''),
          (''operationId'', JStr ''requeueJob''),
          (''parameters'', JArr
           [JObj
            [(''name'', JStr ''id''),
             (''in'', JStr ''path''),
             (''required'', JBool True),
             (''schema'', JObj [(''type'', JStr ''string'')])]]),
          (''responses'', JObj
           [(''200'', JObj [(''description'', JStr ''Job requeued'')]),
            (''409'', JObj [(''description'', JStr ''Conflict (terminal state)'')])])])]),
     (''/v1/jobs/{id}/cancel'', JObj
       [(''post'', JObj
         [(''summary'', JStr ''Cancel an in-flight job''),
          (''operationId'', JStr ''cancelJob''),
          (''parameters'', JArr
           [JObj
            [(''name'', JStr ''id''),
             (''in'', JStr ''path''),
             (''required'', JBool True),
             (''schema'', JObj [(''type'', JStr ''string'')])]]),
          (''responses'', JObj [(''200'', JObj [(''description'', JStr ''Job cancelled'')])])])]),
     (''/v1/jobs/{id}/delete'', JObj
       [(''post'', JObj
         [(''summary'', JStr ''Soft-delete a job''),
          (''operationId'', JStr ''deleteJob''),
          (''parameters'', JArr
           [JObj
            [(''name'', JStr ''id''),
             (''in'', JStr ''path''),
             (''required'', JBool True),
             (''schema'', JObj [(''type'', JStr ''string'')])]]),
          (''responses'', JObj
           [(''200'', JObj [(''description'', JStr ''Job deleted'')]),
            (''409'', JObj [(''description'', JStr ''Conflict (irreversible state)'')])])])]),
     (''/v1/jobs/{id}/continue'', JObj
       [(''post'', JObj
         [(''summary'', JStr ''Create a continuation (child job on terminal state)''),
          (''operationId'', JStr ''continueJob''),
          (''parameters'', JArr
           [JObj
            [(''name'', JStr ''id''),
             (''in'', JStr ''path''),
             (''required'', JBool True),
             (''schema'', JObj [(''type'', JStr ''string'')])]]),
          (''requestBody'', JObj
           [(''required'', JBool True),
            (''content'', JObj
             [(''application/json'', JObj [(''schema'', JObj [(''$ref'', JStr ''#/components/schemas/ContinueRequest'')])])])]),
          (''responses'', JObj [(''201'', JObj [(''description'', JStr ''Continuation registered'')])])])])]"

definition openapi_queues :: "(string \<times> json) list" where
  "openapi_queues = [
     (''/v1/queues'', JObj
       [(''get'', JObj
         [(''summary'', JStr ''List queues + depth''),
          (''operationId'', JStr ''listQueues''),
          (''responses'', JObj [(''200'', JObj [(''description'', JStr ''Queue list'')])])])]),
     (''/v1/queues/{name}'', JObj
       [(''get'', JObj
         [(''summary'', JStr ''Get queue detail + stats''),
          (''operationId'', JStr ''getQueue''),
          (''parameters'', JArr
           [JObj
            [(''name'', JStr ''name''),
             (''in'', JStr ''path''),
             (''required'', JBool True),
             (''schema'', JObj [(''type'', JStr ''string'')])]]),
          (''responses'', JObj [(''200'', JObj [(''description'', JStr ''Queue detail'')])])])]),
     (''/v1/servers'', JObj
       [(''get'', JObj
         [(''summary'', JStr ''List registered servers''),
          (''operationId'', JStr ''listServers''),
          (''responses'', JObj [(''200'', JObj [(''description'', JStr ''Server list'')])])])])]"

definition openapi_recurring :: "(string \<times> json) list" where
  "openapi_recurring = [
     (''/v1/recurring'', JObj
       [(''get'', JObj
         [(''summary'', JStr ''List recurring job definitions''),
          (''operationId'', JStr ''listRecurring''),
          (''responses'', JObj [(''200'', JObj [(''description'', JStr ''Recurring job list'')])])]),
        (''post'', JObj
         [(''summary'', JStr ''Create a recurring job''),
          (''operationId'', JStr ''createRecurring''),
          (''requestBody'', JObj
           [(''required'', JBool True),
            (''content'', JObj
             [(''application/json'', JObj [(''schema'', JObj [(''$ref'', JStr ''#/components/schemas/RecurringRequest'')])])])]),
          (''responses'', JObj [(''201'', JObj [(''description'', JStr ''Recurring job created'')])])])]),
     (''/v1/recurring/{id}'', JObj
       [(''delete'', JObj
         [(''summary'', JStr ''Remove a recurring job definition''),
          (''operationId'', JStr ''deleteRecurring''),
          (''parameters'', JArr
           [JObj
            [(''name'', JStr ''id''),
             (''in'', JStr ''path''),
             (''required'', JBool True),
             (''schema'', JObj [(''type'', JStr ''string'')])]]),
          (''responses'', JObj [(''200'', JObj [(''description'', JStr ''Removed'')])])])]),
     (''/v1/recurring/{id}/trigger'', JObj
       [(''post'', JObj
         [(''summary'', JStr ''Trigger a recurring job immediately''),
          (''operationId'', JStr ''triggerRecurring''),
          (''parameters'', JArr
           [JObj
            [(''name'', JStr ''id''),
             (''in'', JStr ''path''),
             (''required'', JBool True),
             (''schema'', JObj [(''type'', JStr ''string'')])]]),
          (''responses'', JObj [(''201'', JObj [(''description'', JStr ''Job enqueued from trigger'')])])])])]"

definition openapi_components :: "(string \<times> json) list" where
  "openapi_components = [
     (''components'', JObj
       [(''schemas'', JObj
         [(''EnqueueRequest'', JObj
           [(''type'', JStr ''object''),
            (''required'', JArr [JStr ''name'']),
            (''properties'', JObj
             [(''name'', JObj [(''type'', JStr ''string''), (''description'', JStr ''Job handler name'')]),
              (''args'', JObj [(''type'', JStr ''object''), (''description'', JStr ''Job arguments (JSON)'')]),
              (''queue'', JObj [(''type'', JStr ''string''), (''default'', JStr ''default'')]),
              (''retry_max'', JObj [(''type'', JStr ''integer''), (''default'', JNum ''10'')]),
              (''timeout'', JObj [(''type'', JStr ''string''), (''description'', JStr ''Duration (e.g. 5m, 30s)'')])])]),
          (''BatchEnqueueRequest'', JObj
           [(''type'', JStr ''object''),
            (''required'', JArr [JStr ''jobs'']),
            (''properties'', JObj
             [(''jobs'', JObj
               [(''type'', JStr ''array''),
                (''items'', JObj [(''$ref'', JStr ''#/components/schemas/EnqueueRequest'')])])])]),
          (''ScheduleRequest'', JObj
           [(''type'', JStr ''object''),
            (''required'', JArr [JStr ''name'', JStr ''enqueue_at'']),
            (''properties'', JObj
             [(''name'', JObj [(''type'', JStr ''string'')]),
              (''args'', JObj [(''type'', JStr ''object'')]),
              (''queue'', JObj [(''type'', JStr ''string''), (''default'', JStr ''default'')]),
              (''retry_max'', JObj [(''type'', JStr ''integer'')]),
              (''timeout'', JObj [(''type'', JStr ''string'')]),
              (''enqueue_at'', JObj
               [(''type'', JStr ''string''),
                (''format'', JStr ''date-time''),
                (''description'', JStr ''RFC 3339 timestamp'')])])]),
          (''ContinueRequest'', JObj
           [(''type'', JStr ''object''),
            (''required'', JArr [JStr ''child_name'']),
            (''properties'', JObj
             [(''child_name'', JObj [(''type'', JStr ''string'')]),
              (''child_args'', JObj [(''type'', JStr ''object'')]),
              (''child_queue'', JObj [(''type'', JStr ''string''), (''default'', JStr ''default'')]),
              (''condition'', JObj
               [(''type'', JStr ''string''),
                (''enum'', JArr [JStr ''OnSucceeded'', JStr ''OnFailed'', JStr ''OnAny'']),
                (''default'', JStr ''OnSucceeded'')])])]),
          (''RecurringRequest'', JObj
           [(''type'', JStr ''object''),
            (''required'', JArr [JStr ''id'', JStr ''job_name'', JStr ''cron_expr'']),
            (''properties'', JObj
             [(''id'', JObj [(''type'', JStr ''string''), (''description'', JStr ''Unique definition ID'')]),
              (''job_name'', JObj [(''type'', JStr ''string'')]),
              (''args'', JObj [(''type'', JStr ''object'')]),
              (''queue'', JObj [(''type'', JStr ''string''), (''default'', JStr ''default'')]),
              (''cron_expr'', JObj
               [(''type'', JStr ''string''),
                (''description'', JStr (''Six-field cron (seconds first) or @descriptor; invalid '' @ [CHR 0xE2, CHR 0x86, CHR 0x92] @ '' 400''))]),
              (''enabled'', JObj [(''type'', JStr ''boolean''), (''default'', JBool True)])])])]),
        (''securitySchemes'', JObj [(''bearerAuth'', JObj [(''type'', JStr ''http''), (''scheme'', JStr ''bearer'')])])])]"

definition openapiSpec :: json where
  "openapiSpec = JObj (openapi_info @
     [(''paths'', JObj (openapi_health @ openapi_jobs @ openapi_job @ openapi_queues @ openapi_recurring))] @
     openapi_components)"

section \<open>Reading it\<close>

fun jobj :: "json \<Rightarrow> (string \<times> json) list" where
  "jobj (JObj m) = m"
| "jobj _ = []"

definition jfield :: "string \<Rightarrow> json \<Rightarrow> json" where
  "jfield k j = (case map_of (jobj j) k of None \<Rightarrow> JNull | Some v \<Rightarrow> v)"

definition doc_operations :: "(string \<times> string \<times> json) list" where
  "doc_operations = concat (map (\<lambda>(path, item). map (\<lambda>(m, op). (path, m, op)) (jobj item)) (jobj (jfield ''paths'' openapiSpec)))"

definition doc_statuses :: "json \<Rightarrow> string list" where
  "doc_statuses op = map fst (jobj (jfield ''responses'' op))"

text \<open>All values of \<^verbatim>\<open>$ref\<close> members below a value.\<close>

fun refs :: "json \<Rightarrow> string list" where
  "refs (JArr xs) = concat (map refs xs)"
| "refs (JObj m) = concat (map (\<lambda>(k, v). (case v of JStr x \<Rightarrow> if k = ''$ref'' then [x] else [] | _ \<Rightarrow> refs v)) m)"
| "refs _ = []"

definition doc_schemas :: "string list" where
  "doc_schemas = map (\<lambda>(k, _). ''#/components/schemas/'' @ k) (jobj (jfield ''schemas'' (jfield ''components'' openapiSpec)))"

end
