(* ===== verification/Api_Server.thy ===== *)
theory Api_Server
  imports Gfire_Config Api_Openapi
begin

text \<open>
  The REST API (\<^verbatim>\<open>internal/api\<close>): requests, routes, the middleware in front of them and one function
  per handler, over an arbitrary store. What Go's standard library does to the bytes of a request is
  in the record \<open>lib\<close>: the strict JSON decoder of each request type (which gets the size limit that
  \<^verbatim>\<open>maxBody\<close> installs and the body), \<^verbatim>\<open>time.ParseDuration\<close>, the printer of durations and the JSON
  codec. A response carries its JSON value; \<open>Abort\<close> is a handler that panicked. Paths are clean (the
  multiplexer redirects others) and given as their segments.
\<close>

section \<open>Requests and responses\<close>

record request =
  rq_method :: string
  rq_path :: "string list"
  rq_header :: "string \<Rightarrow> string"
  rq_query :: "string \<Rightarrow> string"
  rq_body :: string
  rq_limit :: int64
  rq_ctx :: ctx
  rq_id :: string

datatype response = Resp nat json | RespText nat string | Abort string

record enqueueRequest =
  eq_Name :: string
  eq_Args :: bytes
  eq_Queue :: string
  eq_RetryMax :: int
  eq_Timeout :: string

record scheduleRequest =
  sr_Enqueue :: enqueueRequest
  sr_EnqueueAt :: time

record continueRequest =
  cq_ChildName :: string
  cq_ChildArgs :: bytes
  cq_ChildQueue :: string
  cq_Condition :: string

record recurringRequest =
  rr_ID :: string
  rr_JobName :: string
  rr_Args :: bytes
  rr_Queue :: string
  rr_CronExpr :: string
  rr_Enabled :: "bool option"

record lib =
  lib_enqueue :: "int64 \<Rightarrow> string \<Rightarrow> enqueueRequest result"
  lib_batch :: "int64 \<Rightarrow> string \<Rightarrow> enqueueRequest list result"
  lib_schedule :: "int64 \<Rightarrow> string \<Rightarrow> scheduleRequest result"
  lib_continue :: "int64 \<Rightarrow> string \<Rightarrow> continueRequest result"
  lib_recurring :: "int64 \<Rightarrow> string \<Rightarrow> recurringRequest result"
  lib_ParseDuration :: "string \<Rightarrow> duration option"
  lib_Duration_String :: "duration \<Rightarrow> string"
  lib_Time_MarshalJSON :: "time \<Rightarrow> string"
  lib_codec :: json_codec
  lib_cron :: cron

definition writeError :: "nat \<Rightarrow> string \<Rightarrow> response" where
  "writeError status msg = Resp status (JObj [(''error'', JStr msg)])"

definition jnum :: "int \<Rightarrow> json" where
  "jnum i = JNum (show_int i)"

text \<open>A nil slice is encoded as null.\<close>

definition jslice :: "json list \<Rightarrow> json" where
  "jslice xs = (if xs = [] then JNull else JArr xs)"

definition jtime :: "lib \<Rightarrow> time \<Rightarrow> json" where
  "jtime l t = JStr (lib_Time_MarshalJSON l t)"

text \<open>\<^verbatim>\<open>encoding/json\<close> writes a \<^verbatim>\<open>[]byte\<close> as a string in standard base64, a nil slice as null.\<close>

definition base64_char :: "nat \<Rightarrow> char" where
  "base64_char n = ''ABCDEFGHIJKLMNOPQRSTUVWXYZabcdefghijklmnopqrstuvwxyz0123456789+/'' ! (n mod 64)"

fun base64_bytes :: "nat list \<Rightarrow> string" where
  "base64_bytes (a # b # c # r) = map base64_char [a div 4, (a mod 4) * 16 + b div 16, (b mod 16) * 4 + c div 64, c]
     @ base64_bytes r"
| "base64_bytes [a, b] = map base64_char [a div 4, (a mod 4) * 16 + b div 16, (b mod 16) * 4] @ ''=''"
| "base64_bytes [a] = map base64_char [a div 4, (a mod 4) * 16] @ ''==''"
| "base64_bytes [] = ''''"

definition jbytes :: "bytes \<Rightarrow> json" where
  "jbytes b = (case b of None \<Rightarrow> JNull | Some xs \<Rightarrow> JStr (base64_bytes (map of_char xs)))"

definition or_else :: "string \<Rightarrow> string \<Rightarrow> string" where
  "or_else d v = (if v = '''' then d else v)"

definition args_or_empty :: "bytes \<Rightarrow> bytes" where
  "args_or_empty a = (if blen a > 0 then append_nil a else Some ''{}'')"

section \<open>Enqueueing\<close>

text \<open>The job both enqueue handlers build from a request; \<open>None\<close> for an invalid timeout.\<close>

definition request_job :: "lib \<Rightarrow> enqueueRequest \<Rightarrow> job option" where
  "request_job l req =
     (let job = (new_job (eq_Name req) (args_or_empty (eq_Args req)) (or_else ''default'' (eq_Queue req)))
                  \<lparr>j_RetryMax := eq_RetryMax req\<rparr>
      in if eq_Timeout req \<noteq> '''' then
           (case lib_ParseDuration l (eq_Timeout req) of
              None \<Rightarrow> None
            | Some d \<Rightarrow> Some (job\<lparr>j_Timeout := d\<rparr>))
         else Some job)"

text \<open>Enqueue through the store, idempotently when the job has a key.\<close>

definition submit ::
  "'s storage_ops \<Rightarrow> env \<Rightarrow> ctx \<Rightarrow> job \<Rightarrow> 's \<Rightarrow> 's \<times> string result" where
  "submit ops e c job s =
     (if j_IdempotencyKey job \<noteq> '''' then
        (let (s, r) = op_EnqueueIdempotent ops e c (j_Queue job) job s in (s, Gfire_Prelude.map_result fst r))
      else op_Enqueue ops e c (j_Queue job) job s)"

definition handleEnqueue ::
  "lib \<Rightarrow> 's storage_ops \<Rightarrow> world \<Rightarrow> request \<Rightarrow> 's \<Rightarrow> 's \<times> response" where
  "handleEnqueue l ops w r s =
     (case lib_enqueue l (rq_limit r) (rq_body r) of
        Panic p \<Rightarrow> (s, Abort p)
      | Err err \<Rightarrow> (s, writeError 400 (Error err))
      | Ok req \<Rightarrow>
          if eq_Name req = '''' then (s, writeError 400 ''name is required'')
          else
            (case request_job l req of
               None \<Rightarrow> (s, writeError 400 ''invalid timeout'')
             | Some job \<Rightarrow>
                 let idemKey = rq_header r ''Idempotency-Key'';
                     job = job\<lparr>j_IdempotencyKey := idemKey\<rparr>;
                     (s, res) = submit ops (w 0) (rq_ctx r) job s
                 in case res of
                      Panic p \<Rightarrow> (s, Abort p)
                    | Err err \<Rightarrow> (s, writeError 500 (Error err))
                    | Ok i \<Rightarrow> (s, Resp 201 (JObj [(''job_id'', JStr i), (''status'', JStr ''enqueued''),
                                  (''queue'', JStr (j_Queue job))]))))"

record acceptedEntry =
  ac_JobID :: string
  ac_Name :: string
  ac_Queue :: string

record rejectedEntry =
  rj_Name :: string
  rj_Reason :: string
  rj_Index :: nat

definition batch_key :: "string \<Rightarrow> nat \<Rightarrow> string" where
  "batch_key key i = (if key \<noteq> '''' then key @ '':'' @ show_nat i else '''')"

fun batch_loop ::
  "lib \<Rightarrow> 's storage_ops \<Rightarrow> world \<Rightarrow> ctx \<Rightarrow> string \<Rightarrow> nat \<Rightarrow> enqueueRequest list \<Rightarrow> 's
     \<Rightarrow> 's \<times> (acceptedEntry list \<times> rejectedEntry list) result" where
  "batch_loop l ops w c key i [] s = (s, Ok ([], []))"
| "batch_loop l ops w c key i (jr # jrs) s =
     (let reject = (\<lambda>reason s.
            let (s, r) = batch_loop l ops w c key (Suc i) jrs s
            in (s, Gfire_Prelude.map_result
                     (\<lambda>(acc, rej). (acc, \<lparr>rj_Name = eq_Name jr, rj_Reason = reason, rj_Index = i\<rparr> # rej)) r))
      in if eq_Name jr = '''' then reject ''name is required'' s
         else
           (case request_job l jr of
              None \<Rightarrow> reject (''invalid timeout: '' @ eq_Timeout jr) s
            | Some job \<Rightarrow>
                let job = job\<lparr>j_IdempotencyKey := batch_key key i\<rparr>;
                    (s, res) = submit ops (w i) c job s
                in case res of
                     Panic p \<Rightarrow> (s, Panic p)
                   | Err err \<Rightarrow> reject (''enqueue failed: '' @ Error err) s
                   | Ok jobID \<Rightarrow>
                       let (s, r) = batch_loop l ops w c key (Suc i) jrs s
                       in (s, Gfire_Prelude.map_result
                            (\<lambda>(acc, rej). (\<lparr>ac_JobID = jobID, ac_Name = eq_Name jr, ac_Queue = j_Queue job\<rparr> # acc, rej)) r)))"

definition accepted_json :: "acceptedEntry \<Rightarrow> json" where
  "accepted_json a = JObj [(''job_id'', JStr (ac_JobID a)), (''name'', JStr (ac_Name a)),
     (''queue'', JStr (ac_Queue a))]"

definition rejected_json :: "rejectedEntry \<Rightarrow> json" where
  "rejected_json a = JObj [(''name'', JStr (rj_Name a)), (''reason'', JStr (rj_Reason a)),
     (''index'', jnum (int (rj_Index a)))]"

definition handleBatchEnqueue ::
  "lib \<Rightarrow> 's storage_ops \<Rightarrow> world \<Rightarrow> request \<Rightarrow> 's \<Rightarrow> 's \<times> response" where
  "handleBatchEnqueue l ops w r s =
     (case lib_batch l (rq_limit r) (rq_body r) of
        Panic p \<Rightarrow> (s, Abort p)
      | Err err \<Rightarrow> (s, writeError 400 (Error err))
      | Ok jobs \<Rightarrow>
          if jobs = [] then (s, writeError 400 ''jobs array is required and must not be empty'')
          else
            let batchIdemKey = rq_header r ''Idempotency-Key'';
                (s, res) = batch_loop l ops w (rq_ctx r) batchIdemKey 0 jobs s
            in case res of
                 Ok (accepted, rejected) \<Rightarrow>
                   let status = (if accepted = [] then 400 else 201)
                   in (s, Resp status (JObj [(''accepted'', jslice (map accepted_json accepted)),
                            (''rejected'', jslice (map rejected_json rejected)),
                            (''total'', jnum (int (length jobs)))]))
               | Err err \<Rightarrow> (s, writeError 500 (Error err))
               | Panic p \<Rightarrow> (s, Abort p))"

definition handleSchedule ::
  "lib \<Rightarrow> 's storage_ops \<Rightarrow> world \<Rightarrow> request \<Rightarrow> 's \<Rightarrow> 's \<times> response" where
  "handleSchedule l ops w r s =
     (case lib_schedule l (rq_limit r) (rq_body r) of
        Panic p \<Rightarrow> (s, Abort p)
      | Err err \<Rightarrow> (s, writeError 400 (Error err))
      | Ok sreq \<Rightarrow>
          let req = sr_Enqueue sreq in
          if eq_Name req = '''' then (s, writeError 400 ''name is required'')
          else if sr_EnqueueAt sreq = 0 then (s, writeError 400 ''enqueue_at is required'')
          else
            let queue = or_else ''default'' (eq_Queue req);
                args = args_or_empty (eq_Args req);
                job = (new_job (eq_Name req) args queue)\<lparr>j_RetryMax := eq_RetryMax req\<rparr>;
                (s, res) = op_AddScheduled ops (w 0) (rq_ctx r) (sr_EnqueueAt sreq) job s
            in case res of
                 Panic p \<Rightarrow> (s, Abort p)
               | Err err \<Rightarrow> (s, writeError 500 (Error err))
               | Ok i \<Rightarrow> (s, Resp 201 (JObj [(''job_id'', JStr i), (''status'', JStr ''scheduled''),
                             (''enqueue_at'', JStr (rfc3339 (w 0) (sr_EnqueueAt sreq)))])))"

section \<open>Reading and managing jobs\<close>

definition unmarshal_any :: "lib \<Rightarrow> bytes \<Rightarrow> json" where
  "unmarshal_any l b = (case cd_Unmarshal (lib_codec l) (raw b) of Some v \<Rightarrow> v | None \<Rightarrow> JNull)"

definition state_json :: "lib \<Rightarrow> jobState \<Rightarrow> json" where
  "state_json l st = JObj [(''name'', JStr (js_Name st)), (''reason'', JStr (js_Reason st)),
     (''data'', if js_Data st = [] then JNull else JObj (map (\<lambda>(k, v). (k, JStr v)) (js_Data st))),
     (''created_at'', jtime l (js_CreatedAt st))]"

definition jobResponse :: "lib \<Rightarrow> jobWithStates \<Rightarrow> json" where
  "jobResponse l jw =
     (let j = jw_Job jw in
      JObj [(''job'', JObj [(''id'', JStr (j_ID j)), (''name'', JStr (j_Name j)),
              (''args'', unmarshal_any l (j_Args j)), (''queue'', JStr (j_Queue j)),
              (''retry_max'', jnum (j_RetryMax j)), (''timeout'', JStr (lib_Duration_String l (j_Timeout j))),
              (''created_at'', jtime l (j_CreatedAt j)),
              (''result'', if blen (j_Result j) > 0 then unmarshal_any l (j_Result j) else JNull)]),
            (''states'', JArr (map (state_json l) (jw_States jw))),
            (''current_state'', JStr (CurrentState jw))])"

definition handleGetJob :: "lib \<Rightarrow> 's storage_ops \<Rightarrow> request \<Rightarrow> string \<Rightarrow> 's \<Rightarrow> response" where
  "handleGetJob l ops r i s =
     (case op_GetJob ops (rq_ctx r) i s of
        Ok jw \<Rightarrow> Resp 200 (jobResponse l jw)
      | Err _ \<Rightarrow> writeError 404 ''job not found''
      | Panic p \<Rightarrow> Abort p)"

text \<open>
  \<^verbatim>\<open>fmt.Sscanf(v, "%d", &n)\<close>: leading blanks (no newline), an optional sign, decimal digits; what
  follows is ignored; a value outside 64 bits is an error.
\<close>

definition sscanf_d :: "string \<Rightarrow> int option" where
  "sscanf_d v =
     (let v = trim_front (filter (\<lambda>r. r \<noteq> bytes_of [10]) space_runes) (length v) v;
          neg = (v \<noteq> [] \<and> hd v = CHR ''-'');
          v = (if v \<noteq> [] \<and> (hd v = CHR ''-'' \<or> hd v = CHR ''+'') then tl v else v);
          ds = takeWhile is_digit v;
          n = (if neg then - int (digits_value ds) else int (digits_value ds))
      in if ds = [] \<or> n < - (2 ^ 63) \<or> n \<ge> 2 ^ 63 then None else Some n)"

definition queryInt :: "request \<Rightarrow> string \<Rightarrow> int \<Rightarrow> int" where
  "queryInt r key def =
     (let v = rq_query r key in
      if v = '''' then def
      else case sscanf_d v of
             None \<Rightarrow> def
           | Some n \<Rightarrow> if n \<le> 0 then def else n)"

definition handleListJobs :: "lib \<Rightarrow> 's storage_ops \<Rightarrow> env \<Rightarrow> request \<Rightarrow> 's \<Rightarrow> response" where
  "handleListJobs l ops e r s =
     (let state = rq_query r ''state'';
          limit = queryInt r ''limit'' 50;
          offset = queryInt r ''offset'' 0
      in case op_GetJobsByState ops e (rq_ctx r) state offset limit s of
           Ok jobs \<Rightarrow> Resp 200 (JObj [(''jobs'', JArr (map (jobResponse l) jobs))])
         | Err err \<Rightarrow> writeError 500 (Error err)
         | Panic p \<Rightarrow> Abort p)"

definition handleRequeue :: "'s storage_ops \<Rightarrow> env \<Rightarrow> request \<Rightarrow> string \<Rightarrow> 's \<Rightarrow> 's \<times> response" where
  "handleRequeue ops e r i s =
     (let (s, res) = op_Requeue ops e (rq_ctx r) i ''manual requeue'' s
      in case res of
           Ok _ \<Rightarrow> (s, Resp 200 (JObj [(''status'', JStr ''enqueued'')]))
         | Err err \<Rightarrow> (s, writeError 409 (Error err))
         | Panic p \<Rightarrow> (s, Abort p))"

definition handleCancel :: "request \<Rightarrow> string \<Rightarrow> engine option \<Rightarrow> engine option \<times> response" where
  "handleCancel r i eng =
     (case eng of
        None \<Rightarrow> (None, writeError 501 ''engine not available'')
      | Some en \<Rightarrow>
          let (en, res) = CancelJob i en
          in case res of
               Ok _ \<Rightarrow> (Some en, Resp 200 (JObj [(''status'', JStr ''cancelling'')]))
             | Err err \<Rightarrow> (Some en, writeError 409 (Error err))
             | Panic p \<Rightarrow> (Some en, Abort p))"

definition handleDelete :: "'s storage_ops \<Rightarrow> env \<Rightarrow> request \<Rightarrow> string \<Rightarrow> 's \<Rightarrow> 's \<times> response" where
  "handleDelete ops e r i s =
     (let (s, res) = op_DeleteJob ops e (rq_ctx r) i s
      in case res of
           Ok _ \<Rightarrow> (s, Resp 200 (JObj [(''status'', JStr ''deleted'')]))
         | Err err \<Rightarrow> (s, writeError 409 (Error err))
         | Panic p \<Rightarrow> (s, Abort p))"

definition handleContinue :: "lib \<Rightarrow> 's storage_ops \<Rightarrow> world \<Rightarrow> request \<Rightarrow> string \<Rightarrow> 's \<Rightarrow> 's \<times> response" where
  "handleContinue l ops w r parentID s =
     (case lib_continue l (rq_limit r) (rq_body r) of
        Panic p \<Rightarrow> (s, Abort p)
      | Err err \<Rightarrow> (s, writeError 400 (Error err))
      | Ok req \<Rightarrow>
          if cq_ChildName req = '''' then (s, writeError 400 ''child_name is required'')
          else
            let entry = \<lparr>c_ChildName = cq_ChildName req, c_ChildArgs = args_or_empty (cq_ChildArgs req),
                         c_ChildQueue = cq_ChildQueue req,
                         c_Condition = or_else ConditionOnSucceeded (cq_Condition req),
                         c_CreatedAt = now_at (w 0) 0\<rparr>;
                (s, res) = op_AddContinuation ops (w 1) (rq_ctx r) parentID entry s
            in case res of
                 Ok _ \<Rightarrow> (s, Resp 201 (JObj [(''status'', JStr ''registered'')]))
               | Err err \<Rightarrow> (s, writeError 400 (Error err))
               | Panic p \<Rightarrow> (s, Abort p))"

section \<open>Health, queues, servers\<close>

definition handleHealthz :: "string \<Rightarrow> string \<Rightarrow> response" where
  "handleHealthz version commit = Resp 200 (JObj [(''status'', JStr ''ok''), (''version'', JStr version),
     (''commit'', JStr commit)])"

definition handleReadyz :: "'s storage_ops option \<Rightarrow> env \<Rightarrow> request \<Rightarrow> 's \<Rightarrow> response" where
  "handleReadyz store e r s =
     (case store of
        None \<Rightarrow> writeError 503 ''storage unavailable''
      | Some ops \<Rightarrow>
          (case op_GetQueues ops e (rq_ctx r) s of
             Ok _ \<Rightarrow> Resp 200 (JObj [(''status'', JStr ''ok'')])
           | Err _ \<Rightarrow> writeError 503 ''storage unreachable''
           | Panic p \<Rightarrow> Abort p))"

text \<open>\<^verbatim>\<open>depth, _ := GetQueueLength(...)\<close>: zero when the call fails.\<close>

definition depth_of :: "'s storage_ops \<Rightarrow> ctx \<Rightarrow> string \<Rightarrow> 's \<Rightarrow> int" where
  "depth_of ops c q s = (case op_GetQueueLength ops c q s of Ok n \<Rightarrow> sint n | _ \<Rightarrow> 0)"

definition handleListQueues :: "'s storage_ops \<Rightarrow> env \<Rightarrow> request \<Rightarrow> 's \<Rightarrow> response" where
  "handleListQueues ops e r s =
     (case op_GetQueues ops e (rq_ctx r) s of
        Ok names \<Rightarrow> Resp 200 (JObj [(''queues'', JArr (map (\<lambda>q.
            JObj [(''name'', JStr q), (''depth'', jnum (depth_of ops (rq_ctx r) q s))]) names))])
      | Err err \<Rightarrow> writeError 500 (Error err)
      | Panic p \<Rightarrow> Abort p)"

definition handleGetQueue :: "'s storage_ops \<Rightarrow> request \<Rightarrow> string \<Rightarrow> 's \<Rightarrow> response" where
  "handleGetQueue ops r q s =
     (case op_GetQueueLength ops (rq_ctx r) q s of
        Ok depth \<Rightarrow> Resp 200 (JObj [(''name'', JStr q), (''depth'', jnum (sint depth))])
      | Err err \<Rightarrow> writeError 500 (Error err)
      | Panic p \<Rightarrow> Abort p)"

definition server_json :: "lib \<Rightarrow> serverInfo \<Rightarrow> json" where
  "server_json l sv = JObj [(''id'', JStr (sv_ID sv)), (''started_at'', jtime l (sv_StartedAt sv)),
     (''last_heartbeat'', jtime l (sv_LastHeartbeat sv)), (''worker_count'', jnum (sv_WorkerCount sv)),
     (''queues'', jslice (map JStr (sv_Queues sv))), (''status'', JStr (sv_Status sv))]"

definition handleListServers :: "lib \<Rightarrow> 's storage_ops \<Rightarrow> env \<Rightarrow> request \<Rightarrow> 's \<Rightarrow> response" where
  "handleListServers l ops e r s =
     (case op_GetServers ops e (rq_ctx r) s of
        Ok servers \<Rightarrow> Resp 200 (JObj [(''servers'', jslice (map (server_json l) servers))])
      | Err err \<Rightarrow> writeError 500 (Error err)
      | Panic p \<Rightarrow> Abort p)"

section \<open>Recurring definitions\<close>

definition recurring_json :: "lib \<Rightarrow> recurringJobEntry \<Rightarrow> json" where
  "recurring_json l d = JObj ([(''id'', JStr (r_ID d)), (''job_name'', JStr (r_JobName d)),
     (''args'', jbytes (r_Args d)), (''queue'', JStr (r_Queue d)), (''cron_expr'', JStr (r_CronExpr d))] @
     (case r_LastRun d of None \<Rightarrow> [] | Some t \<Rightarrow> [(''last_run'', jtime l t)]) @
     (case r_NextRun d of None \<Rightarrow> [] | Some t \<Rightarrow> [(''next_run'', jtime l t)]) @
     [(''enabled'', JBool (r_Enabled d)), (''created_at'', jtime l (r_CreatedAt d)),
      (''updated_at'', jtime l (r_UpdatedAt d))])"

definition handleListRecurring :: "lib \<Rightarrow> 's storage_ops \<Rightarrow> env \<Rightarrow> request \<Rightarrow> 's \<Rightarrow> response" where
  "handleListRecurring l ops e r s =
     (case op_GetRecurringJobs ops e (rq_ctx r) s of
        Ok entries \<Rightarrow> Resp 200 (JObj [(''recurring'', JArr (map (recurring_json l) entries))])
      | Err err \<Rightarrow> writeError 500 (Error err)
      | Panic p \<Rightarrow> Abort p)"

definition handleCreateRecurring ::
  "lib \<Rightarrow> 's storage_ops \<Rightarrow> world \<Rightarrow> request \<Rightarrow> 's \<Rightarrow> 's \<times> response" where
  "handleCreateRecurring l ops w r s =
     (case lib_recurring l (rq_limit r) (rq_body r) of
        Panic p \<Rightarrow> (s, Abort p)
      | Err err \<Rightarrow> (s, writeError 400 (Error err))
      | Ok req \<Rightarrow>
          if rr_ID req = '''' \<or> rr_JobName req = '''' \<or> rr_CronExpr req = '''' then
            (s, writeError 400 ''id, job_name, and cron_expr are required'')
          else
            (case ParseRecurringCron (lib_cron l) (rr_CronExpr req) of
               Panic p \<Rightarrow> (s, Abort p)
             | Err err \<Rightarrow> (s, writeError 400 (''invalid cron_expr: '' @ Error err))
             | Ok _ \<Rightarrow>
                 let now = now_at (w 0) 0;
                     entry = \<lparr>r_ID = rr_ID req, r_JobName = rr_JobName req, r_Args = args_or_empty (rr_Args req),
                       r_Queue = or_else ''default'' (rr_Queue req), r_CronExpr = rr_CronExpr req,
                       r_LastRun = None,
                       r_NextRun = (case NextRecurringRun (lib_cron l) (rr_CronExpr req) now of
                                      Ok next \<Rightarrow> Some next | _ \<Rightarrow> None),
                       r_Enabled = (case rr_Enabled req of None \<Rightarrow> True | Some b \<Rightarrow> b),
                       r_CreatedAt = now, r_UpdatedAt = now\<rparr>;
                     (s, res) = op_UpsertRecurring ops (w 1) (rq_ctx r) entry s
                 in case res of
                      Panic p \<Rightarrow> (s, Abort p)
                    | Err err \<Rightarrow> (s, writeError 500 (Error err))
                    | Ok _ \<Rightarrow> (s, Resp 201 (JObj [(''id'', JStr (r_ID entry)), (''job_name'', JStr (r_JobName entry)),
                         (''cron_expr'', JStr (r_CronExpr entry)), (''enabled'', JBool (r_Enabled entry))]))))"

definition handleDeleteRecurring :: "'s storage_ops \<Rightarrow> request \<Rightarrow> string \<Rightarrow> 's \<Rightarrow> 's \<times> response" where
  "handleDeleteRecurring ops r i s =
     (if i = '''' then (s, writeError 400 ''id is required'')
      else
        let (s, res) = op_RemoveRecurring ops (rq_ctx r) i s
        in case res of
             Ok _ \<Rightarrow> (s, Resp 200 (JObj [(''status'', JStr ''removed'')]))
           | Err err \<Rightarrow> (s, writeError 404 (Error err))
           | Panic p \<Rightarrow> (s, Abort p))"

definition handleTriggerRecurring ::
  "lib \<Rightarrow> 's storage_ops \<Rightarrow> world \<Rightarrow> request \<Rightarrow> string \<Rightarrow> 's \<Rightarrow> 's \<times> response" where
  "handleTriggerRecurring l ops w r i s =
     (if i = '''' then (s, writeError 400 ''id is required'')
      else
        (case op_GetRecurringJobs ops (w 0) (rq_ctx r) s of
           Panic p \<Rightarrow> (s, Abort p)
         | Err err \<Rightarrow> (s, writeError 500 (Error err))
         | Ok entries \<Rightarrow>
             (case find (\<lambda>d. r_ID d = i) entries of
                None \<Rightarrow> (s, writeError 404 ''recurring job not found'')
              | Some entry \<Rightarrow>
                  let queue = or_else ''default'' (r_Queue entry);
                      args = (if blen (r_Args entry) = 0 then Some ''{}'' else r_Args entry);
                      job = new_job (r_JobName entry) args queue;
                      (s, res) = op_Enqueue ops (w 1) (rq_ctx r) queue job s
                  in case res of
                       Panic p \<Rightarrow> (s, Abort p)
                     | Err err \<Rightarrow> (s, writeError 500 (Error err))
                     | Ok jobID \<Rightarrow>
                         let now = now_at (w 2) 7;
                             nextRun = (case NextRecurringRun (lib_cron l) (r_CronExpr entry) now of
                                          Ok next \<Rightarrow> next | _ \<Rightarrow> now);
                             s = fst (op_UpdateRecurringLastRun ops (w 2) (rq_ctx r) i now nextRun s)
                         in (s, Resp 201 (JObj [(''recurring_id'', JStr i), (''job_id'', JStr jobID),
                              (''status'', JStr ''triggered'')])))))"

section \<open>Metrics\<close>

definition nl :: string where "nl = bytes_of [10]"
definition dq :: string where "dq = bytes_of [34]"

definition counter_lines :: "string \<times> int64 \<Rightarrow> string" where
  "counter_lines = (\<lambda>(name, val).
     ''# HELP gfire_jobs_'' @ name @ ''_total Total jobs '' @ name @ ''.'' @ nl @
     ''# TYPE gfire_jobs_'' @ name @ ''_total counter'' @ nl @
     ''gfire_jobs_'' @ name @ ''_total '' @ show_int (sint val) @ nl)"

definition queue_lines :: "string \<Rightarrow> int \<Rightarrow> string" where
  "queue_lines q n =
     ''# HELP gfire_queue_depth Number of enqueued jobs per queue.'' @ nl @
     ''# TYPE gfire_queue_depth gauge'' @ nl @
     ''gfire_queue_depth{queue='' @ dq @ q @ dq @ ''} '' @ show_int n @ nl"

definition server_lines :: "serverInfo list \<Rightarrow> string" where
  "server_lines servers =
     (let active = length (filter (\<lambda>sv. sv_Status sv = ''active'') servers) in
      ''# HELP gfire_servers Number of registered servers.'' @ nl @
      ''# TYPE gfire_servers gauge'' @ nl @
      ''gfire_servers{status='' @ dq @ ''active'' @ dq @ ''} '' @ show_int (int active) @ nl @
      ''gfire_servers{status='' @ dq @ ''total'' @ dq @ ''} '' @ show_int (int (length servers)) @ nl)"

definition handleMetrics ::
  "'s storage_ops \<Rightarrow> world \<Rightarrow> request \<Rightarrow> engine option \<Rightarrow> 's \<Rightarrow> response" where
  "handleMetrics ops w r eng s =
     (let counters = (case op_GetAllCounters ops (w 0) (rq_ctx r) 0 100 s of Ok cs \<Rightarrow> cs | _ \<Rightarrow> []);
          b = concat (map counter_lines counters);
          b = b @ (case op_GetQueues ops (w 1) (rq_ctx r) s of
                     Ok queues \<Rightarrow> concat (map (\<lambda>q. queue_lines q (depth_of ops (rq_ctx r) q s)) queues)
                   | _ \<Rightarrow> []);
          b = b @ (case op_GetServers ops (w 2) (rq_ctx r) s of
                     Ok servers \<Rightarrow> server_lines servers
                   | _ \<Rightarrow> []);
          b = b @ (case eng of
                     None \<Rightarrow> []
                   | Some en \<Rightarrow>
                       ''# HELP gfire_workers_active In-flight jobs on this node.'' @ nl @
                       ''# TYPE gfire_workers_active gauge'' @ nl @
                       ''gfire_workers_active '' @ show_int (ActiveCount (key_order (w 3)) en) @ nl)
      in RespText 200 b)"

definition handleOpenAPI :: response where
  "handleOpenAPI = Resp 200 openapiSpec"

section \<open>Routes\<close>

text \<open>
  The patterns of \<^verbatim>\<open>Server.routes\<close>: a method, path segments (\<open>Wild\<close> is a \<^verbatim>\<open>{name}\<close> segment, which matches
  one non-empty segment) and the handler. A path that ends in a slash has an empty last segment.
\<close>

datatype seg = Lit string | Wild

datatype endpoint =
    EHealthz | EReadyz | EEnqueue | EBatchEnqueue | ESchedule | EGetJob | EListJobs | ERequeue | ECancel
  | EDelete | EContinue | EListQueues | EGetQueue | EListServers | EMetrics | EOpenAPI | EListRecurring
  | ECreateRecurring | EDeleteRecurring | ETriggerRecurring

definition routes :: "(string \<times> seg list \<times> endpoint) list" where
  "routes =
    [(''GET'', [Lit ''healthz''], EHealthz),
     (''GET'', [Lit ''readyz''], EReadyz),
     (''POST'', [Lit ''v1'', Lit ''jobs'', Lit ''enqueue''], EEnqueue),
     (''POST'', [Lit ''v1'', Lit ''jobs'', Lit ''enqueue'', Lit ''batch''], EBatchEnqueue),
     (''POST'', [Lit ''v1'', Lit ''jobs'', Lit ''schedule''], ESchedule),
     (''GET'', [Lit ''v1'', Lit ''jobs'', Wild], EGetJob),
     (''GET'', [Lit ''v1'', Lit ''jobs''], EListJobs),
     (''POST'', [Lit ''v1'', Lit ''jobs'', Wild, Lit ''requeue''], ERequeue),
     (''POST'', [Lit ''v1'', Lit ''jobs'', Wild, Lit ''cancel''], ECancel),
     (''POST'', [Lit ''v1'', Lit ''jobs'', Wild, Lit ''delete''], EDelete),
     (''POST'', [Lit ''v1'', Lit ''jobs'', Wild, Lit ''continue''], EContinue),
     (''GET'', [Lit ''v1'', Lit ''queues''], EListQueues),
     (''GET'', [Lit ''v1'', Lit ''queues'', Wild], EGetQueue),
     (''GET'', [Lit ''v1'', Lit ''servers''], EListServers),
     (''GET'', [Lit ''metrics''], EMetrics),
     (''GET'', [Lit ''openapi.json''], EOpenAPI),
     (''GET'', [Lit ''v1'', Lit ''recurring''], EListRecurring),
     (''POST'', [Lit ''v1'', Lit ''recurring''], ECreateRecurring),
     (''DELETE'', [Lit ''v1'', Lit ''recurring'', Wild], EDeleteRecurring),
     (''POST'', [Lit ''v1'', Lit ''recurring'', Wild, Lit ''trigger''], ETriggerRecurring)]"

fun match_segs :: "seg list \<Rightarrow> string list \<Rightarrow> bool" where
  "match_segs [] [] = True"
| "match_segs (Lit a # ps) (x # xs) = (x = a \<and> match_segs ps xs)"
| "match_segs (Wild # ps) (x # xs) = (x \<noteq> '''' \<and> match_segs ps xs)"
| "match_segs _ _ = False"

text \<open>\<^verbatim>\<open>r.PathValue(name)\<close>: no pattern has more than one wildcard.\<close>

fun PathValue :: "seg list \<Rightarrow> string list \<Rightarrow> string" where
  "PathValue (Wild # ps) (x # xs) = x"
| "PathValue (Lit a # ps) (x # xs) = PathValue ps xs"
| "PathValue _ _ = ''''"

definition route_for :: "string \<Rightarrow> string list \<Rightarrow> (string \<times> seg list \<times> endpoint) option" where
  "route_for m path = find (\<lambda>(m', p, _). m' = m \<and> match_segs p path) routes"

text \<open>\<^verbatim>\<open>http.ServeMux\<close>: HEAD falls back on GET; a path known under other methods only is a 405.\<close>

definition mux_match :: "string \<Rightarrow> string list \<Rightarrow> (endpoint \<times> string) + nat" where
  "mux_match m path =
     (case (case route_for m path of
              None \<Rightarrow> if m = ''HEAD'' then route_for ''GET'' path else None
            | Some r \<Rightarrow> Some r) of
        Some (_, p, ep) \<Rightarrow> Inl (ep, PathValue p path)
      | None \<Rightarrow> Inr (if \<exists>(m', p, _) \<in> set routes. match_segs p path then 405 else 404))"

section \<open>The server\<close>

text \<open>
  \<^verbatim>\<open>api.Server\<close> over the store \<open>'s\<close> and the engine (\<open>None\<close> for a nil pointer), which requests may change.
  The two strings are the build stamps of \<^verbatim>\<open>internal/version\<close>. A handler also returns the headers its middleware set.
\<close>

record 's server =
  ap_cfg :: fileConfig
  ap_store :: "'s storage_ops"
  ap_lib :: lib
  ap_version :: string
  ap_commit :: string

type_synonym 's backend_state = "'s \<times> engine option"
type_synonym 's handler = "request \<Rightarrow> 's backend_state \<Rightarrow> 's backend_state \<times> (string \<times> string) list \<times> response"

definition keep :: "response \<Rightarrow> 's backend_state \<Rightarrow> 's backend_state \<times> response" where
  "keep resp x = (x, resp)"

definition on_store :: "('s \<Rightarrow> 's \<times> response) \<Rightarrow> 's backend_state \<Rightarrow> 's backend_state \<times> response" where
  "on_store f x = (let (s, resp) = f (fst x) in ((s, snd x), resp))"

fun dispatch ::
  "'s server \<Rightarrow> world \<Rightarrow> endpoint \<Rightarrow> string \<Rightarrow> request \<Rightarrow> 's backend_state \<Rightarrow> 's backend_state \<times> response" where
  "dispatch sv w EHealthz v r x = keep (handleHealthz (ap_version sv) (ap_commit sv)) x"
| "dispatch sv w EReadyz v r x = keep (handleReadyz (Some (ap_store sv)) (w 0) r (fst x)) x"
| "dispatch sv w EEnqueue v r x = on_store (handleEnqueue (ap_lib sv) (ap_store sv) w r) x"
| "dispatch sv w EBatchEnqueue v r x = on_store (handleBatchEnqueue (ap_lib sv) (ap_store sv) w r) x"
| "dispatch sv w ESchedule v r x = on_store (handleSchedule (ap_lib sv) (ap_store sv) w r) x"
| "dispatch sv w EGetJob v r x = keep (handleGetJob (ap_lib sv) (ap_store sv) r v (fst x)) x"
| "dispatch sv w EListJobs v r x = keep (handleListJobs (ap_lib sv) (ap_store sv) (w 0) r (fst x)) x"
| "dispatch sv w ERequeue v r x = on_store (handleRequeue (ap_store sv) (w 0) r v) x"
| "dispatch sv w ECancel v r x = (let (en, resp) = handleCancel r v (snd x) in ((fst x, en), resp))"
| "dispatch sv w EDelete v r x = on_store (handleDelete (ap_store sv) (w 0) r v) x"
| "dispatch sv w EContinue v r x = on_store (handleContinue (ap_lib sv) (ap_store sv) w r v) x"
| "dispatch sv w EListQueues v r x = keep (handleListQueues (ap_store sv) (w 0) r (fst x)) x"
| "dispatch sv w EGetQueue v r x = keep (handleGetQueue (ap_store sv) r v (fst x)) x"
| "dispatch sv w EListServers v r x = keep (handleListServers (ap_lib sv) (ap_store sv) (w 0) r (fst x)) x"
| "dispatch sv w EMetrics v r x = keep (handleMetrics (ap_store sv) w r (snd x) (fst x)) x"
| "dispatch sv w EOpenAPI v r x = keep (handleOpenAPI) x"
| "dispatch sv w EListRecurring v r x = keep (handleListRecurring (ap_lib sv) (ap_store sv) (w 0) r (fst x)) x"
| "dispatch sv w ECreateRecurring v r x = on_store (handleCreateRecurring (ap_lib sv) (ap_store sv) w r) x"
| "dispatch sv w EDeleteRecurring v r x = on_store (handleDeleteRecurring (ap_store sv) r v) x"
| "dispatch sv w ETriggerRecurring v r x = on_store (handleTriggerRecurring (ap_lib sv) (ap_store sv) w r v) x"

definition mux :: "'s server \<Rightarrow> world \<Rightarrow> 's handler" where
  "mux sv w r x =
     (case mux_match (rq_method r) (rq_path r) of
        Inl (ep, v) \<Rightarrow> let (x, resp) = dispatch sv w ep v r x in (x, [], resp)
      | Inr n \<Rightarrow>
          (x, [], RespText n ((if n = 405 then ''Method Not Allowed'' else ''404 page not found'') @ nl)))"

section \<open>Middleware\<close>

definition requestID :: "env \<Rightarrow> 's handler \<Rightarrow> 's handler" where
  "requestID e nxt r x =
     (let i = rq_header r ''X-Request-ID'';
          i = (if i = '''' then new_uuid e 0 else i);
          (x, hs, resp) = nxt (r\<lparr>rq_id := i\<rparr>) x
      in (x, (''X-Request-ID'', i) # hs, resp))"

definition GetRequestID :: "request \<Rightarrow> string" where
  "GetRequestID r = rq_id r"

definition maxBody :: "int64 \<Rightarrow> 's handler \<Rightarrow> 's handler" where
  "maxBody mx nxt r x =
     (let mx = (if sint mx \<le> 0 then push_bit 20 10 else mx)
      in nxt (r\<lparr>rq_limit := mx\<rparr>) x)"

definition url_path :: "request \<Rightarrow> string" where
  "url_path r = concat (map (\<lambda>x. ''/'' @ x) (rq_path r))"

definition bearerAuth :: "string \<Rightarrow> 's handler \<Rightarrow> 's handler" where
  "bearerAuth token nxt r x =
     (if url_path r = ''/healthz'' \<or> url_path r = ''/readyz'' \<or> url_path r = ''/openapi.json'' \<or>
         url_path r = ''/metrics'' then nxt r x
      else
        let h = rq_header r ''Authorization'' in
        if \<not> has_prefix ''Bearer '' h then (x, [], writeError 401 ''unauthorized'')
        else
          let got = drop (length ''Bearer '') h in
          if got \<noteq> token then (x, [], writeError 401 ''unauthorized'')
          else nxt r x)"

definition Handler :: "'s server \<Rightarrow> world \<Rightarrow> 's handler" where
  "Handler sv w =
     (let h = mux sv (later 1 w);
          h = requestID (w 0) h;
          h = maxBody (sc_MaxBodySize (fc_Server (ap_cfg sv))) h
      in if au_Enabled (fc_Auth (ap_cfg sv)) then bearerAuth (au_Token (fc_Auth (ap_cfg sv))) h else h)"

end
