(* ===== verification/Memory_Store.thy ===== *)
theory Memory_Store
  imports Storage_Interface
begin

text \<open>
  The in-memory backend (\<^verbatim>\<open>internal/storage/memory/memory.go\<close>). The state is the Go struct
  \<^verbatim>\<open>Storage\<close> field by field; every method runs under the mutex, so it is one function on the state.
  The wake-up channel of capacity one is a flag (a token is present or not). \<^verbatim>\<open>Dequeue\<close> is
  the one method that handles the mutex by hand; its model carries whether the mutex is held, and
  unlocking it when no goroutine holds it is the runtime's fatal error (if another goroutine has taken
  it in the meantime, the second unlock breaks that goroutine's critical section instead).
\<close>

section \<open>State\<close>

record mstate =
  m_jobs :: "string \<rightharpoonup> job"
  m_jobStates :: "string \<rightharpoonup> jobState list"
  m_queues :: "string \<rightharpoonup> string list"
  m_queueTokens :: "string \<rightharpoonup> int64"
  m_scheduled :: "string \<rightharpoonup> time"
  m_processing :: "string \<rightharpoonup> string"
  m_progress :: "string \<rightharpoonup> time"
  m_recurring :: "string \<rightharpoonup> recurringJobEntry"
  m_continuations :: "string \<rightharpoonup> continuationEntry list"
  m_servers :: "string \<rightharpoonup> serverInfo"
  m_counters :: "string \<rightharpoonup> int64"
  m_locks :: "string \<rightharpoonup> lock"
  m_dequeueCh :: bool
  m_idempotency :: "string \<rightharpoonup> string"

definition mem_New :: mstate where
  "mem_New = \<lparr>m_jobs = Map.empty, m_jobStates = Map.empty, m_queues = Map.empty,
     m_queueTokens = Map.empty, m_scheduled = Map.empty, m_processing = Map.empty,
     m_progress = Map.empty, m_recurring = Map.empty, m_continuations = Map.empty,
     m_servers = Map.empty, m_counters = Map.empty, m_locks = Map.empty, m_dequeueCh = False,
     m_idempotency = Map.empty\<rparr>"

section \<open>Helpers shared by the methods\<close>

text \<open>\<^verbatim>\<open>if s.queues[q] == nil { s.queues[q] = list.New() }; s.queues[q].PushBack(id)\<close>\<close>

definition push_back :: "string \<Rightarrow> string \<Rightarrow> mstate \<Rightarrow> mstate" where
  "push_back q i s = s\<lparr>m_queues := (m_queues s)(q \<mapsto> list_at (m_queues s) q @ [i])\<rparr>"

text \<open>\<^verbatim>\<open>s.jobStates[id] = append(s.jobStates[id], st)\<close>\<close>

definition append_state :: "string \<Rightarrow> jobState \<Rightarrow> mstate \<Rightarrow> mstate" where
  "append_state i st s =
     s\<lparr>m_jobStates := (m_jobStates s)(i \<mapsto> list_at (m_jobStates s) i @ [st])\<rparr>"

definition count :: "string \<Rightarrow> int64 \<Rightarrow> mstate \<Rightarrow> mstate" where
  "count k d s = s\<lparr>m_counters := bump k d (m_counters s)\<rparr>"

text \<open>\<^verbatim>\<open>select { case s.dequeueCh <- struct{}{}: default: }\<close>\<close>

definition signal :: "mstate \<Rightarrow> mstate" where
  "signal s = s\<lparr>m_dequeueCh := True\<rparr>"

section \<open>Queues and job dispatch\<close>

text \<open>The defaults \<^verbatim>\<open>Enqueue\<close> and \<^verbatim>\<open>EnqueueIdempotent\<close> both write into the job.\<close>

definition mem_fill_job :: "env \<Rightarrow> job \<Rightarrow> job" where
  "mem_fill_job e j =
     (let j = (if j_ID j = '''' then j\<lparr>j_ID := new_uuid e 0\<rparr> else j);
          j = j\<lparr>j_CreatedAt := now_at e 0\<rparr>;
          j = (if j_Queue j = '''' then j\<lparr>j_Queue := ''default''\<rparr> else j);
          j = (if j_RetryMax j = 0 then j\<lparr>j_RetryMax := 10\<rparr> else j)
      in j)"

definition mem_insert :: "env \<Rightarrow> string \<Rightarrow> job \<Rightarrow> mstate \<Rightarrow> mstate" where
  "mem_insert e queue j s =
     (let i = j_ID j;
          s = s\<lparr>m_jobs := (m_jobs s)(i \<mapsto> j)\<rparr>;
          s = s\<lparr>m_jobStates := (m_jobStates s)(i \<mapsto> [new_state StateEnqueued '''' [] (now_at e 1)])\<rparr>;
          s = s\<lparr>m_queueTokens := (m_queueTokens s)(i \<mapsto> UnixNano (now_at e 2))\<rparr>;
          s = push_back queue i s
      in count ''enqueued'' 1 s)"

definition mem_Enqueue :: "env \<Rightarrow> ctx \<Rightarrow> string \<Rightarrow> job \<Rightarrow> mstate \<Rightarrow> mstate \<times> string result" where
  "mem_Enqueue e c queue j s =
     (let j = mem_fill_job e j;
          s = mem_insert e queue j s
      in (signal s, Ok (j_ID j)))"

definition mem_EnqueueIdempotent ::
  "env \<Rightarrow> ctx \<Rightarrow> string \<Rightarrow> job \<Rightarrow> mstate \<Rightarrow> mstate \<times> (string \<times> bool) result" where
  "mem_EnqueueIdempotent e c queue j s =
     (let key = j_IdempotencyKey j;
          fresh =
            (let j = mem_fill_job e j;
                 s = mem_insert e queue j s;
                 s = (if key \<noteq> '''' then s\<lparr>m_idempotency := (m_idempotency s)(key \<mapsto> j_ID j)\<rparr> else s)
             in (signal s, Ok (j_ID j, True)))
      in if key \<noteq> '''' then
           (case m_idempotency s key of
              Some existing \<Rightarrow> (s, Ok (existing, False))
            | None \<Rightarrow> fresh)
         else fresh)"

text \<open>
  One pass of \<^verbatim>\<open>Dequeue\<close>'s inner loop over the queues, in order. \<open>held\<close> is whether this goroutine
  holds the mutex: a popped id without a job record unlocks it and continues with the next queue.
\<close>

datatype scan = Found mstate jobTicket | Idle mstate | Fatal string

definition unlock_fatal :: string where
  "unlock_fatal = ''sync: Unlock of unlocked RWMutex''"

definition dequeue_take :: "env \<Rightarrow> string \<Rightarrow> mstate \<Rightarrow> mstate" where
  "dequeue_take e i s =
     (let s = s\<lparr>m_processing := (m_processing s)(i \<mapsto> ''local'')\<rparr>;
          s = s\<lparr>m_progress := (m_progress s)(i \<mapsto> now_at e 0)\<rparr>;
          s = append_state i
                (new_state StateProcessing '''' [(''server_id'', ''local'')] (now_at e 1)) s
      in count ''dequeued'' 1 s)"

fun dequeue_scan :: "env \<Rightarrow> bool \<Rightarrow> string list \<Rightarrow> mstate \<Rightarrow> scan" where
  "dequeue_scan e held [] s = (if held then Idle s else Fatal unlock_fatal)"
| "dequeue_scan e held (q # qs) s =
     (case list_at (m_queues s) q of
        [] \<Rightarrow> dequeue_scan e held qs s
      | i # rest \<Rightarrow>
          let s = s\<lparr>m_queues := (m_queues s)(q \<mapsto> rest)\<rparr> in
          case m_jobs s i of
            None \<Rightarrow> if held then dequeue_scan e False qs s else Fatal unlock_fatal
          | Some j \<Rightarrow>
              if held then
                Found (dequeue_take e i s)
                  \<lparr>t_JobID = j_ID j,
                   t_Token = ''tok-'' @ i @ ''-'' @ show_int (sint (UnixNano (now_at e 2)))\<rparr>
              else Fatal unlock_fatal)"

fun mem_Dequeue ::
  "env \<Rightarrow> ctx \<Rightarrow> string list \<Rightarrow> mstate waits \<Rightarrow> mstate \<Rightarrow> (mstate \<times> jobTicket result) option"
and dequeue_wait ::
  "env \<Rightarrow> ctx \<Rightarrow> string list \<Rightarrow> mstate waits \<Rightarrow> mstate \<Rightarrow> (mstate \<times> jobTicket result) option"
where
  "mem_Dequeue e c queues ws s =
     (case dequeue_scan e True queues s of
        Found s' t \<Rightarrow> Some (s', Ok t)
      | Fatal p \<Rightarrow> Some (s, Panic p)
      | Idle s' \<Rightarrow> dequeue_wait e c queues ws s')"
| "dequeue_wait e c queues [] s = None"
| "dequeue_wait e c queues ((others, w) # ws) s =
     (let s = others s in
      case w of
        WCtxDone err \<Rightarrow> Some (s, Err err)
      | WDeadline \<Rightarrow> Some (s, Err ErrQueueEmpty)
      | WSignal \<Rightarrow>
          if m_dequeueCh s then mem_Dequeue e c queues ws (s\<lparr>m_dequeueCh := False\<rparr>)
          else dequeue_wait e c queues ws s
      | WTick \<Rightarrow> mem_Dequeue e c queues ws s)"

definition mem_Requeue :: "env \<Rightarrow> ctx \<Rightarrow> string \<Rightarrow> string \<Rightarrow> mstate \<Rightarrow> mstate \<times> unit result" where
  "mem_Requeue e c i reason s =
     (case m_jobs s i of
        None \<Rightarrow> (s, Err ErrNotFound)
      | Some j \<Rightarrow>
          let states = list_at (m_jobStates s) i in
          if states \<noteq> [] \<and> IrreversibleStates (js_Name (last states)) then (s, Err ErrTerminalState)
          else
            let s = s\<lparr>m_processing := (m_processing s)(i := None)\<rparr>;
                s = append_state i (new_state StateEnqueued reason [] (now_at e 0)) s;
                s = push_back (j_Queue j) (j_ID j) s
            in (signal s, Ok ()))"

section \<open>State machine\<close>

definition state_counter :: "string \<Rightarrow> mstate \<Rightarrow> mstate" where
  "state_counter name s =
     (if name = StateSucceeded then count ''succeeded'' 1 s
      else if name = StateFailed then count ''failed'' 1 s
      else if name = StateDead then count ''dead'' 1 s
      else s)"

definition mem_ApplyState ::
  "env \<Rightarrow> ctx \<Rightarrow> string \<Rightarrow> string \<Rightarrow> jobState \<Rightarrow> mstate \<Rightarrow> mstate \<times> unit result" where
  "mem_ApplyState e c i expectedCurrent newState s =
     (case m_jobStates s i of
        None \<Rightarrow> (s, Err ErrNotFound)
      | Some states \<Rightarrow>
          let current = (if states \<noteq> [] then js_Name (last states) else StateEnqueued) in
          if current \<noteq> expectedCurrent then (s, Err ErrStateConflict)
          else
            let newState = (if js_CreatedAt newState = 0 then newState\<lparr>js_CreatedAt := now_at e 0\<rparr>
                            else newState);
                s = s\<lparr>m_jobStates := (m_jobStates s)(i \<mapsto> states @ [newState])\<rparr>;
                s = (if expectedCurrent = StateProcessing \<and> js_Name newState \<noteq> StateProcessing
                     then s\<lparr>m_processing := (m_processing s)(i := None)\<rparr> else s)
            in (state_counter (js_Name newState) s, Ok ()))"

definition index_panic :: string where
  "index_panic = ''index out of range [-1]''"

definition mem_ScheduleRetry ::
  "env \<Rightarrow> ctx \<Rightarrow> string \<Rightarrow> time \<Rightarrow> mstate \<Rightarrow> mstate \<times> unit result" where
  "mem_ScheduleRetry e c i enqueueAt s =
     (case m_jobStates s i of
        None \<Rightarrow> (s, Err ErrNotFound)
      | Some states \<Rightarrow>
          if states = [] then (s, Panic index_panic)
          else if js_Name (last states) \<noteq> StateFailed then (s, Err ErrStateConflict)
          else
            let s = s\<lparr>m_jobStates := (m_jobStates s)(i \<mapsto> states @
                      [new_state StateScheduled '''' [(''enqueue_at'', rfc3339 e enqueueAt)]
                         (now_at e 0)])\<rparr>;
                s = s\<lparr>m_scheduled := (m_scheduled s)(i \<mapsto> enqueueAt)\<rparr>
            in (count ''scheduled'' 1 s, Ok ()))"

definition mem_SetJobResult :: "ctx \<Rightarrow> string \<Rightarrow> bytes \<Rightarrow> mstate \<Rightarrow> mstate \<times> unit result" where
  "mem_SetJobResult c i result s =
     (let result = (if blen result > 65536 then btake 65536 result else result) in
      case m_jobs s i of
        None \<Rightarrow> (s, Err ErrNotFound)
      | Some j \<Rightarrow>
          (s\<lparr>m_jobs := (m_jobs s)(i \<mapsto> j\<lparr>j_Result := append_nil result\<rparr>)\<rparr>, Ok ()))"

definition mem_HeartbeatJob :: "env \<Rightarrow> ctx \<Rightarrow> string \<Rightarrow> mstate \<Rightarrow> mstate \<times> unit result" where
  "mem_HeartbeatJob e c i s =
     (case m_jobs s i of
        None \<Rightarrow> (s, Err ErrNotFound)
      | Some _ \<Rightarrow> (s\<lparr>m_progress := (m_progress s)(i \<mapsto> now_at e 0)\<rparr>, Ok ()))"

definition mem_GetOrphanedJobs :: "env \<Rightarrow> ctx \<Rightarrow> duration \<Rightarrow> mstate \<Rightarrow> jobTicket list result" where
  "mem_GetOrphanedJobs e c staleAge s =
     (let cutoff = time_add (now_at e 0) (- staleAge) in
      Ok (map (\<lambda>i. \<lparr>t_JobID = i, t_Token = ''orphan-'' @ i\<rparr>)
        (filter (\<lambda>i. case m_progress s i of None \<Rightarrow> False | Some p \<Rightarrow> p < cutoff)
          (range_keys (m_progress s) (key_order e)))))"

definition mem_GetJob :: "ctx \<Rightarrow> string \<Rightarrow> mstate \<Rightarrow> jobWithStates result" where
  "mem_GetJob c i s =
     (case m_jobs s i of
        None \<Rightarrow> Err ErrNotFound
      | Some j \<Rightarrow> Ok \<lparr>jw_Job = j, jw_States = list_at (m_jobStates s) i\<rparr>)"

definition mem_matching :: "env \<Rightarrow> string \<Rightarrow> mstate \<Rightarrow> jobWithStates list" where
  "mem_matching e state s =
     concat (map (\<lambda>i. case m_jobs s i of
         None \<Rightarrow> []
       | Some j \<Rightarrow>
           let states = list_at (m_jobStates s) (j_ID j);
               current = (if states \<noteq> [] then js_Name (last states) else '''')
           in if state = '''' \<or> current = state then [\<lparr>jw_Job = j, jw_States = states\<rparr>] else [])
       (range_keys (m_jobs s) (key_order e)))"

definition slice_panic :: string where
  "slice_panic = ''slice bounds out of range''"

definition mem_GetJobsByState ::
  "env \<Rightarrow> ctx \<Rightarrow> string \<Rightarrow> int \<Rightarrow> int \<Rightarrow> mstate \<Rightarrow> jobWithStates list result" where
  "mem_GetJobsByState e c state offset limit s =
     (let result = mem_matching e state s in
      if offset \<ge> int (length result) then Ok []
      else if offset < 0 then Panic slice_panic
      else
        let result = drop (nat offset) result in
        if limit > 0 \<and> int (length result) > limit then Ok (take (nat limit) result)
        else Ok result)"

section \<open>Queue metadata\<close>

definition mem_GetQueueLength :: "ctx \<Rightarrow> string \<Rightarrow> mstate \<Rightarrow> int64 result" where
  "mem_GetQueueLength c q s = Ok (of_nat (length (list_at (m_queues s) q)))"

definition mem_GetQueues :: "env \<Rightarrow> ctx \<Rightarrow> mstate \<Rightarrow> string list result" where
  "mem_GetQueues e c s = Ok (range_keys (m_queues s) (key_order e))"

section \<open>Server registry\<close>

definition mem_RegisterServer ::
  "env \<Rightarrow> ctx \<Rightarrow> serverInfo \<Rightarrow> duration \<Rightarrow> mstate \<Rightarrow> mstate \<times> unit result" where
  "mem_RegisterServer e c sv ttl s =
     (let sv = sv\<lparr>sv_LastHeartbeat := now_at e 0\<rparr>;
          sv = (if sv_Status sv = '''' then sv\<lparr>sv_Status := ServerStatusActive\<rparr> else sv)
      in (s\<lparr>m_servers := (m_servers s)(sv_ID sv \<mapsto> sv)\<rparr>, Ok ()))"

definition mem_UnregisterServer :: "ctx \<Rightarrow> string \<Rightarrow> mstate \<Rightarrow> mstate \<times> unit result" where
  "mem_UnregisterServer c i s = (s\<lparr>m_servers := (m_servers s)(i := None)\<rparr>, Ok ())"

definition mem_Heartbeat ::
  "env \<Rightarrow> ctx \<Rightarrow> string \<Rightarrow> duration \<Rightarrow> mstate \<Rightarrow> mstate \<times> unit result" where
  "mem_Heartbeat e c i ttl s =
     (case m_servers s i of
        None \<Rightarrow> (s, Err ErrNotFound)
      | Some sv \<Rightarrow>
          (s\<lparr>m_servers := (m_servers s)(i \<mapsto>
             sv\<lparr>sv_LastHeartbeat := now_at e 0, sv_Status := ServerStatusActive\<rparr>)\<rparr>, Ok ()))"

definition mem_GetServers :: "env \<Rightarrow> ctx \<Rightarrow> mstate \<Rightarrow> serverInfo list result" where
  "mem_GetServers e c s =
     Ok (concat (map (\<lambda>i. case m_servers s i of None \<Rightarrow> [] | Some sv \<Rightarrow> [sv])
       (range_keys (m_servers s) (key_order e))))"

section \<open>Scheduled jobs\<close>

definition mem_AddScheduled :: "env \<Rightarrow> ctx \<Rightarrow> time \<Rightarrow> job \<Rightarrow> mstate \<Rightarrow> mstate \<times> string result" where
  "mem_AddScheduled e c enqueueAt j s =
     (let j = (if j_ID j = '''' then j\<lparr>j_ID := new_uuid e 0\<rparr> else j);
          j = j\<lparr>j_CreatedAt := now_at e 0\<rparr>;
          j = (if j_Queue j = '''' then j\<lparr>j_Queue := ''default''\<rparr> else j);
          i = j_ID j;
          s = s\<lparr>m_jobs := (m_jobs s)(i \<mapsto> j)\<rparr>;
          s = s\<lparr>m_jobStates := (m_jobStates s)(i \<mapsto>
                [new_state StateScheduled '''' [(''enqueue_at'', rfc3339 e enqueueAt)] (now_at e 1)])\<rparr>;
          s = s\<lparr>m_scheduled := (m_scheduled s)(i \<mapsto> enqueueAt)\<rparr>
      in (count ''scheduled'' 1 s, Ok i))"

text \<open>The first loop of \<^verbatim>\<open>GetDueScheduled\<close>: collect due ids, stop once the batch is full.\<close>

fun due_scan :: "time \<Rightarrow> int \<Rightarrow> (string \<rightharpoonup> time) \<Rightarrow> string list \<Rightarrow> string list \<Rightarrow> string list" where
  "due_scan now batchSize sched [] due = due"
| "due_scan now batchSize sched (i # is) due =
     (let due = (case sched i of
                   None \<Rightarrow> due
                 | Some at \<Rightarrow> if \<not> now < at then due @ [i] else due)
      in if int (length due) \<ge> batchSize then due else due_scan now batchSize sched is due)"

definition nil_panic :: string where
  "nil_panic = ''invalid memory address or nil pointer dereference''"

text \<open>The second loop: promote each collected id; \<open>n\<close> counts the iterations.\<close>

fun mem_promote :: "env \<Rightarrow> nat \<Rightarrow> string list \<Rightarrow> mstate \<Rightarrow> mstate \<times> jobTicket list result" where
  "mem_promote e n [] s = (s, Ok [])"
| "mem_promote e n (i # is) s =
     (let s = s\<lparr>m_scheduled := (m_scheduled s)(i := None)\<rparr>;
          s = append_state i (new_state StateEnqueued ''scheduled'' [] (now_at e n)) s
      in case m_jobs s i of
           None \<Rightarrow> (s, Panic nil_panic)
         | Some j \<Rightarrow>
             let s = push_back (j_Queue j) i s;
                 s = count ''scheduled'' (- 1) s;
                 s = count ''enqueued'' 1 s;
                 (s, r) = mem_promote e (Suc n) is s
             in (s, map_result (\<lambda>ts. \<lparr>t_JobID = i, t_Token = ''sched-'' @ i\<rparr> # ts) r))"

definition mem_GetDueScheduled ::
  "env \<Rightarrow> ctx \<Rightarrow> time \<Rightarrow> int \<Rightarrow> mstate \<Rightarrow> mstate \<times> jobTicket list result" where
  "mem_GetDueScheduled e c now batchSize s =
     (let due = due_scan now batchSize (m_scheduled s) (range_keys (m_scheduled s) (key_order e)) [];
          (s, r) = mem_promote e 0 due s
      in case r of
           Ok ts \<Rightarrow> (if ts \<noteq> [] then signal s else s, Ok ts)
         | _ \<Rightarrow> (s, r))"

definition mem_RemoveScheduled :: "ctx \<Rightarrow> string \<Rightarrow> mstate \<Rightarrow> mstate \<times> unit result" where
  "mem_RemoveScheduled c i s = (s\<lparr>m_scheduled := (m_scheduled s)(i := None)\<rparr>, Ok ())"

section \<open>Recurring jobs\<close>

definition mem_UpsertRecurring ::
  "env \<Rightarrow> ctx \<Rightarrow> recurringJobEntry \<Rightarrow> mstate \<Rightarrow> mstate \<times> unit result" where
  "mem_UpsertRecurring e c entry s =
     (let now = now_at e 0;
          entry = entry\<lparr>r_UpdatedAt := now\<rparr>;
          entry = (if r_CreatedAt entry = 0 then entry\<lparr>r_CreatedAt := now\<rparr> else entry)
      in (s\<lparr>m_recurring := (m_recurring s)(r_ID entry \<mapsto> entry)\<rparr>, Ok ()))"

definition mem_RemoveRecurring :: "ctx \<Rightarrow> string \<Rightarrow> mstate \<Rightarrow> mstate \<times> unit result" where
  "mem_RemoveRecurring c i s = (s\<lparr>m_recurring := (m_recurring s)(i := None)\<rparr>, Ok ())"

definition mem_GetRecurringJobs :: "env \<Rightarrow> ctx \<Rightarrow> mstate \<Rightarrow> recurringJobEntry list result" where
  "mem_GetRecurringJobs e c s =
     Ok (concat (map (\<lambda>i. case m_recurring s i of None \<Rightarrow> [] | Some r \<Rightarrow> [r])
       (range_keys (m_recurring s) (key_order e))))"

definition mem_UpdateRecurringLastRun ::
  "env \<Rightarrow> ctx \<Rightarrow> string \<Rightarrow> time \<Rightarrow> time \<Rightarrow> mstate \<Rightarrow> mstate \<times> unit result" where
  "mem_UpdateRecurringLastRun e c i lastRun nextRun s =
     (case m_recurring s i of
        None \<Rightarrow> (s, Err ErrNotFound)
      | Some entry \<Rightarrow>
          (s\<lparr>m_recurring := (m_recurring s)(i \<mapsto>
             entry\<lparr>r_LastRun := Some lastRun, r_NextRun := Some nextRun,
                   r_UpdatedAt := now_at e 0\<rparr>)\<rparr>, Ok ()))"

section \<open>Continuations\<close>

definition mem_AddContinuation ::
  "env \<Rightarrow> ctx \<Rightarrow> string \<Rightarrow> continuationEntry \<Rightarrow> mstate \<Rightarrow> mstate \<times> unit result" where
  "mem_AddContinuation e c parent entry s =
     (let entry = entry\<lparr>c_CreatedAt := now_at e 0\<rparr>
      in (s\<lparr>m_continuations :=
            (m_continuations s)(parent \<mapsto> list_at (m_continuations s) parent @ [entry])\<rparr>, Ok ()))"

definition mem_GetContinuations :: "ctx \<Rightarrow> string \<Rightarrow> mstate \<Rightarrow> continuationEntry list result" where
  "mem_GetContinuations c parent s = Ok (list_at (m_continuations s) parent)"

definition mem_RemoveContinuations :: "ctx \<Rightarrow> string \<Rightarrow> mstate \<Rightarrow> mstate \<times> unit result" where
  "mem_RemoveContinuations c parent s =
     (s\<lparr>m_continuations := (m_continuations s)(parent := None)\<rparr>, Ok ())"

section \<open>Counters\<close>

definition mem_IncrementCounter :: "ctx \<Rightarrow> string \<Rightarrow> int64 \<Rightarrow> mstate \<Rightarrow> mstate \<times> unit result" where
  "mem_IncrementCounter c k d s = (count k d s, Ok ())"

definition mem_GetCounter :: "ctx \<Rightarrow> string \<Rightarrow> mstate \<Rightarrow> int64 result" where
  "mem_GetCounter c k s = Ok (counter_at (m_counters s) k)"

definition mem_GetAllCounters ::
  "env \<Rightarrow> ctx \<Rightarrow> int \<Rightarrow> int \<Rightarrow> mstate \<Rightarrow> (string \<times> int64) list result" where
  "mem_GetAllCounters e c skip limit s =
     Ok (map (\<lambda>k. (k, counter_at (m_counters s) k)) (range_keys (m_counters s) (key_order e)))"

section \<open>Locks\<close>

definition mem_Release :: "ctx \<Rightarrow> lock \<Rightarrow> mstate \<Rightarrow> mstate \<times> lock \<times> unit result" where
  "mem_Release c l s =
     (if lk_released l then (s, l, Err ErrLockNotHeld)
      else case m_locks s (lk_resource l) of
        None \<Rightarrow> (s, l, Err ErrLockNotHeld)
      | Some existing \<Rightarrow>
          if lk_ownerID existing \<noteq> lk_ownerID l then (s, l, Err ErrLockNotHeld)
          else (s\<lparr>m_locks := (m_locks s)(lk_resource l := None)\<rparr>, l\<lparr>lk_released := True\<rparr>, Ok ()))"

definition mem_AcquireLock ::
  "env \<Rightarrow> ctx \<Rightarrow> string \<Rightarrow> duration \<Rightarrow> mstate \<Rightarrow> mstate \<times> lock result" where
  "mem_AcquireLock e c resource ttl s =
     (let fresh =
        (let l = \<lparr>lk_resource = resource, lk_ownerID = new_uuid e 0,
                  lk_expiresAt = time_add (now_at e 1) ttl, lk_released = False\<rparr>
         in (s\<lparr>m_locks := (m_locks s)(resource \<mapsto> l)\<rparr>, Ok l))
      in case m_locks s resource of
           Some existing \<Rightarrow>
             if now_at e 0 < lk_expiresAt existing then (s, Err ErrLockNotHeld) else fresh
         | None \<Rightarrow> fresh)"

section \<open>Maintenance\<close>

definition isTerminal :: "string \<Rightarrow> bool" where
  "isTerminal state \<longleftrightarrow> state = StateSucceeded \<or> state = StateFailed \<or> state = StateDeleted"

definition mem_forget :: "string \<Rightarrow> mstate \<Rightarrow> mstate" where
  "mem_forget i s = s\<lparr>m_jobs := (m_jobs s)(i := None), m_jobStates := (m_jobStates s)(i := None),
     m_queueTokens := (m_queueTokens s)(i := None), m_processing := (m_processing s)(i := None),
     m_progress := (m_progress s)(i := None), m_scheduled := (m_scheduled s)(i := None),
     m_continuations := (m_continuations s)(i := None)\<rparr>"

definition expired :: "time \<Rightarrow> mstate \<Rightarrow> string \<Rightarrow> bool" where
  "expired cutoff s i \<longleftrightarrow>
     (let states = list_at (m_jobStates s) i in
      states \<noteq> [] \<and> isTerminal (js_Name (last states)) \<and> js_CreatedAt (last states) < cutoff)"

fun expire_loop :: "time \<Rightarrow> string list \<Rightarrow> int64 \<Rightarrow> mstate \<Rightarrow> mstate \<times> int64" where
  "expire_loop cutoff [] deleted s = (s, deleted)"
| "expire_loop cutoff (i # is) deleted s =
     (if expired cutoff s i then expire_loop cutoff is (deleted + 1) (mem_forget i s)
      else expire_loop cutoff is deleted s)"

definition mem_RemoveExpired :: "env \<Rightarrow> ctx \<Rightarrow> time \<Rightarrow> mstate \<Rightarrow> mstate \<times> int64 result" where
  "mem_RemoveExpired e c cutoff s =
     (let (s, deleted) = expire_loop cutoff (range_keys (m_jobStates s) (key_order e)) 0 s
      in (s, Ok deleted))"

definition mem_DeleteJob :: "env \<Rightarrow> ctx \<Rightarrow> string \<Rightarrow> mstate \<Rightarrow> mstate \<times> unit result" where
  "mem_DeleteJob e c i s =
     (case m_jobStates s i of
        None \<Rightarrow> (s, Err ErrNotFound)
      | Some states \<Rightarrow>
          if states = [] then (s, Panic index_panic)
          else if IrreversibleStates (js_Name (last states)) then (s, Err ErrTerminalState)
          else
            let s = s\<lparr>m_jobStates := (m_jobStates s)(i \<mapsto>
                      states @ [new_state StateDeleted '''' [] (now_at e 0)])\<rparr>
            in (s\<lparr>m_processing := (m_processing s)(i := None),
                  m_progress := (m_progress s)(i := None)\<rparr>, Ok ()))"

definition mem_Close :: "mstate \<Rightarrow> mstate \<times> unit result" where
  "mem_Close s = (s, Ok ())"

section \<open>The interface value\<close>

definition memory_ops :: "mstate storage_ops" where
  "memory_ops = \<lparr>
     op_Enqueue = mem_Enqueue, op_Dequeue = mem_Dequeue, op_Requeue = mem_Requeue,
     op_ApplyState = mem_ApplyState, op_HeartbeatJob = mem_HeartbeatJob,
     op_GetOrphanedJobs = mem_GetOrphanedJobs, op_GetJob = mem_GetJob,
     op_GetJobsByState = mem_GetJobsByState, op_GetQueueLength = mem_GetQueueLength,
     op_GetQueues = mem_GetQueues, op_RegisterServer = mem_RegisterServer,
     op_UnregisterServer = mem_UnregisterServer, op_Heartbeat = mem_Heartbeat,
     op_GetServers = mem_GetServers, op_AddScheduled = mem_AddScheduled,
     op_GetDueScheduled = mem_GetDueScheduled, op_RemoveScheduled = mem_RemoveScheduled,
     op_UpsertRecurring = mem_UpsertRecurring, op_RemoveRecurring = mem_RemoveRecurring,
     op_GetRecurringJobs = mem_GetRecurringJobs,
     op_UpdateRecurringLastRun = mem_UpdateRecurringLastRun,
     op_AddContinuation = mem_AddContinuation, op_GetContinuations = mem_GetContinuations,
     op_RemoveContinuations = mem_RemoveContinuations, op_IncrementCounter = mem_IncrementCounter,
     op_GetCounter = mem_GetCounter, op_GetAllCounters = mem_GetAllCounters,
     op_AcquireLock = mem_AcquireLock, op_Release = mem_Release,
     op_RemoveExpired = mem_RemoveExpired, op_ScheduleRetry = mem_ScheduleRetry,
     op_SetJobResult = mem_SetJobResult, op_DeleteJob = mem_DeleteJob,
     op_EnqueueIdempotent = mem_EnqueueIdempotent, op_Close = mem_Close\<rparr>"

lemma memory_ops_sel [simp]:
  "op_Enqueue memory_ops = mem_Enqueue" "op_Dequeue memory_ops = mem_Dequeue"
  "op_Requeue memory_ops = mem_Requeue" "op_ApplyState memory_ops = mem_ApplyState"
  "op_HeartbeatJob memory_ops = mem_HeartbeatJob"
  "op_GetOrphanedJobs memory_ops = mem_GetOrphanedJobs" "op_GetJob memory_ops = mem_GetJob"
  "op_GetJobsByState memory_ops = mem_GetJobsByState"
  "op_GetQueueLength memory_ops = mem_GetQueueLength" "op_GetQueues memory_ops = mem_GetQueues"
  "op_RegisterServer memory_ops = mem_RegisterServer"
  "op_UnregisterServer memory_ops = mem_UnregisterServer"
  "op_Heartbeat memory_ops = mem_Heartbeat" "op_GetServers memory_ops = mem_GetServers"
  "op_AddScheduled memory_ops = mem_AddScheduled"
  "op_GetDueScheduled memory_ops = mem_GetDueScheduled"
  "op_RemoveScheduled memory_ops = mem_RemoveScheduled"
  "op_UpsertRecurring memory_ops = mem_UpsertRecurring"
  "op_RemoveRecurring memory_ops = mem_RemoveRecurring"
  "op_GetRecurringJobs memory_ops = mem_GetRecurringJobs"
  "op_UpdateRecurringLastRun memory_ops = mem_UpdateRecurringLastRun"
  "op_AddContinuation memory_ops = mem_AddContinuation"
  "op_GetContinuations memory_ops = mem_GetContinuations"
  "op_RemoveContinuations memory_ops = mem_RemoveContinuations"
  "op_IncrementCounter memory_ops = mem_IncrementCounter"
  "op_GetCounter memory_ops = mem_GetCounter" "op_GetAllCounters memory_ops = mem_GetAllCounters"
  "op_AcquireLock memory_ops = mem_AcquireLock" "op_Release memory_ops = mem_Release"
  "op_RemoveExpired memory_ops = mem_RemoveExpired"
  "op_ScheduleRetry memory_ops = mem_ScheduleRetry"
  "op_SetJobResult memory_ops = mem_SetJobResult" "op_DeleteJob memory_ops = mem_DeleteJob"
  "op_EnqueueIdempotent memory_ops = mem_EnqueueIdempotent" "op_Close memory_ops = mem_Close"
  by (simp_all add: memory_ops_def)

end
