(* ===== verification/Memory_Invariant.thy ===== *)
theory Memory_Invariant
  imports Memory_Store
begin

text \<open>
  Well-formedness of the in-memory store and its preservation by every method. \<open>mem_step\<close> has one
  rule per method that writes the store, with arbitrary arguments, so \<open>mem_reachable\<close> holds of
  every state that any interleaving of calls can produce (each call is atomic under the mutex).
\<close>

section \<open>The invariant and the steps\<close>

definition mem_wf :: "mstate \<Rightarrow> bool" where
  "mem_wf s \<longleftrightarrow>
     dom (m_jobStates s) = dom (m_jobs s) \<and>
     (\<forall>i. m_jobStates s i \<noteq> Some []) \<and>
     (\<forall>i j. m_jobs s i = Some j \<longrightarrow> j_ID j = i \<and> j_Queue j \<noteq> []) \<and>
     dom (m_scheduled s) \<subseteq> dom (m_jobs s) \<and>
     dom (m_progress s) \<subseteq> dom (m_jobs s) \<and>
     dom (m_processing s) \<subseteq> dom (m_progress s) \<and>
     dom (m_queueTokens s) \<subseteq> dom (m_jobs s)"

inductive mem_step :: "mstate \<Rightarrow> mstate \<Rightarrow> bool" where
  Enqueue: "mem_step s (fst (mem_Enqueue e c q j s))"
| EnqueueIdempotent: "mem_step s (fst (mem_EnqueueIdempotent e c q j s))"
| Dequeue: "dequeue_scan e True qs s = Found s' t \<Longrightarrow> mem_step s s'"
| Woken: "mem_step s (s\<lparr>m_dequeueCh := False\<rparr>)"
| Requeue: "mem_step s (fst (mem_Requeue e c i why s))"
| ApplyState: "mem_step s (fst (mem_ApplyState e c i cur st s))"
| ScheduleRetry: "mem_step s (fst (mem_ScheduleRetry e c i at s))"
| SetJobResult: "mem_step s (fst (mem_SetJobResult c i r s))"
| HeartbeatJob: "mem_step s (fst (mem_HeartbeatJob e c i s))"
| RegisterServer: "mem_step s (fst (mem_RegisterServer e c sv ttl s))"
| UnregisterServer: "mem_step s (fst (mem_UnregisterServer c i s))"
| Heartbeat: "mem_step s (fst (mem_Heartbeat e c i ttl s))"
| AddScheduled: "mem_step s (fst (mem_AddScheduled e c at j s))"
| GetDueScheduled: "mem_step s (fst (mem_GetDueScheduled e c now n s))"
| RemoveScheduled: "mem_step s (fst (mem_RemoveScheduled c i s))"
| UpsertRecurring: "mem_step s (fst (mem_UpsertRecurring e c r s))"
| RemoveRecurring: "mem_step s (fst (mem_RemoveRecurring c i s))"
| UpdateRecurringLastRun: "mem_step s (fst (mem_UpdateRecurringLastRun e c i lr nr s))"
| AddContinuation: "mem_step s (fst (mem_AddContinuation e c i en s))"
| RemoveContinuations: "mem_step s (fst (mem_RemoveContinuations c i s))"
| IncrementCounter: "mem_step s (fst (mem_IncrementCounter c k d s))"
| AcquireLock: "mem_step s (fst (mem_AcquireLock e c res ttl s))"
| Release: "mem_step s (fst (mem_Release c l s))"
| RemoveExpired: "mem_step s (fst (mem_RemoveExpired e c cutoff s))"
| DeleteJob: "mem_step s (fst (mem_DeleteJob e c i s))"

inductive mem_reachable :: "mstate \<Rightarrow> bool" where
  start: "mem_reachable mem_New"
| step: "mem_reachable s \<Longrightarrow> mem_step s s' \<Longrightarrow> mem_reachable s'"

section \<open>How the helpers act on the fields\<close>

lemmas mem_helper_defs = push_back_def append_state_def count_def signal_def

lemma push_back_sel [simp]:
  "m_jobs (push_back q i s) = m_jobs s" "m_jobStates (push_back q i s) = m_jobStates s"
  "m_queues (push_back q i s) = (m_queues s)(q \<mapsto> list_at (m_queues s) q @ [i])"
  "m_queueTokens (push_back q i s) = m_queueTokens s" "m_scheduled (push_back q i s) = m_scheduled s"
  "m_processing (push_back q i s) = m_processing s" "m_progress (push_back q i s) = m_progress s"
  "m_continuations (push_back q i s) = m_continuations s"
  "m_idempotency (push_back q i s) = m_idempotency s" "m_counters (push_back q i s) = m_counters s"
  "m_recurring (push_back q i s) = m_recurring s" "m_locks (push_back q i s) = m_locks s"
  by (simp_all add: push_back_def)

lemma append_state_sel [simp]:
  "m_jobs (append_state i st s) = m_jobs s"
  "m_jobStates (append_state i st s) = (m_jobStates s)(i \<mapsto> list_at (m_jobStates s) i @ [st])"
  "m_queues (append_state i st s) = m_queues s"
  "m_queueTokens (append_state i st s) = m_queueTokens s"
  "m_scheduled (append_state i st s) = m_scheduled s"
  "m_processing (append_state i st s) = m_processing s"
  "m_progress (append_state i st s) = m_progress s"
  "m_continuations (append_state i st s) = m_continuations s"
  "m_idempotency (append_state i st s) = m_idempotency s"
  "m_counters (append_state i st s) = m_counters s"
  "m_recurring (append_state i st s) = m_recurring s" "m_locks (append_state i st s) = m_locks s"
  by (simp_all add: append_state_def)

lemma count_sel [simp]:
  "m_jobs (count k d s) = m_jobs s" "m_jobStates (count k d s) = m_jobStates s"
  "m_queues (count k d s) = m_queues s" "m_queueTokens (count k d s) = m_queueTokens s"
  "m_scheduled (count k d s) = m_scheduled s" "m_processing (count k d s) = m_processing s"
  "m_progress (count k d s) = m_progress s" "m_continuations (count k d s) = m_continuations s"
  "m_idempotency (count k d s) = m_idempotency s" "m_counters (count k d s) = bump k d (m_counters s)"
  "m_recurring (count k d s) = m_recurring s" "m_locks (count k d s) = m_locks s"
  by (simp_all add: count_def)

lemma signal_sel [simp]:
  "m_jobs (signal s) = m_jobs s" "m_jobStates (signal s) = m_jobStates s"
  "m_queues (signal s) = m_queues s" "m_queueTokens (signal s) = m_queueTokens s"
  "m_scheduled (signal s) = m_scheduled s" "m_processing (signal s) = m_processing s"
  "m_progress (signal s) = m_progress s" "m_continuations (signal s) = m_continuations s"
  "m_idempotency (signal s) = m_idempotency s" "m_counters (signal s) = m_counters s"
  "m_recurring (signal s) = m_recurring s" "m_locks (signal s) = m_locks s"
  by (simp_all add: signal_def)

lemma state_counter_sel [simp]:
  "m_jobs (state_counter n s) = m_jobs s" "m_jobStates (state_counter n s) = m_jobStates s"
  "m_queues (state_counter n s) = m_queues s" "m_queueTokens (state_counter n s) = m_queueTokens s"
  "m_scheduled (state_counter n s) = m_scheduled s" "m_processing (state_counter n s) = m_processing s"
  "m_progress (state_counter n s) = m_progress s"
  "m_continuations (state_counter n s) = m_continuations s"
  "m_idempotency (state_counter n s) = m_idempotency s"
  "m_recurring (state_counter n s) = m_recurring s" "m_locks (state_counter n s) = m_locks s"
  by (simp_all add: state_counter_def)

lemma mem_fill_job_sel [simp]:
  "j_ID (mem_fill_job e j) = (if j_ID j = '''' then new_uuid e 0 else j_ID j)"
  "j_Name (mem_fill_job e j) = j_Name j" "j_Args (mem_fill_job e j) = j_Args j"
  "j_Queue (mem_fill_job e j) = (if j_Queue j = '''' then ''default'' else j_Queue j)"
  "j_RetryMax (mem_fill_job e j) = (if j_RetryMax j = 0 then 10 else j_RetryMax j)"
  "j_Timeout (mem_fill_job e j) = j_Timeout j" "j_Result (mem_fill_job e j) = j_Result j"
  "j_IdempotencyKey (mem_fill_job e j) = j_IdempotencyKey j"
  by (simp_all add: mem_fill_job_def Let_def)

lemma mem_insert_sel [simp]:
  "m_jobs (mem_insert e q j s) = (m_jobs s)(j_ID j \<mapsto> j)"
  "m_jobStates (mem_insert e q j s) =
     (m_jobStates s)(j_ID j \<mapsto> [new_state StateEnqueued '''' [] (now_at e 1)])"
  "m_queues (mem_insert e q j s) = (m_queues s)(q \<mapsto> list_at (m_queues s) q @ [j_ID j])"
  "m_queueTokens (mem_insert e q j s) = (m_queueTokens s)(j_ID j \<mapsto> UnixNano (now_at e 2))"
  "m_scheduled (mem_insert e q j s) = m_scheduled s"
  "m_processing (mem_insert e q j s) = m_processing s" "m_progress (mem_insert e q j s) = m_progress s"
  "m_continuations (mem_insert e q j s) = m_continuations s"
  "m_idempotency (mem_insert e q j s) = m_idempotency s"
  "m_counters (mem_insert e q j s) = bump ''enqueued'' 1 (m_counters s)"
  by (simp_all add: mem_insert_def Let_def)

lemma dequeue_take_sel [simp]:
  "m_jobs (dequeue_take e i s) = m_jobs s"
  "m_jobStates (dequeue_take e i s) = (m_jobStates s)(i \<mapsto> list_at (m_jobStates s) i @
     [new_state StateProcessing '''' [(''server_id'', ''local'')] (now_at e 1)])"
  "m_queues (dequeue_take e i s) = m_queues s" "m_queueTokens (dequeue_take e i s) = m_queueTokens s"
  "m_scheduled (dequeue_take e i s) = m_scheduled s"
  "m_processing (dequeue_take e i s) = (m_processing s)(i \<mapsto> ''local'')"
  "m_progress (dequeue_take e i s) = (m_progress s)(i \<mapsto> now_at e 0)"
  "m_continuations (dequeue_take e i s) = m_continuations s"
  "m_idempotency (dequeue_take e i s) = m_idempotency s"
  by (simp_all add: dequeue_take_def Let_def)

lemma mem_forget_sel [simp]:
  "m_jobs (mem_forget i s) = (m_jobs s)(i := None)"
  "m_jobStates (mem_forget i s) = (m_jobStates s)(i := None)"
  "m_queues (mem_forget i s) = m_queues s"
  "m_queueTokens (mem_forget i s) = (m_queueTokens s)(i := None)"
  "m_scheduled (mem_forget i s) = (m_scheduled s)(i := None)"
  "m_processing (mem_forget i s) = (m_processing s)(i := None)"
  "m_progress (mem_forget i s) = (m_progress s)(i := None)"
  "m_continuations (mem_forget i s) = (m_continuations s)(i := None)"
  "m_idempotency (mem_forget i s) = m_idempotency s"
  by (simp_all add: mem_forget_def)

section \<open>Well-formedness is preserved\<close>

lemma mem_wf_job: "mem_wf s \<Longrightarrow> m_jobs s i = Some j \<Longrightarrow> j_ID j = i \<and> j_Queue j \<noteq> ''''"
  by (simp add: mem_wf_def)

lemma mem_wf_hist:
  "mem_wf s \<Longrightarrow> m_jobs s i = Some j \<Longrightarrow> \<exists>h. m_jobStates s i = Some h \<and> h \<noteq> []"
  unfolding mem_wf_def by (metis domD domI)

lemma mem_wf_hist_job: "mem_wf s \<Longrightarrow> m_jobStates s i = Some h \<Longrightarrow> \<exists>j. m_jobs s i = Some j"
  unfolding mem_wf_def by (metis domD domI)

lemma mem_wf_nonempty: "mem_wf s \<Longrightarrow> m_jobStates s i = Some h \<Longrightarrow> h \<noteq> []"
  by (auto simp: mem_wf_def)

lemma mem_wf_frame:
  assumes "mem_wf s" "m_jobs s' = m_jobs s" "m_jobStates s' = m_jobStates s"
    "m_scheduled s' = m_scheduled s" "m_progress s' = m_progress s"
    "m_processing s' = m_processing s" "m_queueTokens s' = m_queueTokens s"
  shows "mem_wf s'"
  using assms by (simp add: mem_wf_def)

lemma mem_wf_New: "mem_wf mem_New"
  by (simp add: mem_wf_def mem_New_def)

lemma mem_wf_insert:
  assumes "mem_wf s" "j_Queue j \<noteq> ''''"
  shows "mem_wf (mem_insert e q j s)"
  using assms by (auto simp: mem_wf_def)

lemma mem_wf_take:
  assumes "mem_wf s" "m_jobs s i \<noteq> None"
  shows "mem_wf (dequeue_take e i s)"
  using assms by (auto simp: mem_wf_def)

lemma mem_wf_append:
  assumes "mem_wf s" "m_jobs s i \<noteq> None"
  shows "mem_wf (append_state i st s)"
  using assms by (auto simp: mem_wf_def)

lemma mem_wf_forget: "mem_wf s \<Longrightarrow> mem_wf (mem_forget i s)"
  by (auto simp: mem_wf_def)

lemma mem_wf_unschedule: "mem_wf s \<Longrightarrow> mem_wf (s\<lparr>m_scheduled := (m_scheduled s)(i := None)\<rparr>)"
  by (auto simp: mem_wf_def)

lemma mem_wf_schedule:
  "mem_wf s \<Longrightarrow> m_jobs s i \<noteq> None \<Longrightarrow> mem_wf (s\<lparr>m_scheduled := (m_scheduled s)(i \<mapsto> t)\<rparr>)"
  by (auto simp: mem_wf_def)

lemma mem_wf_irrelevant [simp]:
  "mem_wf (signal s) = mem_wf s" "mem_wf (count k d s) = mem_wf s"
  "mem_wf (push_back q i s) = mem_wf s" "mem_wf (s\<lparr>m_queues := x1\<rparr>) = mem_wf s"
  "mem_wf (s\<lparr>m_idempotency := x2\<rparr>) = mem_wf s" "mem_wf (s\<lparr>m_dequeueCh := x3\<rparr>) = mem_wf s"
  "mem_wf (s\<lparr>m_recurring := x4\<rparr>) = mem_wf s" "mem_wf (s\<lparr>m_continuations := x5\<rparr>) = mem_wf s"
  "mem_wf (s\<lparr>m_servers := x6\<rparr>) = mem_wf s" "mem_wf (s\<lparr>m_locks := x7\<rparr>) = mem_wf s"
  by (simp_all add: mem_wf_def)

lemma mem_wf_Enqueue: "mem_wf s \<Longrightarrow> mem_wf (fst (mem_Enqueue e c q j s))"
  by (simp add: mem_Enqueue_def Let_def mem_wf_insert)

lemma mem_wf_EnqueueIdempotent: "mem_wf s \<Longrightarrow> mem_wf (fst (mem_EnqueueIdempotent e c q j s))"
  by (simp add: mem_EnqueueIdempotent_def Let_def mem_wf_insert split: option.split)

lemma mem_wf_scan: "dequeue_scan e held qs s = Found s' t \<Longrightarrow> mem_wf s \<Longrightarrow> mem_wf s'"
proof (induction e held qs s rule: dequeue_scan.induct)
  case (1 e held s)
  then show ?case by (simp split: if_splits)
next
  case (2 e held q qs s)
  then show ?case
    by (auto simp: Let_def intro!: mem_wf_take
        split: list.splits option.splits if_splits)
qed

lemma mem_wf_Requeue: "mem_wf s \<Longrightarrow> mem_wf (fst (mem_Requeue e c i why s))"
  by (auto simp: mem_Requeue_def Let_def mem_wf_def split: option.split)

lemma mem_wf_ApplyState: "mem_wf s \<Longrightarrow> mem_wf (fst (mem_ApplyState e c i cur st s))"
  by (auto simp: mem_ApplyState_def Let_def mem_wf_def split: option.split)

lemma mem_wf_ScheduleRetry: "mem_wf s \<Longrightarrow> mem_wf (fst (mem_ScheduleRetry e c i at s))"
  by (auto simp: mem_ScheduleRetry_def Let_def mem_wf_def split: option.split)

lemma mem_wf_SetJobResult: "mem_wf s \<Longrightarrow> mem_wf (fst (mem_SetJobResult c i r s))"
  by (auto simp: mem_SetJobResult_def Let_def mem_wf_def split: option.split)

lemma mem_wf_HeartbeatJob: "mem_wf s \<Longrightarrow> mem_wf (fst (mem_HeartbeatJob e c i s))"
  by (auto simp: mem_HeartbeatJob_def mem_wf_def split: option.split)

lemma mem_wf_AddScheduled: "mem_wf s \<Longrightarrow> mem_wf (fst (mem_AddScheduled e c at j s))"
  by (auto simp: mem_AddScheduled_def Let_def mem_wf_def)

lemma mem_wf_promote:
  "mem_wf s \<Longrightarrow> set is \<subseteq> dom (m_jobs s) \<Longrightarrow> mem_wf (fst (mem_promote e n is s))"
proof (induction e n "is" s rule: mem_promote.induct)
  case (1 e n s)
  then show ?case by simp
next
  case (2 e n i "is" s)
  let ?s1 = "append_state i (new_state StateEnqueued ''scheduled'' [] (now_at e n))
    (s\<lparr>m_scheduled := (m_scheduled s)(i := None)\<rparr>)"
  from "2.prems" obtain j where j: "m_jobs s i = Some j" by auto
  have "mem_wf ?s1"
    using "2.prems" j by (auto intro: mem_wf_append mem_wf_unschedule)
  then have "mem_wf (fst (mem_promote e (Suc n) is
      (count ''enqueued'' 1 (count ''scheduled'' (- 1) (push_back (j_Queue j) i ?s1)))))"
    using "2.prems" j by (intro "2.IH" [OF refl refl]) auto
  with j show ?case
    by (simp add: Let_def case_prod_beta)
qed

lemma due_scan_subset: "set (due_scan now n sched is due) \<subseteq> set due \<union> (set is \<inter> dom sched)"
proof (induction now n sched "is" due rule: due_scan.induct)
  case (1 now n sched due)
  then show ?case by simp
next
  case (2 now n sched i "is" due)
  then show ?case by (fastforce simp: Let_def split: option.splits if_splits)
qed

lemma due_ids_known:
  assumes "mem_wf s"
  shows "set (due_scan now n (m_scheduled s) (range_keys (m_scheduled s) ord) []) \<subseteq> dom (m_jobs s)"
proof -
  have "set (due_scan now n (m_scheduled s) (range_keys (m_scheduled s) ord) []) \<subseteq> dom (m_scheduled s)"
    using due_scan_subset [of now n "m_scheduled s" "range_keys (m_scheduled s) ord" "[]"] by auto
  also have "\<dots> \<subseteq> dom (m_jobs s)" using assms by (simp add: mem_wf_def)
  finally show ?thesis .
qed

lemma mem_wf_GetDueScheduled:
  assumes "mem_wf s"
  shows "mem_wf (fst (mem_GetDueScheduled e c now n s))"
  using mem_wf_promote [OF assms due_ids_known [OF assms], of e 0 now n "key_order e"]
  by (auto simp: mem_GetDueScheduled_def Let_def split: prod.split result.split)

lemma mem_wf_expire_loop: "mem_wf s \<Longrightarrow> mem_wf (fst (expire_loop cutoff is n s))"
  by (induction cutoff "is" n s rule: expire_loop.induct) (auto simp: mem_wf_forget)

lemma mem_wf_RemoveExpired: "mem_wf s \<Longrightarrow> mem_wf (fst (mem_RemoveExpired e c cutoff s))"
  using mem_wf_expire_loop by (auto simp: mem_RemoveExpired_def Let_def split: prod.split)
    (metis fst_conv)

lemma mem_wf_DeleteJob: "mem_wf s \<Longrightarrow> mem_wf (fst (mem_DeleteJob e c i s))"
  by (auto simp: mem_DeleteJob_def Let_def mem_wf_def split: option.split)

lemma mem_wf_step: "mem_step s s' \<Longrightarrow> mem_wf s \<Longrightarrow> mem_wf s'"
proof (induction rule: mem_step.induct)
  case (Dequeue e qs s s' t)
  then show ?case by (rule mem_wf_scan)
qed (auto intro: mem_wf_Enqueue mem_wf_EnqueueIdempotent mem_wf_Requeue mem_wf_ApplyState
    mem_wf_ScheduleRetry mem_wf_SetJobResult mem_wf_HeartbeatJob mem_wf_AddScheduled
    mem_wf_GetDueScheduled mem_wf_RemoveExpired mem_wf_DeleteJob mem_wf_unschedule
    simp: mem_RegisterServer_def mem_UnregisterServer_def mem_Heartbeat_def mem_RemoveScheduled_def
    mem_UpsertRecurring_def mem_RemoveRecurring_def mem_UpdateRecurringLastRun_def
    mem_AddContinuation_def mem_RemoveContinuations_def mem_IncrementCounter_def
    mem_AcquireLock_def mem_Release_def Let_def split: option.split)

lemma mem_reachable_wf: "mem_reachable s \<Longrightarrow> mem_wf s"
  by (induction rule: mem_reachable.induct) (auto intro: mem_wf_New mem_wf_step)

section \<open>No panic\<close>

lemma mem_promote_no_panic:
  "set is \<subseteq> dom (m_jobs s) \<Longrightarrow> \<exists>ts. snd (mem_promote e n is s) = Ok ts \<and> map t_JobID ts = is"
proof (induction e n "is" s rule: mem_promote.induct)
  case (1 e n s)
  then show ?case by simp
next
  case (2 e n i "is" s)
  let ?s1 = "append_state i (new_state StateEnqueued ''scheduled'' [] (now_at e n))
    (s\<lparr>m_scheduled := (m_scheduled s)(i := None)\<rparr>)"
  from "2.prems" obtain j where j: "m_jobs s i = Some j" by auto
  have "\<exists>ts. snd (mem_promote e (Suc n) is
      (count ''enqueued'' 1 (count ''scheduled'' (- 1) (push_back (j_Queue j) i ?s1)))) = Ok ts \<and>
      map t_JobID ts = is"
    using "2.prems" j by (intro "2.IH" [OF refl refl]) auto
  with j show ?case
    by (auto simp: Let_def case_prod_beta)
qed

text \<open>What \<open>GetDueScheduled\<close> returns in a well-formed store: a ticket per due id, no panic.\<close>

lemma GetDueScheduled_tickets:
  assumes "mem_wf s"
  shows "\<exists>ts. snd (mem_GetDueScheduled e c now n s) = Ok ts \<and>
    map t_JobID ts = due_scan now n (m_scheduled s) (range_keys (m_scheduled s) (key_order e)) []"
  using mem_promote_no_panic [OF due_ids_known [OF assms], of e 0 now n "key_order e"]
  by (auto simp: mem_GetDueScheduled_def Let_def case_prod_beta)

lemma ScheduleRetry_no_panic: "mem_wf s \<Longrightarrow> \<not> is_panic (snd (mem_ScheduleRetry e c i at s))"
  by (auto simp: mem_ScheduleRetry_def Let_def mem_wf_def split: option.split)

lemma DeleteJob_no_panic: "mem_wf s \<Longrightarrow> \<not> is_panic (snd (mem_DeleteJob e c i s))"
  by (auto simp: mem_DeleteJob_def Let_def mem_wf_def split: option.split)

lemma GetDueScheduled_no_panic: "mem_wf s \<Longrightarrow> \<not> is_panic (snd (mem_GetDueScheduled e c now n s))"
  using GetDueScheduled_tickets [of s e c now n] by auto

section \<open>What the methods do in a well-formed store\<close>

definition mem_queued :: "mstate \<Rightarrow> string \<Rightarrow> string set" where
  "mem_queued s q = set (list_at (m_queues s) q)"

lemma mem_queued_frame: "m_queues s' = m_queues s \<Longrightarrow> mem_queued s' = mem_queued s"
  by (rule ext) (simp add: mem_queued_def)

lemma mem_queued_push:
  "m_queues s' = (m_queues s)(q \<mapsto> list_at (m_queues s) q @ [i]) \<Longrightarrow>
   mem_queued s' = (mem_queued s)(q := insert i (mem_queued s q))"
  by (rule ext) (simp add: mem_queued_def)

lemma ApplyState_spec:
  fixes e :: env and c :: ctx and st :: jobState
  assumes wf: "mem_wf s" and h: "m_jobStates s i = Some h" "current_of h = cur"
  defines "st' \<equiv> (if js_CreatedAt st = 0 then st\<lparr>js_CreatedAt := now_at e 0\<rparr> else st)"
  defines "s' \<equiv> fst (mem_ApplyState e c i cur st s)"
  shows "snd (mem_ApplyState e c i cur st s) = Ok ()"
    and "m_jobStates s' = (m_jobStates s)(i \<mapsto> h @ [st'])"
    and "m_jobs s' = m_jobs s" and "m_queues s' = m_queues s"
    and "m_scheduled s' = m_scheduled s" and "m_progress s' = m_progress s"
    and "m_processing s' = (if cur = StateProcessing \<and> js_Name st \<noteq> StateProcessing
           then (m_processing s)(i := None) else m_processing s)"
    and "m_continuations s' = m_continuations s"
  using h mem_wf_nonempty [OF wf h(1)]
  by (auto simp: mem_ApplyState_def Let_def current_of_def s'_def st'_def)

lemma ApplyState_fail:
  "mem_wf s \<Longrightarrow> m_jobStates s i = None \<Longrightarrow> mem_ApplyState e c i cur st s = (s, Err ErrNotFound)"
  "mem_wf s \<Longrightarrow> m_jobStates s i = Some h \<Longrightarrow> current_of h \<noteq> cur \<Longrightarrow>
     mem_ApplyState e c i cur st s = (s, Err ErrStateConflict)"
  using mem_wf_nonempty [of s i h]
  by (auto simp: mem_ApplyState_def Let_def current_of_def)

lemma ScheduleRetry_spec:
  fixes e :: env and c :: ctx and at :: time
  assumes wf: "mem_wf s" and h: "m_jobStates s i = Some h" "current_of h = StateFailed"
  defines "s' \<equiv> fst (mem_ScheduleRetry e c i at s)"
  shows "snd (mem_ScheduleRetry e c i at s) = Ok ()"
    and "m_jobStates s' = (m_jobStates s)(i \<mapsto> h @
      [new_state StateScheduled '''' [(''enqueue_at'', rfc3339 e at)] (now_at e 0)])"
    and "m_scheduled s' = (m_scheduled s)(i \<mapsto> at)"
    and "m_jobs s' = m_jobs s" and "m_queues s' = m_queues s"
    and "m_processing s' = m_processing s" and "m_progress s' = m_progress s"
    and "m_continuations s' = m_continuations s"
  using h mem_wf_nonempty [OF wf h(1)]
  by (auto simp: mem_ScheduleRetry_def Let_def current_of_def s'_def)

lemma ScheduleRetry_fail:
  "mem_wf s \<Longrightarrow> m_jobStates s i = None \<Longrightarrow> mem_ScheduleRetry e c i at s = (s, Err ErrNotFound)"
  "mem_wf s \<Longrightarrow> m_jobStates s i = Some h \<Longrightarrow> current_of h \<noteq> StateFailed \<Longrightarrow>
     mem_ScheduleRetry e c i at s = (s, Err ErrStateConflict)"
  using mem_wf_nonempty [of s i h]
  by (auto simp: mem_ScheduleRetry_def Let_def current_of_def)

lemma Requeue_spec:
  fixes e :: env and c :: ctx and why :: string
  assumes wf: "mem_wf s" and j: "m_jobs s i = Some j" and h: "m_jobStates s i = Some h"
    and live: "\<not> IrreversibleStates (current_of h)"
  defines "s' \<equiv> fst (mem_Requeue e c i why s)"
  shows "snd (mem_Requeue e c i why s) = Ok ()"
    and "m_jobStates s' = (m_jobStates s)(i \<mapsto> h @ [new_state StateEnqueued why [] (now_at e 0)])"
    and "m_queues s' = (m_queues s)(j_Queue j \<mapsto> list_at (m_queues s) (j_Queue j) @ [i])"
    and "m_jobs s' = m_jobs s" and "m_scheduled s' = m_scheduled s"
    and "m_processing s' = (m_processing s)(i := None)" and "m_progress s' = m_progress s"
    and "m_continuations s' = m_continuations s"
  using j h live mem_wf_nonempty [OF wf h] mem_wf_job [OF wf j]
  by (auto simp: mem_Requeue_def Let_def current_of_def s'_def list_at_def)

lemma Requeue_fail:
  "mem_wf s \<Longrightarrow> m_jobStates s i = None \<Longrightarrow> mem_Requeue e c i why s = (s, Err ErrNotFound)"
  "mem_wf s \<Longrightarrow> m_jobStates s i = Some h \<Longrightarrow> IrreversibleStates (current_of h) \<Longrightarrow>
     mem_Requeue e c i why s = (s, Err ErrTerminalState)"
proof -
  assume "mem_wf s" "m_jobStates s i = None"
  then have "m_jobs s i = None" by (auto simp: mem_wf_def)
  then show "mem_Requeue e c i why s = (s, Err ErrNotFound)" by (simp add: mem_Requeue_def)
next
  assume wf: "mem_wf s" and h: "m_jobStates s i = Some h" "IrreversibleStates (current_of h)"
  from mem_wf_hist_job [OF wf h(1)] obtain j where "m_jobs s i = Some j" by blast
  with h mem_wf_nonempty [OF wf h(1)] show "mem_Requeue e c i why s = (s, Err ErrTerminalState)"
    by (simp add: mem_Requeue_def Let_def current_of_def list_at_def)
qed

lemma GetJob_spec:
  "mem_wf s \<Longrightarrow> m_jobs s i = Some j \<Longrightarrow> m_jobStates s i = Some h \<Longrightarrow>
     mem_GetJob c i s = Ok \<lparr>jw_Job = j, jw_States = h\<rparr>"
  "m_jobs s i = None \<Longrightarrow> mem_GetJob c i s = Err ErrNotFound"
  by (simp_all add: mem_GetJob_def list_at_def)

definition stored_result :: "bytes \<Rightarrow> bytes" where
  "stored_result r = append_nil (if blen r > 65536 then btake 65536 r else r)"

lemma stored_result_len: "blen (stored_result r) = min 65536 (blen r)"
  by (simp add: stored_result_def blen_btake)

lemma stored_result_short: "blen r \<le> 65536 \<Longrightarrow> 0 < blen r \<Longrightarrow> stored_result r = r"
  by (auto simp: stored_result_def append_nil_def blen_def split: option.splits)

lemma SetJobResult_spec:
  "m_jobs s i = Some j \<Longrightarrow>
   mem_SetJobResult c i r s = (s\<lparr>m_jobs := (m_jobs s)(i \<mapsto> j\<lparr>j_Result := stored_result r\<rparr>)\<rparr>, Ok ())"
  by (simp add: mem_SetJobResult_def stored_result_def Let_def)

end
