(* ===== verification/Memory_Lifecycle.thy ===== *)
theory Memory_Lifecycle
  imports Memory_Invariant
begin

text \<open>
  The life of a job in the in-memory store. \<open>first_waiting\<close> is the reference for \<^verbatim>\<open>Dequeue\<close>: the
  head of the first non-empty queue. \<open>core_step\<close> are all methods except the three that move a job
  by hand (\<^verbatim>\<open>Requeue\<close>, \<^verbatim>\<open>DeleteJob\<close>, \<^verbatim>\<open>RemoveScheduled\<close>), with fresh ids for new jobs and
  the transitions the engine asks of \<^verbatim>\<open>ApplyState\<close>; along them a job is in exactly one place and
  its history is a path of the documented state machine (\<^verbatim>\<open>SPECIFICATIONS.md\<close>, state transition
  rules).
\<close>

section \<open>Dequeue against its reference\<close>

fun first_waiting :: "string list \<Rightarrow> mstate \<Rightarrow> (string \<times> string \<times> string list) option" where
  "first_waiting [] s = None"
| "first_waiting (q # qs) s =
     (case list_at (m_queues s) q of
        [] \<Rightarrow> first_waiting qs s
      | i # rest \<Rightarrow> Some (q, i, rest))"

definition pop_queue :: "string \<Rightarrow> string list \<Rightarrow> mstate \<Rightarrow> mstate" where
  "pop_queue q rest s = s\<lparr>m_queues := (m_queues s)(q \<mapsto> rest)\<rparr>"

definition dequeue_ticket :: "env \<Rightarrow> string \<Rightarrow> jobTicket" where
  "dequeue_ticket e i =
     \<lparr>t_JobID = i, t_Token = ''tok-'' @ i @ ''-'' @ show_int (sint (UnixNano (now_at e 2)))\<rparr>"

lemma scan_unheld: "dequeue_scan e False qs s = Fatal unlock_fatal"
  by (induction qs arbitrary: s) (auto simp: Let_def split: list.splits option.splits)

lemma scan_none: "first_waiting qs s = None \<Longrightarrow> dequeue_scan e True qs s = Idle s"
  by (induction qs) (auto split: list.splits)

lemma scan_dangling:
  "first_waiting qs s = Some (q, i, rest) \<Longrightarrow> m_jobs s i = None \<Longrightarrow>
   dequeue_scan e True qs s = Fatal unlock_fatal"
  by (induction qs) (auto simp: Let_def scan_unheld split: list.splits)

lemma scan_found:
  "first_waiting qs s = Some (q, i, rest) \<Longrightarrow> m_jobs s i = Some j \<Longrightarrow> j_ID j = i \<Longrightarrow>
   dequeue_scan e True qs s = Found (dequeue_take e i (pop_queue q rest s)) (dequeue_ticket e i)"
  by (induction qs) (auto simp: Let_def pop_queue_def dequeue_ticket_def split: list.splits)

lemma first_waiting_Some:
  "first_waiting qs s = Some (q, i, rest) \<Longrightarrow> q \<in> set qs \<and> list_at (m_queues s) q = i # rest"
  by (induction qs) (auto split: list.splits)

lemma first_waiting_None: "first_waiting qs s = None \<longleftrightarrow> (\<forall>q \<in> set qs. list_at (m_queues s) q = [])"
  by (induction qs) (auto split: list.splits)

lemma scan_foundE:
  assumes "dequeue_scan e True qs s = Found s' t" and "mem_wf s"
  obtains q i rest j where "first_waiting qs s = Some (q, i, rest)"
    "list_at (m_queues s) q = i # rest" "m_jobs s i = Some j"
    "s' = dequeue_take e i (pop_queue q rest s)" "t = dequeue_ticket e i"
proof (cases "first_waiting qs s")
  case None
  with assms show ?thesis by (simp add: scan_none)
next
  case (Some x)
  obtain q i rest where x: "x = (q, i, rest)" by (cases x)
  show ?thesis
  proof (cases "m_jobs s i")
    case None
    with Some x assms show ?thesis by (simp add: scan_dangling)
  next
    case (Some j)
    with \<open>first_waiting qs s = Some x\<close> x assms have "dequeue_scan e True qs s =
        Found (dequeue_take e i (pop_queue q rest s)) (dequeue_ticket e i)"
      by (intro scan_found [where j = j]) (auto dest: mem_wf_job)
    with assms Some x \<open>first_waiting qs s = Some x\<close> first_waiting_Some that show ?thesis
      by fastforce
  qed
qed

section \<open>The documented state machine\<close>

definition lifecycle :: "string \<Rightarrow> string \<Rightarrow> bool" where
  "lifecycle a b \<longleftrightarrow>
     a = StateEnqueued \<and> b = StateProcessing \<or>
     a = StateProcessing \<and> (b = StateSucceeded \<or> b = StateFailed \<or> b = StateCancelled) \<or>
     a = StateFailed \<and> (b = StateScheduled \<or> b = StateDead) \<or>
     a = StateScheduled \<and> b = StateEnqueued"

definition legal_history :: "jobState list \<Rightarrow> bool" where
  "legal_history h \<longleftrightarrow> h \<noteq> [] \<and>
     (js_Name (hd h) = StateEnqueued \<or> js_Name (hd h) = StateScheduled) \<and>
     successively lifecycle (map js_Name h)"

definition cur_state :: "mstate \<Rightarrow> string \<Rightarrow> string" where
  "cur_state s i = current_of (list_at (m_jobStates s) i)"

definition waiting :: "mstate \<Rightarrow> string \<Rightarrow> bool" where
  "waiting s i \<longleftrightarrow> (\<exists>q. i \<in> set (list_at (m_queues s) q))"

inductive core_step :: "mstate \<Rightarrow> mstate \<Rightarrow> bool" where
  Enqueue: "j_ID j = '''' \<Longrightarrow> m_jobs s (new_uuid e 0) = None \<Longrightarrow>
    core_step s (fst (mem_Enqueue e c q j s))"
| EnqueueIdempotent: "j_ID j = '''' \<Longrightarrow> m_jobs s (new_uuid e 0) = None \<Longrightarrow>
    core_step s (fst (mem_EnqueueIdempotent e c q j s))"
| AddScheduled: "j_ID j = '''' \<Longrightarrow> m_jobs s (new_uuid e 0) = None \<Longrightarrow>
    core_step s (fst (mem_AddScheduled e c at j s))"
| Dequeue: "dequeue_scan e True qs s = Found s' t \<Longrightarrow> core_step s s'"
| Finish: "js_Name st \<in> {StateSucceeded, StateFailed, StateCancelled} \<Longrightarrow>
    core_step s (fst (mem_ApplyState e c i StateProcessing st s))"
| Exhaust: "js_Name st = StateDead \<Longrightarrow> core_step s (fst (mem_ApplyState e c i StateFailed st s))"
| ScheduleRetry: "core_step s (fst (mem_ScheduleRetry e c i at s))"
| GetDueScheduled: "core_step s (fst (mem_GetDueScheduled e c now n s))"
| SetJobResult: "core_step s (fst (mem_SetJobResult c i r s))"
| HeartbeatJob: "core_step s (fst (mem_HeartbeatJob e c i s))"
| RemoveExpired: "core_step s (fst (mem_RemoveExpired e c cutoff s))"
| Woken: "core_step s (s\<lparr>m_dequeueCh := False\<rparr>)"
| RegisterServer: "core_step s (fst (mem_RegisterServer e c sv ttl s))"
| UnregisterServer: "core_step s (fst (mem_UnregisterServer c i s))"
| Heartbeat: "core_step s (fst (mem_Heartbeat e c i ttl s))"
| UpsertRecurring: "core_step s (fst (mem_UpsertRecurring e c r s))"
| RemoveRecurring: "core_step s (fst (mem_RemoveRecurring c i s))"
| UpdateRecurringLastRun: "core_step s (fst (mem_UpdateRecurringLastRun e c i lr nr s))"
| AddContinuation: "core_step s (fst (mem_AddContinuation e c i en s))"
| RemoveContinuations: "core_step s (fst (mem_RemoveContinuations c i s))"
| IncrementCounter: "core_step s (fst (mem_IncrementCounter c k d s))"
| AcquireLock: "core_step s (fst (mem_AcquireLock e c res ttl s))"
| Release: "core_step s (fst (mem_Release c l s))"

inductive core_reachable :: "mstate \<Rightarrow> bool" where
  start: "core_reachable mem_New"
| step: "core_reachable s \<Longrightarrow> core_step s s' \<Longrightarrow> core_reachable s'"

text \<open>
  The invariant: a job waits in at most one queue and at most once there, it waits exactly when it
  is Enqueued, is in the schedule exactly when Scheduled, in \<^verbatim>\<open>processing\<close> exactly when
  Processing, and its history is legal.
\<close>

definition queues_ok :: "mstate \<Rightarrow> bool" where
  "queues_ok s \<longleftrightarrow>
     (\<forall>q. distinct (list_at (m_queues s) q)) \<and>
     (\<forall>i q q'. i \<in> set (list_at (m_queues s) q) \<longrightarrow> i \<in> set (list_at (m_queues s) q') \<longrightarrow> q = q')"

definition core_inv :: "mstate \<Rightarrow> bool" where
  "core_inv s \<longleftrightarrow> mem_wf s \<and>
     queues_ok s \<and>
     (\<forall>i. waiting s i = (cur_state s i = StateEnqueued)) \<and>
     (\<forall>i. (m_scheduled s i \<noteq> None) = (cur_state s i = StateScheduled)) \<and>
     (\<forall>i. (m_processing s i \<noteq> None) = (cur_state s i = StateProcessing)) \<and>
     (\<forall>i h. m_jobStates s i = Some h \<longrightarrow> legal_history h)"

section \<open>Preservation\<close>

lemma legal_single: "js_Name st = StateEnqueued \<or> js_Name st = StateScheduled \<Longrightarrow> legal_history [st]"
  by (simp add: legal_history_def)

lemma legal_append:
  "legal_history h \<Longrightarrow> lifecycle (current_of h) (js_Name st) \<Longrightarrow> legal_history (h @ [st])"
  by (auto simp: legal_history_def successively_append_iff current_of_def last_map)

lemma cur_unknown: "m_jobStates s i = None \<Longrightarrow> cur_state s i = ''''"
  by (simp add: cur_state_def list_at_def current_of_def)

lemma cur_known: "m_jobStates s i = Some h \<Longrightarrow> cur_state s i = current_of h"
  by (simp add: cur_state_def list_at_def)

lemma queues_ok_push:
  assumes "queues_ok s" "\<not> waiting s i"
    and q': "m_queues s' = (m_queues s)(q \<mapsto> list_at (m_queues s) q @ [i])"
  shows "queues_ok s'" and "waiting s' k = (waiting s k \<or> k = i)"
proof -
  have l: "list_at (m_queues s') r = (if r = q then list_at (m_queues s) q @ [i] else list_at (m_queues s) r)"
    for r by (simp add: q')
  show "queues_ok s'"
    using assms(1,2) by (auto simp: queues_ok_def waiting_def l)
  show "waiting s' k = (waiting s k \<or> k = i)"
    by (auto simp: waiting_def l)
qed

lemma queues_ok_pop:
  assumes ok: "queues_ok s" and hd: "list_at (m_queues s) q = i # rest"
    and q': "m_queues s' = (m_queues s)(q \<mapsto> rest)"
  shows "queues_ok s'" and "waiting s' k = (waiting s k \<and> k \<noteq> i)"
proof -
  have l: "list_at (m_queues s') r = (if r = q then rest else list_at (m_queues s) r)" for r
    by (simp add: q')
  from ok hd have i: "i \<notin> set rest" "distinct rest"
    unfolding queues_ok_def by (metis distinct.simps(2))+
  have sub: "set (list_at (m_queues s') r) = set (list_at (m_queues s) r) - {i}" for r
  proof (cases "r = q")
    case True
    with hd i show ?thesis by (simp add: l)
  next
    case False
    with ok hd have "i \<notin> set (list_at (m_queues s) r)"
      unfolding queues_ok_def by (metis list.set_intros(1))
    with False show ?thesis by (simp add: l)
  qed
  show "queues_ok s'"
    using ok i sub by (auto simp: queues_ok_def l)
  show "waiting s' k = (waiting s k \<and> k \<noteq> i)"
    by (auto simp: waiting_def sub)
qed

lemma waiting_frame: "m_queues s' = m_queues s \<Longrightarrow> waiting s' = waiting s"
  by (rule ext) (simp add: waiting_def)

lemma queues_ok_frame: "m_queues s' = m_queues s \<Longrightarrow> queues_ok s' = queues_ok s"
  by (simp add: queues_ok_def)

lemma core_inv_frame:
  assumes "core_inv s" "mem_wf s'" "m_jobStates s' = m_jobStates s" "m_queues s' = m_queues s"
    "m_scheduled s' = m_scheduled s" "m_processing s' = m_processing s"
  shows "core_inv s'"
  using assms waiting_frame [OF assms(4)] queues_ok_frame [OF assms(4)]
  by (simp add: core_inv_def cur_state_def)

text \<open>One job moves: its history becomes \<open>h\<close> and its place follows its new current state.\<close>

lemma core_inv_move:
  assumes inv: "core_inv s" and wf: "mem_wf s'"
    and st: "m_jobStates s' = (m_jobStates s)(i \<mapsto> h)" and legal: "legal_history h"
    and q: "queues_ok s'" "\<And>k. k \<noteq> i \<Longrightarrow> waiting s' k = waiting s k"
      "waiting s' i = (current_of h = StateEnqueued)"
    and sch: "\<And>k. k \<noteq> i \<Longrightarrow> m_scheduled s' k = m_scheduled s k"
      "(m_scheduled s' i \<noteq> None) = (current_of h = StateScheduled)"
    and proc: "\<And>k. k \<noteq> i \<Longrightarrow> m_processing s' k = m_processing s k"
      "(m_processing s' i \<noteq> None) = (current_of h = StateProcessing)"
  shows "core_inv s'"
proof -
  have c: "cur_state s' k = (if k = i then current_of h else cur_state s k)" for k
    by (simp add: cur_state_def st)
  from inv show ?thesis
    unfolding core_inv_def
    using wf legal q sch proc by (auto simp: c st)
qed

lemma core_inv_wf: "core_inv s \<Longrightarrow> mem_wf s"
  by (simp add: core_inv_def)

lemma core_inv_queues: "core_inv s \<Longrightarrow> queues_ok s"
  by (simp add: core_inv_def)

lemma core_inv_places:
  assumes "core_inv s"
  shows "waiting s i \<longleftrightarrow> cur_state s i = StateEnqueued"
    and "m_scheduled s i = None \<longleftrightarrow> cur_state s i \<noteq> StateScheduled"
    and "m_processing s i = None \<longleftrightarrow> cur_state s i \<noteq> StateProcessing"
  using assms unfolding core_inv_def by metis+

lemma core_inv_legal: "core_inv s \<Longrightarrow> m_jobStates s i = Some h \<Longrightarrow> legal_history h"
  by (simp add: core_inv_def)

lemma core_inv_fresh:
  assumes "core_inv s" "m_jobs s i = None"
  shows "\<not> waiting s i" "m_scheduled s i = None" "m_processing s i = None"
proof -
  from assms have "m_jobStates s i = None" by (auto simp: core_inv_def mem_wf_def)
  then have "cur_state s i = ''''" by (rule cur_unknown)
  with core_inv_places [OF assms(1)] show "\<not> waiting s i" "m_scheduled s i = None" "m_processing s i = None"
    by auto
qed

lemma core_inv_insert:
  assumes inv: "core_inv s" and fresh: "m_jobs s (j_ID j) = None" and q: "j_Queue j \<noteq> ''''"
  shows "core_inv (mem_insert e q j s)"
proof (rule core_inv_move [OF inv mem_wf_insert])
  note f = core_inv_fresh [OF inv fresh]
  have qs: "queues_ok s" using inv by (simp add: core_inv_def)
  note push = queues_ok_push [OF qs f(1), where s' = "mem_insert e q j s" and q = q]
  show "queues_ok (mem_insert e q j s)" by (rule push(1)) simp
  show "k \<noteq> j_ID j \<Longrightarrow> waiting (mem_insert e q j s) k = waiting s k" for k
    using push(2) by simp
  show "waiting (mem_insert e q j s) (j_ID j) =
      (current_of [new_state StateEnqueued '''' [] (now_at e 1)] = StateEnqueued)"
    using push(2) by simp
qed (use inv q core_inv_fresh [OF inv fresh] in \<open>auto simp: core_inv_wf legal_single\<close>)

lemma core_inv_signal [simp]: "core_inv (signal s) = core_inv s"
  by (simp add: core_inv_def queues_ok_def waiting_def cur_state_def)

lemma core_inv_idem [simp]: "core_inv (s\<lparr>m_idempotency := x\<rparr>) = core_inv s"
  by (simp add: core_inv_def queues_ok_def waiting_def cur_state_def)

lemma core_inv_Enqueue:
  "core_inv s \<Longrightarrow> j_ID j = '''' \<Longrightarrow> m_jobs s (new_uuid e 0) = None \<Longrightarrow>
   core_inv (fst (mem_Enqueue e c q j s))"
  by (simp add: mem_Enqueue_def Let_def core_inv_insert)

lemma core_inv_EnqueueIdempotent:
  "core_inv s \<Longrightarrow> j_ID j = '''' \<Longrightarrow> m_jobs s (new_uuid e 0) = None \<Longrightarrow>
   core_inv (fst (mem_EnqueueIdempotent e c q j s))"
  by (simp add: mem_EnqueueIdempotent_def Let_def core_inv_insert split: option.split)

lemma core_inv_AddScheduled:
  assumes inv: "core_inv s" and id: "j_ID j = ''''" and fresh: "m_jobs s (new_uuid e 0) = None"
  shows "core_inv (fst (mem_AddScheduled e c at j s))"
proof (rule core_inv_move [OF inv mem_wf_AddScheduled [OF core_inv_wf [OF inv]]])
  let ?s' = "fst (mem_AddScheduled e c at j s)"
  note f = core_inv_fresh [OF inv fresh]
  have q: "m_queues ?s' = m_queues s" by (simp add: mem_AddScheduled_def Let_def)
  show "m_jobStates ?s' = (m_jobStates s)(new_uuid e 0 \<mapsto>
      [new_state StateScheduled '''' [(''enqueue_at'', rfc3339 e at)] (now_at e 1)])"
    using id by (simp add: mem_AddScheduled_def Let_def)
  show "queues_ok ?s'" using core_inv_queues [OF inv] queues_ok_frame [OF q] by simp
  show "k \<noteq> new_uuid e 0 \<Longrightarrow> waiting ?s' k = waiting s k" for k
    by (simp add: waiting_frame [OF q])
  show "waiting ?s' (new_uuid e 0) = (current_of
      [new_state StateScheduled '''' [(''enqueue_at'', rfc3339 e at)] (now_at e 1)] = StateEnqueued)"
    using f(1) by (simp add: waiting_frame [OF q])
qed (use id core_inv_fresh [OF inv fresh] in \<open>auto simp: mem_AddScheduled_def Let_def legal_single\<close>)

lemma cur_state_Some: "cur_state s i = n \<Longrightarrow> n \<noteq> '''' \<Longrightarrow> \<exists>h. m_jobStates s i = Some h \<and> current_of h = n"
  by (cases "m_jobStates s i") (auto simp: cur_unknown cur_known)

lemma core_inv_scan:
  assumes inv: "core_inv s" and scan: "dequeue_scan e True qs s = Found s' t"
  shows "core_inv s'"
proof -
  note wf = core_inv_wf [OF inv]
  from scan wf obtain q i rest j where d: "list_at (m_queues s) q = i # rest" "m_jobs s i = Some j"
    and s': "s' = dequeue_take e i (pop_queue q rest s)"
    by (rule scan_foundE)
  have "waiting s i" unfolding waiting_def using d(1) by (metis list.set_intros(1))
  then have enq: "cur_state s i = StateEnqueued" by (simp add: core_inv_places [OF inv])
  then obtain h where h: "m_jobStates s i = Some h" "current_of h = StateEnqueued"
    using cur_state_Some [OF enq] by auto
  define st where "st = new_state StateProcessing '''' [(''server_id'', ''local'')] (now_at e 1)"
  have qs': "m_queues s' = (m_queues s)(q \<mapsto> rest)" by (simp add: s' pop_queue_def)
  note pop = queues_ok_pop [OF core_inv_queues [OF inv] d(1) qs']
  show ?thesis
  proof (rule core_inv_move [OF inv, where i = i and h = "h @ [st]"])
    show "mem_wf s'" using mem_wf_scan [OF scan wf] .
    show "m_jobStates s' = (m_jobStates s)(i \<mapsto> h @ [st])"
      using h(1) by (simp add: s' pop_queue_def st_def list_at_def)
    show "legal_history (h @ [st])"
      using core_inv_legal [OF inv h(1)] h(2) by (auto intro: legal_append simp: lifecycle_def st_def)
  qed (use pop enq core_inv_places [OF inv, of i] in
      \<open>auto simp: s' pop_queue_def st_def\<close>)
qed

lemma core_inv_Apply:
  assumes inv: "core_inv s" and life: "lifecycle src (js_Name st)"
    and notq: "js_Name st \<notin> {StateEnqueued, StateScheduled, StateProcessing}"
    and src: "src \<in> {StateProcessing, StateFailed}"
  shows "core_inv (fst (mem_ApplyState e c i src st s))"
proof -
  note wf = core_inv_wf [OF inv]
  show ?thesis
  proof (cases "m_jobStates s i")
    case None
    with inv wf show ?thesis by (simp add: ApplyState_fail)
  next
    case (Some h)
    show ?thesis
    proof (cases "current_of h = src")
      case False
      with inv wf Some show ?thesis by (simp add: ApplyState_fail)
    next
      case True
      note sp = ApplyState_spec [OF wf Some True, of e c st]
      let ?s' = "fst (mem_ApplyState e c i src st s)"
      let ?st = "if js_CreatedAt st = 0 then st\<lparr>js_CreatedAt := now_at e 0\<rparr> else st"
      have nm: "js_Name ?st = js_Name st" by simp
      have cs: "cur_state s i = src" using Some True by (simp add: cur_known)
      show ?thesis
      proof (rule core_inv_move [OF inv mem_wf_ApplyState [OF wf] sp(2)])
        show "legal_history (h @ [?st])"
          using core_inv_legal [OF inv Some] life True by (auto intro: legal_append)
        show "queues_ok ?s'" using core_inv_queues [OF inv] queues_ok_frame [OF sp(4)] by simp
      qed (use notq src cs core_inv_places [OF inv, of i] in
          \<open>auto simp: sp nm waiting_frame [OF sp(4)]\<close>)
    qed
  qed
qed

lemma core_inv_ScheduleRetry:
  assumes inv: "core_inv s"
  shows "core_inv (fst (mem_ScheduleRetry e c i at s))"
proof -
  note wf = core_inv_wf [OF inv]
  show ?thesis
  proof (cases "\<exists>h. m_jobStates s i = Some h \<and> current_of h = StateFailed")
    case False
    then show ?thesis
      using inv by (cases "m_jobStates s i") (auto simp: ScheduleRetry_fail [OF wf])
  next
    case True
    then obtain h where h: "m_jobStates s i = Some h" "current_of h = StateFailed" by blast
    note sp = ScheduleRetry_spec [OF wf h, of e c at]
    let ?s' = "fst (mem_ScheduleRetry e c i at s)"
    have cs: "cur_state s i = StateFailed" using h by (simp add: cur_known)
    show ?thesis
    proof (rule core_inv_move [OF inv mem_wf_ScheduleRetry [OF wf] sp(2)])
      show "legal_history (h @ [new_state StateScheduled '''' [(''enqueue_at'', rfc3339 e at)] (now_at e 0)])"
        using core_inv_legal [OF inv h(1)] h(2) by (auto intro: legal_append simp: lifecycle_def)
      show "queues_ok ?s'" using core_inv_queues [OF inv] queues_ok_frame [OF sp(5)] by simp
    qed (use cs core_inv_places [OF inv, of i] in \<open>auto simp: sp waiting_frame [OF sp(5)]\<close>)
  qed
qed

lemma core_inv_forget:
  assumes inv: "core_inv s" and fin: "cur_state s i \<notin> {StateEnqueued, StateScheduled, StateProcessing}"
  shows "core_inv (mem_forget i s)"
proof -
  have c: "cur_state (mem_forget i s) k = (if k = i then '''' else cur_state s k)" for k
    by (simp add: cur_state_def current_of_def)
  have w: "waiting (mem_forget i s) = waiting s" by (rule waiting_frame) simp
  from fin core_inv_places [OF inv, of i] have "\<not> waiting s i" by auto
  with inv show ?thesis
    unfolding core_inv_def by (auto simp: c w mem_wf_forget queues_ok_def)
qed

lemma expired_cur_state:
  "expired cutoff s i \<Longrightarrow> cur_state s i \<notin> {StateEnqueued, StateScheduled, StateProcessing}"
  by (auto simp: expired_def Let_def cur_state_def current_of_def isTerminal_def)

lemma core_inv_expire: "core_inv s \<Longrightarrow> core_inv (fst (expire_loop cutoff is n s))"
  by (induction cutoff "is" n s rule: expire_loop.induct)
    (auto dest: expired_cur_state intro: core_inv_forget)

lemma core_inv_promote_one:
  fixes t :: time
  assumes inv: "core_inv s" and sch: "m_scheduled s i \<noteq> None" and j: "m_jobs s i = Some j"
  defines "s1 \<equiv> append_state i (new_state StateEnqueued ''scheduled'' [] t)
    (s\<lparr>m_scheduled := (m_scheduled s)(i := None)\<rparr>)"
  shows "core_inv (push_back (j_Queue j) i s1)"
proof -
  let ?s' = "push_back (j_Queue j) i s1"
  note wf = core_inv_wf [OF inv]
  have cs: "cur_state s i = StateScheduled" using sch core_inv_places(2) [OF inv, of i] by argo
  then obtain h where h: "m_jobStates s i = Some h" "current_of h = StateScheduled"
    using cur_state_Some [OF cs] by auto
  have nw: "\<not> waiting s i" using cs core_inv_places(1) [OF inv] by simp
  have qs: "m_queues ?s' = (m_queues s)(j_Queue j \<mapsto> list_at (m_queues s) (j_Queue j) @ [i])"
    by (simp add: s1_def)
  note push = queues_ok_push [OF core_inv_queues [OF inv] nw qs]
  show ?thesis
  proof (rule core_inv_move [OF inv, where i = i])
    show "mem_wf ?s'" using wf j by (simp add: s1_def mem_wf_append mem_wf_unschedule)
    show "m_jobStates ?s' = (m_jobStates s)(i \<mapsto> h @ [new_state StateEnqueued ''scheduled'' [] t])"
      using h by (simp add: s1_def list_at_def)
    show "legal_history (h @ [new_state StateEnqueued ''scheduled'' [] t])"
      using core_inv_legal [OF inv h(1)] h(2) by (auto intro: legal_append simp: lifecycle_def)
  qed (use push cs core_inv_places [OF inv, of i] in \<open>auto simp: s1_def\<close>)
qed

lemma core_inv_count [simp]: "core_inv (count k d s) = core_inv s"
  by (simp add: core_inv_def queues_ok_def waiting_def cur_state_def)

lemma core_inv_promote:
  "core_inv s \<Longrightarrow> set is \<subseteq> dom (m_scheduled s) \<Longrightarrow> distinct is \<Longrightarrow>
   core_inv (fst (mem_promote e n is s))"
proof (induction e n "is" s rule: mem_promote.induct)
  case (1 e n s)
  then show ?case by simp
next
  case (2 e n i "is" s)
  let ?s1 = "append_state i (new_state StateEnqueued ''scheduled'' [] (now_at e n))
    (s\<lparr>m_scheduled := (m_scheduled s)(i := None)\<rparr>)"
  from "2.prems" obtain j where j: "m_jobs s i = Some j"
    using core_inv_wf [of s] by (auto simp: mem_wf_def)
  have sch: "m_scheduled s i \<noteq> None" using "2.prems" by auto
  have "core_inv (fst (mem_promote e (Suc n) is
      (count ''enqueued'' 1 (count ''scheduled'' (- 1) (push_back (j_Queue j) i ?s1)))))"
    using "2.prems" j core_inv_promote_one [OF "2.prems"(1) sch j] by (intro "2.IH" [OF refl refl]) auto
  with j show ?case
    by (simp add: Let_def case_prod_beta)
qed

lemma due_scan_distinct:
  "distinct (due @ is) \<Longrightarrow> distinct (due_scan now n sched is due)"
  by (induction now n sched "is" due rule: due_scan.induct)
    (auto simp: Let_def split: option.splits if_splits)

lemma core_inv_GetDueScheduled:
  assumes inv: "core_inv s"
  shows "core_inv (fst (mem_GetDueScheduled e c now n s))"
proof -
  let ?due = "due_scan now n (m_scheduled s) (range_keys (m_scheduled s) (key_order e)) []"
  have "set ?due \<subseteq> dom (m_scheduled s)"
    using due_scan_subset [of now n "m_scheduled s" "range_keys (m_scheduled s) (key_order e)" "[]"]
    by auto
  moreover have "distinct ?due" by (rule due_scan_distinct) simp
  ultimately have "core_inv (fst (mem_promote e 0 ?due s))" by (intro core_inv_promote inv)
  then show ?thesis
    by (auto simp: mem_GetDueScheduled_def Let_def split: prod.split result.split)
qed

lemma core_inv_irrelevant [simp]:
  "core_inv (s\<lparr>m_dequeueCh := x1\<rparr>) = core_inv s" "core_inv (s\<lparr>m_servers := x2\<rparr>) = core_inv s"
  "core_inv (s\<lparr>m_recurring := x3\<rparr>) = core_inv s" "core_inv (s\<lparr>m_locks := x4\<rparr>) = core_inv s"
  "core_inv (s\<lparr>m_continuations := x5\<rparr>) = core_inv s"
  by (simp_all add: core_inv_def queues_ok_def waiting_def cur_state_def)

lemma core_inv_SetJobResult: "core_inv s \<Longrightarrow> core_inv (fst (mem_SetJobResult c i r s))"
  by (rule core_inv_frame, assumption, rule mem_wf_SetJobResult, erule core_inv_wf)
    (auto simp: mem_SetJobResult_def Let_def split: option.split)

lemma core_inv_HeartbeatJob: "core_inv s \<Longrightarrow> core_inv (fst (mem_HeartbeatJob e c i s))"
  by (rule core_inv_frame, assumption, rule mem_wf_HeartbeatJob, erule core_inv_wf)
    (auto simp: mem_HeartbeatJob_def Let_def split: option.split)

lemma core_inv_New: "core_inv mem_New"
  using mem_wf_New unfolding core_inv_def
  by (simp add: queues_ok_def waiting_def cur_state_def mem_New_def list_at_def current_of_def)

lemma core_inv_step: "core_step s s' \<Longrightarrow> core_inv s \<Longrightarrow> core_inv s'"
proof (induction rule: core_step.induct)
  case (Dequeue e qs s s' t)
  then show ?case by (blast intro: core_inv_scan)
next
  case (Finish st s e c i)
  then show ?case by (intro core_inv_Apply) (auto simp: lifecycle_def)
next
  case (Exhaust st s e c i)
  then show ?case by (intro core_inv_Apply) (auto simp: lifecycle_def)
next
  case (RemoveExpired s e c cutoff)
  then show ?case
    using core_inv_expire by (auto simp: mem_RemoveExpired_def Let_def case_prod_beta)
qed (auto intro: core_inv_Enqueue core_inv_EnqueueIdempotent core_inv_AddScheduled
    core_inv_ScheduleRetry core_inv_GetDueScheduled core_inv_SetJobResult core_inv_HeartbeatJob
    simp: mem_RegisterServer_def mem_UnregisterServer_def mem_Heartbeat_def
    mem_UpsertRecurring_def mem_RemoveRecurring_def mem_UpdateRecurringLastRun_def
    mem_AddContinuation_def mem_RemoveContinuations_def mem_IncrementCounter_def
    mem_AcquireLock_def mem_Release_def Let_def split: option.split)

lemma core_reachable_inv: "core_reachable s \<Longrightarrow> core_inv s"
  by (induction rule: core_reachable.induct) (auto intro: core_inv_New core_inv_step)

end
