(* ===== verification/Coordinator.thy ===== *)
theory Coordinator
  imports Engine_Core
begin

text \<open>
  The background loops of the engine (\<^verbatim>\<open>internal/engine/{engine,coordinator}.go\<close>): the poller of
  scheduled jobs, the coordinator (server heartbeat and orphan recovery, sweep of dead servers) and
  the cleanup of old jobs. Each loop runs over the list of what its \<^verbatim>\<open>select\<close> receives: before each
  receive the other goroutines act on the store; \<open>None\<close> is the end of the run context, \<open>Some w\<close> a
  tick whose calls see the environments \<open>w\<close>. When the list ends the loop is still waiting.
\<close>

section \<open>Definitions\<close>

definition tickScheduler :: "'s storage_ops \<Rightarrow> world \<Rightarrow> ctx \<Rightarrow> config \<Rightarrow> 's \<Rightarrow> 's" where
  "tickScheduler ops w c cfg s =
     fst (op_GetDueScheduled ops (w 1) c (now_at (w 0) 0) (cfg_SchedulerBatchSize cfg) s)"

fun schedulerLoop :: "'s storage_ops \<Rightarrow> ctx \<Rightarrow> config \<Rightarrow> (('s \<Rightarrow> 's) \<times> world option) list \<Rightarrow> 's \<Rightarrow> 's" where
  "schedulerLoop ops c cfg [] s = s"
| "schedulerLoop ops c cfg ((others, ev) # evs) s =
     (let s = others s in
      case ev of
        None \<Rightarrow> s
      | Some w \<Rightarrow> schedulerLoop ops c cfg evs (tickScheduler ops w c cfg s))"

fun requeue_all :: "'s storage_ops \<Rightarrow> world \<Rightarrow> ctx \<Rightarrow> jobTicket list \<Rightarrow> 's \<Rightarrow> 's" where
  "requeue_all ops w c [] s = s"
| "requeue_all ops w c (t # ts) s =
     (let (s, _) = op_Requeue ops (w 0) c (t_JobID t) ''orphan recovery'' s
      in requeue_all ops (later 1 w) c ts s)"

definition coordinatorTick :: "'s storage_ops \<Rightarrow> world \<Rightarrow> ctx \<Rightarrow> config \<Rightarrow> 's \<Rightarrow> 's" where
  "coordinatorTick ops w c cfg s =
     (let (s, _) = op_Heartbeat ops (w 0) c (cfg_ServerID cfg) (cfg_ServerHeartbeatTTL cfg) s
      in case op_GetOrphanedJobs ops (w 1) c (cfg_OrphanJobStaleAge cfg) s of
           Ok orphans \<Rightarrow> requeue_all ops (later 2 w) c orphans s
         | _ \<Rightarrow> s)"

text \<open>A stale server that is not yet due for removal is only logged.\<close>

fun sweep_servers :: "'s storage_ops \<Rightarrow> ctx \<Rightarrow> time \<Rightarrow> duration \<Rightarrow> serverInfo list \<Rightarrow> 's \<Rightarrow> 's" where
  "sweep_servers ops c now unregisterThreshold [] s = s"
| "sweep_servers ops c now unregisterThreshold (sv # svs) s =
     (let age = time_sub now (sv_LastHeartbeat sv) in
      if sint age > sint unregisterThreshold
      then let (s, _) = op_UnregisterServer ops c (sv_ID sv) s
           in sweep_servers ops c now unregisterThreshold svs s
      else sweep_servers ops c now unregisterThreshold svs s)"

definition staleServerSweep :: "'s storage_ops \<Rightarrow> world \<Rightarrow> ctx \<Rightarrow> config \<Rightarrow> 's \<Rightarrow> 's" where
  "staleServerSweep ops w c cfg s =
     (case op_GetServers ops (w 0) c s of
        Ok servers \<Rightarrow>
          let now = now_at (w 1) 0;
              staleThreshold = cfg_ServerHeartbeatTTL cfg;
              unregisterThreshold = staleThreshold * 3
          in sweep_servers ops c now unregisterThreshold servers s
      | _ \<Rightarrow> s)"

definition staleSweepEvery :: "config \<Rightarrow> duration" where
  "staleSweepEvery cfg =
     (let d = cfg_ServerHeartbeatEvery cfg * 5 in if sint d < sint second then second else d)"

datatype coordinator_event = CoordDone | CoordTick world | CoordStaleTick world

fun coordinatorLoop ::
  "'s storage_ops \<Rightarrow> ctx \<Rightarrow> config \<Rightarrow> (('s \<Rightarrow> 's) \<times> coordinator_event) list \<Rightarrow> 's \<Rightarrow> 's" where
  "coordinatorLoop ops c cfg [] s = s"
| "coordinatorLoop ops c cfg ((others, ev) # evs) s =
     (let s = others s in
      case ev of
        CoordDone \<Rightarrow> s
      | CoordTick w \<Rightarrow> coordinatorLoop ops c cfg evs (coordinatorTick ops w c cfg s)
      | CoordStaleTick w \<Rightarrow> coordinatorLoop ops c cfg evs (staleServerSweep ops w c cfg s))"

definition cleanup_tick :: "'s storage_ops \<Rightarrow> world \<Rightarrow> ctx \<Rightarrow> config \<Rightarrow> 's \<Rightarrow> 's" where
  "cleanup_tick ops w c cfg s =
     (let cutoff = time_add (now_at (w 0) 0) (- cfg_JobRetention cfg)
      in fst (op_RemoveExpired ops (w 1) c cutoff s))"

fun cleanupLoop :: "'s storage_ops \<Rightarrow> ctx \<Rightarrow> config \<Rightarrow> (('s \<Rightarrow> 's) \<times> world option) list \<Rightarrow> 's \<Rightarrow> 's" where
  "cleanupLoop ops c cfg [] s = s"
| "cleanupLoop ops c cfg ((others, ev) # evs) s =
     (let s = others s in
      case ev of
        None \<Rightarrow> s
      | Some w \<Rightarrow>
          if sint (cfg_CleanupInterval cfg) \<le> 0 then cleanupLoop ops c cfg evs s
          else cleanupLoop ops c cfg evs (cleanup_tick ops w c cfg s))"

section \<open>Requeueing over the storage contract\<close>

text \<open>Requeueing moves a job: it is known and its state can still be left.\<close>

definition can_requeue :: "jobState list option \<Rightarrow> bool" where
  "can_requeue h \<longleftrightarrow> (case h of None \<Rightarrow> False | Some sts \<Rightarrow> \<not> IrreversibleStates (current_of sts))"

definition reinstated :: "jobState list option \<Rightarrow> jobState list option \<Rightarrow> string \<Rightarrow> bool" where
  "reinstated h h' why \<longleftrightarrow> (\<exists>sts st. h = Some sts \<and> h' = Some (sts @ [st]) \<and> js_Name st = StateEnqueued \<and>
     js_Reason st = why)"

context storage_contract
begin

lemma requeue_one:
  assumes inv: "inv s" and i: "ok_id i" and e: "ok_env e" and why: "ascii why"
  shows "\<exists>s' r. op_Requeue ops e None i why s = (s', r) \<and> inv s' \<and> job_of s' = job_of s \<and>
    (\<forall>k. k \<noteq> i \<longrightarrow> hist s' k = hist s k) \<and> (\<forall>q. queued s q \<subseteq> queued s' q) \<and>
    (can_requeue (hist s i) \<longrightarrow> reinstated (hist s i) (hist s' i) why \<and>
       (\<forall>j. job_of s i = Some j \<longrightarrow> i \<in> queued s' (j_Queue j))) \<and>
    (\<not> can_requeue (hist s i) \<longrightarrow> s' = s)"
proof (cases "hist s i")
  case None
  with requeue_missing [OF inv i None, of e why] inv show ?thesis by (simp add: can_requeue_def)
next
  case (Some h)
  then obtain j where j: "job_of s i = Some j" using hist_job [OF inv, of i] by auto
  show ?thesis
  proof (cases "IrreversibleStates (current_of h)")
    case True
    with requeue_terminal [OF inv Some True, of e why] inv Some show ?thesis by (simp add: can_requeue_def)
  next
    case False
    with requeue_ok [OF inv Some j False e why] Some j show ?thesis
      by (auto simp: can_requeue_def reinstated_def)
  qed
qed

lemma requeue_all_spec:
  assumes "inv s" "distinct (map t_JobID ts)" "\<forall>t \<in> set ts. ok_id (t_JobID t)" and env: "\<And>k. ok_env (w k)"
  shows "inv (requeue_all ops w None ts s) \<and> job_of (requeue_all ops w None ts s) = job_of s \<and>
    (\<forall>q. queued s q \<subseteq> queued (requeue_all ops w None ts s) q) \<and>
    (\<forall>i. i \<in> t_JobID ` set ts \<and> can_requeue (hist s i) \<longrightarrow>
       reinstated (hist s i) (hist (requeue_all ops w None ts s) i) ''orphan recovery'' \<and>
       (\<forall>j. job_of s i = Some j \<longrightarrow> i \<in> queued (requeue_all ops w None ts s) (j_Queue j))) \<and>
    (\<forall>i. \<not> (i \<in> t_JobID ` set ts \<and> can_requeue (hist s i)) \<longrightarrow>
       hist (requeue_all ops w None ts s) i = hist s i)"
  using assms
proof (induction ts arbitrary: s w)
  case Nil
  then show ?case by simp
next
  case (Cons t ts)
  let ?i = "t_JobID t"
  have ok: "ok_id ?i" using Cons.prems(3) by simp
  have plain: "ascii ''orphan recovery''" by (simp add: ascii_def)
  obtain s1 r where one: "op_Requeue ops (w 0) None ?i ''orphan recovery'' s = (s1, r)" "inv s1" "job_of s1 = job_of s"
    "\<forall>k. k \<noteq> ?i \<longrightarrow> hist s1 k = hist s k" "\<forall>q. queued s q \<subseteq> queued s1 q"
    "can_requeue (hist s ?i) \<longrightarrow> reinstated (hist s ?i) (hist s1 ?i) ''orphan recovery'' \<and>
       (\<forall>j. job_of s ?i = Some j \<longrightarrow> ?i \<in> queued s1 (j_Queue j))"
    "\<not> can_requeue (hist s ?i) \<longrightarrow> s1 = s"
    using requeue_one [OF Cons.prems(1) ok Cons.prems(4) [of 0] plain] by blast
  define s2 where "s2 = requeue_all ops (later 1 w) None ts s1"
  have step: "requeue_all ops w None (t # ts) s = s2" using one(1) by (simp add: s2_def)
  have dis: "?i \<notin> t_JobID ` set ts" "distinct (map t_JobID ts)" using Cons.prems(2) by auto
  have env1: "ok_env (later 1 w k)" for k using Cons.prems(4) by (simp add: later_def)
  have ok1: "\<forall>t \<in> set ts. ok_id (t_JobID t)" using Cons.prems(3) by simp
  note IH = Cons.IH [where w = "later 1 w", OF one(2) dis(2) ok1 env1, folded s2_def]
  have first: "hist s2 ?i = hist s1 ?i" using IH dis(1) by blast
  have rest: "hist s1 i = hist s i" if "i \<noteq> ?i" for i using one(4) that by blast
  have mono: "queued s1 q \<subseteq> queued s2 q" for q using IH by blast
  have yes: "reinstated (hist s i) (hist s2 i) ''orphan recovery'' \<and>
      (\<forall>j. job_of s i = Some j \<longrightarrow> i \<in> queued s2 (j_Queue j))"
    if "i \<in> t_JobID ` set (t # ts)" "can_requeue (hist s i)" for i
  proof (cases "i = ?i")
    case True
    with that one(6) first mono show ?thesis by fastforce
  next
    case False
    with that(1) have "i \<in> t_JobID ` set ts" by simp
    then show ?thesis using that(2) IH rest [OF False] one(3) by metis
  qed
  have no: "hist s2 i = hist s i" if "\<not> (i \<in> t_JobID ` set (t # ts) \<and> can_requeue (hist s i))" for i
    using that first one(7) IH rest [of i] by (cases "i = ?i") (simp, metis list.simps(15) image_insert insert_iff)
  have "\<forall>q. queued s q \<subseteq> queued s2 q" using one(5) mono by blast
  with IH yes no one(3) show ?case unfolding step by simp
qed

end

end
