(* ===== verification/Memory_Contract.thy ===== *)
theory Memory_Contract
  imports Memory_Invariant Coordinator
begin

text \<open>
  The in-memory store keeps the storage contract: the interpretation \<open>mem\<close> discharges the laws of
  \<open>storage_contract\<close> for \<open>memory_ops\<close>, with the history, the job record and the queue membership as
  observations. Everything the engine theories prove for an arbitrary store holds for it under \<open>mem\<close>.
\<close>

interpretation mem: storage_contract memory_ops "\<lambda>_. True" "\<lambda>_. True" mem_wf m_jobStates m_jobs mem_queued
proof (unfold_locales, goal_cases)
  case (1 s i) then show ?case by (metis domIff mem_wf_def)
next
  case (2 s i h) then show ?case by (rule mem_wf_nonempty)
next
  case (3 s i j) then show ?case by (simp add: mem_wf_def)
next
  case (4 s i e st cur) then show ?case by (simp add: ApplyState_fail)
next
  case (5 s i h cur e st) then show ?case by (simp add: ApplyState_fail)
next
  case (6 s i h cur e st)
  note sp = ApplyState_spec [OF 6(1-3)]
  show ?case
    by (rule exI [of _ "fst (mem_ApplyState e None i cur st s)"],
        rule exI [of _ "if js_CreatedAt st = 0 then st\<lparr>js_CreatedAt := now_at e 0\<rparr> else st"])
      (simp add: sp prod_eq_iff mem_wf_ApplyState [OF 6(1)] mem_queued_frame [OF sp(4)])
next
  case (7 s i r) then show ?case by (simp add: mem_SetJobResult_def)
next
  case (8 s i j r)
  note sp = SetJobResult_spec [OF 8(2), of None r]
  show ?case
    by (rule exI [of _ "s\<lparr>m_jobs := (m_jobs s)(i \<mapsto> j\<lparr>j_Result := stored_result r\<rparr>)\<rparr>"],
        rule exI [of _ "stored_result r"])
      (use mem_wf_SetJobResult [OF 8(1), of None i r] sp in
        \<open>auto simp: stored_result_len stored_result_short mem_queued_def fun_eq_iff\<close>)
next
  case (9 s i e at) then show ?case by (simp add: ScheduleRetry_fail)
next
  case (10 s i h e at) then show ?case by (simp add: ScheduleRetry_fail)
next
  case (11 s i h e at)
  note sp = ScheduleRetry_spec [OF 11(1-3)]
  show ?case
    by (rule exI [of _ "fst (mem_ScheduleRetry e None i at s)"],
        rule exI [of _ "new_state StateScheduled '''' [(''enqueue_at'', rfc3339 e at)] (now_at e 0)"])
      (simp add: sp prod_eq_iff mem_wf_ScheduleRetry [OF 11(1)] mem_queued_frame [OF sp(5)])
next
  case (12 s i) then show ?case by (simp add: GetJob_spec)
next
  case (13 s i j h) then show ?case by (simp add: GetJob_spec)
next
  case (14 s i e why) then show ?case by (simp add: Requeue_fail)
next
  case (15 s i h e why) then show ?case by (simp add: Requeue_fail)
next
  case (16 s i h j e why)
  note sp = Requeue_spec [OF 16(1,3,2,4)]
  show ?case
    by (rule exI [of _ "fst (mem_Requeue e None i why s)"],
        rule exI [of _ "new_state StateEnqueued why [] (now_at e 0)"])
      (simp add: sp prod_eq_iff mem_wf_Requeue [OF 16(1)] mem_queued_push [OF sp(3)])
next
  case (17 s j q e u)
  let ?j = "mem_fill_job e j"
  show ?case
    by (rule exI [of _ "fst (mem_Enqueue e None q j s)"],
        rule exI [of _ "new_state StateEnqueued '''' [] (now_at e 1)"], rule exI [of _ ?j])
      (use 17 mem_wf_Enqueue [OF 17(1), of e None q j] in
        \<open>auto simp: mem_Enqueue_def Let_def intro!: mem_queued_push\<close>)
qed

text \<open>The client lemmas without the conditions on ids and environments, which are void here.\<close>

lemmas mem_requeue_all_spec = mem.requeue_all_spec [OF _ _ ballI [OF TrueI] TrueI]

lemmas mem_fire_entries_spec = mem.fire_entries_spec [OF _ _ TrueI, simplified not_True_eq_False simp_thms]

lemmas mem_finish_spec = mem.finish_spec [OF _ _ _ _ _ _ _ _ TrueI TrueI]

lemmas mem_stale_spec = mem.finish_stale [OF _ _ _ _ _ _ _ TrueI]

end
