(* ===== verification/Memory_Properties.thy ===== *)
theory Memory_Properties
  imports Memory_Lifecycle Memory_Contract
begin

text \<open>
  What the in-memory store guarantees to its callers, and where it does not: order and exclusivity
  of dispatch, the blocking loop of \<^verbatim>\<open>Dequeue\<close>, idempotent enqueue, locks, promotion of scheduled
  jobs, cleanup. \<open>test_env\<close> is the environment of the concrete runs.
\<close>

section \<open>Reference functions\<close>

definition test_env :: "time \<Rightarrow> string \<Rightarrow> string list \<Rightarrow> env" where
  "test_env t u ks = \<lparr>now_at = (\<lambda>_. t), new_uuid = (\<lambda>_. u), key_order = ks, rfc3339 = (\<lambda>_. '''')\<rparr>"

text \<open>
  The calls that create, move or remove jobs. \<open>queue_call q op s\<close> runs one call and says which ids it put into
  the queue \<open>q\<close> and which it took out: the id that Enqueue returns, the id of a successful Requeue of a job of
  \<open>q\<close>, the promoted ids whose jobs belong to \<open>q\<close>, and the ticket of a Dequeue that found \<open>q\<close> to be the first
  of its queues with anything in it.
\<close>

datatype queue_op =
    QEnqueue env string job
  | QEnqueueIdempotent env string job
  | QRequeue env string string
  | QGetDueScheduled env time int
  | QDequeue env "string list"
  | QAddScheduled env time job
  | QApplyState env string string jobState
  | QScheduleRetry env string time
  | QDeleteJob env string
  | QRemoveExpired env time

definition in_queue :: "mstate \<Rightarrow> string \<Rightarrow> string \<Rightarrow> bool" where
  "in_queue s q i \<longleftrightarrow> (case m_jobs s i of None \<Rightarrow> False | Some j \<Rightarrow> j_Queue j = q)"

definition serves :: "string \<Rightarrow> string list \<Rightarrow> mstate \<Rightarrow> bool" where
  "serves q qs s \<longleftrightarrow> (case find (\<lambda>p. list_at (m_queues s) p \<noteq> []) qs of None \<Rightarrow> False | Some p \<Rightarrow> p = q)"

fun queue_call :: "string \<Rightarrow> queue_op \<Rightarrow> mstate \<Rightarrow> string list \<times> string list \<times> mstate" where
  "queue_call q (QEnqueue e p j) s =
     (case mem_Enqueue e None p j s of (s', Ok i) \<Rightarrow> (if p = q then [i] else [], [], s') | (s', _) \<Rightarrow> ([], [], s'))"
| "queue_call q (QEnqueueIdempotent e p j) s =
     (case mem_EnqueueIdempotent e None p j s of
        (s', Ok (i, True)) \<Rightarrow> (if p = q then [i] else [], [], s')
      | (s', _) \<Rightarrow> ([], [], s'))"
| "queue_call q (QRequeue e i why) s =
     (case mem_Requeue e None i why s of (s', Ok _) \<Rightarrow> (if in_queue s q i then [i] else [], [], s') | (s', _) \<Rightarrow> ([], [], s'))"
| "queue_call q (QGetDueScheduled e now n) s =
     (case mem_GetDueScheduled e None now n s of
        (s', Ok ts) \<Rightarrow> (filter (in_queue s q) (map t_JobID ts), [], s')
      | (s', _) \<Rightarrow> ([], [], s'))"
| "queue_call q (QDequeue e qs) s =
     (case mem_Dequeue e None qs [] s of
        Some (s', Ok t) \<Rightarrow> ([], if serves q qs s then [t_JobID t] else [], s')
      | Some (s', _) \<Rightarrow> ([], [], s')
      | None \<Rightarrow> ([], [], s))"
| "queue_call q (QAddScheduled e at j) s = ([], [], fst (mem_AddScheduled e None at j s))"
| "queue_call q (QApplyState e i cur st) s = ([], [], fst (mem_ApplyState e None i cur st s))"
| "queue_call q (QScheduleRetry e i at) s = ([], [], fst (mem_ScheduleRetry e None i at s))"
| "queue_call q (QDeleteJob e i) s = ([], [], fst (mem_DeleteJob e None i s))"
| "queue_call q (QRemoveExpired e cutoff) s = ([], [], fst (mem_RemoveExpired e None cutoff s))"

fun queue_run :: "string \<Rightarrow> queue_op list \<Rightarrow> mstate \<Rightarrow> string list \<times> string list \<times> mstate" where
  "queue_run q [] s = ([], [], s)"
| "queue_run q (op # ops) s =
     (let (i1, o1, s) = queue_call q op s; (i2, o2, s) = queue_run q ops s in (i1 @ i2, o1 @ o2, s))"

datatype lock_op = LAcquire env string duration | LRelease lock

fun lock_run :: "lock_op list \<Rightarrow> mstate \<Rightarrow> mstate" where
  "lock_run [] s = s"
| "lock_run (LAcquire e r ttl # ops) s = lock_run ops (fst (mem_AcquireLock e None r ttl s))"
| "lock_run (LRelease l # ops) s = lock_run ops (fst (mem_Release None l s))"

definition is_due :: "time \<Rightarrow> mstate \<Rightarrow> string \<Rightarrow> bool" where
  "is_due now s i \<longleftrightarrow> (case m_scheduled s i of None \<Rightarrow> False | Some t \<Rightarrow> t \<le> now)"

lemma test_env_sel [simp]:
  "now_at (test_env t u ks) = (\<lambda>_. t)" "new_uuid (test_env t u ks) = (\<lambda>_. u)"
  "key_order (test_env t u ks) = ks" "rfc3339 (test_env t u ks) = (\<lambda>_. '''')"
  by (simp_all add: test_env_def)

section \<open>Lemmas\<close>

lemma dequeue_wait_returns:
  "\<exists>(f, w) \<in> set ws. w = WDeadline \<or> (\<exists>err. w = WCtxDone err) \<Longrightarrow>
   (\<exists>r. mem_Dequeue e c qs ws s = Some r) \<and> (\<exists>r. dequeue_wait e c qs ws s = Some r)"
proof (induction ws arbitrary: s)
  case Nil
  then show ?case by simp
next
  case (Cons x ws)
  obtain f w where x: "x = (f, w)" by (cases x)
  have wait: "\<exists>r. dequeue_wait e c qs (x # ws) s' = Some r" for s'
    using Cons x by (cases w) (auto simp: Let_def)
  then have "\<exists>r. mem_Dequeue e c qs (x # ws) s = Some r"
    by (auto split: scan.split)
  with wait show ?case by blast
qed

lemma lock_run_keeps:
  assumes "m_locks s r = Some l"
    and "\<forall>op \<in> set ops. case op of LAcquire e res ttl \<Rightarrow> now_at e 0 < lk_expiresAt l
           | LRelease l' \<Rightarrow> lk_resource l' = r \<longrightarrow> lk_ownerID l' \<noteq> lk_ownerID l"
  shows "m_locks (lock_run ops s) r = Some l"
  using assms
proof (induction ops arbitrary: s)
  case Nil
  then show ?case by simp
next
  case (Cons op ops)
  show ?case
  proof (cases op)
    case (LAcquire e res ttl)
    then have "m_locks (fst (mem_AcquireLock e None res ttl s)) r = Some l"
      using Cons.prems by (auto simp: mem_AcquireLock_def Let_def split: option.split)
    with Cons LAcquire show ?thesis by simp
  next
    case (LRelease l')
    then have "m_locks (fst (mem_Release None l' s)) r = Some l"
      using Cons.prems by (auto simp: mem_Release_def split: option.split)
    with Cons LRelease show ?thesis by simp
  qed
qed

lemma idempotency_kept:
  "mem_step s s' \<Longrightarrow> m_idempotency s k = Some i \<Longrightarrow> m_idempotency s' k = Some i"
proof (induction rule: mem_step.induct)
  case (Dequeue e qs s s' t)
  then show ?case
    by (induction e True qs s rule: dequeue_scan.induct)
      (auto simp: Let_def scan_unheld split: list.splits option.splits if_splits)
next
  case (GetDueScheduled s e c now n)
  have "m_idempotency (fst (mem_promote e n is s)) = m_idempotency s" for n "is" s
    by (induction e n "is" s rule: mem_promote.induct) (auto simp: Let_def case_prod_beta split: option.split)
  with GetDueScheduled show ?case
    by (auto simp: mem_GetDueScheduled_def Let_def case_prod_beta split: result.split)
next
  case (RemoveExpired s e c cutoff)
  have "m_idempotency (fst (expire_loop cutoff is n s)) = m_idempotency s" for n "is" s
    by (induction cutoff "is" n s rule: expire_loop.induct) auto
  with RemoveExpired show ?case
    by (auto simp: mem_RemoveExpired_def Let_def case_prod_beta)
qed (auto simp: mem_Enqueue_def mem_EnqueueIdempotent_def mem_Requeue_def mem_ApplyState_def
    mem_ScheduleRetry_def mem_SetJobResult_def mem_HeartbeatJob_def mem_RegisterServer_def
    mem_UnregisterServer_def mem_Heartbeat_def mem_AddScheduled_def mem_RemoveScheduled_def
    mem_UpsertRecurring_def mem_RemoveRecurring_def mem_UpdateRecurringLastRun_def
    mem_AddContinuation_def mem_RemoveContinuations_def mem_IncrementCounter_def
    mem_AcquireLock_def mem_Release_def mem_DeleteJob_def Let_def split: option.split)

lemma expired_other: "k \<noteq> i \<Longrightarrow> expired cutoff (mem_forget i s) k = expired cutoff s k"
  by (simp add: expired_def)

lemma expire_loop_spec:
  "distinct is \<Longrightarrow>
   m_jobs (fst (expire_loop cutoff is n s)) =
     (\<lambda>i. if i \<in> set is \<and> expired cutoff s i then None else m_jobs s i) \<and>
   m_jobStates (fst (expire_loop cutoff is n s)) =
     (\<lambda>i. if i \<in> set is \<and> expired cutoff s i then None else m_jobStates s i) \<and>
   m_queues (fst (expire_loop cutoff is n s)) = m_queues s \<and>
   m_scheduled (fst (expire_loop cutoff is n s)) =
     (\<lambda>i. if i \<in> set is \<and> expired cutoff s i then None else m_scheduled s i) \<and>
   m_processing (fst (expire_loop cutoff is n s)) =
     (\<lambda>i. if i \<in> set is \<and> expired cutoff s i then None else m_processing s i) \<and>
   m_progress (fst (expire_loop cutoff is n s)) =
     (\<lambda>i. if i \<in> set is \<and> expired cutoff s i then None else m_progress s i) \<and>
   m_continuations (fst (expire_loop cutoff is n s)) =
     (\<lambda>i. if i \<in> set is \<and> expired cutoff s i then None else m_continuations s i) \<and>
   snd (expire_loop cutoff is n s) = n + of_nat (length (filter (expired cutoff s) is))"
proof (induction cutoff "is" n s rule: expire_loop.induct)
  case (1 cutoff n s)
  then show ?case by simp
next
  case (2 cutoff i "is" n s)
  show ?case
  proof (cases "expired cutoff s i")
    case True
    have eq: "expired cutoff (mem_forget i s) k = expired cutoff s k" if "k \<in> set is" for k
      using that "2.prems" by (intro expired_other) auto
    then have "filter (expired cutoff (mem_forget i s)) is = filter (expired cutoff s) is"
      by (intro filter_cong) simp_all
    with True 2 eq show ?thesis by (auto simp: fun_eq_iff)
  next
    case False
    with 2 show ?thesis by (auto simp: fun_eq_iff)
  qed
qed

lemma due_scan_closed:
  "int (length due) < n \<Longrightarrow>
   due_scan now n (m_scheduled s) is due = due @ take (nat n - length due) (filter (is_due now s) is)"
proof (induction "is" arbitrary: due)
  case Nil
  then show ?case by simp
next
  case (Cons i "is")
  have due: "(case m_scheduled s i of None \<Rightarrow> due | Some at \<Rightarrow> if \<not> now < at then due @ [i] else due)
      = (if is_due now s i then due @ [i] else due)"
    by (auto simp: is_due_def split: option.split)
  show ?case
  proof (cases "is_due now s i")
    case True
    show ?thesis
    proof (cases "int (length (due @ [i])) < n")
      case True
      have "nat n - length due = Suc (nat n - length (due @ [i]))" using True by simp
      with True Cons.IH [of "due @ [i]"] \<open>is_due now s i\<close> show ?thesis by (simp add: due Let_def)
    next
      case False
      with Cons.prems have "nat n - length due = 1" by simp
      with False \<open>is_due now s i\<close> show ?thesis by (simp add: due Let_def)
    qed
  next
    case False
    with Cons show ?thesis by (simp add: due Let_def)
  qed
qed

text \<open>What promotion does to the store: every id of the batch becomes Enqueued and joins its queue.\<close>

lemma promote_spec:
  fixes e :: env and n :: nat
  assumes "mem_wf s" "distinct is" "set is \<subseteq> dom (m_jobs s)"
  defines "s' \<equiv> fst (mem_promote e n is s)"
  shows "m_jobs s' = m_jobs s \<and>
    (\<forall>k. m_scheduled s' k = (if k \<in> set is then None else m_scheduled s k)) \<and>
    (\<forall>k. cur_state s' k = (if k \<in> set is then StateEnqueued else cur_state s k)) \<and>
    (\<forall>k. k \<notin> set is \<longrightarrow> m_jobStates s' k = m_jobStates s k) \<and>
    (\<forall>k \<in> set is. \<exists>st. js_Name st = StateEnqueued \<and> m_jobStates s' k = Some (list_at (m_jobStates s) k @ [st])) \<and>
    (\<forall>q. list_at (m_queues s') q = list_at (m_queues s) q @ filter (in_queue s q) is) \<and>
    m_processing s' = m_processing s \<and> m_progress s' = m_progress s \<and> m_idempotency s' = m_idempotency s"
  using assms(1-3) unfolding s'_def
proof (induction e n "is" s rule: mem_promote.induct)
  case (1 e n s)
  then show ?case by simp
next
  case (2 e n i "is" s)
  define s1 where "s1 = append_state i (new_state StateEnqueued ''scheduled'' [] (now_at e n))
    (s\<lparr>m_scheduled := (m_scheduled s)(i := None)\<rparr>)"
  from "2.prems" obtain j where j: "m_jobs s i = Some j" by auto
  define s2 where "s2 = count ''enqueued'' 1 (count ''scheduled'' (- 1) (push_back (j_Queue j) i s1))"
  have wf: "mem_wf s2"
    using "2.prems" j by (simp add: s2_def s1_def mem_wf_append mem_wf_unschedule)
  have f: "m_jobs s2 = m_jobs s" "m_idempotency s2 = m_idempotency s" "m_processing s2 = m_processing s" "m_progress s2 = m_progress s"
      "m_jobStates s2 k = (if k = i then Some (list_at (m_jobStates s) i @ [new_state StateEnqueued ''scheduled'' [] (now_at e n)])
         else m_jobStates s k)"
      "m_scheduled s2 k = (if k = i then None else m_scheduled s k)"
      "cur_state s2 k = (if k = i then StateEnqueued else cur_state s k)"
      "list_at (m_queues s2) q =
        (if q = j_Queue j then list_at (m_queues s) q @ [i] else list_at (m_queues s) q)" for k q
    by (simp_all add: s2_def s1_def cur_state_def)
  have step: "fst (mem_promote e n (i # is) s) = fst (mem_promote e (Suc n) is s2)"
    using j by (simp add: s2_def s1_def Let_def case_prod_beta)
  have sub: "set is \<subseteq> dom (m_jobs s2)" using "2.prems"(3) f(1) by simp
  have dis: "distinct is" "i \<notin> set is" using "2.prems"(2) by auto
  have IH: "m_jobs (fst (mem_promote e (Suc n) is s2)) = m_jobs s2 \<and>
    (\<forall>k. m_scheduled (fst (mem_promote e (Suc n) is s2)) k = (if k \<in> set is then None else m_scheduled s2 k)) \<and>
    (\<forall>k. cur_state (fst (mem_promote e (Suc n) is s2)) k = (if k \<in> set is then StateEnqueued else cur_state s2 k)) \<and>
    (\<forall>k. k \<notin> set is \<longrightarrow> m_jobStates (fst (mem_promote e (Suc n) is s2)) k = m_jobStates s2 k) \<and>
    (\<forall>k \<in> set is. \<exists>st. js_Name st = StateEnqueued \<and>
       m_jobStates (fst (mem_promote e (Suc n) is s2)) k = Some (list_at (m_jobStates s2) k @ [st])) \<and>
    (\<forall>q. list_at (m_queues (fst (mem_promote e (Suc n) is s2))) q = list_at (m_queues s2) q @ filter (in_queue s2 q) is) \<and>
    m_processing (fst (mem_promote e (Suc n) is s2)) = m_processing s2 \<and>
    m_progress (fst (mem_promote e (Suc n) is s2)) = m_progress s2 \<and>
    m_idempotency (fst (mem_promote e (Suc n) is s2)) = m_idempotency s2"
    unfolding s2_def s1_def
    by (rule "2.IH" [OF refl refl, of j, OF _ refl refl refl])
      (use wf sub dis j in \<open>simp_all add: s2_def s1_def\<close>)
  define s3 where "s3 = fst (mem_promote e (Suc n) is s2)"
  note IH = IH [folded s3_def]
  have q: "in_queue s2 = in_queue s" by (simp add: in_queue_def fun_eq_iff f(1))
  have qi: "in_queue s q i \<longleftrightarrow> q = j_Queue j" for q using j by (auto simp: in_queue_def)
  have other: "list_at (m_jobStates s2) k = list_at (m_jobStates s) k" if "k \<noteq> i" for k
    using that by (simp add: list_at_def f(5))
  have "\<exists>st. js_Name st = StateEnqueued \<and> m_jobStates s3 k = Some (list_at (m_jobStates s) k @ [st])" if "k \<in> set (i # is)" for k
  proof (cases "k = i")
    case True
    with IH dis f(5) show ?thesis by simp
  next
    case False
    with that IH other show ?thesis by auto
  qed
  moreover have "list_at (m_queues s3) p = list_at (m_queues s) p @ filter (in_queue s p) (i # is)" for p
    using IH by (simp add: f(8) q qi)
  ultimately show ?case
    unfolding step s3_def [symmetric] using IH f by simp
qed

lemma matching_ids:
  assumes wf: "mem_wf s"
  shows "map (j_ID \<circ> jw_Job) (mem_matching e st s) =
    filter (\<lambda>i. st = '''' \<or> cur_state s i = st) (range_keys (m_jobs s) (key_order e))"
proof -
  have "map (j_ID \<circ> jw_Job) (concat (map (\<lambda>i. case m_jobs s i of
         None \<Rightarrow> []
       | Some j \<Rightarrow>
           let states = list_at (m_jobStates s) (j_ID j);
               current = (if states \<noteq> [] then js_Name (last states) else '''')
           in if state = '''' \<or> current = state then [\<lparr>jw_Job = j, jw_States = states\<rparr>] else []) ks)) =
    filter (\<lambda>i. state = '''' \<or> cur_state s i = state) ks" if "set ks \<subseteq> dom (m_jobs s)" for ks state
    using that
  proof (induction ks)
    case (Cons i ks)
    then obtain j where "m_jobs s i = Some j" "j_ID j = i" using mem_wf_job [OF wf] by fastforce
    with Cons show ?case by (auto simp: Let_def cur_state_def current_of_def)
  qed simp
  then show ?thesis by (simp add: mem_matching_def)
qed

section \<open>Concrete runs\<close>

definition demo_job :: job where
  "demo_job = new_job ''echo'' (Some ''{}'') ''default''"

definition demo_enqueued :: mstate where
  "demo_enqueued = fst (mem_Enqueue (test_env 5 ''a'' []) None ''default'' demo_job mem_New)"

definition demo_processing :: mstate where
  "demo_processing = dequeue_take (test_env 6 '''' []) ''a'' (pop_queue ''default'' [] demo_enqueued)"

lemma demo_enqueued_sel [simp]:
  "m_jobs demo_enqueued = [''a'' \<mapsto> mem_fill_job (test_env 5 ''a'' []) demo_job]"
  "m_jobStates demo_enqueued = [''a'' \<mapsto> [new_state StateEnqueued '''' [] 5]]"
  "m_queues demo_enqueued = [''default'' \<mapsto> [''a'']]"
  "m_scheduled demo_enqueued = Map.empty" "m_processing demo_enqueued = Map.empty"
  "m_progress demo_enqueued = Map.empty" "m_idempotency demo_enqueued = Map.empty"
  "m_locks demo_enqueued = Map.empty"
  by (simp_all add: demo_enqueued_def mem_Enqueue_def Let_def demo_job_def mem_New_def list_at_def
      mem_insert_def push_back_def count_def signal_def mem_fill_job_def)

lemma demo_enqueued_core: "core_reachable demo_enqueued"
  unfolding demo_enqueued_def
  by (rule core_reachable.step [OF core_reachable.start core_step.Enqueue])
    (simp_all add: demo_job_def mem_New_def)

lemma demo_scan:
  "dequeue_scan (test_env 6 '''' []) True [''default''] demo_enqueued =
   Found demo_processing (dequeue_ticket (test_env 6 '''' []) ''a'')"
  unfolding demo_processing_def
  by (rule scan_found [where j = "mem_fill_job (test_env 5 ''a'' []) demo_job"])
    (simp_all add: list_at_def demo_job_def)

lemma demo_processing_core: "core_reachable demo_processing"
  by (rule core_reachable.step [OF demo_enqueued_core core_step.Dequeue [OF demo_scan]])

lemma demo_processing_sel [simp]:
  "m_jobs demo_processing = m_jobs demo_enqueued"
  "m_jobStates demo_processing = [''a'' \<mapsto> [new_state StateEnqueued '''' [] 5,
     new_state StateProcessing '''' [(''server_id'', ''local'')] 6]]"
  "m_queues demo_processing = [''default'' \<mapsto> []]"
  "m_scheduled demo_processing = Map.empty" "m_processing demo_processing = [''a'' \<mapsto> ''local'']"
  "m_progress demo_processing = [''a'' \<mapsto> 6]"
  by (simp_all add: demo_processing_def pop_queue_def list_at_def)

lemma core_reachable_wf: "core_reachable s \<Longrightarrow> mem_wf s"
  by (rule core_inv_wf [OF core_reachable_inv])

section \<open>Properties\<close>

text \<open>
  C2. In every store that the regular operations can reach, the state history of every job is a path
  of the documented state machine: it starts Enqueued or Scheduled and each next state is one the
  transition rules allow (Enqueued to Processing, Processing to Succeeded, Failed or Cancelled,
  Failed to Scheduled or Dead, Scheduled to Enqueued).
\<close>
theorem lifecycle_legal:
  assumes "core_reachable s" and "m_jobStates s i = Some h"
  shows "legal_history h"
  using core_reachable_inv [OF assms(1)] assms(2) by (rule core_inv_legal)

theorem lifecycle_legal_witness:
  "core_reachable demo_processing \<and> legal_history
     [new_state StateEnqueued '''' [] 5, new_state StateProcessing '''' [(''server_id'', ''local'')] 6]"
  using demo_processing_core lifecycle_legal [OF demo_processing_core, of "''a''"] by simp

text \<open>
  In every store the regular operations can reach, a job is in exactly one place: it waits in a
  queue iff its state is Enqueued, and then in one queue only and once; it is in the schedule iff it
  is Scheduled; it is marked as processing iff it is Processing.
\<close>
lemma single_place:
  assumes "core_reachable s"
  shows "(waiting s i \<longleftrightarrow> cur_state s i = StateEnqueued) \<and>
    (m_scheduled s i = None \<longleftrightarrow> cur_state s i \<noteq> StateScheduled) \<and>
    (m_processing s i = None \<longleftrightarrow> cur_state s i \<noteq> StateProcessing) \<and>
    distinct (list_at (m_queues s) q) \<and>
    (i \<in> set (list_at (m_queues s) q) \<inter> set (list_at (m_queues s) q') \<longrightarrow> q = q')"
proof -
  note inv = core_reachable_inv [OF assms]
  from core_inv_places [OF inv] core_inv_queues [OF inv] show ?thesis
    unfolding queues_ok_def by blast
qed

text \<open>
  One pass of Dequeue over the queues equals its reference in every well-formed store: with all
  listed queues empty it changes nothing; otherwise it pops the head of the first non-empty queue in
  the listed order, marks it Processing and returns its ticket; if that head has no job record the
  process dies on unlocking a mutex it no longer holds.
\<close>
lemma dequeue_reference:
  assumes "mem_wf s"
  shows "dequeue_scan e True qs s =
    (case first_waiting qs s of
       None \<Rightarrow> Idle s
     | Some (q, i, rest) \<Rightarrow>
         if m_jobs s i = None then Fatal unlock_fatal
         else Found (dequeue_take e i (pop_queue q rest s)) (dequeue_ticket e i))"
  using scan_none scan_dangling scan_found mem_wf_job [OF assms]
  by (auto split: option.split prod.split)

lemma serves_waiting: "first_waiting qs s = Some (p, i, rest) \<Longrightarrow> serves q qs s \<longleftrightarrow> p = q"
  by (induction qs) (auto simp: serves_def split: list.splits)

lemma dequeue_call:
  assumes "mem_wf s" "queue_call q (QDequeue e qs) s = (ins, outs, s')"
  shows "ins = [] \<and> list_at (m_queues s) q = outs @ list_at (m_queues s') q"
proof (cases "first_waiting qs s")
  case None
  with assms show ?thesis by (simp add: scan_none)
next
  case (Some x)
  obtain p i rest where x: "x = (p, i, rest)" by (cases x)
  have hd: "list_at (m_queues s) p = i # rest" using first_waiting_Some Some x by blast
  show ?thesis
  proof (cases "m_jobs s i")
    case None
    with assms Some x scan_dangling [of qs s p i rest e] show ?thesis by simp
  next
    case (Some j)
    with \<open>first_waiting qs s = Some x\<close> x mem_wf_job [OF assms(1)] scan_found [of qs s p i rest j e]
    have "dequeue_scan e True qs s = Found (dequeue_take e i (pop_queue p rest s)) (dequeue_ticket e i)" by simp
    with assms(2) serves_waiting \<open>first_waiting qs s = Some x\<close> x hd show ?thesis
      by (auto simp: pop_queue_def dequeue_ticket_def)
  qed
qed

lemma promote_call:
  assumes "mem_wf s" "queue_call q (QGetDueScheduled e now n) s = (ins, outs, s')"
  shows "outs = [] \<and> list_at (m_queues s') q = list_at (m_queues s) q @ ins"
proof -
  let ?ids = "due_scan now n (m_scheduled s) (range_keys (m_scheduled s) (key_order e)) []"
  obtain ts where ts: "snd (mem_GetDueScheduled e None now n s) = Ok ts" "map t_JobID ts = ?ids"
    using GetDueScheduled_tickets [OF assms(1), of e None now n] by auto
  have "distinct ?ids" by (rule due_scan_distinct) simp_all
  note pr = promote_spec [OF assms(1) this due_ids_known [OF assms(1)], of e 0]
  have "m_queues (fst (mem_GetDueScheduled e None now n s)) = m_queues (fst (mem_promote e 0 ?ids s))"
    by (auto simp: mem_GetDueScheduled_def Let_def case_prod_beta split: result.split)
  moreover have "(ins, outs, s') = (filter (in_queue s q) ?ids, [], fst (mem_GetDueScheduled e None now n s))"
    using assms(2) ts by (simp add: case_prod_beta)
  ultimately show ?thesis using pr by simp
qed

lemma queue_call_wf:
  assumes "mem_wf s"
  shows "mem_wf (snd (snd (queue_call q op s)))"
proof (cases op)
  case (QDequeue e qs)
  with assms mem_wf_scan [of e True qs s] show ?thesis by (auto split: scan.splits)
qed (use assms in \<open>auto simp: case_prod_beta mem_wf_Enqueue mem_wf_EnqueueIdempotent mem_wf_Requeue mem_wf_GetDueScheduled
    mem_wf_AddScheduled mem_wf_ApplyState mem_wf_ScheduleRetry mem_wf_DeleteJob mem_wf_RemoveExpired split: result.split bool.split\<close>)

lemma queue_call_fifo:
  assumes "mem_wf s" "queue_call q op s = (ins, outs, s')"
  shows "list_at (m_queues s) q @ ins = outs @ list_at (m_queues s') q"
proof (cases op)
  case (QDequeue e qs)
  with dequeue_call assms show ?thesis by force
next
  case (QGetDueScheduled e now n)
  with promote_call assms show ?thesis by force
next
  case (QRequeue e i why)
  with assms mem_wf_job [OF assms(1)] show ?thesis
    by (auto simp: mem_Requeue_def Let_def in_queue_def split: option.splits if_splits)
next
  case (QRemoveExpired e cutoff)
  with assms expire_loop_spec [OF distinct_range_keys, of cutoff "m_jobStates s" "key_order e" 0 s] show ?thesis
    by (auto simp: mem_RemoveExpired_def Let_def case_prod_beta)
qed (use assms in \<open>auto simp: mem_Enqueue_def mem_EnqueueIdempotent_def mem_AddScheduled_def mem_ApplyState_def
    mem_ScheduleRetry_def mem_DeleteJob_def Let_def split: option.splits if_splits\<close>)

text \<open>
  C24. First in, first out, in every interleaving of the calls that enqueue (plainly or idempotently),
  requeue, schedule, promote, claim, move, delete and clean up jobs: what a queue held before, followed by
  the ids that entered it, is what left it, in that order, followed by what it holds now. So ids leave a
  queue exactly in the order in which they entered it, whatever brought them there, each as often as it
  entered, and nothing but a claim takes one out.
\<close>
theorem queue_fifo:
  assumes "mem_wf s" "queue_run q ops s = (ins, outs, s')"
  shows "list_at (m_queues s) q @ ins = outs @ list_at (m_queues s') q"
  using assms
proof (induction ops arbitrary: s ins outs)
  case Nil
  then show ?case by simp
next
  case (Cons op ops)
  obtain i1 o1 s1 where 1: "queue_call q op s = (i1, o1, s1)" by (metis prod_cases3)
  obtain i2 o2 s2 where 2: "queue_run q ops s1 = (i2, o2, s2)" by (metis prod_cases3)
  from Cons.prems(2) 1 2 have eq: "ins = i1 @ i2" "outs = o1 @ o2" "s2 = s'" by (auto simp: Let_def)
  have c: "list_at (m_queues s) q @ i1 = o1 @ list_at (m_queues s1) q" "mem_wf s1"
    using queue_call_fifo [OF Cons.prems(1) 1] queue_call_wf [OF Cons.prems(1), of q op] 1 by auto
  from Cons.IH [OF c(2) 2 [unfolded eq]] c(1) eq show ?case by (metis append.assoc)
qed

theorem queue_fifo_witness:
  "\<exists>s'. queue_run ''default'' [QEnqueue (test_env 1 ''a'' []) ''default'' demo_job, QEnqueue (test_env 2 ''b'' []) ''default'' demo_job,
       QDequeue (test_env 3 [] []) [''x'', ''default''], QRequeue (test_env 4 [] []) ''a'' [], QDequeue (test_env 5 [] []) [''default'']] mem_New =
     ([''a'', ''b'', ''a''], [''a'', ''b''], s') \<and> list_at (m_queues s') ''default'' = [''a'']"
proof -
  let ?ops = "[QEnqueue (test_env 1 ''a'' []) ''default'' demo_job, QEnqueue (test_env 2 ''b'' []) ''default'' demo_job,
       QDequeue (test_env 3 [] []) [''x'', ''default''], QRequeue (test_env 4 [] []) ''a'' [], QDequeue (test_env 5 [] []) [''default'']]"
  obtain ins outs s' where r: "queue_run ''default'' ?ops mem_New = (ins, outs, s')" by (metis prod_cases3)
  then have "ins = [''a'', ''b'', ''a''] \<and> outs = [''a'', ''b'']"
    by (auto simp: mem_New_def mem_Enqueue_def mem_Requeue_def Let_def list_at_def demo_job_def serves_def in_queue_def new_state_def
        dequeue_take_def append_state_def count_def mem_fill_job_def mem_insert_def push_back_def signal_def new_job_def)
  moreover have "list_at (m_queues mem_New) ''default'' = []" by (simp add: mem_New_def list_at_def)
  ultimately show ?thesis using queue_fifo [OF mem_wf_New r] r by auto
qed

text \<open>
  Within the regular operations Dequeue never hits the fatal unlock: no queue holds the id of a job
  that has no record, because cleanup removes only jobs that wait nowhere.
\<close>
lemma dequeue_core_safe:
  assumes "core_reachable s"
  shows "dequeue_scan e True qs s \<noteq> Fatal p"
proof (cases "first_waiting qs s")
  case None
  then show ?thesis by (simp add: scan_none)
next
  case (Some x)
  obtain q i rest where x: "x = (q, i, rest)" by (cases x)
  note inv = core_reachable_inv [OF assms]
  have "waiting s i"
    using first_waiting_Some Some x unfolding waiting_def by (metis list.set_intros(1))
  then have "cur_state s i = StateEnqueued" by (simp add: core_inv_places [OF inv])
  then have "m_jobStates s i \<noteq> None" using cur_unknown [of s i] by auto
  then have "m_jobs s i \<noteq> None" using core_inv_wf [OF inv] by (auto simp: mem_wf_def)
  then obtain j where j: "m_jobs s i = Some j" by blast
  then have "j_ID j = i" using mem_wf_job [OF core_inv_wf [OF inv]] by blast
  with scan_found [of qs s q i rest j e] Some x j show ?thesis by simp
qed

text \<open>
  C36. A waiting job that is deleted by hand and then cleaned up leaves its id in the queue, and the
  next Dequeue on that queue kills the process: it unlocks the mutex on the missing record and again
  after the loop.
\<close>
theorem dequeue_crash_after_delete:
  fixes c :: ctx
  assumes wf: "mem_wf s" and empty: "list_at (m_queues s) q = []"
    and j: "j_ID j = ''''" "new_uuid e1 0 = i"
    and time: "now_at e2 0 < cutoff" and ord: "i \<in> set (key_order e3)"
  defines "s1 \<equiv> fst (mem_Enqueue e1 c q j s)"
  defines "s2 \<equiv> fst (mem_DeleteJob e2 c i s1)"
  defines "s3 \<equiv> fst (mem_RemoveExpired e3 c cutoff s2)"
  shows "mem_Dequeue e4 c (q # qs) ws s3 = Some (s3, Panic unlock_fatal)"
proof -
  have s2: "m_jobStates s2 i = Some [new_state StateEnqueued '''' [] (now_at e1 1),
      new_state StateDeleted '''' [] (now_at e2 0)]" "list_at (m_queues s2) q = [i]"
    using j empty by (simp_all add: s2_def s1_def mem_DeleteJob_def mem_Enqueue_def Let_def)
  have ex: "expired cutoff s2 i"
    using s2 time by (simp add: expired_def list_at_def isTerminal_def)
  let ?ks = "range_keys (m_jobStates s2) (key_order e3)"
  have i: "i \<in> set ?ks" using s2 ord by auto
  note sp = expire_loop_spec [of ?ks cutoff 0 s2, OF distinct_range_keys]
  have "m_jobs s3 i = None" "m_queues s3 = m_queues s2"
    using sp ex i by (simp_all add: s3_def mem_RemoveExpired_def Let_def case_prod_beta)
  with s2 have "dequeue_scan e4 True (q # qs) s3 = Fatal unlock_fatal"
    by (intro scan_dangling [where q = q and i = i and rest = "[]"]) simp_all
  then show ?thesis by simp
qed

theorem dequeue_crash_after_delete_witness:
  "\<exists>s. mem_reachable s \<and> mem_Dequeue (test_env 9 '''' []) None [''default''] [] s =
     Some (s, Panic unlock_fatal)"
proof -
  let ?s2 = "fst (mem_DeleteJob (test_env 6 '''' []) None ''a'' demo_enqueued)"
  let ?s3 = "fst (mem_RemoveExpired (test_env 8 '''' [''a'']) None 7 ?s2)"
  have "mem_reachable demo_enqueued"
    unfolding demo_enqueued_def by (rule mem_reachable.step [OF mem_reachable.start mem_step.Enqueue])
  then have "mem_reachable ?s3"
    by (rule mem_reachable.step [OF mem_reachable.step [OF _ mem_step.DeleteJob] mem_step.RemoveExpired])
  moreover have "mem_Dequeue (test_env 9 '''' []) None [''default''] [] ?s3 = Some (?s3, Panic unlock_fatal)"
    unfolding demo_enqueued_def
    by (rule dequeue_crash_after_delete [OF mem_wf_New])
      (simp_all add: mem_New_def list_at_def demo_job_def)
  ultimately show ?thesis by blast
qed

lemma scan_fatal: "dequeue_scan e held qs s = Fatal p \<Longrightarrow> p = unlock_fatal"
  by (induction e held qs s rule: dequeue_scan.induct) (auto simp: Let_def split: list.splits option.splits if_splits)

lemma first_waiting_frame: "m_queues s' = m_queues s \<Longrightarrow> first_waiting qs s' = first_waiting qs s"
  by (induction qs) (simp_all split: list.split)

lemma first_waiting_only:
  "(\<And>r. r \<in> set qs \<Longrightarrow> list_at (m_queues s) r = (if r = p then [i] else [])) \<Longrightarrow> p \<in> set qs \<Longrightarrow> first_waiting qs s = Some (p, i, [])"
  by (induction qs) auto

lemma dequeue_outcomes:
  "(mem_Dequeue e c qs ws s = Some (s', r) \<longrightarrow> (\<exists>t. r = Ok t) \<or> r = Panic unlock_fatal \<or>
     (r = Err ErrQueueEmpty \<and> WDeadline \<in> snd ` set ws) \<or> (\<exists>err. r = Err err \<and> WCtxDone err \<in> snd ` set ws)) \<and>
   (dequeue_wait e c qs ws s = Some (s', r) \<longrightarrow> (\<exists>t. r = Ok t) \<or> r = Panic unlock_fatal \<or>
     (r = Err ErrQueueEmpty \<and> WDeadline \<in> snd ` set ws) \<or> (\<exists>err. r = Err err \<and> WCtxDone err \<in> snd ` set ws))"
proof (induction ws arbitrary: s)
  case Nil
  then show ?case by (auto split: scan.split dest: scan_fatal)
next
  case (Cons x ws)
  obtain f w where x: "x = (f, w)" by (cases x)
  have wait: "dequeue_wait e c qs (x # ws) s0 = Some (s', r) \<longrightarrow> (\<exists>t. r = Ok t) \<or> r = Panic unlock_fatal \<or>
     (r = Err ErrQueueEmpty \<and> WDeadline \<in> snd ` set (x # ws)) \<or> (\<exists>err. r = Err err \<and> WCtxDone err \<in> snd ` set (x # ws))" for s0
    using Cons [of "f s0"] Cons [of "(f s0)\<lparr>m_dequeueCh := False\<rparr>"] x
    by (cases w) (auto simp: Let_def simp del: mem_Dequeue.simps(1))
  then show ?case by (auto split: scan.split dest: scan_fatal simp del: dequeue_wait.simps)
qed

text \<open>
  C25. A blocked Dequeue. While its queues are empty, the call waits; whatever the other goroutines do
  meanwhile, the first event decides. The deadline gives the queue-empty error and the end of the
  context gives its error, both changing nothing. A poll tick, and a wake-up signal when one is pending,
  scan again: a job that is now first in line is claimed and its ticket returned at once. An Enqueue into
  one of the queues leaves such a signal, so it is enough to wake the call. Once a deadline or the end of
  the context comes, the call has returned, and it never returns any other error.
\<close>
theorem dequeue_unblocks:
  assumes idle: "first_waiting qs s = None"
  shows "mem_Dequeue e c qs [] s = None \<and>
    mem_Dequeue e c qs ((others, WDeadline) # ws) s = Some (others s, Err ErrQueueEmpty) \<and>
    mem_Dequeue e c qs ((others, WCtxDone err) # ws) s = Some (others s, Err err) \<and>
    (first_waiting qs (others s) = Some (q, i, rest) \<and> m_jobs (others s) i = Some j \<and> j_ID j = i \<longrightarrow>
      mem_Dequeue e c qs ((others, WTick) # ws) s =
        Some (dequeue_take e i (pop_queue q rest (others s)), Ok (dequeue_ticket e i)) \<and>
      (m_dequeueCh (others s) \<longrightarrow> mem_Dequeue e c qs ((others, WSignal) # ws) s =
        Some (dequeue_take e i (pop_queue q rest ((others s)\<lparr>m_dequeueCh := False\<rparr>)), Ok (dequeue_ticket e i)))) \<and>
    (p \<in> set qs \<longrightarrow> (\<exists>s' t. mem_Dequeue e c qs ((\<lambda>s. fst (mem_Enqueue e' c' p job s), WSignal) # ws) s = Some (s', Ok t) \<and>
       snd (mem_Enqueue e' c' p job s) = Ok (t_JobID t))) \<and>
    ((\<exists>(f, w) \<in> set ws. w = WDeadline \<or> (\<exists>err. w = WCtxDone err)) \<longrightarrow> (\<exists>r. mem_Dequeue e c qs ws s = Some r)) \<and>
    (mem_Dequeue e c qs ws s = Some (s1, Err err') \<longrightarrow>
       err' = ErrQueueEmpty \<and> WDeadline \<in> snd ` set ws \<or> WCtxDone err' \<in> snd ` set ws)"
proof (intro conjI impI)
  note none = scan_none [OF idle, of e]
  show "mem_Dequeue e c qs [] s = None" "mem_Dequeue e c qs ((others, WDeadline) # ws) s = Some (others s, Err ErrQueueEmpty)"
    "mem_Dequeue e c qs ((others, WCtxDone err) # ws) s = Some (others s, Err err)"
    by (simp_all add: none)
  show "\<exists>r. mem_Dequeue e c qs ws s = Some r" if "\<exists>(f, w) \<in> set ws. w = WDeadline \<or> (\<exists>err. w = WCtxDone err)"
    using dequeue_wait_returns [OF that] by blast
  show "err' = ErrQueueEmpty \<and> WDeadline \<in> snd ` set ws \<or> WCtxDone err' \<in> snd ` set ws"
    if "mem_Dequeue e c qs ws s = Some (s1, Err err')"
    using dequeue_outcomes [of e c qs ws s s1 "Err err'"] that by auto
next
  note none = scan_none [OF idle, of e]
  assume a: "first_waiting qs (others s) = Some (q, i, rest) \<and> m_jobs (others s) i = Some j \<and> j_ID j = i"
  then show "mem_Dequeue e c qs ((others, WTick) # ws) s =
      Some (dequeue_take e i (pop_queue q rest (others s)), Ok (dequeue_ticket e i))"
    using scan_found [of qs "others s" q i rest j e] by (simp add: none Let_def)
  assume "m_dequeueCh (others s)"
  moreover have "first_waiting qs ((others s)\<lparr>m_dequeueCh := False\<rparr>) = first_waiting qs (others s)"
    by (rule first_waiting_frame) simp
  ultimately show "mem_Dequeue e c qs ((others, WSignal) # ws) s =
      Some (dequeue_take e i (pop_queue q rest ((others s)\<lparr>m_dequeueCh := False\<rparr>)), Ok (dequeue_ticket e i))"
    using a scan_found [of qs "(others s)\<lparr>m_dequeueCh := False\<rparr>" q i rest j e] by (simp add: none Let_def)
next
  assume p: "p \<in> set qs"
  let ?s = "(fst (mem_Enqueue e' c' p job s))\<lparr>m_dequeueCh := False\<rparr>"
  let ?i = "j_ID (mem_fill_job e' job)"
  have "list_at (m_queues ?s) r = (if r = p then [?i] else [])" if "r \<in> set qs" for r
    using idle that p by (simp add: mem_Enqueue_def Let_def first_waiting_None)
  then have "first_waiting qs ?s = Some (p, ?i, [])" using p by (rule first_waiting_only)
  moreover have "m_jobs ?s ?i = Some (mem_fill_job e' job)" by (simp add: mem_Enqueue_def Let_def)
  ultimately have "dequeue_scan e True qs ?s = Found (dequeue_take e ?i (pop_queue p [] ?s)) (dequeue_ticket e ?i)"
    by (intro scan_found) auto
  then show "\<exists>s' t. mem_Dequeue e c qs ((\<lambda>s. fst (mem_Enqueue e' c' p job s), WSignal) # ws) s = Some (s', Ok t) \<and>
       snd (mem_Enqueue e' c' p job s) = Ok (t_JobID t)"
    using scan_none [OF idle, of e] by (simp add: Let_def mem_Enqueue_def signal_def dequeue_ticket_def del: mem_fill_job_sel)
qed

theorem dequeue_unblocks_witness:
  "(\<exists>r. mem_Dequeue (test_env 6 [] []) None [''default''] [(\<lambda>s. s, WTick), (\<lambda>s. s, WDeadline)] mem_New = Some r) \<and>
   mem_Dequeue (test_env 6 [] []) None [''default''] [(\<lambda>_. demo_enqueued, WTick)] mem_New =
     Some (demo_processing, Ok (dequeue_ticket (test_env 6 [] []) ''a'')) \<and>
   (\<exists>s' t. mem_Dequeue (test_env 6 [] []) None [''default'']
      [(\<lambda>s. fst (mem_Enqueue (test_env 5 ''b'' []) None ''default'' demo_job s), WSignal)] mem_New = Some (s', Ok t) \<and> t_JobID t = ''b'')"
proof -
  have none: "first_waiting [''default''] mem_New = None" by (simp add: mem_New_def list_at_def)
  note u = dequeue_unblocks [OF none]
  have "\<exists>r. mem_Dequeue (test_env 6 [] []) None [''default''] [(\<lambda>s. s, WTick), (\<lambda>s. s, WDeadline)] mem_New = Some r"
    using u [THEN conjunct2, THEN conjunct2, THEN conjunct2, THEN conjunct2, THEN conjunct2, THEN conjunct1] by simp
  moreover have "first_waiting [''default''] demo_enqueued = Some (''default'', ''a'', [])"
    "m_jobs demo_enqueued ''a'' = Some (mem_fill_job (test_env 5 ''a'' []) demo_job)"
    "j_ID (mem_fill_job (test_env 5 ''a'' []) demo_job) = ''a''"
    by (simp_all add: list_at_def demo_job_def)
  with u [THEN conjunct2, THEN conjunct2, THEN conjunct2, THEN conjunct1, of "\<lambda>_. demo_enqueued"]
  have "mem_Dequeue (test_env 6 [] []) None [''default''] [(\<lambda>_. demo_enqueued, WTick)] mem_New =
     Some (demo_processing, Ok (dequeue_ticket (test_env 6 [] []) ''a''))"
    by (simp only: demo_processing_def simp_thms)
  moreover have "snd (mem_Enqueue (test_env 5 ''b'' []) None ''default'' demo_job mem_New) = Ok ''b''"
    by (simp add: mem_Enqueue_def Let_def demo_job_def)
  with u [THEN conjunct2, THEN conjunct2, THEN conjunct2, THEN conjunct2, THEN conjunct1, of "''default''" "test_env 6 [] []" None
      "test_env 5 ''b'' []" None demo_job "[]"]
  have "\<exists>s' t. mem_Dequeue (test_env 6 [] []) None [''default'']
      [(\<lambda>s. fst (mem_Enqueue (test_env 5 ''b'' []) None ''default'' demo_job s), WSignal)] mem_New = Some (s', Ok t) \<and> t_JobID t = ''b''"
    by (auto simp del: mem_Dequeue.simps)
  ultimately show ?thesis by blast
qed

text \<open>
  An idempotency key binds once: after an enqueue with a key, however the store evolves (any
  sequence of any of its operations, cleanup included), every later enqueue with that key creates
  nothing, changes nothing, and returns the first job's id with \<open>False\<close>.
\<close>
lemma idempotent_enqueue:
  assumes key: "j_IdempotencyKey j \<noteq> ''''" and "fst (mem_EnqueueIdempotent e c q j s) = s1"
    and "snd (mem_EnqueueIdempotent e c q j s) = Ok (i, created)"
    and steps: "mem_step\<^sup>*\<^sup>* s1 s2" and key': "j_IdempotencyKey j' = j_IdempotencyKey j"
  shows "mem_EnqueueIdempotent e' c' q' j' s2 = (s2, Ok (i, False))"
proof -
  have "m_idempotency s1 (j_IdempotencyKey j) = Some i"
    using assms(1-3) by (auto simp: mem_EnqueueIdempotent_def Let_def split: option.splits)
  with steps have "m_idempotency s2 (j_IdempotencyKey j) = Some i"
    by (induction rule: rtranclp_induct) (auto intro: idempotency_kept)
  with key key' show ?thesis by (simp add: mem_EnqueueIdempotent_def)
qed

definition keyed_job :: job where
  "keyed_job = demo_job\<lparr>j_IdempotencyKey := ''k''\<rparr>"

text \<open>
  A lock excludes: from the moment it is granted until it expires, whatever other holders acquire or
  release, every further acquisition of the resource fails and changes nothing, and the holder's own
  release still succeeds and frees the resource.
\<close>
lemma lock_excludes:
  assumes acq: "mem_AcquireLock e c r ttl s = (s1, Ok l)"
    and others: "\<forall>op \<in> set ops. case op of LAcquire e res ttl \<Rightarrow> now_at e 0 < lk_expiresAt l
           | LRelease l' \<Rightarrow> lk_resource l' = r \<longrightarrow> lk_ownerID l' \<noteq> lk_ownerID l"
    and live: "now_at e' 0 < lk_expiresAt l"
  shows "mem_AcquireLock e' c' r ttl' (lock_run ops s1) = (lock_run ops s1, Err ErrLockNotHeld) \<and>
    (\<exists>s2. mem_Release c' l (lock_run ops s1) = (s2, l\<lparr>lk_released := True\<rparr>, Ok ()) \<and>
       mem_AcquireLock e' c' r ttl' s2 = (s2\<lparr>m_locks := (m_locks s2)(r \<mapsto>
         \<lparr>lk_resource = r, lk_ownerID = new_uuid e' 0, lk_expiresAt = time_add (now_at e' 1) ttl',
          lk_released = False\<rparr>)\<rparr>, Ok \<lparr>lk_resource = r, lk_ownerID = new_uuid e' 0,
          lk_expiresAt = time_add (now_at e' 1) ttl', lk_released = False\<rparr>))"
proof -
  from acq have l: "m_locks s1 r = Some l" "lk_resource l = r" "\<not> lk_released l"
    by (auto simp: mem_AcquireLock_def Let_def split: option.splits if_splits)
  from lock_run_keeps [OF l(1) others] have "m_locks (lock_run ops s1) r = Some l" .
  with l live show ?thesis by (simp add: mem_AcquireLock_def mem_Release_def Let_def)
qed

definition demo_done :: mstate where
  "demo_done = fst (mem_ApplyState (test_env 7 [] []) None ''a'' StateProcessing (new_state StateSucceeded [] [] 0) demo_processing)"

lemma demo_done_sel: "m_jobs demo_done = m_jobs demo_enqueued"
  "m_jobStates demo_done = [''a'' \<mapsto> [new_state StateEnqueued '''' [] 5,
     new_state StateProcessing '''' [(''server_id'', ''local'')] 6, new_state StateSucceeded '''' [] 7]]"
  by (simp_all add: demo_done_def mem_ApplyState_def Let_def new_state_def)

text \<open>
  C14. Cleanup is exact. Call a job old when the last state of its history is Succeeded, Failed or Deleted
  (not Dead, not Cancelled) and was entered before the cutoff. RemoveExpired returns the number of old
  jobs, removes their records, histories, schedule entries, marks and continuations, keeps everything
  about all other jobs, and leaves the queues as they are.
\<close>
theorem remove_expired_exact:
  fixes c :: ctx and cutoff :: time
  assumes "covers (key_order e) (m_jobStates s)"
  defines "s' \<equiv> fst (mem_RemoveExpired e c cutoff s)"
    and "old \<equiv> {i. \<exists>h. m_jobStates s i = Some h \<and> h \<noteq> [] \<and>
      js_Name (last h) \<in> {StateSucceeded, StateFailed, StateDeleted} \<and> js_CreatedAt (last h) < cutoff}"
  shows "snd (mem_RemoveExpired e c cutoff s) = Ok (of_nat (card old)) \<and>
    m_jobs s' = (\<lambda>i. if i \<in> old then None else m_jobs s i) \<and>
    m_jobStates s' = (\<lambda>i. if i \<in> old then None else m_jobStates s i) \<and>
    m_scheduled s' = (\<lambda>i. if i \<in> old then None else m_scheduled s i) \<and>
    m_processing s' = (\<lambda>i. if i \<in> old then None else m_processing s i) \<and>
    m_progress s' = (\<lambda>i. if i \<in> old then None else m_progress s i) \<and>
    m_continuations s' = (\<lambda>i. if i \<in> old then None else m_continuations s i) \<and>
    m_queues s' = m_queues s"
proof -
  let ?ks = "range_keys (m_jobStates s) (key_order e)"
  have old: "old = {i. expired cutoff s i}"
    by (auto simp: old_def expired_def isTerminal_def list_at_def Let_def split: option.splits)
  have known: "i \<in> set ?ks" if "expired cutoff s i" for i
    using that set_range_keys_covers [OF assms(1)]
    by (auto simp: expired_def list_at_def Let_def split: option.splits)
  have "{i. expired cutoff s i} = set (filter (expired cutoff s) ?ks)" using known by auto
  then have card: "length (filter (expired cutoff s) ?ks) = card {i. expired cutoff s i}"
    by (simp only: distinct_card [OF distinct_filter [OF distinct_range_keys]])
  have both: "i \<in> set ?ks \<and> expired cutoff s i \<longleftrightarrow> i \<in> old" for i using known old by blast
  show ?thesis
    using expire_loop_spec [of ?ks cutoff 0 s, OF distinct_range_keys, unfolded both] card old
    by (simp add: s'_def mem_RemoveExpired_def Let_def case_prod_beta)
qed

theorem remove_expired_exact_witness:
  "snd (mem_RemoveExpired (test_env 9 [] [''a'']) None 8 demo_done) = Ok 1 \<and>
   m_jobs (fst (mem_RemoveExpired (test_env 9 [] [''a'']) None 8 demo_done)) ''a'' = None \<and>
   m_jobs (fst (mem_RemoveExpired (test_env 9 [] [''a'']) None 7 demo_done)) ''a'' \<noteq> None"
proof -
  have cov: "covers (key_order (test_env 9 [] [''a''])) (m_jobStates demo_done)" by (simp add: covers_def demo_done_sel)
  have old: "{i. \<exists>h. m_jobStates demo_done i = Some h \<and> h \<noteq> [] \<and>
      js_Name (last h) \<in> {StateSucceeded, StateFailed, StateDeleted} \<and> js_CreatedAt (last h) < t} = (if 7 < t then {''a''} else {})" for t
    by (auto simp: demo_done_sel)
  show ?thesis
    using remove_expired_exact [OF cov, of None 8] remove_expired_exact [OF cov, of None 7]
    unfolding old by (simp add: demo_done_sel)
qed

text \<open>
  C13. Promotion of scheduled jobs is exact: with a positive batch size GetDueScheduled takes as many due
  jobs as exist up to the batch size, each once. Every job it takes leaves the schedule, gets one
  Enqueued state at the end of its history, and its id is appended once to its own queue; the queues
  grow by nothing else. No other job changes its history or leaves the schedule, and the records, the
  processing marks and the progress times of all jobs stay as they were.
\<close>
theorem promotion_exact:
  fixes c :: ctx and now :: time
  assumes wf: "mem_wf s" and cov: "covers (key_order e) (m_scheduled s)" and n: "0 < n"
  defines "s' \<equiv> fst (mem_GetDueScheduled e c now n s)"
  shows "\<exists>ts. snd (mem_GetDueScheduled e c now n s) = Ok ts \<and>
    (let ids = map t_JobID ts in
       distinct ids \<and> (\<forall>i \<in> set ids. is_due now s i) \<and>
       int (length ids) = min n (int (card {i. is_due now s i})) \<and>
       (\<forall>i. m_scheduled s' i = (if i \<in> set ids then None else m_scheduled s i)) \<and>
       (\<forall>i \<in> set ids. \<exists>st. js_Name st = StateEnqueued \<and> m_jobStates s' i = Some (list_at (m_jobStates s) i @ [st])) \<and>
       (\<forall>i. i \<notin> set ids \<longrightarrow> m_jobStates s' i = m_jobStates s i) \<and>
       (\<forall>q. list_at (m_queues s') q = list_at (m_queues s) q @ filter (in_queue s q) ids) \<and>
       m_jobs s' = m_jobs s \<and> m_processing s' = m_processing s \<and> m_progress s' = m_progress s)"
proof -
  let ?ks = "range_keys (m_scheduled s) (key_order e)"
  let ?due = "filter (is_due now s) ?ks"
  let ?ids = "take (nat n) ?due"
  have ids: "due_scan now n (m_scheduled s) ?ks [] = ?ids"
    using due_scan_closed [of "[]" n now s ?ks] n by simp
  obtain ts where ts: "snd (mem_GetDueScheduled e c now n s) = Ok ts" "map t_JobID ts = ?ids"
    using GetDueScheduled_tickets [OF wf, of e c now n] ids by auto
  have due: "set ?due = {i. is_due now s i}"
    using set_range_keys_covers [OF cov] by (auto simp: is_due_def split: option.splits)
  then have card: "length ?due = card {i. is_due now s i}"
    using distinct_card [of ?due] by simp
  have known: "set ?ids \<subseteq> dom (m_jobs s)"
    using due_ids_known [OF wf, of now n "key_order e"] ids by simp
  have dis: "distinct ?ids" by simp
  define s1 where "s1 = fst (mem_promote e 0 ?ids s)"
  have s': "m_jobs s' = m_jobs s1" "m_scheduled s' = m_scheduled s1" "m_queues s' = m_queues s1"
    "m_jobStates s' = m_jobStates s1" "m_processing s' = m_processing s1" "m_progress s' = m_progress s1"
    by (auto simp: s'_def s1_def mem_GetDueScheduled_def ids Let_def case_prod_beta split: result.split)
  have "\<forall>i \<in> set ?ids. is_due now s i" using due set_take_subset [of "nat n" ?due] by blast
  moreover have "int (length ?ids) = min n (int (card {i. is_due now s i}))" using card n by simp
  moreover note promote_spec [OF wf dis known, of e 0, folded s1_def] dis
  ultimately show ?thesis
    unfolding Let_def s' by (intro exI [of _ ts]) (simp only: ts simp_thms if_True if_False, blast)
qed

definition demo_scheduled :: mstate where
  "demo_scheduled = fst (mem_AddScheduled (test_env 5 ''a'' []) None 20 demo_job mem_New)"

lemma demo_scheduled_sel [simp]: "m_scheduled demo_scheduled = [''a'' \<mapsto> 20]" "mem_wf demo_scheduled"
  by (simp_all add: demo_scheduled_def mem_wf_AddScheduled mem_wf_New)
    (simp add: mem_AddScheduled_def Let_def mem_New_def demo_job_def)

lemma demo_scheduled_queue: "m_queues demo_scheduled = Map.empty" "in_queue demo_scheduled q ''a'' \<longleftrightarrow> q = ''default''"
  by (auto simp: demo_scheduled_def mem_AddScheduled_def Let_def mem_New_def demo_job_def in_queue_def)

theorem promotion_exact_witness:
  "\<exists>ts. snd (mem_GetDueScheduled (test_env 30 [] [''a'']) None 25 100 demo_scheduled) = Ok ts \<and> length ts = 1 \<and>
     list_at (m_queues (fst (mem_GetDueScheduled (test_env 30 [] [''a'']) None 25 100 demo_scheduled))) ''default'' = [''a'']"
proof -
  have due: "{i. is_due 25 demo_scheduled i} = {''a''}" by (auto simp: is_due_def split: if_splits)
  obtain ts where ts: "snd (mem_GetDueScheduled (test_env 30 [] [''a'']) None 25 100 demo_scheduled) = Ok ts"
    "distinct (map t_JobID ts)" "\<forall>i \<in> set (map t_JobID ts). is_due 25 demo_scheduled i"
    "int (length (map t_JobID ts)) = min 100 (int (card {i. is_due 25 demo_scheduled i}))"
    "\<forall>q. list_at (m_queues (fst (mem_GetDueScheduled (test_env 30 [] [''a'']) None 25 100 demo_scheduled))) q =
       list_at (m_queues demo_scheduled) q @ filter (in_queue demo_scheduled q) (map t_JobID ts)"
    using promotion_exact [of demo_scheduled "test_env 30 [] [''a'']" 100 None 25]
    unfolding Let_def by (simp add: covers_def) blast
  then have len: "length (map t_JobID ts) = 1" by (simp add: due)
  then obtain i where "map t_JobID ts = [i]" by (metis length_0_conv length_Suc_conv One_nat_def)
  with ts(3) due have "map t_JobID ts = [''a'']" by auto
  with ts(1,5) len [unfolded length_map] show ?thesis by (simp add: demo_scheduled_queue list_at_def)
qed

text \<open>
  Paging is complete: reading GetJobsByState page by page gives, in order and without repetition or
  omission, the jobs whose current state is the requested one (all jobs for the empty state).
\<close>
lemma pages_cover:
  assumes wf: "mem_wf s" and cov: "covers (key_order e) (m_jobs s)" and n: "0 < n"
    and m: "length (mem_matching e st s) \<le> m * n"
  shows "\<exists>pages. map (\<lambda>k. mem_GetJobsByState e c st (int (k * n)) (int n) s) [0..<m] = map Ok pages \<and>
    (\<forall>p \<in> set pages. length p \<le> n) \<and> distinct (map (j_ID \<circ> jw_Job) (concat pages)) \<and>
    set (map (j_ID \<circ> jw_Job) (concat pages)) =
      {i. m_jobs s i \<noteq> None \<and> (st = '''' \<or> cur_state s i = st)}"
proof -
  let ?r = "mem_matching e st s"
  let ?p = "\<lambda>k. take n (drop (k * n) ?r)"
  have "mem_GetJobsByState e c st (int x) (int n) s = Ok (take n (drop x ?r))" for x
    using n by (auto simp: mem_GetJobsByState_def Let_def)
  then have page: "mem_GetJobsByState e c st (int (k * n)) (int n) s = Ok (?p k)" for k .
  have pages: "concat (map ?p [0..<m]) = take (m * n) ?r" for m
    by (induction m) (simp_all add: take_add add.commute [of n])
  have ids: "map (j_ID \<circ> jw_Job) ?r = filter (\<lambda>i. st = '''' \<or> cur_state s i = st) (range_keys (m_jobs s) (key_order e))"
    by (rule matching_ids [OF wf])
  show ?thesis
  proof (intro exI conjI)
    let ?ps = "map ?p [0..<m]"
    have all: "concat ?ps = ?r" using pages [of m] m by simp
    show "map (\<lambda>k. mem_GetJobsByState e c st (int (k * n)) (int n) s) [0..<m] = map Ok ?ps"
      by (simp add: page del: of_nat_mult)
    show "\<forall>p \<in> set ?ps. length p \<le> n" by simp
    show "distinct (map (j_ID \<circ> jw_Job) (concat ?ps))" unfolding all ids by simp
    show "set (map (j_ID \<circ> jw_Job) (concat ?ps)) = {i. m_jobs s i \<noteq> None \<and> (st = '''' \<or> cur_state s i = st)}"
      unfolding all ids using set_range_keys_covers [OF cov] by (auto simp: dom_def)
  qed
qed

text \<open>
  Deleting a waiting job does not stop it: its id stays in the queue, and the next Dequeue of that
  queue hands the Deleted job to a worker and moves it from Deleted to Processing.
\<close>
lemma deleted_job_dispatched:
  assumes wf: "mem_wf s" and hd: "list_at (m_queues s) q = i # rest"
    and h: "m_jobStates s i = Some h" "current_of h = StateEnqueued"
  shows "\<exists>s' t. mem_Dequeue e c (q # qs) ws (fst (mem_DeleteJob e' c' i s)) = Some (s', Ok t) \<and>
    t_JobID t = i \<and> (\<exists>d p. m_jobStates s' i = Some (h @ [d, p]) \<and> js_Name d = StateDeleted \<and>
      js_Name p = StateProcessing)"
proof -
  obtain j where j: "m_jobs s i = Some j" using mem_wf_hist_job [OF wf h(1)] by blast
  let ?s = "fst (mem_DeleteJob e' c' i s)"
  have "h \<noteq> []" using mem_wf_nonempty [OF wf h(1)] .
  then have s: "m_jobStates ?s i = Some (h @ [new_state StateDeleted [] [] (now_at e' 0)])"
    "m_queues ?s = m_queues s" "m_jobs ?s = m_jobs s"
    using h by (simp_all add: mem_DeleteJob_def Let_def current_of_def)
  have "dequeue_scan e True (q # qs) ?s = Found (dequeue_take e i (pop_queue q rest ?s)) (dequeue_ticket e i)"
    by (rule scan_found) (use s hd j mem_wf_job [OF wf j] in auto)
  with s show ?thesis by (simp add: dequeue_ticket_def pop_queue_def list_at_def)
qed

text \<open>
  The state machine is race-free: when two workers read the same current state of a job and both try
  to move it, the first compare-and-append succeeds and the second is refused with a state conflict
  and leaves the store as it is.
\<close>
lemma apply_state_race:
  assumes "mem_reachable s" "m_jobStates s i = Some h" "current_of h = cur" "js_Name st \<noteq> cur"
  shows "\<exists>s'. mem_ApplyState e None i cur st s = (s', Ok ()) \<and>
    mem_ApplyState e' None i cur st2 s' = (s', Err ErrStateConflict)"
proof -
  note sp = ApplyState_spec [OF mem_reachable_wf [OF assms(1)] assms(2,3), of e None st]
  have "mem_ApplyState e' None i cur st2 (fst (mem_ApplyState e None i cur st s)) =
      (fst (mem_ApplyState e None i cur st s), Err ErrStateConflict)"
    by (rule ApplyState_fail(2) [OF mem_wf_ApplyState [OF mem_reachable_wf [OF assms(1)]]]) (use sp assms(4) in \<open>auto split: if_splits\<close>)
  with sp show ?thesis by (metis prod.collapse)
qed

text \<open>
  No operation of a reachable store panics: whatever sequence of operations built the store,
  ScheduleRetry, DeleteJob and GetDueScheduled return normally or with an error, GetDueScheduled
  always with a list, and GetJobsByState returns a page for every non-negative offset.
\<close>
lemma reachable_no_panic:
  assumes "mem_reachable s"
  shows "\<not> is_panic (snd (mem_ScheduleRetry e c i at s)) \<and> \<not> is_panic (snd (mem_DeleteJob e c i s)) \<and>
    (\<exists>ts. snd (mem_GetDueScheduled e c now n s) = Ok ts) \<and>
    (0 \<le> offset \<longrightarrow> (\<exists>p. mem_GetJobsByState e c st offset limit s = Ok p))"
  using mem_reachable_wf [OF assms] GetDueScheduled_tickets [OF mem_reachable_wf [OF assms], of e c now n]
  by (auto simp: ScheduleRetry_no_panic DeleteJob_no_panic mem_GetJobsByState_def Let_def)

end
