(* ===== verification/Engine_Properties.thy ===== *)
theory Engine_Properties
  imports Memory_Properties
begin

text \<open>
  What the engine guarantees over the in-memory store: the verdict on one processed ticket, what a
  worker that lost its job does, the number of attempts a failing job gets, start, stop and
  cancellation. The lemmas proved for every store in \<open>storage_contract\<close> are used through its
  interpretation \<open>mem\<close>; the in-memory store ignores contexts, so they apply in every context.
\<close>

section \<open>The in-memory store ignores contexts\<close>

lemma mem_ctx_irrelevant:
  "mem_ApplyState e c i cur st s = mem_ApplyState e None i cur st s"
  "mem_ScheduleRetry e c i at s = mem_ScheduleRetry e None i at s"
  "mem_SetJobResult c i r s = mem_SetJobResult None i r s"
  by (simp_all only: mem_ApplyState_def mem_ScheduleRetry_def mem_SetJobResult_def)

lemma finish_ctx: "finish memory_ops w c jitter job attempt out s =
    finish memory_ops w (\<lambda>_. None) jitter job attempt out s"
  unfolding finish_def finalizeSuccess_def finalizeFailure_def memory_ops_sel
  by (simp only: mem_ctx_irrelevant(1) [of _ "c 0"] mem_ctx_irrelevant(1) [of _ "c 1"]
      mem_ctx_irrelevant(2) [of _ "c 1"] mem_ctx_irrelevant(3) [of "c 0"])

lemma mem_finish:
  assumes "mem_wf s" "m_jobs s i = Some j" "m_jobStates s i = Some h" "current_of h = StateProcessing"
    and "out = Ret result err" "j_ID job = i"
  obtains s' sts r' where "finish memory_ops w c jitter job attempt out s =
      (s', Ok (terminal_of (verdict out attempt (j_RetryMax job))))" "mem_wf s'"
    "m_jobStates s' = (m_jobStates s)(i \<mapsto> h @ sts)" "map js_Name sts = verdict out attempt (j_RetryMax job)"
    "m_jobs s' = (m_jobs s)(i \<mapsto> j\<lparr>j_Result := r'\<rparr>)" "mem_queued s' = mem_queued s"
  using mem_finish_spec [OF assms(1-4) refl refl assms(5,6)] finish_ctx by metis

lemma mem_finish_stale:
  assumes "mem_wf s" "m_jobStates s i = Some h" "current_of h \<noteq> StateProcessing"
    and "out = Ret result err" "j_ID job = i"
  obtains s' where "finish memory_ops w c jitter job attempt out s = (s', Err ErrStateConflict)" "mem_wf s'"
    "m_jobStates s' = m_jobStates s" "mem_queued s' = mem_queued s"
    "err \<noteq> None \<or> blen result = 0 \<longrightarrow> s' = s"
  using mem_stale_spec [OF assms(1-3) refl refl assms(4,5)] finish_ctx by metis

section \<open>Lemmas\<close>

lemma mem_ops_continuations:
  "m_continuations (fst (mem_ApplyState e c i cur st s)) = m_continuations s"
  "m_continuations (fst (mem_ScheduleRetry e c i at s)) = m_continuations s"
  "m_continuations (fst (mem_SetJobResult c i r s)) = m_continuations s"
  by (simp_all add: mem_ApplyState_def mem_ScheduleRetry_def mem_SetJobResult_def Let_def split: option.split)

lemma finish_continuations:
  "m_continuations (fst (finish memory_ops w c jitter job attempt out s)) = m_continuations s"
  unfolding finish_def finalizeSuccess_def finalizeFailure_def memory_ops_sel Let_def
  by (cases out; simp only: ret.case)
    (auto split: option.split intro!: and_then_keeps [where P = "\<lambda>s'. m_continuations s' = m_continuations s"]
      simp: mem_ops_continuations)

text \<open>The children the final state of a processed job releases (none while it is to be retried).\<close>

definition released :: "string list \<Rightarrow> continuationEntry list \<Rightarrow> continuationEntry list" where
  "released names entries = (if last names = StateScheduled then [] else matching_children (last names) entries)"

lemma mem_wf_dom: "mem_wf s \<Longrightarrow> dom (m_jobStates s) = dom (m_jobs s)"
  by (simp add: mem_wf_def)

lemma verdict_last: "out = Ret r err \<Longrightarrow> last (verdict out a m) \<noteq> '''' \<and> verdict out a m \<noteq> []"
  by (cases err) auto

lemma fire_mem:
  fixes cd :: json_codec
  assumes wf: "mem_wf s" and j: "m_jobs s i = Some j"
    and es: "list_at (m_continuations s) i = es"
    and fresh: "fresh_ids w 0 (length (matching_children t es)) (\<lambda>i. m_jobStates s i \<noteq> None)"
  defines "s' \<equiv> fireContinuations memory_ops cd w None i t s"
  shows "mem_wf s'" and "\<And>k. m_jobStates s k \<noteq> None \<Longrightarrow> m_jobStates s' k = m_jobStates s k \<and> m_jobs s' k = m_jobs s k"
    and "dom (m_jobs s') = dom (m_jobs s) \<union> (\<lambda>k. new_uuid (w k) 0) ` {..<length (matching_children t es)}"
    and "\<And>k. k < length (matching_children t es) \<Longrightarrow>
       child_created cd (j_Result j) (matching_children t es ! k) (m_jobStates s' (new_uuid (w k) 0))
         (m_jobs s' (new_uuid (w k) 0)) \<and>
       new_uuid (w k) 0 \<in> set (list_at (m_queues s') (child_queue (matching_children t es ! k)))"
proof -
  have s': "s' = fire_entries memory_ops cd w None t (j_Result j) 0 es s"
    using j es by (simp add: s'_def fireContinuations_def mem_GetContinuations_def mem_GetJob_def)
  note sp = mem_fire_entries_spec [OF wf fresh, of cd "j_Result j"]
  show wf': "mem_wf s'" using sp s' by simp
  show "m_jobStates s' k = m_jobStates s k \<and> m_jobs s' k = m_jobs s k" if "m_jobStates s k \<noteq> None" for k
    using sp s' that by simp
  show "dom (m_jobs s') = dom (m_jobs s) \<union> (\<lambda>k. new_uuid (w k) 0) ` {..<length (matching_children t es)}"
    using sp s' mem_wf_dom [OF wf] mem_wf_dom [OF wf'] by simp
  show "child_created cd (j_Result j) (matching_children t es ! k) (m_jobStates s' (new_uuid (w k) 0))
         (m_jobs s' (new_uuid (w k) 0)) \<and>
       new_uuid (w k) 0 \<in> set (list_at (m_queues s') (child_queue (matching_children t es ! k)))"
    if "k < length (matching_children t es)" for k
    using sp s' that by (simp add: mem_queued_def)
qed

section \<open>Start\<close>

definition own_info :: "env \<Rightarrow> config \<Rightarrow> serverInfo" where
  "own_info e cfg = \<lparr>sv_ID = cfg_ServerID cfg, sv_StartedAt = now_at e 5, sv_LastHeartbeat = 0,
     sv_WorkerCount = cfg_Workers cfg, sv_Queues = cfg_Queues cfg, sv_Status = ServerStatusActive\<rparr>"

definition launched :: "config \<Rightarrow> goroutine list" where
  "launched cfg = map GWorker [0..<nat (cfg_Workers cfg)] @ [GScheduler] @ [GCoordinator] @
     (if sint (cfg_CleanupInterval cfg) > 0 \<and> sint (cfg_JobRetention cfg) > 0 then [GCleanup] else []) @ [GRecurring]"

lemma Start_mem:
  assumes "\<not> e_startOnce en"
  shows "Start memory_ops e None en s =
    ((en\<lparr>e_startOnce := True, e_runCtx := Some None, e_goroutines := e_goroutines en @ launched (e_cfg en)\<rparr>,
      fst (mem_RegisterServer e None (own_info e (e_cfg en)) (cfg_ServerHeartbeatTTL (e_cfg en)) s)), Ok ())"
  using assms by (simp add: Start_def launched_def own_info_def mem_RegisterServer_def Let_def)

lemma Stop_mem:
  assumes "\<not> e_stopOnce en" "e_runCtx en = Some None"
  shows "Stop memory_ops drained err en s =
    ((en\<lparr>e_stopOnce := True, e_runCtx := Some (Some CtxCanceled),
        e_goroutines := if drained then [] else e_goroutines en\<rparr>,
      fst (mem_UnregisterServer None (cfg_ServerID (e_cfg en)) s)), if drained then Ok () else Err err)"
  using assms by (cases drained) (simp_all add: Stop_def mem_UnregisterServer_def Let_def)

lemma launched_kinds:
  "length (filter (\<lambda>g. case g of GWorker _ \<Rightarrow> True | _ \<Rightarrow> False) (launched cfg)) = nat (cfg_Workers cfg)"
  "{GScheduler, GCoordinator, GRecurring} \<subseteq> set (launched cfg)"
  "GCleanup \<in> set (launched cfg) \<longleftrightarrow> 0 < sint (cfg_CleanupInterval cfg) \<and> 0 < sint (cfg_JobRetention cfg)"
proof -
  have "filter (\<lambda>g. case g of GWorker _ \<Rightarrow> True | _ \<Rightarrow> False) (map GWorker xs) = map GWorker xs" for xs
    by (induction xs) auto
  then show "length (filter (\<lambda>g. case g of GWorker _ \<Rightarrow> True | _ \<Rightarrow> False) (launched cfg)) = nat (cfg_Workers cfg)"
    by (simp add: launched_def)
qed (auto simp: launched_def)

section \<open>Properties\<close>

text \<open>
  C3. The verdict on a processed ticket. While no one else moves the job, processing its ticket appends
  to its history exactly the states its outcome calls for: Succeeded; Cancelled when the context ended
  the handler; Failed and Dead when the attempts are used up; Failed and Scheduled otherwise. It keeps
  every other job, creates precisely the children registered for the final state, each waiting in its
  queue with the parent's result merged in, and leaves the in-flight counts as they were.
\<close>
theorem process_verdict:
  fixes s2 :: mstate
  assumes wf: "mem_wf s" "mem_wf s2" and j: "m_jobs s i = Some j" "m_jobs s2 i = Some j"
    and h: "m_jobStates s i = Some h" "m_jobStates s2 i = Some h" "current_of h = StateProcessing"
    and t: "t_JobID t = i" and others: "others = map_prod (\<lambda>en. en) (\<lambda>_. s2)"
    and out: "Execute (e_pipeline en) (NewJobContext (w 0)
        (jc (time_add (now_at (w 0) 8) (jobTimeout en j)) 0) j (AttemptCount h)) = out" "out = Ret result err"
    and v: "verdict out (AttemptCount h) (j_RetryMax j) = v"
    and kids: "released v (list_at (m_continuations s2) i) = kids"
    and fresh: "fresh_ids (later 3 w) 0 (length kids) (\<lambda>k. m_jobStates s2 k \<noteq> None)"
    and run: "processTicket memory_ops cd w jc cancel jitter others t en s = (en', s')"
  shows "(\<exists>sts. m_jobStates s' i = Some (h @ sts) \<and> map js_Name sts = v) \<and>
    (\<forall>k. k \<noteq> i \<and> m_jobs s2 k \<noteq> None \<longrightarrow> m_jobStates s' k = m_jobStates s2 k \<and> m_jobs s' k = m_jobs s2 k) \<and>
    dom (m_jobs s') = dom (m_jobs s2) \<union> (\<lambda>k. new_uuid (w (k + 3)) 0) ` {..<length kids} \<and>
    (\<exists>j'. m_jobs s' i = Some j' \<and> (\<forall>k < length kids. child_created cd (j_Result j') (kids ! k)
        (m_jobStates s' (new_uuid (w (k + 3)) 0)) (m_jobs s' (new_uuid (w (k + 3)) 0)) \<and>
        new_uuid (w (k + 3)) 0 \<in> set (list_at (m_queues s') (child_queue (kids ! k))))) \<and>
    (\<forall>q. 0 \<le> int_at (e_active en) q \<longrightarrow> int_at (e_active en') q = int_at (e_active en) q)"
proof -
  let ?c = "\<lambda>k. jc (time_add (now_at (w 0) 8) (jobTimeout en j)) (k + 1)"
  have id: "j_ID j = i" using mem_wf_job [OF wf(1) j(1)] by simp
  obtain s3 sts r' where fin: "finish memory_ops (later 1 w) ?c jitter j (AttemptCount h) out s2 =
      (s3, Ok (terminal_of v))" "mem_wf s3" "m_jobStates s3 = (m_jobStates s2)(i \<mapsto> h @ sts)"
    "map js_Name sts = v" "m_jobs s3 = (m_jobs s2)(i \<mapsto> j\<lparr>j_Result := r'\<rparr>)"
    using mem_finish [OF wf(2) j(2) h(2,3) out(2) id, of "later 1 w" ?c jitter "AttemptCount h"] v by metis
  define s4 where "s4 = (if terminal_of v \<noteq> [] then fireContinuations memory_ops cd (later 3 w) None i (terminal_of v) s3 else s3)"
  define en4 where "en4 = unregisterCancel i (registerCancel i cancel (incActive (j_Queue j) en))"
  have run': "en' = decActive (j_Queue j) (en4\<lparr>e_cancelled := insert cancel (e_cancelled en4)\<rparr>)" "s' = s4"
    using run fin(1) j(1) h(1) out(1) id t others
    by (auto simp: processTicket_def GetJob_spec(1) [OF wf(1) j(1) h(1)] Let_def s4_def en4_def)
  have conts: "list_at (m_continuations s3) i = list_at (m_continuations s2) i"
    using finish_continuations [of "later 1 w" ?c jitter j "AttemptCount h" out s2] fin(1) by simp
  have nonempty: "last v \<noteq> []" using verdict_last [OF out(2), of "AttemptCount h" "j_RetryMax j"] v by simp
  have dom3: "dom (m_jobs s3) = dom (m_jobs s2)" using fin(5) j(2) by auto
  have used: "(\<lambda>k. m_jobStates s3 k \<noteq> None) = (\<lambda>k. m_jobStates s2 k \<noteq> None)" using fin(3) h(2) by auto
  have j3: "m_jobs s3 i = Some (j\<lparr>j_Result := r'\<rparr>)" using fin(5) by simp
  have s4: "\<And>k. m_jobStates s3 k \<noteq> None \<Longrightarrow> m_jobStates s4 k = m_jobStates s3 k \<and> m_jobs s4 k = m_jobs s3 k"
    and s4_dom: "dom (m_jobs s4) = dom (m_jobs s3) \<union> (\<lambda>k. new_uuid (later 3 w k) 0) ` {..<length kids}"
    and s4_kids: "\<And>k. k < length kids \<Longrightarrow> child_created cd r' (kids ! k)
        (m_jobStates s4 (new_uuid (later 3 w k) 0)) (m_jobs s4 (new_uuid (later 3 w k) 0)) \<and>
        new_uuid (later 3 w k) 0 \<in> set (list_at (m_queues s4) (child_queue (kids ! k)))"
    using fire_mem [OF fin(2) j3 conts, where w = "later 3 w" and t = "terminal_of v" and cd = cd] fresh used nonempty kids
    by (auto simp: s4_def terminal_of_def released_def split: if_splits)
  have hist: "\<exists>sts. m_jobStates s' i = Some (h @ sts) \<and> map js_Name sts = v"
    using s4 [of i] fin(3,4) run' by simp
  moreover have "\<forall>k. k \<noteq> i \<and> m_jobs s2 k \<noteq> None \<longrightarrow> m_jobStates s' k = m_jobStates s2 k \<and> m_jobs s' k = m_jobs s2 k"
    using s4 fin(3,5) run' mem_wf_dom [OF wf(2)] by (metis domIff fun_upd_other)
  moreover have "m_jobs s' i = Some (j\<lparr>j_Result := r'\<rparr>)"
    using s4 [of i] fin(3) j3 run' by simp
  moreover have "dom (m_jobs s') = dom (m_jobs s2) \<union> (\<lambda>k. new_uuid (w (k + 3)) 0) ` {..<length kids}"
    using s4_dom dom3 run' by (simp add: later_def)
  moreover have "\<forall>q. 0 \<le> int_at (e_active en) q \<longrightarrow> int_at (e_active en') q = int_at (e_active en) q"
    by (simp add: run' en4_def int_at_decActive int_at_incActive)
  ultimately show ?thesis
    using s4_kids run'(2) by (simp add: later_def)
qed

definition demo_codec :: json_codec where
  "demo_codec = \<lparr>cd_Unmarshal = (\<lambda>_. None), cd_Marshal = (\<lambda>_. Some ''{}'')\<rparr>"

definition demo_engine :: "runner \<Rightarrow> engine" where
  "demo_engine r = engine_New 4 (DefaultConfig 4) r"

definition demo_child :: continuationEntry where
  "demo_child = \<lparr>c_ChildName = ''mail'', c_ChildArgs = None, c_ChildQueue = [],
     c_Condition = ConditionOnSucceeded, c_CreatedAt = 0\<rparr>"

definition demo_family :: mstate where
  "demo_family = fst (mem_AddContinuation (test_env 6 [] []) None ''a'' demo_child demo_processing)"

lemma demo_family_sel [simp]:
  "m_jobs demo_family = m_jobs demo_processing" "m_jobStates demo_family = m_jobStates demo_processing"
  "mem_wf demo_family" "list_at (m_continuations demo_family) ''a'' = [demo_child\<lparr>c_CreatedAt := 6\<rparr>]"
proof -
  have "m_continuations demo_processing = Map.empty"
    by (simp add: demo_processing_def pop_queue_def demo_enqueued_def mem_Enqueue_def Let_def mem_New_def)
  moreover have "mem_wf demo_processing" by (rule core_reachable_wf [OF demo_processing_core])
  ultimately show "m_jobs demo_family = m_jobs demo_processing"
    "m_jobStates demo_family = m_jobStates demo_processing" "mem_wf demo_family"
    "list_at (m_continuations demo_family) ''a'' = [demo_child\<lparr>c_CreatedAt := 6\<rparr>]"
    by (simp_all add: demo_family_def mem_AddContinuation_def Let_def list_at_def)
qed

lemma demo_execute:
  "Execute (e_pipeline (demo_engine r)) c =
     (case r (jc_Context c) (jc_Job c) of Panics t \<Rightarrow> Ret None (Some (ErrMsg (''panic: '' @ t))) | Ret out err \<Rightarrow> Ret out err)"
  by (simp only: demo_engine_def engine_New_def engine.select_convs Execute_foldr foldr_Cons foldr_Nil
      o_apply id_apply PanicRecovery_def)

theorem process_verdict_witness:
  "\<exists>en' s'. processTicket memory_ops demo_codec (\<lambda>k. test_env 7 ''b'' []) (\<lambda>_ _. None) 0 0
       (map_prod (\<lambda>en. en) (\<lambda>_. demo_family)) \<lparr>t_JobID = ''a'', t_Token = []\<rparr>
       (demo_engine EchoRunner) demo_family = (en', s') \<and>
     (\<exists>sts. m_jobStates s' ''a'' = Some ([new_state StateEnqueued [] [] 5,
        new_state StateProcessing [] [(''server_id'', ''local'')] 6] @ sts) \<and> map js_Name sts = [StateSucceeded]) \<and>
     dom (m_jobs s') = {''a'', ''b''}"
proof -
  let ?j = "mem_fill_job (test_env 5 ''a'' []) demo_job"
  let ?h = "[new_state StateEnqueued [] [] 5, new_state StateProcessing [] [(''server_id'', ''local'')] 6]"
  let ?out = "Ret (Some ''{}'') None"
  obtain en' s' where run: "processTicket memory_ops demo_codec (\<lambda>k. test_env 7 ''b'' []) (\<lambda>_ _. None) 0 0
       (map_prod (\<lambda>en. en) (\<lambda>_. demo_family)) \<lparr>t_JobID = ''a'', t_Token = []\<rparr>
       (demo_engine EchoRunner) demo_family = (en', s')" by fastforce
  have out: "Execute (e_pipeline (demo_engine EchoRunner)) (NewJobContext (test_env 7 ''b'' []) None ?j (AttemptCount ?h)) = ?out"
    by (simp add: demo_execute NewJobContext_def EchoRunner_def demo_job_def trimResult_def blen_def MaxResultBytes_def)
  have kids: "released (verdict ?out (AttemptCount ?h) (j_RetryMax ?j)) (list_at (m_continuations demo_family) ''a'')
      = [demo_child\<lparr>c_CreatedAt := 6\<rparr>]"
    by (simp add: released_def continuationMatches_def demo_child_def)
  have fresh: "fresh_ids (later 3 (\<lambda>k. test_env 7 ''b'' [])) 0 (length [demo_child\<lparr>c_CreatedAt := 6\<rparr>])
      (\<lambda>k. m_jobStates demo_family k \<noteq> None)" by (simp add: later_def)
  have m: "m_jobs demo_family ''a'' = Some ?j" "m_jobStates demo_family ''a'' = Some ?h"
    "current_of ?h = StateProcessing" by (simp_all add: current_of_def)
  note pv = process_verdict [OF demo_family_sel(3) demo_family_sel(3) m(1) m(1) m(2) m(2) m(3) _ refl _ refl refl kids
      fresh run]
  have "(\<exists>sts. m_jobStates s' ''a'' = Some (?h @ sts) \<and> map js_Name sts = verdict ?out (AttemptCount ?h) (j_RetryMax ?j)) \<and>
      dom (m_jobs s') = dom (m_jobs demo_family) \<union> (\<lambda>k. new_uuid ((\<lambda>k. test_env 7 ''b'' []) (k + 3)) 0) ` {..<length [demo_child\<lparr>c_CreatedAt := 6\<rparr>]}"
    using pv out by simp
  with run show ?thesis by (intro exI [of _ en'] exI [of _ s']) auto
qed

text \<open>
  C34. A worker that lost its job does no harm to the job's life: when the job has left Processing while
  the handler ran (it was recovered, requeued or deleted), finishing changes no history, no queue and
  fires no continuation. It still overwrites the stored result if its handler succeeded with output,
  because the result is written before the state is checked.
\<close>
theorem stale_worker:
  fixes s2 :: mstate
  assumes wf: "mem_wf s" "mem_wf s2" and j: "m_jobs s i = Some j" and h: "m_jobStates s i = Some h"
    and moved: "m_jobStates s2 i = Some h2" "current_of h2 \<noteq> StateProcessing"
    and t: "t_JobID t = i" and others: "others = map_prod f (\<lambda>_. s2)"
    and out: "Execute (e_pipeline en) (NewJobContext (w 0)
        (jc (time_add (now_at (w 0) 8) (jobTimeout en j)) 0) j (AttemptCount h)) = Ret result err"
    and run: "processTicket memory_ops cd w jc cancel jitter others t en s = (en', s')"
  shows "m_jobStates s' = m_jobStates s2 \<and> mem_queued s' = mem_queued s2 \<and> dom (m_jobs s') = dom (m_jobs s2) \<and>
    (if err = None \<and> 0 < blen result
     then (\<exists>j2. m_jobs s' i = Some j2 \<and> j_Result j2 = stored_result result) else s' = s2)"
proof -
  let ?c = "\<lambda>k. jc (time_add (now_at (w 0) 8) (jobTimeout en j)) (k + 1)"
  have id: "j_ID j = i" using mem_wf_job [OF wf(1) j] by simp
  obtain j2 where j2: "m_jobs s2 i = Some j2" using mem_wf_hist_job [OF wf(2) moved(1)] by blast
  obtain s3 where fin: "finish memory_ops (later 1 w) ?c jitter j (AttemptCount h) (Ret result err) s2 =
      (s3, Err ErrStateConflict)" "mem_wf s3" "m_jobStates s3 = m_jobStates s2" "mem_queued s3 = mem_queued s2"
      "err \<noteq> None \<or> blen result = 0 \<longrightarrow> s3 = s2"
    using mem_finish_stale [OF wf(2) moved refl id, of "later 1 w" ?c jitter "AttemptCount h" result err]
    by blast
  have "s' = s3"
    using run fin(1) out id t others
    by (simp add: processTicket_def GetJob_spec(1) [OF wf(1) j h] Let_def case_prod_beta)
  moreover have "dom (m_jobs s3) = dom (m_jobs s2)"
    using mem_wf_dom [OF wf(2)] mem_wf_dom [OF fin(2)] fin(3) by simp
  moreover have "\<exists>j2. m_jobs s3 i = Some j2 \<and> j_Result j2 = stored_result result" if "err = None" "0 < blen result"
  proof -
    let ?s = "s2\<lparr>m_jobs := (m_jobs s2)(i \<mapsto> j2\<lparr>j_Result := stored_result result\<rparr>)\<rparr>"
    have "mem_wf ?s" using mem_wf_SetJobResult [OF wf(2)] SetJobResult_spec [OF j2] by (metis fst_conv)
    then have "finish memory_ops (later 1 w) ?c jitter j (AttemptCount h) (Ret result err) s2 = (?s, Err ErrStateConflict)"
      using that id ApplyState_fail(2) [of ?s i h2 StateProcessing] moved
      by (simp add: finish_def finalizeSuccess_def SetJobResult_spec [OF j2])
    then have "s3 = ?s" using fin(1) by simp
    then show ?thesis by simp
  qed
  ultimately show ?thesis using fin(3-5) by auto
qed

theorem stale_worker_witness:
  "\<exists>en' s'. processTicket memory_ops demo_codec (\<lambda>k. test_env 7 ''b'' []) (\<lambda>_ _. None) 0 0
       (map_prod (\<lambda>en. en) (\<lambda>_. demo_enqueued)) \<lparr>t_JobID = ''a'', t_Token = []\<rparr>
       (demo_engine EchoRunner) demo_processing = (en', s') \<and> m_jobStates s' = m_jobStates demo_enqueued"
proof -
  let ?j = "mem_fill_job (test_env 5 ''a'' []) demo_job"
  let ?h = "[new_state StateEnqueued [] [] 5, new_state StateProcessing [] [(''server_id'', ''local'')] 6]"
  obtain en' s' where run: "processTicket memory_ops demo_codec (\<lambda>k. test_env 7 ''b'' []) (\<lambda>_ _. None) 0 0
       (map_prod (\<lambda>en. en) (\<lambda>_. demo_enqueued)) \<lparr>t_JobID = ''a'', t_Token = []\<rparr>
       (demo_engine EchoRunner) demo_processing = (en', s')" by fastforce
  have out: "Execute (e_pipeline (demo_engine EchoRunner)) (NewJobContext (test_env 7 ''b'' []) None ?j (AttemptCount ?h))
      = Ret (Some ''{}'') None"
    by (simp add: demo_execute NewJobContext_def EchoRunner_def demo_job_def trimResult_def blen_def MaxResultBytes_def)
  have "m_jobStates s' = m_jobStates demo_enqueued"
    using stale_worker [OF core_reachable_wf [OF demo_processing_core] core_reachable_wf [OF demo_enqueued_core],
        of "''a''" ?j ?h "[new_state StateEnqueued [] [] 5]", OF _ _ _ _ _ refl out run] by simp
  with run show ?thesis by blast
qed

section \<open>The life of a job that always fails\<close>

text \<open>One round: a worker takes the head of the queue and processes it, then the scheduler ticks.\<close>

definition fail_round ::
  "json_codec \<Rightarrow> world \<Rightarrow> int64 \<Rightarrow> time \<Rightarrow> string \<Rightarrow> engine \<times> mstate \<Rightarrow> engine \<times> mstate" where
  "fail_round cd w jitter now q = (\<lambda>(en, s).
     case dequeue_scan (w 0) True [q] s of
       Found s t \<Rightarrow>
         let (en, s) = processTicket memory_ops cd (later 1 w) (\<lambda>_ _. None) 0 jitter (\<lambda>x. x) t en s;
             (s, _) = mem_GetDueScheduled (w 9) None now 100 s
         in (en, s)
     | _ \<Rightarrow> (en, s))"

fun rounds ::
  "json_codec \<Rightarrow> (nat \<Rightarrow> world) \<Rightarrow> (nat \<Rightarrow> int64) \<Rightarrow> (nat \<Rightarrow> time) \<Rightarrow> string \<Rightarrow> nat \<Rightarrow> engine \<times> mstate \<Rightarrow> engine \<times> mstate"
where
  "rounds cd ws jits nows q 0 x = x"
| "rounds cd ws jits nows q (Suc n) x = fail_round cd (ws n) (jits n) (nows n) q (rounds cd ws jits nows q n x)"

text \<open>Job \<open>i\<close> waits alone in its queue with history \<open>h\<close>; nothing is scheduled, no child is registered.\<close>

definition retrying :: "mstate \<Rightarrow> string \<Rightarrow> string \<Rightarrow> job \<Rightarrow> jobState list \<Rightarrow> bool" where
  "retrying s q i j h \<longleftrightarrow> mem_wf s \<and> list_at (m_queues s) q = [i] \<and> m_jobs s i = Some j \<and> j_Queue j = q \<and>
     m_jobStates s i = Some h \<and> m_scheduled s = Map.empty \<and> list_at (m_continuations s) i = []"

definition always_fails :: "engine \<Rightarrow> bool" where
  "always_fails en \<longleftrightarrow> (\<forall>c. \<exists>r err. Execute (e_pipeline en) c = Ret r (Some err) \<and> \<not> is_cancel err)"

lemma distinct_singleton: "distinct xs \<Longrightarrow> set xs = {i} \<Longrightarrow> xs = [i]"
  by (cases xs; cases "tl xs") auto

lemma mem_fail_retry:
  fixes w :: world and jitter :: int64 and attempt :: int and c :: "nat \<Rightarrow> ctx" and r :: bytes
  assumes wf: "mem_wf s" and h: "m_jobStates s i = Some h" "current_of h = StateProcessing"
    and id: "j_ID job = i" and nc: "\<not> is_cancel x" and more: "attempt + 1 < effectiveRetryMax (j_RetryMax job)"
  defines "s' \<equiv> fst (finish memory_ops w c jitter job attempt (Ret r (Some x)) s)"
  shows "m_scheduled s' = (m_scheduled s)(i \<mapsto> time_add (now_at (w 1) 9) (RetryDelay jitter attempt))"
    and "m_queues s' = m_queues s" and "m_jobs s' = m_jobs s"
proof -
  let ?st = "new_state StateFailed (Error x) [(''attempt'', show_int (attempt + 1))] 0"
  let ?at = "time_add (now_at (w 1) 9) (RetryDelay jitter attempt)"
  note a = ApplyState_spec [OF wf h, of "w 0" "c 0" ?st]
  obtain s1 where a1: "mem_ApplyState (w 0) (c 0) i StateProcessing ?st s = (s1, Ok ())"
    using a(1) by (metis prod.collapse)
  have wf1: "mem_wf s1" using mem_wf_ApplyState [OF wf] a1 by (metis fst_conv)
  have h1: "m_jobStates s1 i = Some (h @ [?st\<lparr>js_CreatedAt := now_at (w 0) 0\<rparr>])"
    "current_of (h @ [?st\<lparr>js_CreatedAt := now_at (w 0) 0\<rparr>]) = StateFailed" using a(2) a1 by simp_all
  note b = ScheduleRetry_spec [OF wf1 h1, of "w 1" "c 1" ?at]
  obtain s2 where b1: "mem_ScheduleRetry (w 1) (c 1) i ?at s1 = (s2, Ok ())"
    using b(1) by (metis prod.collapse)
  have "s' = s2"
    using a1 b1 id nc more by (simp add: s'_def finish_def finalizeFailure_def is_cancel_def Let_def)
  with a(3,4,5) a1 b(3,4,5) b1 show "m_scheduled s' = (m_scheduled s)(i \<mapsto> ?at)"
    "m_queues s' = m_queues s" "m_jobs s' = m_jobs s" by simp_all
qed

lemma mem_fail_dead:
  assumes "\<not> attempt + 1 < effectiveRetryMax (j_RetryMax job)"
  shows "m_scheduled (fst (finish memory_ops w c jitter job attempt (Ret r (Some x)) s)) = m_scheduled s"
proof -
  have keep: "m_scheduled (fst (mem_ApplyState e d i cur st s')) = m_scheduled s'" for e d i cur st s'
    by (simp add: mem_ApplyState_def Let_def split: option.split)
  show ?thesis
    unfolding finish_def finalizeFailure_def memory_ops_sel Let_def
    using assms by (auto simp: keep intro!: and_then_keeps [where P = "\<lambda>s'. m_scheduled s' = m_scheduled s"])
qed

text \<open>What the worker's half of a round leaves behind.\<close>

lemma round_process:
  assumes r: "retrying s q i j h" and f: "always_fails en"
  obtains s1 en' s2 sts x where "dequeue_scan (w 0) True [q] s = Found s1 (dequeue_ticket (w 0) i)"
    "processTicket memory_ops cd (later 1 w) (\<lambda>_ _. None) 0 jitter (\<lambda>x. x) (dequeue_ticket (w 0) i) en s1 = (en', s2)"
    "e_pipeline en' = e_pipeline en" "mem_wf s2" "m_jobStates s2 i = Some (h @ sts)"
    "map js_Name sts = StateProcessing # verdict (Ret None (Some x)) (AttemptCount h) (j_RetryMax j)" "\<not> is_cancel x"
    "list_at (m_continuations s2) i = []" "m_jobs s2 i \<noteq> None"
    "AttemptCount h + 1 < effectiveRetryMax (j_RetryMax j) \<longrightarrow>
       m_scheduled s2 = [i \<mapsto> time_add (now_at (w 3) 9) (RetryDelay jitter (AttemptCount h))] \<and>
       list_at (m_queues s2) q = [] \<and> m_jobs s2 i = Some j"
    "\<not> AttemptCount h + 1 < effectiveRetryMax (j_RetryMax j) \<longrightarrow> m_scheduled s2 = Map.empty"
proof -
  note r' = r [unfolded retrying_def]
  have id: "j_ID j = i" using mem_wf_job r' by blast
  let ?s1 = "dequeue_take (w 0) i (pop_queue q [] s)"
  let ?p = "new_state StateProcessing [] [(''server_id'', ''local'')] (now_at (w 0) 1)"
  have scan: "dequeue_scan (w 0) True [q] s = Found ?s1 (dequeue_ticket (w 0) i)"
    by (rule scan_found) (use r' id in auto)
  have wf1: "mem_wf ?s1" using mem_wf_scan [OF scan] r' by blast
  have s1: "m_jobs ?s1 i = Some j" "m_jobStates ?s1 i = Some (h @ [?p])" "m_scheduled ?s1 = Map.empty"
    "list_at (m_queues ?s1) q = []" "list_at (m_continuations ?s1) i = []"
    using r' by (simp_all add: pop_queue_def list_at_def)
  have cur: "current_of (h @ [?p]) = StateProcessing" and att: "AttemptCount (h @ [?p]) = AttemptCount h"
    by (simp_all add: AttemptCount_append)
  let ?en = "registerCancel i 0 (incActive (j_Queue j) en)"
  obtain res x where out: "Execute (e_pipeline en) (NewJobContext (later 1 w 0) None j (AttemptCount h)) = Ret res (Some x)"
    and nc: "\<not> is_cancel x" using f unfolding always_fails_def by blast
  obtain s3 sts r3 where fin: "finish memory_ops (later 1 (later 1 w)) (\<lambda>_. None) jitter j (AttemptCount h) (Ret res (Some x)) ?s1
      = (s3, Ok (terminal_of (verdict (Ret res (Some x)) (AttemptCount h) (j_RetryMax j))))" "mem_wf s3"
    "m_jobStates s3 = (m_jobStates ?s1)(i \<mapsto> (h @ [?p]) @ sts)"
    "map js_Name sts = verdict (Ret res (Some x)) (AttemptCount h) (j_RetryMax j)"
    "m_jobs s3 = (m_jobs ?s1)(i \<mapsto> j\<lparr>j_Result := r3\<rparr>)"
    using mem_finish [OF wf1 s1(1,2) cur refl id] by metis
  have conts: "list_at (m_continuations s3) i = []"
    using finish_continuations [of "later 1 (later 1 w)" "\<lambda>_. None" jitter j "AttemptCount h" "Ret res (Some x)" ?s1] fin(1) s1(5) by simp
  have noop: "fireContinuations memory_ops cd v None i t s3 = s3" for v t
    using conts by (simp add: fireContinuations_def mem_GetContinuations_def)
  define en' where "en' = snd (s3, decActive (j_Queue j) ((unregisterCancel i ?en)\<lparr>e_cancelled := insert 0 (e_cancelled (unregisterCancel i ?en))\<rparr>))"
  have run: "processTicket memory_ops cd (later 1 w) (\<lambda>_ _. None) 0 jitter (\<lambda>x. x) (dequeue_ticket (w 0) i) en ?s1 = (en', s3)"
    using fin(1) out id noop
    by (simp add: processTicket_def GetJob_spec(1) [OF wf1 s1(1,2)] dequeue_ticket_def AttemptCount_append Let_def en'_def)
  have retry: "m_scheduled s3 = [i \<mapsto> time_add (now_at (w 3) 9) (RetryDelay jitter (AttemptCount h))] \<and>
       list_at (m_queues s3) q = [] \<and> m_jobs s3 i = Some j"
    if "AttemptCount h + 1 < effectiveRetryMax (j_RetryMax j)"
    using mem_fail_retry [OF wf1 s1(2) cur id nc that, of "later 1 (later 1 w)" "\<lambda>_. None" jitter res] fin(1) s1(1,3,4)
    by (simp add: later_def eval_nat_numeral)
  have dead: "m_scheduled s3 = Map.empty" if "\<not> AttemptCount h + 1 < effectiveRetryMax (j_RetryMax j)"
    using mem_fail_dead [OF that, of "later 1 (later 1 w)" "\<lambda>_. None" jitter res x ?s1] fin(1) s1(3) by simp
  show ?thesis
    by (rule that [OF scan run _ fin(2) _ _ nc conts]) (use fin retry dead in \<open>auto simp: en'_def\<close>)
qed

lemma round_retry:
  assumes r: "retrying s q i j h" and f: "always_fails en"
    and more: "AttemptCount h + 1 < effectiveRetryMax (j_RetryMax j)"
    and due: "time_add (now_at (w 3) 9) (RetryDelay jitter (AttemptCount h)) \<le> now" and ord: "i \<in> set (key_order (w 9))"
  shows "\<exists>en' s' sts. fail_round cd w jitter now q (en, s) = (en', s') \<and> e_pipeline en' = e_pipeline en \<and>
    retrying s' q i j (h @ sts) \<and> map js_Name sts = [StateProcessing, StateFailed, StateScheduled, StateEnqueued]"
proof -
  obtain s1 en' s2 sts x where p: "dequeue_scan (w 0) True [q] s = Found s1 (dequeue_ticket (w 0) i)"
    "processTicket memory_ops cd (later 1 w) (\<lambda>_ _. None) 0 jitter (\<lambda>x. x) (dequeue_ticket (w 0) i) en s1 = (en', s2)"
    "e_pipeline en' = e_pipeline en" "mem_wf s2" "m_jobStates s2 i = Some (h @ sts)"
    "map js_Name sts = StateProcessing # verdict (Ret None (Some x)) (AttemptCount h) (j_RetryMax j)" "\<not> is_cancel x"
    "list_at (m_continuations s2) i = []"
    "m_scheduled s2 = [i \<mapsto> time_add (now_at (w 3) 9) (RetryDelay jitter (AttemptCount h))]"
    "list_at (m_queues s2) q = []" "m_jobs s2 i = Some j"
    using round_process [OF r f, of w cd jitter] more by metis
  define s3 where "s3 = fst (mem_GetDueScheduled (w 9) None now 100 s2)"
  define st where "st = new_state StateEnqueued ''scheduled'' [] (now_at (w 9) 0)"
  have q: "j_Queue j = q" using r by (simp add: retrying_def)
  have "due_scan now 100 (m_scheduled s2) (range_keys (m_scheduled s2) (key_order (w 9))) [] = [i]"
  proof -
    have "set (range_keys (m_scheduled s2) (key_order (w 9))) = {i}" using p(9) ord by auto
    then have "range_keys (m_scheduled s2) (key_order (w 9)) = [i]"
      by (rule distinct_singleton [OF distinct_range_keys])
    then show ?thesis using p(9) due by simp
  qed
  then have s3: "s3 = signal (count ''enqueued'' 1 (count ''scheduled'' (- 1) (push_back q i
      (append_state i st (s2\<lparr>m_scheduled := (m_scheduled s2)(i := None)\<rparr>)))))"
    using p(11) q by (simp add: s3_def st_def mem_GetDueScheduled_def Let_def)
  have "mem_wf s3" unfolding s3_def by (rule mem_wf_GetDueScheduled [OF p(4)])
  then have "retrying s3 q i j (h @ sts @ [st])"
    using p(5,8,9,10,11) q by (simp add: retrying_def s3 list_at_def)
  moreover have "fail_round cd w jitter now q (en, s) = (en', s3)"
    using p(1,2) by (simp add: fail_round_def s3_def case_prod_beta)
  moreover have "map js_Name (sts @ [st]) = [StateProcessing, StateFailed, StateScheduled, StateEnqueued]"
    using p(6,7) more by (simp add: st_def)
  ultimately show ?thesis
    using p(3) by (intro exI [of _ en'] exI [of _ s3] exI [of _ "sts @ [st]"]) simp
qed

lemma round_dead:
  assumes r: "retrying s q i j h" and f: "always_fails en"
    and last: "\<not> AttemptCount h + 1 < effectiveRetryMax (j_RetryMax j)"
  shows "\<exists>sts. m_jobStates (snd (fail_round cd w jitter now q (en, s))) i = Some (h @ sts) \<and>
    map js_Name sts = [StateProcessing, StateFailed, StateDead]"
proof -
  obtain s1 en' s2 sts x where p: "dequeue_scan (w 0) True [q] s = Found s1 (dequeue_ticket (w 0) i)"
    "processTicket memory_ops cd (later 1 w) (\<lambda>_ _. None) 0 jitter (\<lambda>x. x) (dequeue_ticket (w 0) i) en s1 = (en', s2)"
    "m_jobStates s2 i = Some (h @ sts)" "\<not> is_cancel x" "m_scheduled s2 = Map.empty"
    "map js_Name sts = StateProcessing # verdict (Ret None (Some x)) (AttemptCount h) (j_RetryMax j)"
    using round_process [OF r f, of w cd jitter] last by metis
  have "fst (mem_GetDueScheduled (w 9) None now 100 s2) = s2"
    using p(5) by (simp add: mem_GetDueScheduled_def range_keys_def)
  then have "snd (fail_round cd w jitter now q (en, s)) = s2"
    using p(1,2) by (simp add: fail_round_def case_prod_beta)
  with p(3,4,6) last show ?thesis by simp
qed

text \<open>
  C4. A job whose handler always fails (or always panics) is tried exactly as often as its retry limit
  says and then dies: after each of the first \<open>m - 1\<close> rounds of dequeue, run and scheduler tick it is
  waiting again with one more Failed state, and the \<open>m\<close>-th round leaves it Dead.
\<close>
theorem retry_until_dead:
  assumes r: "retrying s q i j h" "AttemptCount h = 0" and f: "always_fails en"
    and m: "effectiveRetryMax (j_RetryMax j) = int m" "0 < m"
    and due: "\<forall>n < m. time_add (now_at (ws n 3) 9) (RetryDelay (jits n) (int n)) \<le> nows n"
    and ord: "\<forall>n < m. i \<in> set (key_order (ws n 9))"
  shows "(\<forall>n < m. \<exists>h'. retrying (snd (rounds cd ws jits nows q n (en, s))) q i j h' \<and> AttemptCount h' = int n) \<and>
    (\<exists>h'. m_jobStates (snd (rounds cd ws jits nows q m (en, s))) i = Some h' \<and> current_of h' = StateDead \<and>
       AttemptCount h' = int m)"
proof -
  have step: "\<exists>en' s' h'. rounds cd ws jits nows q n (en, s) = (en', s') \<and> always_fails en' \<and>
    retrying s' q i j h' \<and> AttemptCount h' = int n" if "n < m" for n
    using that
  proof (induction n)
    case 0
    with r f show ?case by auto
  next
    case (Suc n)
    then obtain en1 s1 h1 where IH: "rounds cd ws jits nows q n (en, s) = (en1, s1)" "always_fails en1"
      "retrying s1 q i j h1" "AttemptCount h1 = int n" by auto
    have "AttemptCount h1 + 1 < effectiveRetryMax (j_RetryMax j)" using IH(4) m Suc.prems by simp
    then obtain en' s' sts where "fail_round cd (ws n) (jits n) (nows n) q (en1, s1) = (en', s')"
      "e_pipeline en' = e_pipeline en1" "retrying s' q i j (h1 @ sts)"
      "map js_Name sts = [StateProcessing, StateFailed, StateScheduled, StateEnqueued]"
      using round_retry [OF IH(3,2)] due ord Suc.prems IH(4) by (metis Suc_lessD)
    with IH show ?case by (auto simp: always_fails_def AttemptCount_names)
  qed
  obtain k where k: "m = Suc k" using m(2) by (cases m) auto
  from step [of k] k obtain en1 s1 h1 where IH: "rounds cd ws jits nows q k (en, s) = (en1, s1)" "always_fails en1"
      "retrying s1 q i j h1" "AttemptCount h1 = int k" by auto
  obtain sts where d: "m_jobStates (snd (rounds cd ws jits nows q m (en, s))) i = Some (h1 @ sts)"
    "map js_Name sts = [StateProcessing, StateFailed, StateDead]"
    using round_dead [OF IH(3,2), of cd "ws k" "jits k" "nows k"] IH(1,4) m k by auto
  then have "current_of (h1 @ sts) = StateDead" "AttemptCount (h1 @ sts) = int m"
    using IH(4) k by (auto simp: AttemptCount_names current_of_names)
  with d(1) step show ?thesis by (metis snd_conv)
qed

theorem retry_until_dead_witness:
  "\<exists>h'. m_jobStates (snd (rounds demo_codec (\<lambda>_ _. test_env 7 ''x'' [''a'']) (\<lambda>_. 0)
       (\<lambda>n. time_add 7 (RetryDelay 0 (int n))) ''default'' 10
       (demo_engine (\<lambda>_ _. Panics ''boom''), demo_enqueued))) ''a'' = Some h' \<and>
     current_of h' = StateDead \<and> AttemptCount h' = int 10"
proof -
  let ?j = "mem_fill_job (test_env 5 ''a'' []) demo_job"
  have "m_continuations demo_enqueued = Map.empty"
    by (simp add: demo_enqueued_def mem_Enqueue_def Let_def mem_New_def)
  then have r: "retrying demo_enqueued ''default'' ''a'' ?j [new_state StateEnqueued [] [] 5]"
    using core_reachable_wf [OF demo_enqueued_core]
    by (simp add: retrying_def list_at_def demo_job_def)
  have f: "always_fails (demo_engine (\<lambda>_ _. Panics ''boom''))"
    by (simp add: always_fails_def demo_execute is_cancel_def)
  show ?thesis
    using retry_until_dead [OF r _ f, of 10 "\<lambda>_ _. test_env 7 ''x'' [''a'']" "\<lambda>_. 0"
        "\<lambda>n. time_add 7 (RetryDelay 0 (int n))" demo_codec]
    by (simp add: effectiveRetryMax_def demo_job_def del: rounds.simps)
qed

text \<open>
  Starting and stopping: a start that registers the server launches one goroutine per configured
  worker plus the scheduler, the coordinator, the recurring loop and, when both cleanup settings are
  positive, the cleanup loop, and the server is in the registry as active; a second Start does
  nothing; Stop ends the run context and removes the server, and a second Stop does nothing.
\<close>
lemma start_stop:
  assumes fresh: "\<not> e_startOnce en" "\<not> e_stopOnce en" "e_goroutines en = []"
    and start: "Start memory_ops e None en s = ((en1, s1), r1)"
    and stop: "Stop memory_ops drained err en1 s1 = ((en2, s2), r2)"
  shows "r1 = Ok () \<and> length (filter (\<lambda>g. case g of GWorker _ \<Rightarrow> True | _ \<Rightarrow> False) (e_goroutines en1)) =
      nat (cfg_Workers (e_cfg en)) \<and> {GScheduler, GCoordinator, GRecurring} \<subseteq> set (e_goroutines en1) \<and>
    (GCleanup \<in> set (e_goroutines en1) \<longleftrightarrow>
       0 < sint (cfg_CleanupInterval (e_cfg en)) \<and> 0 < sint (cfg_JobRetention (e_cfg en))) \<and>
    (\<exists>sv. m_servers s1 (cfg_ServerID (e_cfg en)) = Some sv \<and> sv_Status sv = ServerStatusActive) \<and>
    e_runCtx en1 = Some None \<and> Start memory_ops e' c en1 s' = ((en1, s'), Ok ()) \<and>
    e_runCtx en2 = Some (Some CtxCanceled) \<and> m_servers s2 (cfg_ServerID (e_cfg en)) = None \<and>
    (drained \<longrightarrow> e_goroutines en2 = [] \<and> r2 = Ok ()) \<and>
    Stop memory_ops drained' err' en2 s' = ((en2, s'), Ok ())"
proof -
  note st = Start_mem [OF fresh(1), of e s]
  have en1: "en1 = en\<lparr>e_startOnce := True, e_runCtx := Some None, e_goroutines := launched (e_cfg en)\<rparr>"
    "s1 = fst (mem_RegisterServer e None (own_info e (e_cfg en)) (cfg_ServerHeartbeatTTL (e_cfg en)) s)" "r1 = Ok ()"
    using start st fresh(3) by simp_all
  have en2: "en2 = en1\<lparr>e_stopOnce := True, e_runCtx := Some (Some CtxCanceled),
      e_goroutines := if drained then [] else e_goroutines en1\<rparr>"
    "s2 = fst (mem_UnregisterServer None (cfg_ServerID (e_cfg en)) s1)" "drained \<longrightarrow> r2 = Ok ()"
    using stop fresh(2) en1(1) Stop_mem [of en1 drained err s1] by simp_all
  have regs: "m_servers s1 (cfg_ServerID (e_cfg en)) = Some ((own_info e (e_cfg en))\<lparr>sv_LastHeartbeat := now_at e 0\<rparr>)"
    "m_servers s2 (cfg_ServerID (e_cfg en)) = None"
    by (simp_all add: en1(2) en2(2) mem_RegisterServer_def mem_UnregisterServer_def own_info_def ServerStatusActive_def)
  have "Start memory_ops e' c en1 s' = ((en1, s'), Ok ())" "Stop memory_ops drained' err' en2 s' = ((en2, s'), Ok ())"
    by (simp_all add: Start_def Stop_def en1(1) en2(1))
  with en1 en2 regs launched_kinds [of "e_cfg en"] show ?thesis
    by (simp add: own_info_def)
qed

text \<open>
  Cancelling reaches the right job: while a job is registered, CancelJob cancels the context that was
  registered for it and no other; once the worker has unregistered it, or if it was never registered,
  CancelJob reports that the job is not processing here and changes nothing.
\<close>
lemma cancel_job:
  "CancelJob i (registerCancel i k en) =
     ((registerCancel i k en)\<lparr>e_cancelled := insert k (e_cancelled (registerCancel i k en))\<rparr>, Ok ()) \<and>
   CancelJob i (unregisterCancel i en) = (unregisterCancel i en, Err ErrNotProcessing) \<and>
   CancelJob i (registerCancel i' k en) =
     (if i = i' then ((registerCancel i' k en)\<lparr>e_cancelled := insert k (e_cancelled en)\<rparr>, Ok ())
      else case e_cancels en i of
             None \<Rightarrow> (registerCancel i' k en, Err ErrNotProcessing)
           | Some k' \<Rightarrow> ((registerCancel i' k en)\<lparr>e_cancelled := insert k' (e_cancelled en)\<rparr>, Ok ()))"
  by (simp add: CancelJob_def registerCancel_def unregisterCancel_def split: option.split)

text \<open>
  Normalising the configuration makes it usable whatever it was: at least one worker and one queue,
  a name, a positive batch size and positive intervals and timeouts; values that were already positive
  are kept, and normalising twice changes nothing more.
\<close>
lemma normalize_valid:
  "let c' = normalize n c in
   cfg_ServerID c' \<noteq> '''' \<and> 0 < cfg_Workers c' \<and> cfg_Queues c' \<noteq> [] \<and> 0 < cfg_SchedulerBatchSize c' \<and>
   (\<forall>f \<in> {cfg_DequeueTimeout, cfg_DefaultTimeout, cfg_ShutdownTimeout, cfg_JobHeartbeatInterval,
       cfg_SchedulerInterval, cfg_ServerHeartbeatTTL, cfg_ServerHeartbeatEvery, cfg_OrphanJobStaleAge}.
      0 < sint (f c') \<and> (0 < sint (f c) \<longrightarrow> f c' = f c)) \<and>
   cfg_QueueLimits c' = cfg_QueueLimits c \<and> normalize m c' = c'"
proof -
  have "0 < cfg_Workers (DefaultConfig n)" by (simp add: DefaultConfig_def Let_def)
  then show ?thesis
    by (simp add: normalize_def normalized_pos or_default_keep)
qed

end
