(* ===== verification/Recurring_Manager.thy ===== *)
theory Recurring_Manager
  imports Engine_Properties
begin

text \<open>
  The recurring manager (\<^verbatim>\<open>internal/engine/recurring.go\<close>): it keeps the cron scheduler in step with
  the recurring definitions of the store and, when a definition fires, enqueues a job under a
  distributed lock. The scheduler itself (\<^verbatim>\<open>robfig/cron\<close>) is third-party code: its operations are the
  fields of \<open>cron_ops\<close> over an abstract scheduler \<open>'c\<close>, and \<open>cron_laws\<close> states the documented
  behaviour the manager relies on, in terms of the table of scheduled callbacks (\<^verbatim>\<open>Entries()\<close>). A
  callback is the definition it was created from, which is what \<^verbatim>\<open>fireFunc\<close> captures.
\<close>

section \<open>The scheduler's interface\<close>

record 'c cron_ops =
  cr_AddFunc :: "string \<Rightarrow> recurringJobEntry \<Rightarrow> 'c \<Rightarrow> 'c \<times> nat option"
  cr_Remove :: "nat \<Rightarrow> 'c \<Rightarrow> 'c"
  cr_Entries :: "'c \<Rightarrow> (nat \<rightharpoonup> recurringJobEntry)"

definition cron_laws :: "cron \<Rightarrow> 'c cron_ops \<Rightarrow> bool" where
  "cron_laws cron co \<longleftrightarrow>
     (\<forall>expr en c. cron expr = None \<longrightarrow> cr_AddFunc co expr en c = (c, None)) \<and>
     (\<forall>expr en c. cron expr \<noteq> None \<longrightarrow>
        (\<exists>c' k. cr_AddFunc co expr en c = (c', Some k) \<and> cr_Entries co c k = None \<and>
           cr_Entries co c' = (cr_Entries co c)(k \<mapsto> en))) \<and>
     (\<forall>k c. cr_Entries co (cr_Remove co k c) = (cr_Entries co c)(k := None))"

section \<open>The manager\<close>

record 'c recurringManager =
  rm_cron :: 'c
  rm_entries :: "string \<rightharpoonup> nat"

definition newRecurringManager :: "'c \<Rightarrow> 'c recurringManager" where
  "newRecurringManager c = \<lparr>rm_cron = c, rm_entries = Map.empty\<rparr>"

definition schedule :: "'c cron_ops \<Rightarrow> recurringJobEntry \<Rightarrow> 'c recurringManager \<Rightarrow> 'c recurringManager" where
  "schedule co entry m =
     (let (c, r) = cr_AddFunc co (r_CronExpr entry) entry (rm_cron m);
          m = m\<lparr>rm_cron := c\<rparr>
      in case r of
           None \<Rightarrow> m
         | Some k \<Rightarrow> m\<lparr>rm_entries := (rm_entries m)(r_ID entry \<mapsto> k)\<rparr>)"

definition unschedule :: "'c cron_ops \<Rightarrow> string \<Rightarrow> 'c recurringManager \<Rightarrow> 'c recurringManager" where
  "unschedule co definitionID m =
     (case rm_entries m definitionID of
        None \<Rightarrow> m
      | Some k \<Rightarrow> m\<lparr>rm_cron := cr_Remove co k (rm_cron m),
                    rm_entries := (rm_entries m)(definitionID := None)\<rparr>)"

definition load_step :: "'c cron_ops \<Rightarrow> recurringJobEntry \<Rightarrow> 'c recurringManager \<Rightarrow> 'c recurringManager" where
  "load_step co entry m = (if \<not> r_Enabled entry then m else schedule co entry m)"

definition loadAll ::
  "'s storage_ops \<Rightarrow> 'c cron_ops \<Rightarrow> env \<Rightarrow> ctx \<Rightarrow> 's \<Rightarrow> 'c recurringManager \<Rightarrow> 'c recurringManager \<times> unit result" where
  "loadAll ops co e c s m =
     (case op_GetRecurringJobs ops e c s of
        Ok entries \<Rightarrow> (fold (load_step co) entries m, Ok ())
      | Err err \<Rightarrow> (m, Err err)
      | Panic p \<Rightarrow> (m, Panic p))"

definition reload_step :: "'c cron_ops \<Rightarrow> recurringJobEntry \<Rightarrow> 'c recurringManager \<Rightarrow> 'c recurringManager" where
  "reload_step co entry m =
     (if \<not> r_Enabled entry then unschedule co (r_ID entry) m
      else if rm_entries m (r_ID entry) = None then schedule co entry m
      else m)"

definition drop_step :: "'c cron_ops \<Rightarrow> (string \<Rightarrow> bool) \<Rightarrow> string \<Rightarrow> 'c recurringManager \<Rightarrow> 'c recurringManager" where
  "drop_step co seen i m = (if \<not> seen i then unschedule co i m else m)"

text \<open>\<open>order\<close> is the order in which the second loop visits the manager's map.\<close>

definition reload ::
  "'s storage_ops \<Rightarrow> 'c cron_ops \<Rightarrow> env \<Rightarrow> ctx \<Rightarrow> string list \<Rightarrow> 's \<Rightarrow> 'c recurringManager \<Rightarrow>
     'c recurringManager \<times> unit result" where
  "reload ops co e c order s m =
     (case op_GetRecurringJobs ops e c s of
        Ok entries \<Rightarrow>
          let seen = (\<lambda>i. i \<in> r_ID ` set entries);
              m = fold (reload_step co) entries m;
              m = fold (drop_step co seen) (range_keys (rm_entries m) order) m
          in (m, Ok ())
      | Err err \<Rightarrow> (m, Err err)
      | Panic p \<Rightarrow> (m, Panic p))"

text \<open>
  The loop of \<^verbatim>\<open>recurringLoop\<close> after the initial load, over the stores it sees and what its \<^verbatim>\<open>select\<close>
  receives: the end of the run context or the reload ticker. Errors are only logged.
\<close>

datatype recurring_event = RecDone | RecReload env "string list"

fun reload_events ::
  "'s storage_ops \<Rightarrow> 'c cron_ops \<Rightarrow> ctx \<Rightarrow> ('s \<times> recurring_event) list \<Rightarrow> 'c recurringManager \<Rightarrow> 'c recurringManager"
where
  "reload_events ops co c [] m = m"
| "reload_events ops co c ((s, ev) # evs) m =
     (case ev of
        RecDone \<Rightarrow> m
      | RecReload e order \<Rightarrow> reload_events ops co c evs (fst (reload ops co e c order s m)))"

definition recurringLoop ::
  "'s storage_ops \<Rightarrow> 'c cron_ops \<Rightarrow> 'c \<Rightarrow> env \<Rightarrow> ctx \<Rightarrow> 's \<Rightarrow> ('s \<times> recurring_event) list \<Rightarrow> 'c recurringManager" where
  "recurringLoop ops co cron0 e c s evs =
     (let m = newRecurringManager cron0;
          (m, _) = loadAll ops co e c s m
      in reload_events ops co c evs m)"

definition recurringLockPrefix :: string where "recurringLockPrefix = ''lock:recurring:''"
definition recurringLockTTL :: duration where "recurringLockTTL = 30 * second"

text \<open>
  The callback of \<^verbatim>\<open>fireFunc\<close>. \<open>c i\<close> is the state of its ten-second context at the \<open>i\<close>-th call. The
  deferred release runs on every path after the lock was granted.
\<close>

definition fireFunc ::
  "'s storage_ops \<Rightarrow> cron \<Rightarrow> world \<Rightarrow> (nat \<Rightarrow> ctx) \<Rightarrow> recurringJobEntry \<Rightarrow> 's \<Rightarrow> 's" where
  "fireFunc ops cron w c entry s =
     (let lockResource = recurringLockPrefix @ r_ID entry;
          (s, r) = op_AcquireLock ops (w 0) (c 0) lockResource recurringLockTTL s
      in case r of
           Ok l \<Rightarrow>
             let queue = (if r_Queue entry = '''' then ''default'' else r_Queue entry);
                 args = (if blen (r_Args entry) = 0 then Some ''{}'' else r_Args entry);
                 job = new_job (r_JobName entry) args queue;
                 (s, jobID) = op_Enqueue ops (w 1) (c 1) queue job s;
                 s = (case jobID of
                        Ok _ \<Rightarrow>
                          let now = now_at (w 2) 7;
                              nextRun = (case NextRecurringRun cron (r_CronExpr entry) now of
                                           Ok t \<Rightarrow> t
                                         | _ \<Rightarrow> now)
                          in fst (op_UpdateRecurringLastRun ops (w 2) (c 2) (r_ID entry) now nextRun s)
                      | _ \<Rightarrow> s)
             in fst (op_Release ops (c 3) l s)
         | _ \<Rightarrow> s)"

section \<open>Lemmas\<close>

text \<open>
  The manager and the scheduler agree: every known definition has its own callback, created from a
  definition with that id, and the scheduler holds no other callback.
\<close>

definition rm_inv :: "'c cron_ops \<Rightarrow> 'c recurringManager \<Rightarrow> bool" where
  "rm_inv co m \<longleftrightarrow>
     (\<forall>i k. rm_entries m i = Some k \<longrightarrow> (\<exists>en. cr_Entries co (rm_cron m) k = Some en \<and> r_ID en = i)) \<and>
     (\<forall>k en. cr_Entries co (rm_cron m) k = Some en \<longrightarrow> rm_entries m (r_ID en) = Some k)"

text \<open>The definition that is scheduled under an id.\<close>

definition callback :: "'c cron_ops \<Rightarrow> 'c recurringManager \<Rightarrow> string \<Rightarrow> recurringJobEntry option" where
  "callback co m i = (case rm_entries m i of None \<Rightarrow> None | Some k \<Rightarrow> cr_Entries co (rm_cron m) k)"

lemma rm_inv_entry:
  "rm_inv co m \<Longrightarrow> rm_entries m i = Some k \<Longrightarrow> \<exists>en. cr_Entries co (rm_cron m) k = Some en \<and> r_ID en = i"
  by (simp add: rm_inv_def)

lemma rm_inv_callback:
  "rm_inv co m \<Longrightarrow> cr_Entries co (rm_cron m) k = Some en \<Longrightarrow> rm_entries m (r_ID en) = Some k"
  by (simp add: rm_inv_def)

lemma callback_dom: "rm_inv co m \<Longrightarrow> callback co m i = None \<longleftrightarrow> rm_entries m i = None"
  using rm_inv_entry [of co m i] by (fastforce simp: callback_def split: option.splits)

lemma schedule_spec:
  assumes laws: "cron_laws cron co" and inv: "rm_inv co m" and new: "rm_entries m (r_ID en) = None"
  shows "rm_inv co (schedule co en m) \<and>
    callback co (schedule co en m) = (if cron (r_CronExpr en) = None then callback co m
      else (callback co m)(r_ID en \<mapsto> en))"
proof (cases "cron (r_CronExpr en) = None")
  case True
  with laws have "cr_AddFunc co (r_CronExpr en) en (rm_cron m) = (rm_cron m, None)" by (simp add: cron_laws_def)
  with inv True show ?thesis by (simp add: schedule_def)
next
  case False
  with laws obtain c' k where a: "cr_AddFunc co (r_CronExpr en) en (rm_cron m) = (c', Some k)"
    "cr_Entries co (rm_cron m) k = None" "cr_Entries co c' = (cr_Entries co (rm_cron m))(k \<mapsto> en)"
    unfolding cron_laws_def by metis
  have m': "schedule co en m = m\<lparr>rm_cron := c', rm_entries := (rm_entries m)(r_ID en \<mapsto> k)\<rparr>"
    by (simp add: schedule_def a(1))
  have ne: "rm_entries m i \<noteq> Some k" for i using rm_inv_entry [OF inv, of i k] a(2) by auto
  have "r_ID en' \<noteq> r_ID en" if "cr_Entries co (rm_cron m) k' = Some en'" for k' en'
    using rm_inv_callback [OF inv that] new by auto
  then have "rm_inv co (schedule co en m)"
    using inv ne unfolding rm_inv_def m' by (auto simp: a(3) split: if_splits)
  moreover have "callback co (schedule co en m) = (callback co m)(r_ID en \<mapsto> en)"
    using ne by (auto simp: callback_def m' a(3) fun_eq_iff split: option.split)
  ultimately show ?thesis using False by auto
qed

lemma unschedule_spec:
  assumes laws: "cron_laws cron co" and inv: "rm_inv co m"
  shows "rm_inv co (unschedule co i m) \<and> callback co (unschedule co i m) = (callback co m)(i := None)"
proof (cases "rm_entries m i")
  case None
  then have "callback co m i = None" by (simp add: callback_def)
  with inv None show ?thesis by (simp add: unschedule_def fun_upd_idem)
next
  case (Some k)
  have rem: "cr_Entries co (cr_Remove co k (rm_cron m)) = (cr_Entries co (rm_cron m))(k := None)"
    using laws by (simp add: cron_laws_def)
  have other: "rm_entries m i' = Some k \<Longrightarrow> i' = i" for i'
    using rm_inv_entry [OF inv, of i' k] rm_inv_entry [OF inv Some] by auto
  have u: "rm_entries (unschedule co i m) = (rm_entries m)(i := None)"
    "cr_Entries co (rm_cron (unschedule co i m)) = (cr_Entries co (rm_cron m))(k := None)"
    by (simp_all add: unschedule_def Some rem)
  have "\<exists>en. cr_Entries co (rm_cron (unschedule co i m)) k' = Some en \<and> r_ID en = i'"
    if "rm_entries (unschedule co i m) i' = Some k'" for i' k'
    using that rm_inv_entry [OF inv, of i' k'] other [of i'] by (auto simp: u split: if_splits)
  moreover have "rm_entries (unschedule co i m) (r_ID en) = Some k'"
    if "cr_Entries co (rm_cron (unschedule co i m)) k' = Some en" for k' en
    using that rm_inv_callback [OF inv, of k' en] Some by (auto simp: u split: if_splits)
  ultimately have "rm_inv co (unschedule co i m)" by (simp add: rm_inv_def)
  moreover have "callback co (unschedule co i m) = (callback co m)(i := None)"
  proof (rule ext)
    fix x
    show "callback co (unschedule co i m) x = ((callback co m)(i := None)) x"
    proof (cases "x = i")
      case True
      then show ?thesis by (simp add: callback_def u)
    next
      case False
      then have "rm_entries m x \<noteq> Some k" using other by blast
      with False show ?thesis by (cases "rm_entries m x") (simp_all add: callback_def u)
    qed
  qed
  ultimately show ?thesis by simp
qed

text \<open>The two loops of \<open>reload\<close>, as functions on the callbacks.\<close>

lemma reload_loop:
  assumes laws: "cron_laws cron co" and inv: "rm_inv co m" and dis: "distinct (map r_ID es)"
  shows "rm_inv co (fold (reload_step co) es m) \<and>
    (\<forall>en \<in> set es. callback co (fold (reload_step co) es m) (r_ID en) =
       (if \<not> r_Enabled en then None
        else if callback co m (r_ID en) \<noteq> None then callback co m (r_ID en)
        else if cron (r_CronExpr en) = None then None else Some en)) \<and>
    (\<forall>i. i \<notin> r_ID ` set es \<longrightarrow> callback co (fold (reload_step co) es m) i = callback co m i)"
  using inv dis
proof (induction es arbitrary: m)
  case Nil
  then show ?case by simp
next
  case (Cons en es)
  let ?m = "reload_step co en m"
  have step: "rm_inv co ?m" "callback co ?m i = (if i \<noteq> r_ID en then callback co m i
      else if \<not> r_Enabled en then None else if callback co m i \<noteq> None then callback co m i
      else if cron (r_CronExpr en) = None then None else Some en)" for i
    using Cons.prems(1) unschedule_spec [OF laws Cons.prems(1), of "r_ID en"]
      schedule_spec [OF laws Cons.prems(1), of en] callback_dom [OF Cons.prems(1), of "r_ID en"]
    by (auto simp: reload_step_def)
  have IH: "rm_inv co (fold (reload_step co) es ?m) \<and>
    (\<forall>en \<in> set es. callback co (fold (reload_step co) es ?m) (r_ID en) =
       (if \<not> r_Enabled en then None
        else if callback co ?m (r_ID en) \<noteq> None then callback co ?m (r_ID en)
        else if cron (r_CronExpr en) = None then None else Some en)) \<and>
    (\<forall>i. i \<notin> r_ID ` set es \<longrightarrow> callback co (fold (reload_step co) es ?m) i = callback co ?m i)"
    using Cons.IH [OF step(1)] Cons.prems(2) by simp
  have "r_ID en' \<noteq> r_ID en" if "en' \<in> set es" for en'
    using that Cons.prems(2) by (metis distinct.simps(2) image_eqI list.simps(9) list.set_map)
  with IH step(2) Cons.prems(2) show ?case by auto
qed

lemma drop_loop:
  assumes laws: "cron_laws cron co" and inv: "rm_inv co m"
  shows "rm_inv co (fold (drop_step co seen) is m) \<and>
    callback co (fold (drop_step co seen) is m) = (\<lambda>i. if i \<in> set is \<and> \<not> seen i then None else callback co m i)"
  using inv
proof (induction "is" arbitrary: m)
  case (Cons i "is")
  have "rm_inv co (drop_step co seen i m)"
    "callback co (drop_step co seen i m) = (\<lambda>k. if k = i \<and> \<not> seen i then None else callback co m k)"
    using Cons.prems unschedule_spec [OF laws Cons.prems, of i] by (auto simp: drop_step_def fun_eq_iff)
  with Cons.IH show ?case by (auto simp: fun_eq_iff)
qed simp

section \<open>Properties\<close>

text \<open>
  C28. What reloading does to the scheduler, for every id: a disabled or deleted definition loses its
  callback; an enabled one that has a callback keeps it as it is, so a changed cron expression, job
  name, queue or arguments take no effect and an expression that has become invalid goes on firing;
  an enabled one without a callback gets its own one iff its expression is valid. Every known
  definition has one callback, and the scheduler holds no callback the manager does not know.
\<close>
theorem reload_reconciles:
  assumes laws: "cron_laws cron co" and inv: "rm_inv co m"
    and es: "op_GetRecurringJobs ops e c s = Ok es" "distinct (map r_ID es)"
    and cov: "\<forall>i. rm_entries (fold (reload_step co) es m) i \<noteq> None \<longrightarrow> i \<in> set order"
    and run: "reload ops co e c order s m = (m', r)"
  shows "r = Ok () \<and> rm_inv co m' \<and>
    (\<forall>i. callback co m' i =
       (case find (\<lambda>en. r_ID en = i) es of
          None \<Rightarrow> None
        | Some en \<Rightarrow>
            if \<not> r_Enabled en then None
            else if callback co m i \<noteq> None then callback co m i
            else if cron (r_CronExpr en) = None then None else Some en))"
proof -
  let ?m1 = "fold (reload_step co) es m"
  note l1 = reload_loop [OF laws inv es(2)]
  let ?seen = "\<lambda>i. i \<in> r_ID ` set es"
  note l2 = drop_loop [OF laws conjunct1 [OF l1], of ?seen "range_keys (rm_entries ?m1) order"]
  have m': "m' = fold (drop_step co ?seen) (range_keys (rm_entries ?m1) order) ?m1" "r = Ok ()"
    using run es(1) by (simp_all add: reload_def Let_def)
  have cb: "callback co m' i = (if ?seen i then callback co ?m1 i else None)" for i
    using l2 m'(1) cov callback_dom [OF conjunct1 [OF l1], of i] by auto
  have "callback co m' i = (case find (\<lambda>en. r_ID en = i) es of None \<Rightarrow> None
      | Some en \<Rightarrow> if \<not> r_Enabled en then None else if callback co m i \<noteq> None then callback co m i
          else if cron (r_CronExpr en) = None then None else Some en)" for i
  proof (cases "find (\<lambda>en. r_ID en = i) es")
    case None
    then have "\<not> ?seen i" by (auto simp: find_None_iff)
    with cb None show ?thesis by simp
  next
    case (Some en)
    then have "en \<in> set es" "r_ID en = i" by (auto simp: find_Some_iff)
    then have "?seen i" and "callback co ?m1 i = (if \<not> r_Enabled en then None
        else if callback co m i \<noteq> None then callback co m i else if cron (r_CronExpr en) = None then None else Some en)"
      using l1 by blast+
    with cb Some show ?thesis by simp
  qed
  with m' l2 show ?thesis by blast
qed

text \<open>A scheduler for concrete runs: callbacks in a list, ids are positions.\<close>

definition list_cron :: "cron \<Rightarrow> recurringJobEntry option list cron_ops" where
  "list_cron cron = \<lparr>
     cr_AddFunc = (\<lambda>expr en c. if cron expr = None then (c, None) else (c @ [Some en], Some (length c))),
     cr_Remove = (\<lambda>k c. if k < length c then c[k := None] else c),
     cr_Entries = (\<lambda>c k. if k < length c then c ! k else None)\<rparr>"

lemma list_cron_laws: "cron_laws cron (list_cron cron)"
  by (auto simp: cron_laws_def list_cron_def fun_eq_iff nth_append)

definition demo_cron :: cron where
  "demo_cron expr = (if expr = ''@daily'' then Some (\<lambda>t. t + 86400) else None)"

definition demo_def :: recurringJobEntry where
  "demo_def = \<lparr>r_ID = ''r1'', r_JobName = ''report'', r_Args = None, r_Queue = [], r_CronExpr = ''@daily'',
     r_LastRun = None, r_NextRun = None, r_Enabled = True, r_CreatedAt = 1, r_UpdatedAt = 0\<rparr>"

definition demo_recurring :: mstate where
  "demo_recurring = fst (mem_UpsertRecurring (test_env 5 [] []) None demo_def mem_New)"

lemma demo_recurring_sel [simp]:
  "m_recurring demo_recurring = [''r1'' \<mapsto> demo_def\<lparr>r_UpdatedAt := 5\<rparr>]" "m_locks demo_recurring = Map.empty"
  "m_jobs demo_recurring = Map.empty"
  by (simp_all add: demo_recurring_def mem_UpsertRecurring_def Let_def demo_def_def mem_New_def)

theorem reload_reconciles_witness:
  "\<exists>m'. reload memory_ops (list_cron demo_cron) (test_env 6 [] [''r1'']) None [''r1''] demo_recurring
      (newRecurringManager []) = (m', Ok ()) \<and>
     callback (list_cron demo_cron) m' ''r1'' = Some (demo_def\<lparr>r_UpdatedAt := 5\<rparr>)"
proof -
  let ?co = "list_cron demo_cron" and ?m = "newRecurringManager ([] :: recurringJobEntry option list)"
  have inv: "rm_inv ?co ?m" by (simp add: rm_inv_def newRecurringManager_def list_cron_def)
  have es: "op_GetRecurringJobs memory_ops (test_env 6 [] [''r1'']) None demo_recurring = Ok [demo_def\<lparr>r_UpdatedAt := 5\<rparr>]"
    by (simp add: mem_GetRecurringJobs_def range_keys_def)
  obtain m' r where run: "reload memory_ops ?co (test_env 6 [] [''r1'']) None [''r1''] demo_recurring ?m = (m', r)"
    by (metis prod.exhaust)
  have cov: "\<forall>i. rm_entries (fold (reload_step ?co) [demo_def\<lparr>r_UpdatedAt := 5\<rparr>] ?m) i \<noteq> None \<longrightarrow> i \<in> set [''r1'']"
    by (simp add: reload_step_def schedule_def list_cron_def newRecurringManager_def demo_def_def demo_cron_def)
  from reload_reconciles [OF list_cron_laws inv es _ cov run] run show ?thesis
    by (simp add: demo_def_def demo_cron_def callback_def newRecurringManager_def)
qed

lemma fire_held:
  assumes "m_locks s (recurringLockPrefix @ r_ID entry) = Some l" "now_at (w 0) 0 < lk_expiresAt l"
  shows "fireFunc memory_ops cron w c entry s = s"
  using assms by (simp add: fireFunc_def mem_AcquireLock_def Let_def)

lemma m_locks_insert [simp]: "m_locks (mem_insert e q j s) = m_locks s" "m_locks (signal s) = m_locks s"
  "m_recurring (mem_insert e q j s) = m_recurring s" "m_recurring (signal s) = m_recurring s"
  by (simp_all add: mem_insert_def push_back_def count_def signal_def Let_def)

lemma fire_free:
  assumes free: "\<forall>l. m_locks s (recurringLockPrefix @ r_ID entry) = Some l \<longrightarrow> lk_expiresAt l \<le> now_at (w 0) 0"
    and u: "new_uuid (w 1) 0 = u" and d: "m_recurring s (r_ID entry) = Some d"
    and q: "q = (if r_Queue entry = '''' then ''default'' else r_Queue entry)"
    and s': "s' = fireFunc memory_ops cron w c entry s"
  shows "m_jobs s' = (m_jobs s)(u \<mapsto> mem_fill_job (w 1) (new_job (r_JobName entry)
        (if blen (r_Args entry) = 0 then Some ''{}'' else r_Args entry) q))"
    and "cur_state s' u = StateEnqueued" and "list_at (m_queues s') q = list_at (m_queues s) q @ [u]"
    and "m_locks s' (recurringLockPrefix @ r_ID entry) = None"
    and "\<exists>d'. m_recurring s' (r_ID entry) = Some d' \<and> r_LastRun d' = Some (now_at (w 2) 7) \<and>
      r_NextRun d' = Some (case cron (r_CronExpr entry) of Some f \<Rightarrow> f (now_at (w 2) 7) | None \<Rightarrow> now_at (w 2) 7)"
proof -
  let ?res = "recurringLockPrefix @ r_ID entry"
  let ?l = "\<lparr>lk_resource = ?res, lk_ownerID = new_uuid (w 0) 0,
     lk_expiresAt = time_add (now_at (w 0) 1) recurringLockTTL, lk_released = False\<rparr>"
  let ?s1 = "s\<lparr>m_locks := (m_locks s)(?res \<mapsto> ?l)\<rparr>"
  let ?job = "new_job (r_JobName entry) (if blen (r_Args entry) = 0 then Some ''{}'' else r_Args entry) q"
  let ?s2 = "signal (mem_insert (w 1) q (mem_fill_job (w 1) ?job) ?s1)"
  let ?next = "case cron (r_CronExpr entry) of Some f \<Rightarrow> f (now_at (w 2) 7) | None \<Rightarrow> now_at (w 2) 7"
  let ?d = "d\<lparr>r_LastRun := Some (now_at (w 2) 7), r_NextRun := Some ?next, r_UpdatedAt := now_at (w 2) 0\<rparr>"
  let ?s3 = "?s2\<lparr>m_recurring := (m_recurring s)(r_ID entry \<mapsto> ?d)\<rparr>"
  have acq: "mem_AcquireLock (w 0) (c 0) ?res recurringLockTTL s = (?s1, Ok ?l)"
    using free by (auto simp: mem_AcquireLock_def Let_def split: option.split)
  have enq: "mem_Enqueue (w 1) (c 1) q ?job ?s1 = (?s2, Ok u)" using u by (simp add: mem_Enqueue_def Let_def)
  have next': "(case NextRecurringRun cron (r_CronExpr entry) t of Ok t \<Rightarrow> t | _ \<Rightarrow> t) =
      (case cron (r_CronExpr entry) of Some f \<Rightarrow> f t | None \<Rightarrow> t)" for t
    by (simp add: NextRecurringRun_def ParseRecurringCron_def split: option.split)
  have upd: "fst (mem_UpdateRecurringLastRun (w 2) (c 2) (r_ID entry) (now_at (w 2) 7) ?next ?s2) = ?s3"
    using d by (simp add: mem_UpdateRecurringLastRun_def)
  have rel: "fst (mem_Release (c 3) ?l ?s3) = ?s3\<lparr>m_locks := (m_locks ?s3)(?res := None)\<rparr>"
    by (simp add: mem_Release_def)
  have "s' = ?s3\<lparr>m_locks := (m_locks ?s3)(?res := None)\<rparr>"
    unfolding s' fireFunc_def Let_def memory_ops_sel acq case_prod_conv result.case q [symmetric] enq next' upd rel ..
  with u d q show "m_jobs s' = (m_jobs s)(u \<mapsto> mem_fill_job (w 1) ?job)" "cur_state s' u = StateEnqueued"
    "list_at (m_queues s') q = list_at (m_queues s) q @ [u]" "m_locks s' ?res = None"
    "\<exists>d'. m_recurring s' (r_ID entry) = Some d' \<and> r_LastRun d' = Some (now_at (w 2) 7) \<and> r_NextRun d' = Some ?next"
    by (simp_all add: cur_state_def list_at_def)
qed

text \<open>
  C29. A recurring definition that fires while its lock is free enqueues exactly one job, with the
  definition's name, arguments and queue, records the run and the next one by its cron expression,
  and releases the lock; while another node holds the lock it changes nothing.
\<close>
theorem fire_enqueues_once:
  assumes d: "m_recurring s (r_ID entry) = Some d" and u: "new_uuid (w 1) 0 = u" "m_jobs s u = None"
    and q: "q = (if r_Queue entry = '''' then ''default'' else r_Queue entry)"
    and s': "s' = fireFunc memory_ops cron w c entry s"
  shows "if \<exists>l. m_locks s (recurringLockPrefix @ r_ID entry) = Some l \<and> now_at (w 0) 0 < lk_expiresAt l
    then s' = s
    else dom (m_jobs s') = insert u (dom (m_jobs s)) \<and>
      (\<exists>j. m_jobs s' u = Some j \<and> j_Name j = r_JobName entry \<and> j_Queue j = q \<and>
         j_Args j = (if blen (r_Args entry) = 0 then Some ''{}'' else r_Args entry)) \<and>
      cur_state s' u = StateEnqueued \<and> list_at (m_queues s') q = list_at (m_queues s) q @ [u] \<and>
      m_locks s' (recurringLockPrefix @ r_ID entry) = None \<and>
      (\<exists>d'. m_recurring s' (r_ID entry) = Some d' \<and> r_LastRun d' = Some (now_at (w 2) 7) \<and>
         r_NextRun d' = Some (case cron (r_CronExpr entry) of Some f \<Rightarrow> f (now_at (w 2) 7) | None \<Rightarrow> now_at (w 2) 7))"
proof (cases "\<exists>l. m_locks s (recurringLockPrefix @ r_ID entry) = Some l \<and> now_at (w 0) 0 < lk_expiresAt l")
  case True
  with fire_held s' show ?thesis by metis
next
  case False
  then have free: "\<forall>l. m_locks s (recurringLockPrefix @ r_ID entry) = Some l \<longrightarrow> lk_expiresAt l \<le> now_at (w 0) 0"
    by fastforce
  note f = fire_free [OF free u(1) d q s']
  have "\<exists>j. m_jobs s' u = Some j \<and> j_Name j = r_JobName entry \<and> j_Queue j = q \<and>
      j_Args j = (if blen (r_Args entry) = 0 then Some ''{}'' else r_Args entry)"
    using f(1) q by simp
  moreover have "dom (m_jobs s') = insert u (dom (m_jobs s))" using f(1) by simp
  ultimately show ?thesis unfolding if_not_P [OF False] using f(2-5) by blast
qed

theorem fire_enqueues_once_witness:
  "dom (m_jobs (fireFunc memory_ops demo_cron (\<lambda>_. test_env 9 ''u'' []) (\<lambda>_. None) demo_def demo_recurring)) = {''u''}"
  using fire_enqueues_once [of demo_recurring demo_def _ "\<lambda>_. test_env 9 ''u'' []" "''u''" "''default''" _ demo_cron "\<lambda>_. None", OF _ _ _ _ refl]
  by (simp add: demo_def_def)

text \<open>
  The lock does not make one tick fire once: it is released as soon as the job is enqueued, so a
  second node whose callback for the same tick runs after the first one finished finds it free and
  enqueues a second job.
\<close>
lemma fire_twice:
  assumes d: "m_recurring s (r_ID entry) = Some d" and free: "m_locks s (recurringLockPrefix @ r_ID entry) = None"
    and u: "new_uuid (w1 1) 0 = u" "new_uuid (w2 1) 0 = u'" "u \<noteq> u'"
    and q: "q = (if r_Queue entry = '''' then ''default'' else r_Queue entry)"
    and s': "s' = fireFunc memory_ops cron w2 c2 entry (fireFunc memory_ops cron w1 c1 entry s)"
  shows "list_at (m_queues s') q = list_at (m_queues s) q @ [u, u'] \<and>
    dom (m_jobs s') = {u, u'} \<union> dom (m_jobs s)"
proof -
  let ?s1 = "fireFunc memory_ops cron w1 c1 entry s"
  have free1: "\<forall>l. m_locks s (recurringLockPrefix @ r_ID entry) = Some l \<longrightarrow> lk_expiresAt l \<le> now_at (w1 0) 0"
    using free by simp
  note f1 = fire_free [OF free1 u(1) d q refl, of cron c1]
  then obtain d1 where d1: "m_recurring ?s1 (r_ID entry) = Some d1" by blast
  have free2: "\<forall>l. m_locks ?s1 (recurringLockPrefix @ r_ID entry) = Some l \<longrightarrow> lk_expiresAt l \<le> now_at (w2 0) 0"
    using f1(4) by simp
  note f2 = fire_free [OF free2 u(2) d1 q s']
  show ?thesis using f1(1,3) f2(1,3) by auto
qed

end
