(* ===== verification/Api_Properties.thy ===== *)
theory Api_Properties
  imports Api_Server Recurring_Manager
begin

text \<open>
  What the API guarantees: routing is unambiguous, a request without the token reads at most the public
  documents, a batch is accounted for completely and replays safely under an idempotency key, and a
  listing is total for every query string.
\<close>

section \<open>Routing\<close>

lemma match_segs_length: "match_segs p xs \<Longrightarrow> length p = length xs"
  by (induction p xs rule: match_segs.induct) auto

fun compatible :: "seg list \<Rightarrow> seg list \<Rightarrow> bool" where
  "compatible [] [] = True"
| "compatible (Lit a # ps) (Lit b # qs) = (a = b \<and> compatible ps qs)"
| "compatible (p # ps) (q # qs) = compatible ps qs"
| "compatible _ _ = False"

lemma match_compatible: "match_segs p xs \<Longrightarrow> match_segs q xs \<Longrightarrow> compatible p q"
proof (induction p xs arbitrary: q rule: match_segs.induct)
  case 1
  then show ?case by (cases q) auto
next
  case (2 a ps x xs)
  then show ?case by (cases q; cases "hd q") auto
next
  case (3 ps x xs)
  then show ?case by (cases q; cases "hd q") auto
qed auto

lemma routes_compatible:
  "list_all (\<lambda>(m, p, ep). list_all (\<lambda>(m', p', ep'). m = m' \<and> compatible p p' \<longrightarrow> (p, ep) = (p', ep')) routes) routes"
  by (simp add: routes_def)

lemma routes_inj:
  assumes "(m, p, ep) \<in> set routes" "(m, p', ep') \<in> set routes" "compatible p p'"
  shows "(p, ep) = (p', ep')"
  using routes_compatible assms by (fastforce simp: list_all_iff)

lemma route_for_Some: "route_for m path = Some (m', p, ep) \<Longrightarrow>
    m' = m \<and> (m, p, ep) \<in> set routes \<and> match_segs p path"
  by (auto simp: route_for_def find_Some_iff dest: nth_mem)

lemma route_for_complete:
  assumes "(m, p, ep) \<in> set routes" "match_segs p path"
  shows "route_for m path = Some (m, p, ep)"
proof -
  from assms have "route_for m path \<noteq> None"
    by (auto simp: route_for_def find_None_iff)
  then obtain m' p' ep' where f: "route_for m path = Some (m', p', ep')" by (metis option.exhaust prod_cases3)
  from route_for_Some [OF this] have m: "m' = m" "(m, p', ep') \<in> set routes" "match_segs p' path"
    by simp_all
  from routes_inj [OF assms(1) m(2) match_compatible [OF assms(2) m(3)]] have "(p, ep) = (p', ep')" .
  with f m show ?thesis by simp
qed

section \<open>Authentication\<close>

lemma url_path_single:
  assumes "CHR ''/'' \<notin> set y"
  shows "url_path r = CHR ''/'' # y \<longleftrightarrow> rq_path r = [y]"
proof (cases "rq_path r")
  case Nil
  then show ?thesis by (simp add: url_path_def)
next
  case (Cons a rest)
  show ?thesis
  proof (cases rest)
    case Nil
    with Cons show ?thesis by (simp add: url_path_def)
  next
    case (Cons b rest')
    have "CHR ''/'' \<in> set (a @ concat (map (\<lambda>x. ''/'' @ x) rest))"
      using Cons by simp
    with assms have "a @ concat (map (\<lambda>x. ''/'' @ x) rest) \<noteq> y" by blast
    then show ?thesis using \<open>rq_path r = a # rest\<close> Cons by (simp add: url_path_def)
  qed
qed

definition public_path :: "request \<Rightarrow> bool" where
  "public_path r \<longleftrightarrow> rq_path r \<in> {[''healthz''], [''readyz''], [''openapi.json''], [''metrics'']}"

lemma bearerAuth_cases:
  "bearerAuth token nxt r x =
     (if public_path r \<or> rq_header r ''Authorization'' = ''Bearer '' @ token then nxt r x
      else (x, [], writeError 401 ''unauthorized''))"
proof -
  have "has_prefix p h \<and> drop (length p) h = token \<longleftrightarrow> h = p @ token" for p h :: string
    by (metis append_eq_conv_conj append_take_drop_id has_prefix_def)
  then have tok: "(rq_header r ''Authorization'' = ''Bearer '' @ token) =
      (has_prefix ''Bearer '' (rq_header r ''Authorization'') \<and>
       drop (length ''Bearer '') (rq_header r ''Authorization'') = token)"
    by blast
  have pub: "(url_path r = ''/healthz'' \<or> url_path r = ''/readyz'' \<or> url_path r = ''/openapi.json'' \<or>
      url_path r = ''/metrics'') = public_path r"
    by (simp add: url_path_single public_path_def)
  show ?thesis
    unfolding bearerAuth_def Let_def pub tok by simp
qed

lemma public_routes:
  assumes "public_path r"
  shows "fst (mux sv w r x) = x"
proof -
  consider "rq_path r = [''healthz'']" | "rq_path r = [''readyz'']" | "rq_path r = [''openapi.json'']"
    | "rq_path r = [''metrics'']"
    using assms by (auto simp: public_path_def)
  then show ?thesis
    by cases (auto simp: mux_def mux_match_def route_for_def routes_def keep_def split: if_splits)
qed

lemma chain_public:
  assumes "public_path r"
  shows "fst (maxBody mx (requestID e (mux sv w)) r x) = x"
proof -
  have "public_path (r\<lparr>rq_limit := a, rq_id := b\<rparr>)" for a b using assms by (simp add: public_path_def)
  note public_routes [OF this, simp]
  show ?thesis by (simp add: maxBody_def requestID_def Let_def split_beta)
qed
lemma mux_cfg: "mux (sv\<lparr>ap_cfg := c\<rparr>) = mux sv"
proof -
  have "dispatch (sv\<lparr>ap_cfg := c\<rparr>) w ep v r x = dispatch sv w ep v r x" for w ep v r x
    by (cases ep) simp_all
  then show ?thesis unfolding mux_def fun_eq_iff by presburger
qed

text \<open>
  C15. With authentication enabled, a request that does not carry the configured bearer token changes
  nothing, neither the store nor the engine, whatever its method, path, headers and body; outside
  the four public paths it is answered 401 and no handler runs. With the token, the request is
  handled as if authentication were off.
\<close>
theorem token_required:
  assumes "au_Enabled (fc_Auth (ap_cfg sv))"
    and off: "cfg' = ap_cfg sv\<lparr>fc_Auth := (fc_Auth (ap_cfg sv))\<lparr>au_Enabled := False\<rparr>\<rparr>"
  shows "if rq_header r ''Authorization'' = ''Bearer '' @ au_Token (fc_Auth (ap_cfg sv))
    then Handler sv w r x = Handler (sv\<lparr>ap_cfg := cfg'\<rparr>) w r x
    else fst (Handler sv w r x) = x \<and>
      (\<not> public_path r \<longrightarrow> Handler sv w r x = (x, [], writeError 401 ''unauthorized''))"
  using assms
  by (auto simp add: Handler_def Let_def bearerAuth_cases chain_public mux_cfg)

definition demo_lib :: lib where
  "demo_lib = \<lparr>lib_enqueue = \<lambda>_ b. Ok \<lparr>eq_Name = b, eq_Args = None, eq_Queue = [], eq_RetryMax = 0, eq_Timeout = []\<rparr>,
     lib_batch = \<lambda>_ _. Ok [], lib_schedule = \<lambda>_ _. Err (ErrMsg ''EOF''), lib_continue = \<lambda>_ _. Err (ErrMsg ''EOF''),
     lib_recurring = \<lambda>_ _. Err (ErrMsg ''EOF''), lib_ParseDuration = \<lambda>_. None, lib_Duration_String = \<lambda>_. ''0s'',
     lib_Time_MarshalJSON = \<lambda>_. ''t'', lib_codec = demo_codec, lib_cron = demo_cron\<rparr>"

definition demo_server :: "mstate server" where
  "demo_server = \<lparr>ap_cfg = Defaults\<lparr>fc_Auth := \<lparr>au_Enabled = True, au_Token = ''s3cret''\<rparr>\<rparr>,
     ap_store = memory_ops, ap_lib = demo_lib, ap_version = ''dev'', ap_commit = ''none''\<rparr>"

definition demo_request :: "string \<Rightarrow> string \<Rightarrow> string list \<Rightarrow> request" where
  "demo_request token m path = \<lparr>rq_method = m, rq_path = path,
     rq_header = (\<lambda>k. if k = ''Authorization'' then token else []), rq_query = \<lambda>_. [], rq_body = ''mail'',
     rq_limit = 0, rq_ctx = None, rq_id = []\<rparr>"

theorem token_required_witness:
  "Handler demo_server (\<lambda>_. test_env 5 ''a'' []) (demo_request ''Bearer guess'' ''POST'' [''v1'', ''jobs'', ''enqueue''])
     (mem_New, None) = ((mem_New, None), [], writeError 401 ''unauthorized'')"
  using token_required [of demo_server _ "demo_request ''Bearer guess'' ''POST'' [''v1'', ''jobs'', ''enqueue'']"
      "\<lambda>_. test_env 5 ''a'' []" "(mem_New, None)", OF _ refl]
  by (simp add: demo_server_def demo_request_def public_path_def Defaults_def)

section \<open>Listing\<close>

lemma queryInt_nonneg: "0 \<le> d \<Longrightarrow> 0 \<le> queryInt r k d"
  by (simp add: queryInt_def Let_def split: option.splits)

lemma queryInt_pos: "0 < d \<Longrightarrow> 0 < queryInt r k d"
  by (simp add: queryInt_def Let_def split: option.splits)

text \<open>
  Listing jobs is total on the in-memory store: whatever the query string holds for limit and
  offset (nothing, letters, signs, numbers out of range), the handler does not panic and answers 200
  with the page of matching jobs that starts at the parsed offset, never longer than the parsed limit.
\<close>
lemma list_jobs_page:
  "\<exists>page. handleListJobs l memory_ops e r s = Resp 200 (JObj [(''jobs'', JArr (map (jobResponse l) page))]) \<and>
     page = take (nat (queryInt r ''limit'' 50)) (drop (nat (queryInt r ''offset'' 0))
              (mem_matching e (rq_query r ''state'') s)) \<and>
     0 < queryInt r ''limit'' 50 \<and> 0 \<le> queryInt r ''offset'' 0"
proof -
  have p: "0 < queryInt r ''limit'' 50" "0 \<le> queryInt r ''offset'' 0"
    by (simp_all add: queryInt_pos queryInt_nonneg)
  then have "mem_GetJobsByState e (rq_ctx r) (rq_query r ''state'') (queryInt r ''offset'' 0) (queryInt r ''limit'' 50) s =
      Ok (take (nat (queryInt r ''limit'' 50)) (drop (nat (queryInt r ''offset'' 0))
        (mem_matching e (rq_query r ''state'') s)))"
    by (auto simp: mem_GetJobsByState_def Let_def)
  with p show ?thesis
    by (simp add: handleListJobs_def)
qed

section \<open>Batches\<close>

text \<open>What makes one entry of a batch acceptable, and the queue it goes to.\<close>

definition valid_entry :: "lib \<Rightarrow> enqueueRequest \<Rightarrow> bool" where
  "valid_entry l jr \<longleftrightarrow> eq_Name jr \<noteq> '''' \<and>
     (eq_Timeout jr = '''' \<or> lib_ParseDuration l (eq_Timeout jr) \<noteq> None)"

definition rejections :: "lib \<Rightarrow> nat \<Rightarrow> enqueueRequest list \<Rightarrow> rejectedEntry list" where
  "rejections l i jrs = map (\<lambda>(k, jr). \<lparr>rj_Name = eq_Name jr, rj_Reason = (if eq_Name jr = '''' then ''name is required''
     else ''invalid timeout: '' @ eq_Timeout jr), rj_Index = k\<rparr>) (filter (\<lambda>(k, jr). \<not> valid_entry l jr) (enumerate i jrs))"

lemma rejections_Cons:
  "rejections l i (jr # jrs) = (if valid_entry l jr then [] else [\<lparr>rj_Name = eq_Name jr, rj_Reason =
     (if eq_Name jr = '''' then ''name is required'' else ''invalid timeout: '' @ eq_Timeout jr), rj_Index = i\<rparr>]) @
     rejections l (Suc i) jrs"
  by (simp add: rejections_def)

lemma request_job_cases:
  obtains (bad) "request_job l jr = None" "eq_Timeout jr \<noteq> ''''" "lib_ParseDuration l (eq_Timeout jr) = None"
  | (good) job where "request_job l jr = Some job" "j_Queue job = or_else ''default'' (eq_Queue jr)" "j_ID job = ''''"
      "j_Name job = eq_Name jr" "eq_Timeout jr = '''' \<or> lib_ParseDuration l (eq_Timeout jr) \<noteq> None"
  by (cases "eq_Timeout jr = ''''"; cases "lib_ParseDuration l (eq_Timeout jr)")
    (auto simp: request_job_def Let_def)

lemma submit_mem:
  "\<exists>s' i. submit memory_ops e c job s = (s', Ok i) \<and> mem_step\<^sup>*\<^sup>* s s' \<and>
     (j_IdempotencyKey job \<noteq> '''' \<longrightarrow> m_idempotency s' (j_IdempotencyKey job) = Some i)"
proof (cases "j_IdempotencyKey job = ''''")
  case True
  have "mem_step\<^sup>*\<^sup>* s (fst (mem_Enqueue e c (j_Queue job) job s))"
    by (rule r_into_rtranclp, rule mem_step.Enqueue)
  with True show ?thesis by (simp add: submit_def mem_Enqueue_def Let_def)
next
  case False
  have "mem_step\<^sup>*\<^sup>* s (fst (mem_EnqueueIdempotent e c (j_Queue job) job s))"
    by (rule r_into_rtranclp, rule mem_step.EnqueueIdempotent)
  with False show ?thesis
    by (cases "m_idempotency s (j_IdempotencyKey job)")
      (auto simp: submit_def mem_EnqueueIdempotent_def Let_def)
qed

lemma submit_bound:
  "j_IdempotencyKey job \<noteq> '''' \<Longrightarrow> m_idempotency s (j_IdempotencyKey job) = Some i \<Longrightarrow>
   submit memory_ops e c job s = (s, Ok i)"
  by (simp add: submit_def mem_EnqueueIdempotent_def)

lemma idempotency_kept_star: "mem_step\<^sup>*\<^sup>* s s' \<Longrightarrow> m_idempotency s k = Some i \<Longrightarrow> m_idempotency s' k = Some i"
  by (induction rule: rtranclp_induct) (auto intro: idempotency_kept)

text \<open>The loop on the in-memory store: totality, accounting and the bindings it leaves behind.\<close>

lemma batch_loop_mem:
  "\<exists>s' acc rej. batch_loop l memory_ops w c key i jrs s = (s', Ok (acc, rej)) \<and> mem_step\<^sup>*\<^sup>* s s' \<and>
     map ac_Name acc = map eq_Name (filter (valid_entry l) jrs) \<and>
     map ac_Queue acc = map (\<lambda>jr. or_else ''default'' (eq_Queue jr)) (filter (valid_entry l) jrs) \<and>
     rej = rejections l i jrs \<and>
     (key \<noteq> '''' \<longrightarrow> list_all2 (\<lambda>(k, jr) a. m_idempotency s' (batch_key key k) = Some (ac_JobID a))
        (filter (\<lambda>(k, jr). valid_entry l jr) (enumerate i jrs)) acc)"
proof (induction jrs arbitrary: i s)
  case Nil
  then show ?case by (simp add: rejections_def)
next
  case (Cons jr jrs)
  show ?case
  proof (cases "eq_Name jr = '''' \<or> request_job l jr = None")
    case True
    then have nv: "\<not> valid_entry l jr"
      by (cases l jr rule: request_job_cases) (auto simp: valid_entry_def)
    obtain s' acc rej where "batch_loop l memory_ops w c key (Suc i) jrs s = (s', Ok (acc, rej))"
      using Cons.IH [of "Suc i" s] by blast
    with Cons.IH [of "Suc i" s] True nv show ?thesis
      by (auto simp: Let_def rejections_Cons)
  next
    case False
    then have v: "valid_entry l jr" and "eq_Name jr \<noteq> ''''"
      by (cases l jr rule: request_job_cases; auto simp: valid_entry_def)+
    from False obtain job where job: "request_job l jr = Some job" "j_Queue job = or_else ''default'' (eq_Queue jr)"
      by (cases l jr rule: request_job_cases) auto
    let ?job = "job\<lparr>j_IdempotencyKey := batch_key key i\<rparr>"
    obtain s1 u where sub: "submit memory_ops (w i) c ?job s = (s1, Ok u)" "mem_step\<^sup>*\<^sup>* s s1"
      and bnd: "batch_key key i \<noteq> '''' \<longrightarrow> m_idempotency s1 (batch_key key i) = Some u"
      using submit_mem [of "w i" c ?job s] by auto
    obtain s' acc rej where loop: "batch_loop l memory_ops w c key (Suc i) jrs s1 = (s', Ok (acc, rej))"
      and st: "mem_step\<^sup>*\<^sup>* s1 s'"
      using Cons.IH [of "Suc i" s1] by blast
    have "key \<noteq> '''' \<Longrightarrow> m_idempotency s' (batch_key key i) = Some u"
      using bnd idempotency_kept_star [OF st] by (simp add: batch_key_def)
    moreover have "mem_step\<^sup>*\<^sup>* s s'" using sub(2) st by (rule rtranclp_trans)
    ultimately show ?thesis
      using Cons.IH [of "Suc i" s1] loop v job sub(1) \<open>eq_Name jr \<noteq> ''''\<close>
      by (auto simp: Let_def rejections_Cons)
  qed
qed

lemma batch_loop_replay:
  assumes "key \<noteq> ''''"
    and "list_all2 (\<lambda>(k, jr) a. m_idempotency s (batch_key key k) = Some (ac_JobID a))
        (filter (\<lambda>(k, jr). valid_entry l jr) (enumerate i jrs)) acc"
    and "map ac_Name acc = map eq_Name (filter (valid_entry l) jrs)"
    and "map ac_Queue acc = map (\<lambda>jr. or_else ''default'' (eq_Queue jr)) (filter (valid_entry l) jrs)"
  shows "batch_loop l memory_ops w c key i jrs s = (s, Ok (acc, rejections l i jrs))"
  using assms
proof (induction jrs arbitrary: i acc)
  case Nil
  then show ?case by (simp add: rejections_def)
next
  case (Cons jr jrs)
  show ?case
  proof (cases "valid_entry l jr")
    case False
    then have "eq_Name jr = '''' \<or> request_job l jr = None"
      by (cases l jr rule: request_job_cases) (auto simp: valid_entry_def)
    moreover from Cons.IH [of "Suc i" acc] Cons.prems False have
      "batch_loop l memory_ops w c key (Suc i) jrs s = (s, Ok (acc, rejections l (Suc i) jrs))" by auto
    ultimately show ?thesis using False by (auto simp: Let_def rejections_Cons)
  next
    case True
    then obtain job where job: "request_job l jr = Some job" "j_Queue job = or_else ''default'' (eq_Queue jr)"
      and n: "eq_Name jr \<noteq> ''''"
      by (cases l jr rule: request_job_cases) (auto simp: valid_entry_def)
    from Cons.prems True obtain a acc' where acc: "acc = a # acc'"
      and a: "m_idempotency s (batch_key key i) = Some (ac_JobID a)" "ac_Name a = eq_Name jr"
        "ac_Queue a = or_else ''default'' (eq_Queue jr)"
      by (cases acc) auto
    from a(1) Cons.prems(1) have "submit memory_ops (w i) c (job\<lparr>j_IdempotencyKey := batch_key key i\<rparr>) s = (s, Ok (ac_JobID a))"
      by (intro submit_bound) (simp_all add: batch_key_def)
    moreover from Cons.IH [of "Suc i" acc'] Cons.prems True acc have
      "batch_loop l memory_ops w c key (Suc i) jrs s = (s, Ok (acc', rejections l (Suc i) jrs))" by auto
    ultimately show ?thesis using job n a acc True by (auto simp: Let_def rejections_Cons)
  qed
qed

lemma rejections_length: "length (rejections l i jrs) = length (filter (\<lambda>jr. \<not> valid_entry l jr) jrs)"
  by (induction jrs arbitrary: i) (simp_all add: rejections_Cons, simp add: rejections_def)

lemma enumerate_nth: "enumerate 0 xs = map (\<lambda>k. (k, xs ! k)) [0..<length xs]"
  by (rule nth_equalityI) (auto simp: nth_enumerate_eq)

text \<open>
  C20. A batch is accounted for completely: on the in-memory store every entry of a non-empty batch is
  either accepted or rejected, in the order of the request. The accepted ones are exactly those with a
  name and a valid (or no) timeout, each with its own name and queue; the rejected ones carry the
  indices of all the others; the response has the total and status 201, or 400 when nothing was
  accepted.
\<close>
theorem batch_accounted:
  assumes "lib_batch l (rq_limit r) (rq_body r) = Ok jobs" and "jobs \<noteq> []"
  shows "\<exists>s' acc rej. handleBatchEnqueue l memory_ops w r s =
      (s', Resp (if filter (valid_entry l) jobs = [] then 400 else 201)
             (JObj [(''accepted'', jslice (map accepted_json acc)), (''rejected'', jslice (map rejected_json rej)),
                    (''total'', jnum (int (length jobs)))])) \<and>
      map (\<lambda>a. (ac_Name a, ac_Queue a)) acc =
        map (\<lambda>jr. (eq_Name jr, or_else ''default'' (eq_Queue jr))) (filter (valid_entry l) jobs) \<and>
      map rj_Index rej = filter (\<lambda>k. \<not> valid_entry l (jobs ! k)) [0..<length jobs] \<and>
      length acc + length rej = length jobs"
proof -
  obtain s' acc rej where loop: "batch_loop l memory_ops w (rq_ctx r) (rq_header r ''Idempotency-Key'') 0 jobs s =
      (s', Ok (acc, rej))"
    and acc: "map ac_Name acc = map eq_Name (filter (valid_entry l) jobs)"
      "map ac_Queue acc = map (\<lambda>jr. or_else ''default'' (eq_Queue jr)) (filter (valid_entry l) jobs)"
    and rej: "rej = rejections l 0 jobs"
    using batch_loop_mem [of l w "rq_ctx r" "rq_header r ''Idempotency-Key''" 0 jobs s] by blast
  from arg_cong [OF acc(1), of length] have la: "length acc = length (filter (valid_entry l) jobs)" by simp
  then have "acc = [] \<longleftrightarrow> filter (valid_entry l) jobs = []" by (metis length_0_conv)
  moreover have "length acc + length rej = length jobs"
    using la rejections_length [of l 0 jobs] sum_length_filter_compl [of "valid_entry l" jobs] by (simp add: rej)
  moreover have "map (\<lambda>a. (ac_Name a, ac_Queue a)) acc =
        map (\<lambda>jr. (eq_Name jr, or_else ''default'' (eq_Queue jr))) (filter (valid_entry l) jobs)"
    using acc by (auto intro!: nth_equalityI simp: la list_eq_iff_nth_eq)
  moreover have "map rj_Index rej = filter (\<lambda>k. \<not> valid_entry l (jobs ! k)) [0..<length jobs]"
    by (simp add: rej rejections_def enumerate_nth filter_map comp_def)
  ultimately show ?thesis
    using assms loop by (intro exI [of _ s'] exI [of _ acc] exI [of _ rej]) (simp add: handleBatchEnqueue_def Let_def)
qed

text \<open>
  C19. A batch under an idempotency key replays safely: repeating the same request later, after any
  sequence of operations of the in-memory store, creates nothing, leaves the store as it is and
  gives the same response, with the same job ids.
\<close>
theorem batch_replay:
  assumes "lib_batch l (rq_limit r) (rq_body r) = Ok jobs" and "jobs \<noteq> []"
    and "rq_header r ''Idempotency-Key'' \<noteq> ''''"
    and "mem_step\<^sup>*\<^sup>* (fst (handleBatchEnqueue l memory_ops w r s)) s2"
  shows "handleBatchEnqueue l memory_ops w' r s2 = (s2, snd (handleBatchEnqueue l memory_ops w r s))"
proof -
  let ?key = "rq_header r ''Idempotency-Key''"
  obtain s' acc where loop: "batch_loop l memory_ops w (rq_ctx r) ?key 0 jobs s = (s', Ok (acc, rejections l 0 jobs))"
    and acc: "map ac_Name acc = map eq_Name (filter (valid_entry l) jobs)"
      "map ac_Queue acc = map (\<lambda>jr. or_else ''default'' (eq_Queue jr)) (filter (valid_entry l) jobs)"
    and bound: "list_all2 (\<lambda>(k, jr) a. m_idempotency s' (batch_key ?key k) = Some (ac_JobID a))
        (filter (\<lambda>(k, jr). valid_entry l jr) (enumerate 0 jobs)) acc"
    using batch_loop_mem [of l w "rq_ctx r" ?key 0 jobs s] assms(3) by blast
  have "mem_step\<^sup>*\<^sup>* s' s2"
    using assms(1,2,4) loop by (simp add: handleBatchEnqueue_def Let_def)
  then have "list_all2 (\<lambda>(k, jr) a. m_idempotency s2 (batch_key ?key k) = Some (ac_JobID a))
        (filter (\<lambda>(k, jr). valid_entry l jr) (enumerate 0 jobs)) acc"
    using bound by (auto elim!: list_all2_mono intro: idempotency_kept_star)
  from batch_loop_replay [OF assms(3) this acc, of w' "rq_ctx r"] loop assms(1,2) show ?thesis
    by (simp add: handleBatchEnqueue_def Let_def)
qed

definition demo_batch :: "enqueueRequest list" where
  "demo_batch = [\<lparr>eq_Name = ''a'', eq_Args = None, eq_Queue = [], eq_RetryMax = 0, eq_Timeout = []\<rparr>,
     \<lparr>eq_Name = [], eq_Args = None, eq_Queue = [], eq_RetryMax = 0, eq_Timeout = []\<rparr>,
     \<lparr>eq_Name = ''c'', eq_Args = None, eq_Queue = ''q'', eq_RetryMax = 0, eq_Timeout = ''soon''\<rparr>]"

definition batch_lib :: lib where
  "batch_lib = demo_lib\<lparr>lib_batch := \<lambda>_ _. Ok demo_batch\<rparr>"

definition keyed_request :: request where
  "keyed_request = (demo_request [] ''POST'' [])\<lparr>rq_header := \<lambda>k. if k = ''Idempotency-Key'' then ''k'' else []\<rparr>"

lemma batch_lib_sel [simp]: "lib_batch batch_lib a b = Ok demo_batch" "lib_ParseDuration batch_lib t = None"
  by (simp_all add: batch_lib_def demo_lib_def)

theorem batch_accounted_witness:
  "\<exists>s' acc rej. handleBatchEnqueue batch_lib memory_ops (\<lambda>i. test_env 5 (show_nat i) []) keyed_request mem_New =
     (s', Resp 201 (JObj [(''accepted'', jslice (map accepted_json acc)), (''rejected'', jslice (map rejected_json rej)),
       (''total'', jnum 3)])) \<and> map ac_Name acc = [''a''] \<and> map rj_Index rej = [1, 2]"
proof -
  have v: "filter (valid_entry batch_lib) demo_batch = [demo_batch ! 0]"
    "filter (\<lambda>k. \<not> valid_entry batch_lib (demo_batch ! k)) [0..<3] = [1, 2]"
    "length demo_batch = 3" "demo_batch \<noteq> []" "eq_Name (demo_batch ! 0) = ''a''"
    by (simp_all add: demo_batch_def valid_entry_def upt_rec)
  from batch_accounted [OF batch_lib_sel(1) v(4), where r = keyed_request and w = "\<lambda>i. test_env 5 (show_nat i) []" and s = mem_New]
  obtain s' acc rej where r: "handleBatchEnqueue batch_lib memory_ops (\<lambda>i. test_env 5 (show_nat i) []) keyed_request mem_New =
      (s', Resp (if filter (valid_entry batch_lib) demo_batch = [] then 400 else 201)
        (JObj [(''accepted'', jslice (map accepted_json acc)),
        (''rejected'', jslice (map rejected_json rej)), (''total'', jnum (int (length demo_batch)))]))"
    and a: "map (\<lambda>a. (ac_Name a, ac_Queue a)) acc = map (\<lambda>jr. (eq_Name jr, or_else ''default'' (eq_Queue jr)))
      (filter (valid_entry batch_lib) demo_batch)"
    and "map rj_Index rej = filter (\<lambda>k. \<not> valid_entry batch_lib (demo_batch ! k)) [0..<length demo_batch]"
    by blast
  moreover from a have "map ac_Name acc = [''a'']" by (auto simp: v)
  ultimately show ?thesis by (intro exI [of _ s'] exI [of _ acc] exI [of _ rej]) (simp add: v)
qed

theorem batch_replay_witness:
  "\<exists>s1 resp. handleBatchEnqueue batch_lib memory_ops (\<lambda>i. test_env 5 (show_nat i) []) keyed_request mem_New = (s1, resp) \<and>
     handleBatchEnqueue batch_lib memory_ops (\<lambda>i. test_env 9 (''x'' @ show_nat i) []) keyed_request
       (fst (mem_DeleteJob (test_env 6 [] []) None ''0'' s1)) =
     (fst (mem_DeleteJob (test_env 6 [] []) None ''0'' s1), resp)"
proof (intro exI conjI)
  let ?run = "handleBatchEnqueue batch_lib memory_ops (\<lambda>i. test_env 5 (show_nat i) []) keyed_request mem_New"
  show "?run = (fst ?run, snd ?run)" by simp
  show "handleBatchEnqueue batch_lib memory_ops (\<lambda>i. test_env 9 (''x'' @ show_nat i) []) keyed_request
       (fst (mem_DeleteJob (test_env 6 [] []) None ''0'' (fst ?run))) =
     (fst (mem_DeleteJob (test_env 6 [] []) None ''0'' (fst ?run)), snd ?run)"
    by (rule batch_replay [where jobs = demo_batch])
      (simp_all add: demo_batch_def keyed_request_def r_into_rtranclp mem_step.DeleteJob)
qed

end
