(* ===== verification/Coordinator_Properties.thy ===== *)
theory Coordinator_Properties
  imports Engine_Properties
begin

text \<open>
  What the background loops do to the in-memory store: recovery of orphaned jobs, the sweep of dead
  servers, and the two ways in which orphan recovery goes wrong over this store.
\<close>

section \<open>Lemmas\<close>

definition stale :: "config \<Rightarrow> time \<Rightarrow> mstate \<Rightarrow> string \<Rightarrow> bool" where
  "stale cfg now s i \<longleftrightarrow>
     (case m_progress s i of
        None \<Rightarrow> False
      | Some p \<Rightarrow> p < time_add now (- cfg_OrphanJobStaleAge cfg))"

lemma mem_Heartbeat_frame:
  "m_jobs (fst (mem_Heartbeat e c i ttl s)) = m_jobs s"
  "m_jobStates (fst (mem_Heartbeat e c i ttl s)) = m_jobStates s"
  "m_queues (fst (mem_Heartbeat e c i ttl s)) = m_queues s"
  "m_progress (fst (mem_Heartbeat e c i ttl s)) = m_progress s"
  "m_scheduled (fst (mem_Heartbeat e c i ttl s)) = m_scheduled s"
  "mem_wf (fst (mem_Heartbeat e c i ttl s)) = mem_wf s"
  by (simp_all add: mem_Heartbeat_def mem_wf_def split: option.split)

lemma mem_Requeue_ctx: "mem_Requeue e c i why s = mem_Requeue e None i why s"
  by (simp only: mem_Requeue_def)

lemma requeue_all_ctx: "requeue_all memory_ops w c ts s = requeue_all memory_ops w None ts s"
proof (induction ts arbitrary: w s)
  case (Cons t ts)
  show ?case unfolding requeue_all.simps memory_ops_sel mem_Requeue_ctx [of _ c] Cons.IH ..
qed simp

text \<open>One tick is a requeue of every stale id, in the order the map is visited.\<close>

lemma coordinatorTick_mem:
  obtains s1 ts where "coordinatorTick memory_ops w c cfg s = requeue_all memory_ops (later 2 w) None ts s1"
    "s1 = fst (mem_Heartbeat (w 0) c (cfg_ServerID cfg) (cfg_ServerHeartbeatTTL cfg) s)"
    "map t_JobID ts = filter (stale cfg (now_at (w 1) 0) s) (range_keys (m_progress s) (key_order (w 1)))"
proof -
  let ?s1 = "fst (mem_Heartbeat (w 0) c (cfg_ServerID cfg) (cfg_ServerHeartbeatTTL cfg) s)"
  let ?ids = "filter (stale cfg (now_at (w 1) 0) s) (range_keys (m_progress s) (key_order (w 1)))"
  let ?ts = "map (\<lambda>i. \<lparr>t_JobID = i, t_Token = ''orphan-'' @ i\<rparr>) ?ids"
  have "mem_GetOrphanedJobs (w 1) c (cfg_OrphanJobStaleAge cfg) ?s1 = Ok ?ts"
    by (simp add: mem_GetOrphanedJobs_def Let_def mem_Heartbeat_frame stale_def [abs_def])
  then have "coordinatorTick memory_ops w c cfg s = requeue_all memory_ops (later 2 w) None ?ts ?s1"
    by (simp add: coordinatorTick_def case_prod_beta requeue_all_ctx [of "later 2 w" c])
  moreover have "map t_JobID ?ts = ?ids" by (simp add: comp_def)
  ultimately show ?thesis using that by blast
qed

lemma requeue_all_progress:
  "m_progress (requeue_all memory_ops w None ts s) = m_progress s \<and>
   m_scheduled (requeue_all memory_ops w None ts s) = m_scheduled s"
proof (induction ts arbitrary: w s)
  case (Cons t ts)
  have "m_progress (fst (mem_Requeue e None i why s)) = m_progress s \<and>
      m_scheduled (fst (mem_Requeue e None i why s)) = m_scheduled s" for e i why
    by (simp add: mem_Requeue_def Let_def split: option.split)
  with Cons show ?case by (simp add: case_prod_beta)
qed simp

lemma requeue_effect:
  assumes wf: "mem_wf s" and s': "s' = fst (mem_Requeue e None k why s)"
  shows "m_jobs s' = m_jobs s \<and> (i \<noteq> k \<longrightarrow> m_jobStates s' i = m_jobStates s i) \<and>
    (m_jobs s i = Some j \<longrightarrow> count_list (list_at (m_queues s') (j_Queue j)) i =
      count_list (list_at (m_queues s) (j_Queue j)) i + (if k = i \<and> can_requeue (m_jobStates s i) then 1 else 0))"
proof -
  consider "m_jobStates s k = None" | h where "m_jobStates s k = Some h" "IrreversibleStates (current_of h)"
    | jk h where "m_jobs s k = Some jk" "m_jobStates s k = Some h" "\<not> IrreversibleStates (current_of h)"
    using mem_wf_hist_job [OF wf] by fastforce
  then show ?thesis
  proof cases
    case 1
    then have "s' = s" using Requeue_fail(1) [OF wf] s' by simp
    with 1 show ?thesis by (auto simp: can_requeue_def)
  next
    case (2 h)
    then have "s' = s" using Requeue_fail(2) [OF wf 2] s' by simp
    with 2 show ?thesis by (auto simp: can_requeue_def)
  next
    case (3 jk h)
    show ?thesis using Requeue_spec [OF wf 3, of e None why] s' 3 by (auto simp: can_requeue_def)
  qed
qed

lemma requeue_all_count:
  assumes "mem_wf s" "distinct (map t_JobID ts)" "m_jobs s i = Some j"
  shows "count_list (list_at (m_queues (requeue_all memory_ops w None ts s)) (j_Queue j)) i =
    count_list (list_at (m_queues s) (j_Queue j)) i +
      (if i \<in> t_JobID ` set ts \<and> can_requeue (m_jobStates s i) then 1 else 0)"
  using assms
proof (induction ts arbitrary: s w)
  case (Cons t ts)
  define s1 where "s1 = fst (mem_Requeue (w 0) None (t_JobID t) ''orphan recovery'' s)"
  have wf1: "mem_wf s1" unfolding s1_def by (rule mem_wf_Requeue [OF Cons.prems(1)])
  note eff = requeue_effect [OF Cons.prems(1) s1_def, of i j]
  have IH: "count_list (list_at (m_queues (requeue_all memory_ops (later 1 w) None ts s1)) (j_Queue j)) i =
    count_list (list_at (m_queues s1) (j_Queue j)) i +
      (if i \<in> t_JobID ` set ts \<and> can_requeue (m_jobStates s1 i) then 1 else 0)"
    using Cons.IH [OF wf1, of "later 1 w"] Cons.prems eff by simp
  have "requeue_all memory_ops w None (t # ts) s = requeue_all memory_ops (later 1 w) None ts s1"
    by (simp add: s1_def case_prod_beta)
  with IH eff Cons.prems(2,3) show ?case by (cases "t_JobID t = i") auto
qed simp

text \<open>What one tick does to a stale job that can be requeued.\<close>

lemma tick_requeues:
  assumes wf: "mem_wf s" and cov: "covers (key_order (w 1)) (m_progress s)" and j: "m_jobs s i = Some j"
    and can: "can_requeue (m_jobStates s i)" and old: "stale cfg (now_at (w 1) 0) s i"
  shows "mem_wf (coordinatorTick memory_ops w c cfg s) \<and>
    m_jobs (coordinatorTick memory_ops w c cfg s) = m_jobs s \<and>
    m_progress (coordinatorTick memory_ops w c cfg s) = m_progress s \<and>
    m_scheduled (coordinatorTick memory_ops w c cfg s) = m_scheduled s \<and>
    reinstated (m_jobStates s i) (m_jobStates (coordinatorTick memory_ops w c cfg s) i) ''orphan recovery'' \<and>
    count_list (list_at (m_queues (coordinatorTick memory_ops w c cfg s)) (j_Queue j)) i =
      Suc (count_list (list_at (m_queues s) (j_Queue j)) i)"
proof -
  obtain s1 ts where t: "coordinatorTick memory_ops w c cfg s = requeue_all memory_ops (later 2 w) None ts s1"
    "s1 = fst (mem_Heartbeat (w 0) c (cfg_ServerID cfg) (cfg_ServerHeartbeatTTL cfg) s)"
    "map t_JobID ts = filter (stale cfg (now_at (w 1) 0) s) (range_keys (m_progress s) (key_order (w 1)))"
    by (rule coordinatorTick_mem)
  have wf1: "mem_wf s1" and f: "m_jobStates s1 = m_jobStates s" "m_jobs s1 = m_jobs s" "m_queues s1 = m_queues s"
    "m_progress s1 = m_progress s" "m_scheduled s1 = m_scheduled s"
    using wf by (simp_all add: t(2) mem_Heartbeat_frame)
  have dis: "distinct (map t_JobID ts)" unfolding t(3) by simp
  have i: "i \<in> t_JobID ` set ts"
    using arg_cong [OF t(3), of set] set_range_keys_covers [OF cov] old
    by (auto simp: stale_def split: option.splits)
  show ?thesis
    unfolding t(1) using mem_requeue_all_spec [OF wf1 dis, of "later 2 w"] requeue_all_progress [of "later 2 w" ts s1]
      requeue_all_count [OF wf1 dis, of i j "later 2 w"] i can j f by simp
qed

section \<open>Properties\<close>

text \<open>
  C27. Orphans are recovered: one coordinator tick puts every Processing job whose last sign of life is
  older than the configured age back into its queue as Enqueued, with the reason recorded, and leaves
  the history of every job with a recent sign of life as it was.
\<close>
theorem orphan_recovery:
  fixes c :: ctx and cfg :: config
  assumes wf: "mem_wf s" and cov: "covers (key_order (w 1)) (m_progress s)"
  defines "s' \<equiv> coordinatorTick memory_ops w c cfg s"
  shows "(cur_state s i = StateProcessing \<and> stale cfg (now_at (w 1) 0) s i \<longrightarrow>
      reinstated (m_jobStates s i) (m_jobStates s' i) ''orphan recovery'' \<and> cur_state s' i = StateEnqueued \<and>
      (\<exists>j. m_jobs s i = Some j \<and> i \<in> set (list_at (m_queues s') (j_Queue j)))) \<and>
    (\<not> stale cfg (now_at (w 1) 0) s i \<longrightarrow> m_jobStates s' i = m_jobStates s i)"
proof -
  obtain s1 ts where t: "s' = requeue_all memory_ops (later 2 w) None ts s1"
    "s1 = fst (mem_Heartbeat (w 0) c (cfg_ServerID cfg) (cfg_ServerHeartbeatTTL cfg) s)"
    "map t_JobID ts = filter (stale cfg (now_at (w 1) 0) s) (range_keys (m_progress s) (key_order (w 1)))"
    unfolding s'_def by (rule coordinatorTick_mem)
  have wf1: "mem_wf s1" and f: "m_jobStates s1 = m_jobStates s" "m_jobs s1 = m_jobs s"
    using wf by (simp_all add: t(2) mem_Heartbeat_frame)
  have dis: "distinct (map t_JobID ts)" unfolding t(3) by simp
  have ids: "t_JobID ` set ts = {k. stale cfg (now_at (w 1) 0) s k}"
    using arg_cong [OF t(3), of set] set_range_keys_covers [OF cov]
    by (auto simp: stale_def split: option.splits)
  note sp = mem_requeue_all_spec [OF wf1 dis, of "later 2 w", folded t(1)]
  show ?thesis
  proof (intro conjI impI)
    assume a: "cur_state s i = StateProcessing \<and> stale cfg (now_at (w 1) 0) s i"
    then obtain h where h: "m_jobStates s i = Some h" "current_of h = StateProcessing"
      using cur_state_Some [of s i StateProcessing] by auto
    then obtain j where j: "m_jobs s i = Some j" using mem_wf_hist_job [OF wf] by blast
    have can: "can_requeue (m_jobStates s i)" using h by (simp add: can_requeue_def)
    from sp a ids can f show r: "reinstated (m_jobStates s i) (m_jobStates s' i) ''orphan recovery''" by simp
    then show "cur_state s' i = StateEnqueued" by (auto simp: reinstated_def cur_state_def list_at_def)
    from sp a ids can f j show "\<exists>j. m_jobs s i = Some j \<and> i \<in> set (list_at (m_queues s') (j_Queue j))"
      by (auto simp: mem_queued_def)
  next
    assume "\<not> stale cfg (now_at (w 1) 0) s i"
    with sp ids f show "m_jobStates s' i = m_jobStates s i" by simp
  qed
qed

definition demo_stale_config :: config where
  "demo_stale_config = normalize 1 ((DefaultConfig 1)\<lparr>cfg_OrphanJobStaleAge := 10\<rparr>)"

lemma demo_stale_age [simp]: "cfg_OrphanJobStaleAge demo_stale_config = 10"
  by (simp add: demo_stale_config_def normalize_def or_default_def)

theorem orphan_recovery_witness:
  "cur_state demo_processing ''a'' = StateProcessing \<and>
   cur_state (coordinatorTick memory_ops (\<lambda>_. test_env 100 [] [''a'']) None demo_stale_config demo_processing) ''a''
     = StateEnqueued"
proof -
  have cov: "covers (key_order ((\<lambda>_. test_env 100 [] [''a'']) (1::nat))) (m_progress demo_processing)"
    by (simp add: covers_def)
  show ?thesis
    using orphan_recovery [OF core_reachable_wf [OF demo_processing_core] cov, of "''a''" demo_stale_config None]
    by (simp add: cur_state_def list_at_def current_of_def stale_def time_add_def)
qed

text \<open>
  C33. Orphan recovery over the in-memory store acts on more than Processing jobs, and again and again:
  the last sign of life of a job is kept after it left Processing, so a job that failed and is
  scheduled for a later retry is put into its queue at once while its schedule entry stays (it will
  run a second time when that falls due), and every further tick adds the same job to the queue once
  more.
\<close>
theorem orphan_requeued_early:
  fixes c :: ctx and cfg :: config
  assumes wf: "mem_wf s" and cov: "covers (key_order (w 1)) (m_progress s)"
    and sched: "cur_state s i = StateScheduled" "m_scheduled s i = Some at" and old: "stale cfg (now_at (w 1) 0) s i"
    and again: "now_at (w 1) 0 \<le> now_at (w' 1) 0" "covers (key_order (w' 1)) (m_progress s)"
  defines "s1 \<equiv> coordinatorTick memory_ops w c cfg s"
  defines "s2 \<equiv> coordinatorTick memory_ops w' c cfg s1"
  shows "\<exists>j. m_jobs s i = Some j \<and> cur_state s1 i = StateEnqueued \<and> m_scheduled s1 i = Some at \<and>
    count_list (list_at (m_queues s1) (j_Queue j)) i = Suc (count_list (list_at (m_queues s) (j_Queue j)) i) \<and>
    count_list (list_at (m_queues s2) (j_Queue j)) i = Suc (Suc (count_list (list_at (m_queues s) (j_Queue j)) i))"
proof -
  obtain h where h: "m_jobStates s i = Some h" "current_of h = StateScheduled"
    using cur_state_Some [OF sched(1)] by auto
  obtain j where j: "m_jobs s i = Some j" using mem_wf_hist_job [OF wf h(1)] by blast
  have can: "can_requeue (m_jobStates s i)" using h by (simp add: can_requeue_def)
  note t1 = tick_requeues [where w = w and c = c, OF wf cov j can old, folded s1_def]
  have "stale cfg (now_at (w' 1) 0) s1 i"
    using old again(1) t1 by (auto simp: stale_def time_add_def split: option.splits)
  moreover have "can_requeue (m_jobStates s1 i)"
    using t1 by (auto simp: reinstated_def can_requeue_def)
  ultimately have t2: "count_list (list_at (m_queues s2) (j_Queue j)) i = Suc (count_list (list_at (m_queues s1) (j_Queue j)) i)"
    using tick_requeues [of s1 w' i j cfg c, folded s2_def] t1 again(2) j by simp
  have "cur_state s1 i = StateEnqueued" using t1 by (auto simp: reinstated_def cur_state_def list_at_def)
  with t1 t2 j sched(2) show ?thesis by auto
qed

definition demo_retry :: mstate where
  "demo_retry = fst (mem_ScheduleRetry (test_env 8 [] []) None ''a'' 500
     (fst (mem_ApplyState (test_env 7 [] []) None ''a'' StateProcessing (new_state StateFailed [] [] 7) demo_processing)))"

lemma demo_retry_core: "core_reachable demo_retry"
  unfolding demo_retry_def
  by (rule core_reachable.step [OF core_reachable.step [OF demo_processing_core core_step.Finish] core_step.ScheduleRetry]) simp

lemma demo_retry_sel [simp]:
  "cur_state demo_retry ''a'' = StateScheduled" "m_scheduled demo_retry = [''a'' \<mapsto> 500]"
  "m_progress demo_retry = [''a'' \<mapsto> 6]" "m_queues demo_retry = [''default'' \<mapsto> []]"
  "m_jobs demo_retry = m_jobs demo_processing"
  by (simp_all add: demo_retry_def mem_ScheduleRetry_def mem_ApplyState_def Let_def cur_state_def list_at_def
      current_of_def)

theorem orphan_requeued_early_witness:
  "core_reachable demo_retry \<and> m_scheduled demo_retry ''a'' = Some 500 \<and>
   count_list (list_at (m_queues (coordinatorTick memory_ops (\<lambda>_. test_env 101 [] [''a'']) None demo_stale_config
     (coordinatorTick memory_ops (\<lambda>_. test_env 100 [] [''a'']) None demo_stale_config demo_retry))) ''default'') ''a'' = 2"
proof -
  have cov: "covers (key_order ((\<lambda>_. test_env t [] [''a'']) (1::nat))) (m_progress demo_retry)" for t
    by (simp add: covers_def)
  show ?thesis
    using demo_retry_core orphan_requeued_early [OF core_reachable_wf [OF demo_retry_core] cov [of 100] demo_retry_sel(1),
        of 500 demo_stale_config "\<lambda>_. test_env 101 [] [''a'']" None]
    by (auto simp: stale_def time_add_def covers_def list_at_def demo_job_def)
qed

section \<open>Servers\<close>

definition servers_keyed :: "mstate \<Rightarrow> bool" where
  "servers_keyed s \<longleftrightarrow> (\<forall>i sv. m_servers s i = Some sv \<longrightarrow> sv_ID sv = i)"

lemma m_servers_sel [simp]:
  "m_servers (push_back q i s) = m_servers s" "m_servers (append_state i st s) = m_servers s"
  "m_servers (count k d s) = m_servers s" "m_servers (signal s) = m_servers s"
  "m_servers (state_counter n s) = m_servers s" "m_servers (mem_insert e q j s) = m_servers s"
  "m_servers (dequeue_take e i s) = m_servers s" "m_servers (mem_forget i s) = m_servers s"
  by (simp_all add: mem_helper_defs state_counter_def mem_insert_def dequeue_take_def mem_forget_def Let_def)

lemma scan_servers: "dequeue_scan e held qs s = Found s' t \<Longrightarrow> m_servers s' = m_servers s"
proof (induction e held qs s rule: dequeue_scan.induct)
  case (2 e held q qs s)
  then show ?case by (auto simp: Let_def scan_unheld split: list.splits option.splits if_splits)
qed (simp split: if_splits)

lemma promote_servers: "m_servers (fst (mem_promote e n is s)) = m_servers s"
  by (induction e n "is" s rule: mem_promote.induct) (auto simp: Let_def case_prod_beta split: option.split)

lemma expire_servers: "m_servers (fst (expire_loop cutoff is n s)) = m_servers s"
  by (induction cutoff "is" n s rule: expire_loop.induct) auto

lemma servers_keyed_frame: "m_servers s' = m_servers s \<Longrightarrow> servers_keyed s \<Longrightarrow> servers_keyed s'"
  by (simp add: servers_keyed_def)

lemma servers_keyed_step: "mem_step s s' \<Longrightarrow> servers_keyed s \<Longrightarrow> servers_keyed s'"
proof (induction rule: mem_step.induct)
  case (Dequeue e qs s s' t)
  then show ?case using scan_servers servers_keyed_frame by blast
next
  case (GetDueScheduled s e c now n)
  then show ?case
    by (auto simp: mem_GetDueScheduled_def Let_def case_prod_beta promote_servers servers_keyed_def split: result.split)
next
  case (RemoveExpired s e c cutoff)
  then show ?case by (auto simp: mem_RemoveExpired_def case_prod_beta expire_servers servers_keyed_def)
next
  case (RegisterServer s e c sv ttl)
  then show ?case by (auto simp: mem_RegisterServer_def servers_keyed_def Let_def)
next
  case (UnregisterServer s c i)
  then show ?case by (auto simp: mem_UnregisterServer_def servers_keyed_def split: if_splits)
next
  case (Heartbeat s e c i ttl)
  then show ?case by (auto simp: mem_Heartbeat_def servers_keyed_def split: option.split)
qed (auto simp: mem_Enqueue_def mem_EnqueueIdempotent_def mem_Requeue_def mem_ApplyState_def
    mem_ScheduleRetry_def mem_SetJobResult_def mem_HeartbeatJob_def mem_AddScheduled_def mem_RemoveScheduled_def
    mem_UpsertRecurring_def mem_RemoveRecurring_def mem_UpdateRecurringLastRun_def
    mem_AddContinuation_def mem_RemoveContinuations_def mem_IncrementCounter_def
    mem_AcquireLock_def mem_Release_def mem_DeleteJob_def Let_def servers_keyed_frame split: option.split)

lemma servers_keyed_reachable: "mem_reachable s \<Longrightarrow> servers_keyed s"
proof (induction rule: mem_reachable.induct)
  case start
  show ?case by (simp add: servers_keyed_def mem_New_def)
next
  case (step s s')
  then show ?case by (blast intro: servers_keyed_step)
qed

lemma sweep_mem:
  "m_servers (sweep_servers memory_ops c now thr svs s) =
     (\<lambda>i. if \<exists>sv \<in> set svs. sv_ID sv = i \<and> sint (time_sub now (sv_LastHeartbeat sv)) > sint thr then None else m_servers s i)"
proof (induction svs arbitrary: s)
  case (Cons sv svs)
  show ?case
    by (rule ext) (auto simp: Cons.IH Let_def mem_UnregisterServer_def)
qed simp

text \<open>
  The sweep of dead servers is exact: in every reachable store it unregisters precisely the servers
  whose last heartbeat is more than three time-to-live periods old, so a server that keeps beating is
  never removed and a dead one always is; servers that are merely stale keep their record unchanged.
\<close>
lemma server_sweep_exact:
  fixes c :: ctx and cfg :: config
  assumes reach: "mem_reachable s" and cov: "covers (key_order (w 0)) (m_servers s)"
    and ttl: "0 < sint (cfg_ServerHeartbeatTTL cfg)" "sint (cfg_ServerHeartbeatTTL cfg) < 2 ^ 61"
  shows "m_servers (staleServerSweep memory_ops w c cfg s) i =
    (case m_servers s i of
       None \<Rightarrow> None
     | Some sv \<Rightarrow>
         if max min_duration (min max_duration (now_at (w 1) 0 - sv_LastHeartbeat sv)) > 3 * sint (cfg_ServerHeartbeatTTL cfg)
         then None else Some sv)"
proof -
  let ?ks = "range_keys (m_servers s) (key_order (w 0))"
  let ?svs = "concat (map (\<lambda>i. case m_servers s i of None \<Rightarrow> [] | Some sv \<Rightarrow> [sv]) ?ks)"
  have svs: "set ?svs = ran (m_servers s)"
    using set_range_keys_covers [OF cov] by (force simp: ran_def split: option.splits)
  have sv_eq: "(\<exists>sv \<in> ran (m_servers s). sv_ID sv = i \<and> P sv) \<longleftrightarrow> (\<exists>sv. m_servers s i = Some sv \<and> P sv)" for P
    using servers_keyed_reachable [OF reach] unfolding servers_keyed_def ran_def by blast
  have thr: "sint (cfg_ServerHeartbeatTTL cfg * 3) = 3 * sint (cfg_ServerHeartbeatTTL cfg)"
    using ttl by (simp add: sint_word_ariths signed_take_bit_int_eq_self)
  show ?thesis
    unfolding staleServerSweep_def memory_ops_sel mem_GetServers_def Let_def result.case sweep_mem svs sv_eq thr sint_time_sub
    by (auto split: option.split)
qed

end
