(* ===== verification/Service_Calls.thy ===== *)
theory Service_Calls
  imports Memory_Lifecycle
begin

text \<open>
  The calls a running server makes on the in-memory store, one rule of \<open>service_call\<close> per method that
  writes, with the arguments the callers pass: new jobs come without an id and with the queue they are
  pushed to, and \<^verbatim>\<open>ApplyState\<close> is asked only for the transitions of \<^verbatim>\<open>worker.go\<close>. Unlike \<open>core_step\<close> the
  relation has \<^verbatim>\<open>Requeue\<close> (requests and orphan recovery) and \<^verbatim>\<open>DeleteJob\<close>, and new ids may be taken.
  The theory shows what survives all of them: \<open>service_inv\<close>.
\<close>

section \<open>The calls\<close>

inductive service_call :: "mstate \<Rightarrow> mstate \<Rightarrow> bool" where
  Enqueue: "j_ID j = '''' \<Longrightarrow> j_Queue j = q \<Longrightarrow> q \<noteq> '''' \<Longrightarrow> service_call s (fst (mem_Enqueue e c q j s))"
| EnqueueIdempotent: "j_ID j = '''' \<Longrightarrow> j_Queue j = q \<Longrightarrow> q \<noteq> '''' \<Longrightarrow>
    service_call s (fst (mem_EnqueueIdempotent e c q j s))"
| AddScheduled: "j_ID j = '''' \<Longrightarrow> service_call s (fst (mem_AddScheduled e c at j s))"
| Dequeue: "dequeue_scan e True qs s = Found s' t \<Longrightarrow> service_call s s'"
| Woken: "service_call s (s\<lparr>m_dequeueCh := False\<rparr>)"
| Requeue: "service_call s (fst (mem_Requeue e c i why s))"
| Finish: "js_Name st \<in> {StateSucceeded, StateFailed, StateCancelled} \<Longrightarrow>
    service_call s (fst (mem_ApplyState e c i StateProcessing st s))"
| Exhaust: "js_Name st = StateDead \<Longrightarrow> service_call s (fst (mem_ApplyState e c i StateFailed st s))"
| ScheduleRetry: "service_call s (fst (mem_ScheduleRetry e c i at s))"
| SetJobResult: "service_call s (fst (mem_SetJobResult c i r s))"
| HeartbeatJob: "service_call s (fst (mem_HeartbeatJob e c i s))"
| GetDueScheduled: "service_call s (fst (mem_GetDueScheduled e c now n s))"
| RemoveExpired: "service_call s (fst (mem_RemoveExpired e c cutoff s))"
| DeleteJob: "service_call s (fst (mem_DeleteJob e c i s))"
| RegisterServer: "service_call s (fst (mem_RegisterServer e c sv ttl s))"
| UnregisterServer: "service_call s (fst (mem_UnregisterServer c i s))"
| Heartbeat: "service_call s (fst (mem_Heartbeat e c i ttl s))"
| UpsertRecurring: "service_call s (fst (mem_UpsertRecurring e c r s))"
| RemoveRecurring: "service_call s (fst (mem_RemoveRecurring c i s))"
| UpdateRecurringLastRun: "service_call s (fst (mem_UpdateRecurringLastRun e c i lr nr s))"
| AddContinuation: "service_call s (fst (mem_AddContinuation e c i en s))"
| AcquireLock: "service_call s (fst (mem_AcquireLock e c res ttl s))"
| Release: "service_call s (fst (mem_Release c l s))"

abbreviation service_calls :: "mstate \<Rightarrow> mstate \<Rightarrow> bool" where
  "service_calls \<equiv> service_call\<^sup>*\<^sup>*"

text \<open>A blocked \<^verbatim>\<open>Dequeue\<close> is a sequence of calls, its own and those of the goroutines it waits for.\<close>

lemma scan_idle: "dequeue_scan e True qs s = Idle s1 \<Longrightarrow> s1 = s"
  by (induction qs) (auto simp: Let_def scan_unheld split: list.splits option.splits)

lemma Dequeue_calls:
  "(\<And>p x. p \<in> set ws \<Longrightarrow> service_calls x (fst p x)) \<Longrightarrow> mem_Dequeue e c qs ws s = Some (s', r) \<Longrightarrow> service_calls s s'"
  "(\<And>p x. p \<in> set ws \<Longrightarrow> service_calls x (fst p x)) \<Longrightarrow> dequeue_wait e c qs ws s = Some (s', r) \<Longrightarrow> service_calls s s'"
proof (induction e c qs ws s and e c qs ws s rule: mem_Dequeue_dequeue_wait.induct)
  case (1 e c queues ws s)
  show ?case
  proof (cases "dequeue_scan e True queues s")
    case (Found s1 t)
    with 1 show ?thesis by (auto intro: service_call.Dequeue)
  next
    case (Idle s1)
    with 1 show ?thesis using scan_idle [OF Idle] by simp
  next
    case (Fatal p)
    with 1 show ?thesis by simp
  qed
next
  case (2 e c queues s)
  then show ?case by simp
next
  case (3 e c queues others w ws s)
  have o: "service_calls s (others s)" using "3.prems"(1) [of "(others, w)"] by simp
  have ws: "service_calls x (fst p x)" if "p \<in> set ws" for p x using "3.prems"(1) that by simp
  have woken: "service_calls (others s) ((others s)\<lparr>m_dequeueCh := False\<rparr>)"
    by (rule r_into_rtranclp) (rule service_call.Woken)
  have "service_calls (others s) s'"
  proof (cases w)
    case WSignal
    show ?thesis
    proof (cases "m_dequeueCh (others s)")
      case True
      with "3.IH"(1) [OF refl WSignal True ws] "3.prems"(2) WSignal
      have "service_calls ((others s)\<lparr>m_dequeueCh := False\<rparr>) s'" by (simp add: Let_def)
      with woken show ?thesis by (rule rtranclp_trans)
    next
      case False
      with "3.IH"(2) [OF refl WSignal False ws] "3.prems"(2) WSignal show ?thesis by (simp add: Let_def)
    qed
  next
    case WTick
    with "3.IH"(3) [OF refl WTick ws] "3.prems"(2) show ?thesis by (simp add: Let_def)
  qed (use "3.prems"(2) in simp_all)
  with o show ?case by (rule rtranclp_trans)
qed

section \<open>What every call keeps\<close>

text \<open>
  Which state may follow which. \<^verbatim>\<open>Dequeue\<close> moves whatever id it pops to Processing, and a promotion
  (reason \<^verbatim>\<open>scheduled\<close>) does not look at the state either, so these two may follow any state.
\<close>

definition job_edge :: "jobState \<Rightarrow> jobState \<Rightarrow> bool" where
  "job_edge a b \<longleftrightarrow>
     js_Name b = StateProcessing \<or>
     js_Name b \<in> {StateSucceeded, StateFailed, StateCancelled} \<and> js_Name a = StateProcessing \<or>
     js_Name b \<in> {StateDead, StateScheduled} \<and> js_Name a = StateFailed \<or>
     js_Name b = StateDeleted \<and> \<not> IrreversibleStates (js_Name a) \<or>
     js_Name b = StateEnqueued \<and> (js_Reason b = ''scheduled'' \<or> \<not> IrreversibleStates (js_Name a))"

definition sound_history :: "jobState list \<Rightarrow> bool" where
  "sound_history h \<longleftrightarrow> h \<noteq> [] \<and> js_Name (hd h) \<in> {StateEnqueued, StateScheduled} \<and> successively job_edge h"

definition claims :: "jobState list \<Rightarrow> nat" where
  "claims h = length (filter (\<lambda>st. js_Name st = StateProcessing) h)"

definition outcomes :: "jobState list \<Rightarrow> nat" where
  "outcomes h = length (filter (\<lambda>st. js_Name st \<in> {StateSucceeded, StateFailed, StateCancelled}) h)"

lemma outcome_per_claim:
  "successively job_edge h \<Longrightarrow> h \<noteq> [] \<Longrightarrow> js_Name (hd h) \<in> {StateEnqueued, StateScheduled} \<Longrightarrow>
     outcomes h + (if js_Name (last h) = StateProcessing then 1 else 0) \<le> claims h"
proof (induction h rule: rev_induct)
  case (snoc st h)
  show ?case
  proof (cases "h = []")
    case True
    with snoc.prems show ?thesis by (auto simp: outcomes_def claims_def)
  next
    case False
    with snoc.prems have "outcomes h + (if js_Name (last h) = StateProcessing then 1 else 0) \<le> claims h"
      and "job_edge (last h) st" using snoc.IH by (simp_all add: successively_append_iff)
    then show ?thesis by (auto simp: outcomes_def claims_def job_edge_def split: if_splits)
  qed
qed simp

text \<open>The job is where its state says: no Enqueued, Scheduled or Processing job is stranded.\<close>

definition placed :: "mstate \<Rightarrow> string \<Rightarrow> bool" where
  "placed s i \<longleftrightarrow>
     (cur_state s i = StateEnqueued \<longrightarrow> (\<forall>j. m_jobs s i = Some j \<longrightarrow> i \<in> set (list_at (m_queues s) (j_Queue j)))) \<and>
     (cur_state s i = StateScheduled \<longrightarrow> m_scheduled s i \<noteq> None) \<and>
     (cur_state s i = StateProcessing \<longrightarrow> m_processing s i \<noteq> None)"

definition service_inv :: "mstate \<Rightarrow> bool" where
  "service_inv s \<longleftrightarrow> mem_wf s \<and> (\<forall>i h. m_jobStates s i = Some h \<longrightarrow> sound_history h) \<and> (\<forall>i. placed s i)"

lemma sound_single: "js_Name st \<in> {StateEnqueued, StateScheduled} \<Longrightarrow> sound_history [st]"
  by (simp add: sound_history_def)

lemma sound_append: "sound_history h \<Longrightarrow> job_edge (last h) st \<Longrightarrow> sound_history (h @ [st])"
  by (auto simp: sound_history_def successively_append_iff)

lemma service_inv_wf: "service_inv s \<Longrightarrow> mem_wf s"
  by (simp add: service_inv_def)

lemma service_inv_sound: "service_inv s \<Longrightarrow> m_jobStates s i = Some h \<Longrightarrow> sound_history h"
  by (simp add: service_inv_def)

lemma service_inv_placed: "service_inv s \<Longrightarrow> placed s i"
  by (simp add: service_inv_def)

text \<open>The other jobs keep their history and their queue, and leave no place.\<close>

definition undisturbed :: "mstate \<Rightarrow> mstate \<Rightarrow> string \<Rightarrow> bool" where
  "undisturbed s s' k \<longleftrightarrow> m_jobStates s' k = m_jobStates s k \<and>
     map_option j_Queue (m_jobs s' k) = map_option j_Queue (m_jobs s k) \<and>
     (\<forall>q. k \<in> set (list_at (m_queues s) q) \<longrightarrow> k \<in> set (list_at (m_queues s') q)) \<and>
     (m_scheduled s k \<noteq> None \<longrightarrow> m_scheduled s' k \<noteq> None) \<and>
     (m_processing s k \<noteq> None \<longrightarrow> m_processing s' k \<noteq> None)"

lemma placed_undisturbed:
  assumes "placed s k" "undisturbed s s' k"
  shows "placed s' k"
proof -
  have cur: "cur_state s' k = cur_state s k" using assms(2) by (simp add: undisturbed_def cur_state_def list_at_def)
  have "k \<in> set (list_at (m_queues s') (j_Queue j))" if "cur_state s k = StateEnqueued" "m_jobs s' k = Some j" for j
  proof -
    from assms(2) that(2) obtain j0 where "m_jobs s k = Some j0" "j_Queue j0 = j_Queue j"
      by (cases "m_jobs s k") (simp_all add: undisturbed_def)
    with assms that(1) show ?thesis by (auto simp: placed_def undisturbed_def)
  qed
  with assms show ?thesis unfolding placed_def cur by (auto simp: undisturbed_def)
qed

lemma service_inv_move:
  assumes inv: "service_inv s" and wf: "mem_wf s'"
    and i: "\<And>h. m_jobStates s' i = Some h \<Longrightarrow> sound_history h" "placed s' i"
    and others: "\<And>k. k \<noteq> i \<Longrightarrow> undisturbed s s' k"
  shows "service_inv s'"
proof -
  have "sound_history h" if "m_jobStates s' k = Some h" for k h
    using that i(1) others [of k] service_inv_sound [OF inv, of k h] by (cases "k = i") (auto simp: undisturbed_def)
  moreover have "placed s' k" for k
    using i(2) placed_undisturbed [OF service_inv_placed [OF inv] others] by (cases "k = i") auto
  ultimately show ?thesis using wf by (simp add: service_inv_def)
qed

lemma service_inv_frame:
  assumes "service_inv s" "mem_wf s'" "\<And>k. undisturbed s s' k"
  shows "service_inv s'"
proof (rule service_inv_move [OF assms(1,2)])
  show "sound_history h" if "m_jobStates s' [] = Some h" for h
    using that assms(3) [of "[]"] service_inv_sound [OF assms(1)] by (simp add: undisturbed_def)
  show "placed s' []" using placed_undisturbed [OF service_inv_placed [OF assms(1)] assms(3)] .
qed (rule assms(3))

lemma last_known: "service_inv s \<Longrightarrow> m_jobStates s i = Some h \<Longrightarrow> current_of h = js_Name (last h)"
  using service_inv_sound [of s i h] by (simp add: sound_history_def current_of_def)

lemma service_inv_insert:
  assumes inv: "service_inv s" and q: "j_Queue j = q" "q \<noteq> ''''"
  shows "service_inv (mem_insert e q j s)"
proof (rule service_inv_move [OF inv, where i = "j_ID j"])
  show "mem_wf (mem_insert e q j s)" using inv q by (simp add: service_inv_wf mem_wf_insert)
  show "placed (mem_insert e q j s) (j_ID j)" using q by (simp add: placed_def cur_state_def)
qed (auto simp: sound_single undisturbed_def)

lemma service_inv_irrelevant [simp]:
  "service_inv (signal s) = service_inv s" "service_inv (count n d s) = service_inv s"
  "service_inv (s\<lparr>m_idempotency := x1\<rparr>) = service_inv s" "service_inv (s\<lparr>m_dequeueCh := x2\<rparr>) = service_inv s"
  "service_inv (s\<lparr>m_servers := x3\<rparr>) = service_inv s" "service_inv (s\<lparr>m_recurring := x4\<rparr>) = service_inv s"
  "service_inv (s\<lparr>m_locks := x5\<rparr>) = service_inv s" "service_inv (s\<lparr>m_continuations := x6\<rparr>) = service_inv s"
  by (simp_all add: service_inv_def placed_def cur_state_def)

lemma service_inv_Enqueue:
  "service_inv s \<Longrightarrow> j_Queue j = q \<Longrightarrow> q \<noteq> '''' \<Longrightarrow> service_inv (fst (mem_Enqueue e c q j s))"
  by (simp add: mem_Enqueue_def Let_def service_inv_insert)

lemma service_inv_EnqueueIdempotent:
  "service_inv s \<Longrightarrow> j_Queue j = q \<Longrightarrow> q \<noteq> '''' \<Longrightarrow> service_inv (fst (mem_EnqueueIdempotent e c q j s))"
  by (simp add: mem_EnqueueIdempotent_def Let_def service_inv_insert split: option.split)

lemma service_inv_AddScheduled:
  assumes inv: "service_inv s"
  shows "service_inv (fst (mem_AddScheduled e c at j s))"
proof (rule service_inv_move [OF inv, where i = "if j_ID j = '''' then new_uuid e 0 else j_ID j"])
  show "mem_wf (fst (mem_AddScheduled e c at j s))" by (rule mem_wf_AddScheduled [OF service_inv_wf [OF inv]])
qed (auto simp: mem_AddScheduled_def Let_def sound_single undisturbed_def placed_def cur_state_def split: if_splits)

lemma service_inv_scan:
  assumes inv: "service_inv s" and found: "dequeue_scan e True qs s = Found s' t"
  shows "service_inv s'"
proof -
  note wf = service_inv_wf [OF inv]
  obtain q i rest j where f: "list_at (m_queues s) q = i # rest" "m_jobs s i = Some j"
    "s' = dequeue_take e i (pop_queue q rest s)"
    using scan_foundE [OF found wf] by metis
  obtain h where h: "m_jobStates s i = Some h" using f(2) wf by (metis domIff mem_wf_def not_None_eq)
  show ?thesis
  proof (rule service_inv_move [OF inv, where i = i])
    show "mem_wf s'" by (rule mem_wf_scan [OF found wf])
    show "sound_history h'" if "m_jobStates s' i = Some h'" for h'
      using that h sound_append [OF service_inv_sound [OF inv h]]
      by (auto simp: f(3) pop_queue_def list_at_def job_edge_def)
    show "undisturbed s s' k" if "k \<noteq> i" for k
      using that f(1) by (auto simp: f(3) undisturbed_def pop_queue_def split: if_splits)
  qed (simp add: f(3) placed_def cur_state_def pop_queue_def)
qed

lemma service_inv_Apply:
  assumes inv: "service_inv s" and st: "js_Name st \<in> {StateSucceeded, StateFailed, StateCancelled, StateDead}"
    and edge: "\<And>a. js_Name a = cur \<Longrightarrow> job_edge a st"
  shows "service_inv (fst (mem_ApplyState e c i cur st s))"
proof (cases "\<exists>h. m_jobStates s i = Some h \<and> current_of h = cur")
  case True
  then obtain h where h: "m_jobStates s i = Some h" "current_of h = cur" by blast
  note wf = service_inv_wf [OF inv]
  note sp = ApplyState_spec [OF wf h, of e c st]
  have last: "js_Name (last h) = cur" using last_known [OF inv h(1)] h(2) by simp
  let ?st = "if js_CreatedAt st = 0 then st\<lparr>js_CreatedAt := now_at e 0\<rparr> else st"
  have "job_edge (last h) ?st" using edge [OF last] by (simp add: job_edge_def)
  then have sound: "sound_history (h @ [?st])" by (intro sound_append service_inv_sound [OF inv h(1)])
  show ?thesis
  proof (rule service_inv_move [OF inv, where i = i])
    show "mem_wf (fst (mem_ApplyState e c i cur st s))" by (rule mem_wf_ApplyState [OF wf])
    show "placed (fst (mem_ApplyState e c i cur st s)) i"
      using st by (auto simp: placed_def cur_state_def sp)
  qed (use sound in \<open>auto simp: sp undisturbed_def\<close>)
next
  case False
  then have "fst (mem_ApplyState e c i cur st s) = s"
    using ApplyState_fail [OF service_inv_wf [OF inv]] by (cases "m_jobStates s i") auto
  with inv show ?thesis by simp
qed

lemma service_inv_ScheduleRetry:
  assumes inv: "service_inv s"
  shows "service_inv (fst (mem_ScheduleRetry e c i at s))"
proof (cases "\<exists>h. m_jobStates s i = Some h \<and> current_of h = StateFailed")
  case True
  then obtain h where h: "m_jobStates s i = Some h" "current_of h = StateFailed" by blast
  note wf = service_inv_wf [OF inv]
  note sp = ScheduleRetry_spec [OF wf h, of e c at]
  have "js_Name (last h) = StateFailed" using last_known [OF inv h(1)] h(2) by simp
  then have "sound_history (h @ [new_state StateScheduled '''' [(''enqueue_at'', rfc3339 e at)] (now_at e 0)])"
    by (intro sound_append service_inv_sound [OF inv h(1)]) (simp add: job_edge_def)
  then show ?thesis
    by (intro service_inv_move [OF inv mem_wf_ScheduleRetry [OF wf], where i = i])
      (auto simp: sp undisturbed_def placed_def cur_state_def)
next
  case False
  then have "fst (mem_ScheduleRetry e c i at s) = s"
    using ScheduleRetry_fail [OF service_inv_wf [OF inv]] by (cases "m_jobStates s i") auto
  with inv show ?thesis by simp
qed

lemma service_inv_Requeue:
  assumes inv: "service_inv s"
  shows "service_inv (fst (mem_Requeue e c i why s))"
proof (cases "\<exists>h. m_jobStates s i = Some h \<and> \<not> IrreversibleStates (current_of h)")
  case True
  then obtain h where h: "m_jobStates s i = Some h" "\<not> IrreversibleStates (current_of h)" by blast
  note wf = service_inv_wf [OF inv]
  from mem_wf_hist_job [OF wf h(1)] obtain j where j: "m_jobs s i = Some j" by blast
  note sp = Requeue_spec [OF wf j h, of e c why]
  have "\<not> IrreversibleStates (js_Name (last h))" using last_known [OF inv h(1)] h(2) by simp
  then have "sound_history (h @ [new_state StateEnqueued why [] (now_at e 0)])"
    by (intro sound_append service_inv_sound [OF inv h(1)]) (simp add: job_edge_def)
  then show ?thesis
    by (intro service_inv_move [OF inv mem_wf_Requeue [OF wf], where i = i])
      (auto simp: sp undisturbed_def placed_def cur_state_def j)
next
  case False
  then have "fst (mem_Requeue e c i why s) = s"
    using Requeue_fail [OF service_inv_wf [OF inv]] by (cases "m_jobStates s i") auto
  with inv show ?thesis by simp
qed

lemma service_inv_DeleteJob:
  assumes inv: "service_inv s"
  shows "service_inv (fst (mem_DeleteJob e c i s))"
proof (cases "\<exists>h. m_jobStates s i = Some h \<and> \<not> IrreversibleStates (js_Name (last h))")
  case True
  then obtain h where h: "m_jobStates s i = Some h" "\<not> IrreversibleStates (js_Name (last h))" by blast
  note wf = service_inv_wf [OF inv]
  have sound: "sound_history (h @ [new_state StateDeleted '''' [] (now_at e 0)])"
    using h(2) by (intro sound_append service_inv_sound [OF inv h(1)]) (simp add: job_edge_def)
  have "h \<noteq> []" using mem_wf_nonempty [OF wf h(1)] .
  with h have d: "fst (mem_DeleteJob e c i s) = s\<lparr>m_jobStates := (m_jobStates s)(i \<mapsto> h @ [new_state StateDeleted '''' [] (now_at e 0)]),
      m_processing := (m_processing s)(i := None), m_progress := (m_progress s)(i := None)\<rparr>"
    by (simp add: mem_DeleteJob_def)
  show ?thesis
    using mem_wf_DeleteJob [OF wf, of e c i] sound
    by (intro service_inv_move [OF inv, where i = i]) (auto simp: d undisturbed_def placed_def cur_state_def)
next
  case False
  then have "fst (mem_DeleteJob e c i s) = s"
    by (auto simp: mem_DeleteJob_def Let_def split: option.split)
  with inv show ?thesis by simp
qed

lemma service_inv_SetJobResult: "service_inv s \<Longrightarrow> service_inv (fst (mem_SetJobResult c i r s))"
  by (rule service_inv_frame, assumption, rule mem_wf_SetJobResult, erule service_inv_wf)
    (auto simp: mem_SetJobResult_def Let_def undisturbed_def split: option.split)

lemma service_inv_HeartbeatJob: "service_inv s \<Longrightarrow> service_inv (fst (mem_HeartbeatJob e c i s))"
  by (rule service_inv_frame, assumption, rule mem_wf_HeartbeatJob, erule service_inv_wf)
    (auto simp: mem_HeartbeatJob_def undisturbed_def split: option.split)

lemma service_inv_forget: "service_inv s \<Longrightarrow> service_inv (mem_forget i s)"
  by (rule service_inv_move [where i = i], assumption, rule mem_wf_forget, erule service_inv_wf)
    (auto simp: mem_forget_def undisturbed_def placed_def cur_state_def list_at_def current_of_def)

lemma service_inv_expire: "service_inv s \<Longrightarrow> service_inv (fst (expire_loop cutoff is n s))"
  by (induction cutoff "is" n s rule: expire_loop.induct) (auto simp: service_inv_forget)

lemma service_inv_promoted:
  assumes inv: "service_inv s" and j: "m_jobs s i = Some j"
  shows "service_inv (push_back (j_Queue j) i (append_state i (new_state StateEnqueued ''scheduled'' [] t)
    (s\<lparr>m_scheduled := (m_scheduled s)(i := None)\<rparr>)))"
proof -
  note wf = service_inv_wf [OF inv]
  obtain h where h: "m_jobStates s i = Some h" using j wf by (metis domIff mem_wf_def not_None_eq)
  have "sound_history (h @ [new_state StateEnqueued ''scheduled'' [] t])"
    by (intro sound_append service_inv_sound [OF inv h]) (simp add: job_edge_def)
  moreover have "mem_wf (append_state i (new_state StateEnqueued ''scheduled'' [] t)
      (s\<lparr>m_scheduled := (m_scheduled s)(i := None)\<rparr>))"
    using wf j by (auto intro: mem_wf_append mem_wf_unschedule)
  ultimately show ?thesis
    by (intro service_inv_move [OF inv, where i = i])
      (auto simp: h j list_at_def undisturbed_def placed_def cur_state_def)
qed

lemma service_inv_promote:
  "service_inv s \<Longrightarrow> set is \<subseteq> dom (m_jobs s) \<Longrightarrow> service_inv (fst (mem_promote e n is s))"
proof (induction e n "is" s rule: mem_promote.induct)
  case (1 e n s)
  then show ?case by simp
next
  case (2 e n i "is" s)
  let ?s1 = "append_state i (new_state StateEnqueued ''scheduled'' [] (now_at e n))
    (s\<lparr>m_scheduled := (m_scheduled s)(i := None)\<rparr>)"
  from "2.prems" obtain j where j: "m_jobs s i = Some j" by auto
  have "service_inv (fst (mem_promote e (Suc n) is
      (count ''enqueued'' 1 (count ''scheduled'' (- 1) (push_back (j_Queue j) i ?s1)))))"
    using "2.prems" j by (intro "2.IH" [OF refl refl]) (auto simp: service_inv_promoted)
  with j show ?case by (simp add: Let_def case_prod_beta)
qed

lemma service_inv_GetDueScheduled:
  assumes "service_inv s"
  shows "service_inv (fst (mem_GetDueScheduled e c now n s))"
  using service_inv_promote [OF assms due_ids_known [OF service_inv_wf [OF assms]], of e 0 now n "key_order e"]
  by (auto simp: mem_GetDueScheduled_def Let_def split: prod.split result.split)

lemma service_inv_New: "service_inv mem_New"
  using mem_wf_New by (simp add: service_inv_def placed_def cur_state_def mem_New_def list_at_def current_of_def)

lemma service_inv_call: "service_call s s' \<Longrightarrow> service_inv s \<Longrightarrow> service_inv s'"
proof (induction rule: service_call.induct)
  case (Dequeue e qs s s' t)
  then show ?case by (blast intro: service_inv_scan)
next
  case (Finish st s e c i)
  then show ?case by (intro service_inv_Apply) (auto simp: job_edge_def)
next
  case (Exhaust st s e c i)
  then show ?case by (intro service_inv_Apply) (auto simp: job_edge_def)
next
  case (RemoveExpired s e c cutoff)
  then show ?case using service_inv_expire by (auto simp: mem_RemoveExpired_def Let_def case_prod_beta)
qed (auto intro: service_inv_Enqueue service_inv_EnqueueIdempotent service_inv_AddScheduled
    service_inv_Requeue service_inv_ScheduleRetry service_inv_SetJobResult service_inv_HeartbeatJob
    service_inv_GetDueScheduled service_inv_DeleteJob
    simp: mem_RegisterServer_def mem_UnregisterServer_def mem_Heartbeat_def
    mem_UpsertRecurring_def mem_RemoveRecurring_def mem_UpdateRecurringLastRun_def
    mem_AddContinuation_def mem_AcquireLock_def mem_Release_def Let_def split: option.split)

lemma service_inv_calls: "service_calls s s' \<Longrightarrow> service_inv s \<Longrightarrow> service_inv s'"
  by (induction rule: rtranclp_induct) (auto intro: service_inv_call)

end
