(* ===== verification/Service.thy ===== *)
theory Service
  imports Api_Properties Coordinator_Properties Service_Calls
begin

text \<open>
  The whole server over the in-memory store, at the grain of store calls. The locale \<open>served\<close> is what the
  routines of the server need of a store for everything they do to be a sequence of \<open>service_call\<close>s: each
  method they call is one. In it the theory goes once through every routine that writes: all HTTP
  handlers, the work on a ticket, the heartbeats, the scheduler, coordinator (with orphan recovery),
  sweep and cleanup loops, the recurring callback, start and stop. \<open>interleaved\<close> is the store as a goroutine
  sees it while others run: before each of its calls they act, so they act between any two calls of a
  routine. \<open>service\<close> is the closure of all routines under such interleaving.
\<close>

section \<open>What the routines ask of a store\<close>

locale served =
  fixes ops :: "'t storage_ops"
    and store :: "'t \<Rightarrow> mstate"
  assumes Enqueue: "j_ID j = '''' \<Longrightarrow> j_Queue j = q \<Longrightarrow> q \<noteq> '''' \<Longrightarrow>
      service_calls (store t) (store (fst (op_Enqueue ops e c q j t)))"
    and EnqueueIdempotent: "j_ID j = '''' \<Longrightarrow> j_Queue j = q \<Longrightarrow> q \<noteq> '''' \<Longrightarrow>
      service_calls (store t) (store (fst (op_EnqueueIdempotent ops e c q j t)))"
    and AddScheduled: "j_ID j = '''' \<Longrightarrow> service_calls (store t) (store (fst (op_AddScheduled ops e c at j t)))"
    and Requeue: "service_calls (store t) (store (fst (op_Requeue ops e c i why t)))"
    and Finish: "js_Name st \<in> {StateSucceeded, StateFailed, StateCancelled} \<Longrightarrow>
      service_calls (store t) (store (fst (op_ApplyState ops e c i StateProcessing st t)))"
    and Exhaust: "js_Name st = StateDead \<Longrightarrow>
      service_calls (store t) (store (fst (op_ApplyState ops e c i StateFailed st t)))"
    and ScheduleRetry: "service_calls (store t) (store (fst (op_ScheduleRetry ops e c i at t)))"
    and SetJobResult: "service_calls (store t) (store (fst (op_SetJobResult ops c i r t)))"
    and HeartbeatJob: "service_calls (store t) (store (fst (op_HeartbeatJob ops e c i t)))"
    and GetDueScheduled: "service_calls (store t) (store (fst (op_GetDueScheduled ops e c now n t)))"
    and RemoveExpired: "service_calls (store t) (store (fst (op_RemoveExpired ops e c cutoff t)))"
    and DeleteJob: "service_calls (store t) (store (fst (op_DeleteJob ops e c i t)))"
    and RegisterServer: "service_calls (store t) (store (fst (op_RegisterServer ops e c sv ttl t)))"
    and UnregisterServer: "service_calls (store t) (store (fst (op_UnregisterServer ops c i t)))"
    and Heartbeat: "service_calls (store t) (store (fst (op_Heartbeat ops e c i ttl t)))"
    and UpsertRecurring: "service_calls (store t) (store (fst (op_UpsertRecurring ops e c d t)))"
    and RemoveRecurring: "service_calls (store t) (store (fst (op_RemoveRecurring ops c i t)))"
    and UpdateRecurringLastRun: "service_calls (store t) (store (fst (op_UpdateRecurringLastRun ops e c i lr nr t)))"
    and AddContinuation: "service_calls (store t) (store (fst (op_AddContinuation ops e c i en t)))"
    and AcquireLock: "service_calls (store t) (store (fst (op_AcquireLock ops e c res ttl t)))"
    and Release: "service_calls (store t) (store (fst (op_Release ops c l t)))"

lemma and_then_kept:
  assumes "P (fst x)" and "\<And>s a. P s \<Longrightarrow> P (fst (f s a))"
  shows "P (fst (and_then x f))"
  using assms by (cases x; cases "snd x") auto

lemma request_job_fields: "request_job l req = Some job \<Longrightarrow> j_ID job = '''' \<and> j_Queue job \<noteq> ''''"
  by (auto simp: request_job_def Let_def or_else_def split: if_splits option.splits)

context served
begin

text \<open>The laws as they are used: from a start \<open>s0\<close>, one more call.\<close>

lemmas kept =
  rtranclp_trans [OF _ Enqueue] rtranclp_trans [OF _ EnqueueIdempotent] rtranclp_trans [OF _ AddScheduled]
  rtranclp_trans [OF _ Requeue] rtranclp_trans [OF _ Finish] rtranclp_trans [OF _ Exhaust]
  rtranclp_trans [OF _ ScheduleRetry] rtranclp_trans [OF _ SetJobResult] rtranclp_trans [OF _ HeartbeatJob]
  rtranclp_trans [OF _ GetDueScheduled] rtranclp_trans [OF _ RemoveExpired] rtranclp_trans [OF _ DeleteJob]
  rtranclp_trans [OF _ RegisterServer] rtranclp_trans [OF _ UnregisterServer] rtranclp_trans [OF _ Heartbeat]
  rtranclp_trans [OF _ UpsertRecurring] rtranclp_trans [OF _ RemoveRecurring]
  rtranclp_trans [OF _ UpdateRecurringLastRun] rtranclp_trans [OF _ AddContinuation]
  rtranclp_trans [OF _ AcquireLock] rtranclp_trans [OF _ Release]

section \<open>The work on a ticket\<close>

lemma fire_entries_calls:
  "service_calls s0 (store t) \<Longrightarrow> service_calls s0 (store (fire_entries ops cd w c ts r n entries t))"
  by (induction entries arbitrary: n t) (auto simp: Let_def split_beta kept)

lemma fireContinuations_calls:
  "service_calls s0 (store t) \<Longrightarrow> service_calls s0 (store (fireContinuations ops cd w c i ts t))"
  by (auto simp: fireContinuations_def fire_entries_calls split: result.split)

lemma finish_calls:
  "service_calls s0 (store t) \<Longrightarrow> service_calls s0 (store (fst (finish ops w c jitter job a out t)))"
  unfolding finish_def finalizeSuccess_def finalizeFailure_def Let_def
  by (auto intro!: and_then_kept [where P = "\<lambda>t. service_calls s0 (store t)"] kept split: ret.split option.split)

lemma processTicket_calls:
  assumes others: "\<And>x. service_calls (store (snd x)) (store (snd (others x)))"
  shows "service_calls (store t) (store (snd (processTicket ops cd w jc k jitter others tk en t)))"
proof (cases "op_GetJob ops None (t_JobID tk) t")
  case (Ok jw)
  define en1 where "en1 = registerCancel (j_ID (jw_Job jw)) k (incActive (j_Queue (jw_Job jw)) en)"
  obtain en2 t2 where o: "others (en1, t) = (en2, t2)" by fastforce
  with others [of "(en1, t)"] have t2: "service_calls (store t) (store t2)" by simp
  show ?thesis
    using finish_calls [OF t2] fireContinuations_calls Ok
    by (simp add: processTicket_def Let_def en1_def [symmetric] o split_beta split: result.split)
qed (simp_all add: processTicket_def)

lemma others_calls:
  "service_calls s0 (store t) \<Longrightarrow> (\<And>x. service_calls (store x) (store (f x))) \<Longrightarrow> service_calls s0 (store (f t))"
  by (meson rtranclp_trans)

lemma jobHeartbeat_calls:
  assumes "\<And>p x. p \<in> set bs \<Longrightarrow> service_calls (store x) (store (fst p x))"
  shows "service_calls s0 (store t) \<Longrightarrow> service_calls s0 (store (jobHeartbeat ops i bs t))"
  using assms
proof (induction bs arbitrary: t)
  case (Cons p bs)
  obtain f b where p: "p = (f, b)" by fastforce
  have "service_calls s0 (store (f t))" using others_calls [OF Cons.prems(1), of f] Cons.prems(2) [of p] p by simp
  then show ?case using Cons.IH Cons.prems(2) p by (auto simp: Let_def kept split: beat.split)
qed simp

section \<open>Timers\<close>

lemma tickScheduler_calls: "service_calls s0 (store t) \<Longrightarrow> service_calls s0 (store (tickScheduler ops w c cfg t))"
  by (simp add: tickScheduler_def kept)

lemma requeue_all_calls: "service_calls s0 (store t) \<Longrightarrow> service_calls s0 (store (requeue_all ops w c ts t))"
  by (induction ts arbitrary: w t) (auto simp: split_beta kept)

lemma coordinatorTick_calls: "service_calls s0 (store t) \<Longrightarrow> service_calls s0 (store (coordinatorTick ops w c cfg t))"
  by (auto simp: coordinatorTick_def split_beta requeue_all_calls kept split: result.split)

lemma sweep_servers_calls: "service_calls s0 (store t) \<Longrightarrow> service_calls s0 (store (sweep_servers ops c now th svs t))"
  by (induction svs arbitrary: t) (auto simp: Let_def split_beta kept)

lemma staleServerSweep_calls: "service_calls s0 (store t) \<Longrightarrow> service_calls s0 (store (staleServerSweep ops w c cfg t))"
  by (auto simp: staleServerSweep_def Let_def sweep_servers_calls split: result.split)

lemma cleanup_calls: "service_calls s0 (store t) \<Longrightarrow> service_calls s0 (store (cleanup_tick ops w c cfg t))"
  by (simp add: cleanup_tick_def Let_def kept)

lemma schedulerLoop_calls:
  assumes "\<And>p x. p \<in> set evs \<Longrightarrow> service_calls (store x) (store (fst p x))"
  shows "service_calls s0 (store t) \<Longrightarrow> service_calls s0 (store (schedulerLoop ops c cfg evs t))"
  using assms
proof (induction evs arbitrary: t)
  case (Cons p evs)
  obtain f ev where p: "p = (f, ev)" by fastforce
  have "service_calls s0 (store (f t))" using others_calls [OF Cons.prems(1), of f] Cons.prems(2) [of p] p by simp
  then show ?case using Cons.IH Cons.prems(2) p by (auto simp: Let_def tickScheduler_calls split: option.split)
qed simp

lemma coordinatorLoop_calls:
  assumes "\<And>p x. p \<in> set evs \<Longrightarrow> service_calls (store x) (store (fst p x))"
  shows "service_calls s0 (store t) \<Longrightarrow> service_calls s0 (store (coordinatorLoop ops c cfg evs t))"
  using assms
proof (induction evs arbitrary: t)
  case (Cons p evs)
  obtain f ev where p: "p = (f, ev)" by fastforce
  have "service_calls s0 (store (f t))" using others_calls [OF Cons.prems(1), of f] Cons.prems(2) [of p] p by simp
  then show ?case using Cons.IH Cons.prems(2) p
    by (auto simp: Let_def coordinatorTick_calls staleServerSweep_calls split: coordinator_event.split)
qed simp

lemma cleanupLoop_calls:
  assumes "\<And>p x. p \<in> set evs \<Longrightarrow> service_calls (store x) (store (fst p x))"
  shows "service_calls s0 (store t) \<Longrightarrow> service_calls s0 (store (cleanupLoop ops c cfg evs t))"
  using assms
proof (induction evs arbitrary: t)
  case (Cons p evs)
  obtain f ev where p: "p = (f, ev)" by fastforce
  have "service_calls s0 (store (f t))" using others_calls [OF Cons.prems(1), of f] Cons.prems(2) [of p] p by simp
  then show ?case using Cons.IH Cons.prems(2) p by (auto simp: Let_def cleanup_calls split: option.split)
qed simp

lemma fireFunc_calls: "service_calls (store t) (store (fireFunc ops cron w c entry t))"
  by (auto simp: fireFunc_def Let_def split_beta kept split: result.split)

lemma Start_calls: "service_calls (store t) (store (snd (fst (Start ops e parent en t))))"
  by (auto simp: Start_def Let_def split_beta kept split: result.split)

lemma Stop_calls: "service_calls (store t) (store (snd (fst (Stop ops drained err en t))))"
  by (auto simp: Stop_def Let_def split_beta kept)

section \<open>Requests\<close>

lemma submit_calls:
  "service_calls s0 (store t) \<Longrightarrow> j_ID j = '''' \<Longrightarrow> j_Queue j \<noteq> '''' \<Longrightarrow>
     service_calls s0 (store (fst (submit ops e c j t)))"
  by (simp add: submit_def split_beta kept)

lemma batch_loop_calls:
  "service_calls s0 (store t) \<Longrightarrow> service_calls s0 (store (fst (batch_loop l ops w c key i jrs t)))"
proof (induction jrs arbitrary: i t)
  case (Cons jr jrs)
  show ?case
  proof (cases "eq_Name jr = '''' \<or> request_job l jr = None")
    case True
    with Cons show ?thesis by (auto simp: Let_def split_beta)
  next
    case False
    then obtain job where job: "request_job l jr = Some job" "eq_Name jr \<noteq> ''''" by auto
    obtain t1 r where sub: "submit ops (w i) c (job\<lparr>j_IdempotencyKey := batch_key key i\<rparr>) t = (t1, r)" by fastforce
    have "service_calls s0 (store t1)"
      using submit_calls [OF Cons.prems, of "job\<lparr>j_IdempotencyKey := batch_key key i\<rparr>" "w i" c] sub
        request_job_fields [OF job(1)] by simp
    with Cons.IH job sub show ?thesis by (auto simp: Let_def split_beta split: result.split)
  qed
qed simp

lemma handleEnqueue_calls: "service_calls (store t) (store (fst (handleEnqueue l ops w r t)))"
  by (auto simp: handleEnqueue_def Let_def split_beta intro!: submit_calls dest!: request_job_fields
      split: result.split option.split)

lemma handleBatch_calls: "service_calls (store t) (store (fst (handleBatchEnqueue l ops w r t)))"
  by (auto simp: handleBatchEnqueue_def Let_def split_beta batch_loop_calls split: result.split)

lemma handleSchedule_calls: "service_calls (store t) (store (fst (handleSchedule l ops w r t)))"
  by (auto simp: handleSchedule_def Let_def split_beta kept split: result.split)

lemma handleContinue_calls: "service_calls (store t) (store (fst (handleContinue l ops w r i t)))"
  by (auto simp: handleContinue_def Let_def split_beta kept split: result.split)

lemma handleCreateRecurring_calls: "service_calls (store t) (store (fst (handleCreateRecurring l ops w r t)))"
  by (auto simp: handleCreateRecurring_def Let_def split_beta kept split: result.split)

lemma handleTrigger_calls: "service_calls (store t) (store (fst (handleTriggerRecurring l ops w r i t)))"
  by (auto simp: handleTriggerRecurring_def Let_def split_beta or_else_def kept split: result.split option.split)

lemma manage_calls:
  "service_calls (store t) (store (fst (handleRequeue ops e r i t)))"
  "service_calls (store t) (store (fst (handleDelete ops e r i t)))"
  "service_calls (store t) (store (fst (handleDeleteRecurring ops r i t)))"
  by (auto simp: handleRequeue_def handleDelete_def handleDeleteRecurring_def Let_def split_beta kept split: result.split)

lemma dispatch_calls:
  "ap_store sv = ops \<Longrightarrow> service_calls (store (fst x)) (store (fst (fst (dispatch sv w ep v r x))))"
  by (cases ep) (simp_all add: on_store_def keep_def Let_def split_beta handleEnqueue_calls handleBatch_calls
      handleSchedule_calls handleContinue_calls handleCreateRecurring_calls handleTrigger_calls manage_calls)

lemma Handler_calls:
  assumes "ap_store sv = ops"
  shows "service_calls (store (fst x)) (store (fst (fst (Handler sv w r x))))"
proof -
  have "service_calls (store (fst x)) (store (fst (fst (mux sv (later 1 w) (r\<lparr>rq_limit := a, rq_id := b\<rparr>) x))))" for a b
    using dispatch_calls [OF assms] by (auto simp: mux_def Let_def split_beta split: sum.split)
  then show ?thesis by (simp add: Handler_def Let_def bearerAuth_cases maxBody_def requestID_def split_beta)
qed

end

text \<open>A goroutine alone on the store makes exactly the calls of its routine.\<close>

interpretation alone: served memory_ops id
  by unfold_locales (auto intro: r_into_rtranclp service_call.intros)

section \<open>Interleaving\<close>

text \<open>
  The store as one goroutine sees it among others: a state is the store with the number of calls the
  goroutine has made. Before the \<open>n\<close>-th call the others do \<open>others n\<close>; a method that only reads, called
  after \<open>n\<close> writing ones, sees what \<open>seen n\<close> and its name say. \<^verbatim>\<open>Dequeue\<close> carries its own interference.
\<close>

definition turn :: "(nat \<Rightarrow> 's \<Rightarrow> 's) \<Rightarrow> ('s \<Rightarrow> 's \<times> 'r) \<Rightarrow> 's \<times> nat \<Rightarrow> ('s \<times> nat) \<times> 'r" where
  "turn others f t = (let (s, r) = f (others (snd t) (fst t)) in ((s, Suc (snd t)), r))"

definition look :: "(nat \<Rightarrow> string \<Rightarrow> 's \<Rightarrow> 's) \<Rightarrow> string \<Rightarrow> ('s \<Rightarrow> 'r) \<Rightarrow> 's \<times> nat \<Rightarrow> 'r" where
  "look seen m f t = f (seen (snd t) m (fst t))"

definition interleaved ::
  "(nat \<Rightarrow> mstate \<Rightarrow> mstate) \<Rightarrow> (nat \<Rightarrow> string \<Rightarrow> mstate \<Rightarrow> mstate) \<Rightarrow> (mstate \<times> nat) storage_ops" where
  "interleaved others seen = \<lparr>
     op_Enqueue = \<lambda>e c q j. turn others (mem_Enqueue e c q j),
     op_Dequeue = \<lambda>e c qs ws t. map_option (\<lambda>(s, r). ((s, Suc (snd t)), r))
       (mem_Dequeue e c qs (map (\<lambda>(f, k). (\<lambda>s. fst (f (s, snd t)), k)) ws) (fst t)),
     op_Requeue = \<lambda>e c i why. turn others (mem_Requeue e c i why),
     op_ApplyState = \<lambda>e c i cur st. turn others (mem_ApplyState e c i cur st),
     op_HeartbeatJob = \<lambda>e c i. turn others (mem_HeartbeatJob e c i),
     op_GetOrphanedJobs = \<lambda>e c d. look seen ''GetOrphanedJobs'' (mem_GetOrphanedJobs e c d),
     op_GetJob = \<lambda>c i. look seen ''GetJob'' (mem_GetJob c i),
     op_GetJobsByState = \<lambda>e c st off n. look seen ''GetJobsByState'' (mem_GetJobsByState e c st off n),
     op_GetQueueLength = \<lambda>c q. look seen ''GetQueueLength'' (mem_GetQueueLength c q),
     op_GetQueues = \<lambda>e c. look seen ''GetQueues'' (mem_GetQueues e c),
     op_RegisterServer = \<lambda>e c sv ttl. turn others (mem_RegisterServer e c sv ttl),
     op_UnregisterServer = \<lambda>c i. turn others (mem_UnregisterServer c i),
     op_Heartbeat = \<lambda>e c i ttl. turn others (mem_Heartbeat e c i ttl),
     op_GetServers = \<lambda>e c. look seen ''GetServers'' (mem_GetServers e c),
     op_AddScheduled = \<lambda>e c at j. turn others (mem_AddScheduled e c at j),
     op_GetDueScheduled = \<lambda>e c now n. turn others (mem_GetDueScheduled e c now n),
     op_RemoveScheduled = \<lambda>c i. turn others (mem_RemoveScheduled c i),
     op_UpsertRecurring = \<lambda>e c d. turn others (mem_UpsertRecurring e c d),
     op_RemoveRecurring = \<lambda>c i. turn others (mem_RemoveRecurring c i),
     op_GetRecurringJobs = \<lambda>e c. look seen ''GetRecurringJobs'' (mem_GetRecurringJobs e c),
     op_UpdateRecurringLastRun = \<lambda>e c i lr nr. turn others (mem_UpdateRecurringLastRun e c i lr nr),
     op_AddContinuation = \<lambda>e c i en. turn others (mem_AddContinuation e c i en),
     op_GetContinuations = \<lambda>c i. look seen ''GetContinuations'' (mem_GetContinuations c i),
     op_RemoveContinuations = \<lambda>c i. turn others (mem_RemoveContinuations c i),
     op_IncrementCounter = \<lambda>c k d. turn others (mem_IncrementCounter c k d),
     op_GetCounter = \<lambda>c k. look seen ''GetCounter'' (mem_GetCounter c k),
     op_GetAllCounters = \<lambda>e c skip n. look seen ''GetAllCounters'' (mem_GetAllCounters e c skip n),
     op_AcquireLock = \<lambda>e c res ttl. turn others (mem_AcquireLock e c res ttl),
     op_Release = \<lambda>c l. turn others (mem_Release c l),
     op_RemoveExpired = \<lambda>e c cutoff. turn others (mem_RemoveExpired e c cutoff),
     op_ScheduleRetry = \<lambda>e c i at. turn others (mem_ScheduleRetry e c i at),
     op_SetJobResult = \<lambda>c i r. turn others (mem_SetJobResult c i r),
     op_DeleteJob = \<lambda>e c i. turn others (mem_DeleteJob e c i),
     op_EnqueueIdempotent = \<lambda>e c q j. turn others (mem_EnqueueIdempotent e c q j),
     op_Close = turn others mem_Close\<rparr>"

lemma turn_calls:
  assumes "\<And>n s. service_calls s (others n s)" "\<And>s. service_call s (fst (f s))"
  shows "service_calls (fst t) (fst (fst (turn others f t)))"
  using rtranclp.rtrancl_into_rtrancl [OF assms(1) assms(2)] by (simp add: turn_def split_beta)

lemma interleaved_served:
  assumes "\<And>n s. service_calls s (others n s)"
  shows "served (interleaved others seen) fst"
  by unfold_locales (simp_all add: interleaved_def turn_calls [OF assms] service_call.intros)

section \<open>The running service\<close>

text \<open>
  \<open>service s s'\<close>: the server can take the store from \<open>s\<close> to \<open>s'\<close>. Every rule runs one routine on the interleaved
  store; whatever acts in between (\<open>others\<close>, or the functions in the lists of what a loop receives) is again
  the service. Nothing is assumed about what reading methods see.
\<close>

inductive service :: "mstate \<Rightarrow> mstate \<Rightarrow> bool" where
  idle: "service s s"
| seq: "service s s1 \<Longrightarrow> service s1 s2 \<Longrightarrow> service s s2"
| start: "(\<And>n x. service x (others n x)) \<Longrightarrow>
    service s (fst (snd (fst (Start (interleaved others seen) e parent en (s, 0)))))"
| request: "(\<And>n x. service x (others n x)) \<Longrightarrow> ap_store sv = interleaved others seen \<Longrightarrow>
    service s (fst (fst (fst (Handler sv w r ((s, 0), eng)))))"
| claim: "(\<And>p x. p \<in> set ws \<Longrightarrow> service x (fst p x)) \<Longrightarrow> mem_Dequeue e c qs ws s = Some (s', r) \<Longrightarrow> service s s'"
| work: "(\<And>n x. service x (others n x)) \<Longrightarrow> (\<And>y. service (fst (snd y)) (fst (snd (meanwhile y)))) \<Longrightarrow>
    service s (fst (snd (processTicket (interleaved others seen) cd w jc k jitter meanwhile t en (s, 0))))"
| beats: "(\<And>n x. service x (others n x)) \<Longrightarrow> (\<And>p y. p \<in> set bs \<Longrightarrow> service (fst y) (fst (fst p y))) \<Longrightarrow>
    service s (fst (jobHeartbeat (interleaved others seen) i bs (s, 0)))"
| schedule: "(\<And>n x. service x (others n x)) \<Longrightarrow> (\<And>p y. p \<in> set evs \<Longrightarrow> service (fst y) (fst (fst p y))) \<Longrightarrow>
    service s (fst (schedulerLoop (interleaved others seen) c cfg evs (s, 0)))"
| coordinate: "(\<And>n x. service x (others n x)) \<Longrightarrow> (\<And>p y. p \<in> set cevs \<Longrightarrow> service (fst y) (fst (fst p y))) \<Longrightarrow>
    service s (fst (coordinatorLoop (interleaved others seen) c cfg cevs (s, 0)))"
| cleanup: "(\<And>n x. service x (others n x)) \<Longrightarrow> (\<And>p y. p \<in> set evs \<Longrightarrow> service (fst y) (fst (fst p y))) \<Longrightarrow>
    service s (fst (cleanupLoop (interleaved others seen) c cfg evs (s, 0)))"
| fire: "(\<And>n x. service x (others n x)) \<Longrightarrow>
    service s (fst (fireFunc (interleaved others seen) cron w cs d (s, 0)))"
| stop: "(\<And>n x. service x (others n x)) \<Longrightarrow>
    service s (fst (snd (fst (Stop (interleaved others seen) drained err en (s, 0)))))"

text \<open>However the routines interleave, what reaches the store is a sequence of calls.\<close>

lemma service_only_calls: "service s s' \<Longrightarrow> service_calls s s'"
proof (induction rule: service.induct)
  case (seq s s1 s2)
  then show ?case by (blast intro: rtranclp_trans)
next
  case (start others s seen e parent en)
  then show ?case using served.Start_calls [OF interleaved_served, of others "(s, 0)" seen e parent en] by simp
next
  case (request others sv seen s w r eng)
  then show ?case using served.Handler_calls [OF interleaved_served, of others sv seen "((s, 0), eng)" w r] by simp
next
  case (claim ws e c qs s s' r)
  then show ?case by (blast intro: Dequeue_calls(1))
next
  case (work others meanwhile s seen cd w jc k jitter t en)
  then show ?case
    using served.processTicket_calls [OF interleaved_served, of others meanwhile "(s, 0)" seen cd w jc k jitter t en] by simp
next
  case (beats others bs s seen i)
  then show ?case using served.jobHeartbeat_calls [OF interleaved_served, of others bs s "(s, 0)" seen i] by simp
next
  case (schedule others evs s seen c cfg)
  then show ?case using served.schedulerLoop_calls [OF interleaved_served, of others evs s "(s, 0)" seen c cfg] by simp
next
  case (coordinate others cevs s seen c cfg)
  then show ?case using served.coordinatorLoop_calls [OF interleaved_served, of others cevs s "(s, 0)" seen c cfg] by simp
next
  case (cleanup others evs s seen c cfg)
  then show ?case using served.cleanupLoop_calls [OF interleaved_served, of others evs s "(s, 0)" seen c cfg] by simp
next
  case (fire others s seen cron w cs d)
  then show ?case using served.fireFunc_calls [OF interleaved_served, of others "(s, 0)" seen cron w cs d] by simp
next
  case (stop others s seen drained err en)
  then show ?case using served.Stop_calls [OF interleaved_served, of others "(s, 0)" seen drained err en] by simp
qed simp

lemma service_keeps: "service s s' \<Longrightarrow> service_inv s \<Longrightarrow> service_inv s'"
  by (rule service_inv_calls [OF service_only_calls])

end
