(* ===== verification/Worker_Pool.thy ===== *)
theory Worker_Pool
  imports Engine_Properties
begin

text \<open>
  The worker pool (\<^verbatim>\<open>workerLoop\<close> of \<^verbatim>\<open>internal/engine/worker.go\<close>) as interleaved program counters.
  \<open>Loop\<close> is the head of the outer loop, \<open>Backoff d\<close> the inner loop that waits while every queue is at
  its limit, \<open>Fetch qs\<close> the blocking Dequeue on the queues chosen before, \<open>Hold t\<close> a worker with a
  ticket, \<open>Run c jw\<close> one between \<^verbatim>\<open>incActive\<close> and the deferred \<^verbatim>\<open>decActive\<close> with its cancel function \<open>c\<close>,
  \<open>Exited\<close> one that returned. A step of the pool is one atomic section of one worker, a cancellation of the run
  context, or any activity of the rest of the system on the store.
\<close>

section \<open>One worker\<close>

datatype pc =
    Loop
  | Backoff duration
  | Fetch "string list"
  | Hold jobTicket
  | Run nat jobWithStates
  | Exited

definition ctx_done :: "engine \<Rightarrow> bool" where
  "ctx_done en \<longleftrightarrow> (case e_runCtx en of Some (Some _) \<Rightarrow> True | _ \<Rightarrow> False)"

definition initialBackoff :: duration where
  "initialBackoff = 100 * millisecond"

definition next_backoff :: "duration \<Rightarrow> duration" where
  "next_backoff backoff =
     (let backoff = backoff * 2 in
      if sint backoff > sint (2 * second) then 2 * second else backoff)"

definition worker_top :: "engine \<Rightarrow> pc" where
  "worker_top en =
     (if ctx_done en then Exited
      else
        let queues = queuesUnderLimit en in
        if queues = [] then Backoff initialBackoff else Fetch queues)"

text \<open>After the timer of length \<open>d\<close>, or when the context ends first.\<close>

definition worker_backoff :: "duration \<Rightarrow> engine \<Rightarrow> pc" where
  "worker_backoff d en =
     (if ctx_done en then Exited
      else if queuesUnderLimit en \<noteq> [] then Loop
      else Backoff (next_backoff d))"

definition worker_fetched :: "jobTicket result \<Rightarrow> pc" where
  "worker_fetched r =
     (case r of
        Ok t \<Rightarrow> Hold t
      | Err err \<Rightarrow>
          if errors_Is err CtxCanceled \<or> errors_Is err CtxDeadlineExceeded then Exited
          else if isQueueEmpty err then Loop
          else Loop
      | Panic _ \<Rightarrow> Exited)"

definition begin_job :: "nat \<Rightarrow> jobWithStates \<Rightarrow> engine \<Rightarrow> engine" where
  "begin_job cancel jw en =
     registerCancel (j_ID (jw_Job jw)) cancel (incActive (j_Queue (jw_Job jw)) en)"

definition end_job :: "nat \<Rightarrow> jobWithStates \<Rightarrow> engine \<Rightarrow> engine" where
  "end_job cancel jw en =
     (let en = unregisterCancel (j_ID (jw_Job jw)) en;
          en = en\<lparr>e_cancelled := insert cancel (e_cancelled en)\<rparr>
      in decActive (j_Queue (jw_Job jw)) en)"

text \<open>These are the two atomic sections of \<open>processTicket\<close> on the engine, around the handler.\<close>

lemma processTicket_sections:
  assumes "op_GetJob ops None (t_JobID t) s = Ok jw"
  shows "fst (processTicket ops cd w jc cancel jitter others t en s) =
    end_job cancel jw (fst (others (begin_job cancel jw en, s)))"
  using assms by (simp add: processTicket_def begin_job_def end_job_def Let_def split_beta)

section \<open>The pool\<close>

record pool =
  po_engine :: engine
  po_workers :: "pc list"
  po_store :: mstate

inductive pool_step :: "pool \<Rightarrow> pool \<Rightarrow> bool" where
  Top: "k < length (po_workers p) \<Longrightarrow> po_workers p ! k = Loop \<Longrightarrow>
    pool_step p (p\<lparr>po_workers := (po_workers p)[k := worker_top (po_engine p)]\<rparr>)"
| Wait: "k < length (po_workers p) \<Longrightarrow> po_workers p ! k = Backoff d \<Longrightarrow>
    pool_step p (p\<lparr>po_workers := (po_workers p)[k := worker_backoff d (po_engine p)]\<rparr>)"
| FetchOk: "k < length (po_workers p) \<Longrightarrow> po_workers p ! k = Fetch qs \<Longrightarrow>
    dequeue_scan e True qs (po_store p) = Found s' t \<Longrightarrow>
    pool_step p (p\<lparr>po_workers := (po_workers p)[k := worker_fetched (Ok t)], po_store := s'\<rparr>)"
| FetchErr: "k < length (po_workers p) \<Longrightarrow> po_workers p ! k = Fetch qs \<Longrightarrow>
    pool_step p (p\<lparr>po_workers := (po_workers p)[k := worker_fetched (Err err)]\<rparr>)"
| Begin: "k < length (po_workers p) \<Longrightarrow> po_workers p ! k = Hold t \<Longrightarrow>
    mem_GetJob None (t_JobID t) (po_store p) = Ok jw \<Longrightarrow>
    pool_step p (p\<lparr>po_workers := (po_workers p)[k := Run cancel jw],
      po_engine := begin_job cancel jw (po_engine p)\<rparr>)"
| Missing: "k < length (po_workers p) \<Longrightarrow> po_workers p ! k = Hold t \<Longrightarrow>
    mem_GetJob None (t_JobID t) (po_store p) = Err err \<Longrightarrow>
    pool_step p (p\<lparr>po_workers := (po_workers p)[k := Loop]\<rparr>)"
| End: "k < length (po_workers p) \<Longrightarrow> po_workers p ! k = Run cancel jw \<Longrightarrow>
    pool_step p (p\<lparr>po_workers := (po_workers p)[k := Loop],
      po_engine := end_job cancel jw (po_engine p)\<rparr>)"
| Cancelled: "pool_step p (p\<lparr>po_engine := (po_engine p)\<lparr>e_runCtx := Some (Some CtxCanceled)\<rparr>\<rparr>)"
| Store: "pool_step p (p\<lparr>po_store := s\<rparr>)"

definition pool_start :: "engine \<Rightarrow> mstate \<Rightarrow> pool" where
  "pool_start en s = \<lparr>po_engine = en, po_workers = replicate (nat (cfg_Workers (e_cfg en))) Loop,
     po_store = s\<rparr>"

definition running_on :: "string \<Rightarrow> pc \<Rightarrow> bool" where
  "running_on q w \<longleftrightarrow> (case w of Run _ jw \<Rightarrow> j_Queue (jw_Job jw) = q | _ \<Rightarrow> False)"

definition in_flight :: "string \<Rightarrow> pool \<Rightarrow> nat" where
  "in_flight q p = length (filter (running_on q) (po_workers p))"

definition pool_inv :: "engine \<Rightarrow> pool \<Rightarrow> bool" where
  "pool_inv en0 p \<longleftrightarrow> length (po_workers p) = nat (cfg_Workers (e_cfg en0)) \<and>
     e_cfg (po_engine p) = e_cfg en0 \<and>
     (\<forall>q. int_at (e_active (po_engine p)) q = int (in_flight q p))"

section \<open>Lemmas\<close>

lemma filter_length_upd:
  "k < length xs \<Longrightarrow> length (filter P (xs[k := x])) + (if P (xs ! k) then 1 else 0) =
     length (filter P xs) + (if P x then 1 else 0)"
proof (induction xs arbitrary: k)
  case (Cons y ys)
  show ?case
  proof (cases k)
    case (Suc k')
    with Cons.IH [of k'] Cons.prems show ?thesis by (cases "P y") simp_all
  qed simp
qed simp

lemma in_flight_upd:
  assumes "k < length (po_workers p)"
  shows "in_flight q (p\<lparr>po_workers := (po_workers p)[k := x]\<rparr>) +
      (if running_on q (po_workers p ! k) then 1 else 0) = in_flight q p + (if running_on q x then 1 else 0)"
  using filter_length_upd [OF assms, of "running_on q" x] by (simp add: in_flight_def)

lemma in_flight_frame [simp]:
  "in_flight q (p\<lparr>po_engine := en\<rparr>) = in_flight q p" "in_flight q (p\<lparr>po_store := s\<rparr>) = in_flight q p"
  by (simp_all add: in_flight_def)

lemma running_on_simps [simp]:
  "running_on q (Run c jw) = (j_Queue (jw_Job jw) = q)" "\<not> running_on q Loop" "\<not> running_on q (Backoff d)"
  "\<not> running_on q (Fetch qs)" "\<not> running_on q (Hold t)" "\<not> running_on q Exited"
  by (simp_all add: running_on_def)

lemma idle_targets [simp]:
  "\<not> running_on q (worker_top en)" "\<not> running_on q (worker_backoff d en)" "\<not> running_on q (worker_fetched r)"
  by (simp_all add: worker_top_def worker_backoff_def worker_fetched_def Let_def split: result.split)

lemma pool_inv_idle:
  assumes inv: "pool_inv en0 p" and k: "k < length (po_workers p)"
    and old: "\<forall>q. \<not> running_on q (po_workers p ! k)" and new: "\<forall>q. \<not> running_on q x"
  shows "pool_inv en0 (p\<lparr>po_workers := (po_workers p)[k := x]\<rparr>)"
  using inv in_flight_upd [OF k, where x = x] old new by (simp add: pool_inv_def)

lemma pool_inv_store: "pool_inv en0 p \<Longrightarrow> pool_inv en0 (p\<lparr>po_store := s\<rparr>)"
  by (simp add: pool_inv_def)

lemma pool_inv_begin:
  assumes inv: "pool_inv en0 p" and k: "k < length (po_workers p)" "po_workers p ! k = Hold t"
  shows "pool_inv en0 (p\<lparr>po_workers := (po_workers p)[k := Run cancel jw], po_engine := begin_job cancel jw (po_engine p)\<rparr>)"
proof -
  have "int (in_flight q (p\<lparr>po_workers := (po_workers p)[k := Run cancel jw]\<rparr>)) =
      int (in_flight q p) + (if q = j_Queue (jw_Job jw) then 1 else 0)" for q
    using in_flight_upd [OF k(1), of q "Run cancel jw"] k(2) by (auto split: if_splits)
  then show ?thesis
    using inv by (simp add: pool_inv_def begin_job_def int_at_incActive in_flight_def)
qed

lemma pool_inv_end:
  assumes inv: "pool_inv en0 p" and k: "k < length (po_workers p)" "po_workers p ! k = Run cancel jw"
  shows "pool_inv en0 (p\<lparr>po_workers := (po_workers p)[k := Loop], po_engine := end_job cancel jw (po_engine p)\<rparr>)"
proof -
  have upd: "int (in_flight q (p\<lparr>po_workers := (po_workers p)[k := Loop]\<rparr>)) =
      int (in_flight q p) - (if q = j_Queue (jw_Job jw) then 1 else 0)" for q
    using in_flight_upd [OF k(1), of q Loop] k(2) by (auto split: if_splits)
  have "0 < in_flight (j_Queue (jw_Job jw)) p"
    using in_flight_upd [OF k(1), of "j_Queue (jw_Job jw)" Loop] k(2) by simp
  then show ?thesis
    using inv upd by (simp add: pool_inv_def end_job_def Let_def int_at_decActive in_flight_def)
qed

lemma pool_inv_step: "pool_step p p' \<Longrightarrow> pool_inv en0 p \<Longrightarrow> pool_inv en0 p'"
proof (induction rule: pool_step.induct)
  case (FetchOk k p qs e s' t)
  then show ?case
    using pool_inv_store [OF pool_inv_idle [of en0 p k "worker_fetched (Ok t)"], of s'] by simp
next
  case (Begin k p t jw cancel)
  then show ?case by (blast intro: pool_inv_begin)
next
  case (End k p cancel jw)
  then show ?case by (blast intro: pool_inv_end)
next
  case (Cancelled p)
  then show ?case by (simp add: pool_inv_def)
next
  case (Store p s)
  then show ?case by (rule pool_inv_store)
qed (simp_all add: pool_inv_idle)

lemma pool_inv_start: "\<forall>q. int_at (e_active en) q = 0 \<Longrightarrow> pool_inv en (pool_start en s)"
  by (simp add: pool_inv_def pool_start_def in_flight_def)

lemma pool_inv_run:
  "pool_step\<^sup>*\<^sup>* (pool_start en s) p \<Longrightarrow> \<forall>q. int_at (e_active en) q = 0 \<Longrightarrow> pool_inv en p"
  by (induction rule: rtranclp_induct) (auto intro: pool_inv_start pool_inv_step)

section \<open>The wait of an idle worker and the limits\<close>

text \<open>
  The waiting time of a worker that finds every queue at its limit doubles from a tenth of a second
  and stays at two seconds: the \<open>n\<close>-th wait lasts exactly \<open>min (100 ms * 2 ^ n) (2 s)\<close>.
\<close>
lemma backoff_closed:
  "sint ((next_backoff ^^ n) initialBackoff) = min (100000000 * 2 ^ n) 2000000000"
proof (induction n)
  case 0
  then show ?case by (simp add: initialBackoff_def duration_units)
next
  case (Suc n)
  let ?d = "(next_backoff ^^ n) initialBackoff"
  have pow: "(1::int) \<le> 2 ^ n" by simp
  then have lo: "0 \<le> sint ?d" "sint ?d \<le> 2000000000" using Suc by auto
  have "sint (?d * 2) = sint ?d * 2"
    using lo by (simp add: sint_word_ariths signed_take_bit_int_eq_self)
  then have "sint (next_backoff ?d) = min (sint ?d * 2) 2000000000"
    by (simp add: next_backoff_def Let_def duration_units min_def)
  with Suc show ?case by (simp add: min_def)
qed

definition capped_config :: config where
  "capped_config = (DefaultConfig 1)\<lparr>cfg_QueueLimits := [''default'' \<mapsto> 1]\<rparr>"

definition two_waiting :: mstate where
  "two_waiting = fst (mem_Enqueue (test_env 6 ''b'' []) None ''default'' demo_job demo_enqueued)"

lemma two_waiting_facts:
  "core_reachable two_waiting" "list_at (m_queues two_waiting) ''default'' = [''a'', ''b'']"
  "m_jobs two_waiting ''a'' = Some (mem_fill_job (test_env 5 ''a'' []) demo_job)"
  "m_jobs two_waiting ''b'' = Some (mem_fill_job (test_env 6 ''b'' []) demo_job)"
proof -
  show "core_reachable two_waiting"
    unfolding two_waiting_def
    by (rule core_reachable.step [OF demo_enqueued_core core_step.Enqueue]) (simp_all add: demo_job_def)
qed (simp_all add: two_waiting_def mem_Enqueue_def Let_def demo_job_def list_at_def)

text \<open>
  The per-queue limit is checked before the job is fetched but counted only after: with a limit of
  one on a queue, two workers that both pass the check before either has counted its job both fetch
  and run a job of that queue, so two jobs are in flight where the limit allows one.
\<close>
lemma limit_overshoot:
  "\<exists>p. cfg_QueueLimits (e_cfg (po_engine p)) ''default'' = Some 1 \<and>
     pool_step\<^sup>*\<^sup>* (pool_start (engine_New 1 capped_config EchoRunner) two_waiting) p \<and>
     in_flight ''default'' p = 2"
proof -
  define en where "en = engine_New 1 capped_config EchoRunner"
  define ja jb where "ja = mem_fill_job (test_env 5 ''a'' []) demo_job" and "jb = mem_fill_job (test_env 6 ''b'' []) demo_job"
  have j: "j_ID ja = ''a''" "j_ID jb = ''b''" "j_Queue ja = ''default''" "j_Queue jb = ''default''"
    by (simp_all add: ja_def jb_def demo_job_def)
  have top: "worker_top en = Fetch [''default'']"
    by (simp add: worker_top_def ctx_done_def en_def engine_New_def queuesUnderLimit_def normalize_def
        capped_config_def DefaultConfig_def int_at_def Let_def)
  let ?e = "test_env 7 [] []"
  define s1 where "s1 = dequeue_take ?e ''a'' (pop_queue ''default'' [''b''] two_waiting)"
  define s2 where "s2 = dequeue_take ?e ''b'' (pop_queue ''default'' [] s1)"
  have f1: "dequeue_scan ?e True [''default''] two_waiting = Found s1 (dequeue_ticket ?e ''a'')"
    unfolding s1_def by (rule scan_found [where j = ja]) (simp_all add: two_waiting_facts j ja_def [symmetric])
  have m1: "list_at (m_queues s1) ''default'' = [''b'']" "m_jobs s1 = m_jobs two_waiting"
    by (simp_all add: s1_def pop_queue_def)
  have f2: "dequeue_scan ?e True [''default''] s1 = Found s2 (dequeue_ticket ?e ''b'')"
    unfolding s2_def by (rule scan_found [where j = jb]) (simp_all add: m1 two_waiting_facts j jb_def [symmetric])
  have m2: "m_jobs s2 = m_jobs two_waiting" by (simp add: s2_def m1 pop_queue_def)
  obtain h where g: "mem_GetJob None ''a'' s2 = Ok \<lparr>jw_Job = ja, jw_States = h\<rparr>"
    by (simp add: mem_GetJob_def m2 two_waiting_facts ja_def)
  obtain h' where g': "mem_GetJob None ''b'' s2 = Ok \<lparr>jw_Job = jb, jw_States = h'\<rparr>"
    by (simp add: mem_GetJob_def m2 two_waiting_facts jb_def)
  let ?ja = "\<lparr>jw_Job = ja, jw_States = h\<rparr>" and ?jb = "\<lparr>jw_Job = jb, jw_States = h'\<rparr>"
  let ?p = "\<lambda>en ws s. \<lparr>po_engine = en, po_workers = ws, po_store = s\<rparr>"
  let ?q = "[''default'']" and ?ta = "dequeue_ticket ?e ''a''" and ?tb = "dequeue_ticket ?e ''b''"
  have start: "pool_start en two_waiting = ?p en [Loop, Loop] two_waiting"
    by (simp add: pool_start_def en_def engine_New_def normalize_def capped_config_def DefaultConfig_def eval_nat_numeral)
  have 1: "pool_step (?p en [Loop, Loop] two_waiting) (?p en [Fetch ?q, Loop] two_waiting)"
    using pool_step.Top [of 0 "?p en [Loop, Loop] two_waiting"] by (simp add: top)
  have 2: "pool_step (?p en [Fetch ?q, Loop] two_waiting) (?p en [Fetch ?q, Fetch ?q] two_waiting)"
    using pool_step.Top [of 1 "?p en [Fetch ?q, Loop] two_waiting"] by (simp add: top)
  have 3: "pool_step (?p en [Fetch ?q, Fetch ?q] two_waiting) (?p en [Hold ?ta, Fetch ?q] s1)"
    using pool_step.FetchOk [of 0 "?p en [Fetch ?q, Fetch ?q] two_waiting" ?q ?e s1 ?ta] f1
    by (simp add: worker_fetched_def)
  have 4: "pool_step (?p en [Hold ?ta, Fetch ?q] s1) (?p en [Hold ?ta, Hold ?tb] s2)"
    using pool_step.FetchOk [of 1 "?p en [Hold ?ta, Fetch ?q] s1" ?q ?e s2 ?tb] f2
    by (simp add: worker_fetched_def)
  have 5: "pool_step (?p en [Hold ?ta, Hold ?tb] s2) (?p (begin_job 0 ?ja en) [Run 0 ?ja, Hold ?tb] s2)"
    using pool_step.Begin [of 0 "?p en [Hold ?ta, Hold ?tb] s2" ?ta ?ja 0] g by (simp add: dequeue_ticket_def)
  have 6: "pool_step (?p (begin_job 0 ?ja en) [Run 0 ?ja, Hold ?tb] s2)
      (?p (begin_job 1 ?jb (begin_job 0 ?ja en)) [Run 0 ?ja, Run 1 ?jb] s2)"
    using pool_step.Begin [of 1 "?p (begin_job 0 ?ja en) [Run 0 ?ja, Hold ?tb] s2" ?tb ?jb 1] g'
    by (simp add: dequeue_ticket_def)
  have "pool_step\<^sup>*\<^sup>* (pool_start en two_waiting) (?p (begin_job 1 ?jb (begin_job 0 ?ja en)) [Run 0 ?ja, Run 1 ?jb] s2)"
    unfolding start by (meson 1 2 3 4 5 6 converse_rtranclp_into_rtranclp rtranclp.rtrancl_refl)
  moreover have "in_flight ''default'' (?p (begin_job 1 ?jb (begin_job 0 ?ja en)) [Run 0 ?ja, Run 1 ?jb] s2) = 2"
    by (simp add: in_flight_def j)
  moreover have "cfg_QueueLimits (e_cfg (begin_job 1 ?jb (begin_job 0 ?ja en))) ''default'' = Some 1"
    by (simp add: begin_job_def en_def engine_New_def normalize_def capped_config_def)
  ultimately show ?thesis unfolding en_def [symmetric] by force
qed

section \<open>Properties\<close>

text \<open>
  C26. The in-flight counts are exact in every interleaving of the workers: for each queue the engine's
  counter equals the number of workers that are running a job of that queue, so it is never negative,
  never exceeds the number of workers, and returns to zero when all workers are idle. The two steps in
  which the pool changes the engine for a job are those of \<^verbatim>\<open>processTicket\<close>: it begins the job, lets
  the others act while the handler runs, and ends it, whatever the outcome.
\<close>
theorem active_count_exact:
  assumes run: "pool_step\<^sup>*\<^sup>* (pool_start (engine_New n cfg r) s) p"
  shows "int_at (e_active (po_engine p)) q = int (in_flight q p) \<and>
    in_flight q p \<le> nat (cfg_Workers (normalize n cfg)) \<and>
    ((\<forall>w \<in> set (po_workers p). \<forall>c jw. w \<noteq> Run c jw) \<longrightarrow> int_at (e_active (po_engine p)) q = 0) \<and>
    (\<forall>cd w jc c jitter others t jw en s'. mem_GetJob None (t_JobID t) s' = Ok jw \<longrightarrow>
       fst (processTicket memory_ops cd w jc c jitter others t en s') =
         end_job c jw (fst (others (begin_job c jw en, s'))))"
proof -
  have "pool_inv (engine_New n cfg r) p"
    by (rule pool_inv_run [OF run]) (simp add: engine_New_def int_at_def)
  then have inv: "int_at (e_active (po_engine p)) q = int (in_flight q p)"
    "length (po_workers p) = nat (cfg_Workers (normalize n cfg))"
    by (simp_all add: pool_inv_def engine_New_def)
  moreover have "in_flight q p \<le> length (po_workers p)" by (simp add: in_flight_def)
  moreover have "in_flight q p = 0" if "\<forall>w \<in> set (po_workers p). \<forall>c jw. w \<noteq> Run c jw"
    using that by (auto simp: in_flight_def running_on_def filter_empty_conv split: pc.split)
  ultimately show ?thesis by (auto simp: processTicket_sections)
qed

theorem active_count_exact_witness:
  "\<exists>p. pool_step\<^sup>*\<^sup>* (pool_start (engine_New 1 capped_config EchoRunner) two_waiting) p \<and>
     int_at (e_active (po_engine p)) ''default'' = 2"
proof -
  obtain p where p: "pool_step\<^sup>*\<^sup>* (pool_start (engine_New 1 capped_config EchoRunner) two_waiting) p"
    "in_flight ''default'' p = 2" using limit_overshoot by blast
  have "int_at (e_active (po_engine p)) ''default'' = int (in_flight ''default'' p)"
    using active_count_exact [OF p(1), of "''default''"] by blast
  with p show ?thesis by auto
qed

end
