(* ===== verification/Remote_Calls.thy ===== *)
theory Remote_Calls
  imports Storage_Interface
begin

text \<open>
  Calls to a server that other clients use too. A method makes a numbered sequence of round trips; before
  the \<open>k\<close>-th one the other clients act, and the trip may fail, before or after the server did its work:
  that is \<open>net\<close>. The Redis and the PostgreSQL store are written over it.
\<close>

datatype link = Delivered | Lost bool error

type_synonym 'db trip = "('db \<Rightarrow> 'db) \<times> link"
type_synonym 'db net = "nat \<Rightarrow> 'db trip"

text \<open>No one else acts; a done context refuses every trip before it is sent.\<close>

definition quiet :: "ctx \<Rightarrow> 'db net" where
  "quiet c = (\<lambda>_. (id, case c of None \<Rightarrow> Delivered | Some err \<Rightarrow> Lost False err))"

definition send :: "'db trip \<Rightarrow> ('db \<Rightarrow> 'db \<times> 'r result) \<Rightarrow> 'db \<Rightarrow> 'db \<times> 'r result" where
  "send n f s =
     (let s = fst n s
      in case snd n of
           Delivered \<Rightarrow> f s
         | Lost done err \<Rightarrow> (if done then fst (f s) else s, Err err))"

text \<open>\<^verbatim>\<open>if err != nil { return fmt.Errorf("msg: %w", err) }\<close>.\<close>

definition wrapped :: "string \<Rightarrow> 'db \<times> 'a result \<Rightarrow> 'db \<times> 'a result" where
  "wrapped msg x = (fst x, case snd x of Err err \<Rightarrow> Err (ErrWrap msg err) | r \<Rightarrow> r)"

lemma wrapped_simps [simp]:
  "wrapped msg (s, Ok a) = (s, Ok a)" "wrapped msg (s, Err err) = (s, Err (ErrWrap msg err))"
  "wrapped msg (s, Panic p) = (s, Panic p)"
  by (simp_all add: wrapped_def)

lemma send_quiet [simp]: "send (quiet None k) f s = f s"
  by (simp add: send_def quiet_def)

lemma quiet_link: "snd (quiet None n) = Delivered"
  by (simp add: quiet_def)

end
