(* ===== verification/Redis_Server.thy ===== *)
theory Redis_Server
  imports Remote_Calls
begin

text \<open>
  The Redis server and the client library as parameters of the Redis store
  (\<^verbatim>\<open>internal/storage/redis\<close>). Commands are data; \<open>rd_call\<close> is what the server does with one command,
  on a database \<open>'db\<close> of which nothing is known but the values its keys hold (\<open>view\<close>). The locale
  \<open>redis_server\<close> states the documented effect (\<open>after\<close>) and reply (\<open>reply_ok\<close>) of the commands the store
  uses: the order of \<^verbatim>\<open>SMEMBERS\<close>, \<^verbatim>\<open>HGETALL\<close> and of equal scores is left open, counters are not bounded by 64 bits,
  and a lock key disappears by itself when it expires, which is an action between two calls.

  The library reaches the server in round trips (\<open>Remote_Calls\<close>). A
  pipeline is one trip whose commands all run; a script is one trip that stops at its first error.
  \<open>redis_codec\<close> stands for Go's JSON encoding of the records and for the RFC 3339 format of instants.
\<close>

section \<open>Commands, values, replies\<close>

datatype cmd =
    EXISTS string
  | DEL string
  | GET string
  | SET string string
  | SETNX string string duration
  | INCRBY string int
  | HSET string "(string \<times> string) list"
  | HGET string string
  | HGETALL string
  | HDEL string string
  | RPUSH string string
  | LPUSH string string
  | LRANGE string
  | LLEN string
  | LREM string string
  | BRPOP "string list"
  | SADD string string
  | SREM string string
  | SMEMBERS string
  | ZADD string int string
  | ZREM string string
  | ZRANGEBYSCORE string int int

datatype rval =
    VNone
  | VStr string
  | VHash "string \<rightharpoonup> string"
  | VList "string list"
  | VSet "string set"
  | VZset "string \<rightharpoonup> int"

datatype reply =
    RNil
  | RInt int
  | RBulk string
  | RList "string list"
  | RMap "(string \<times> string) list"
  | RError string

type_synonym kv = "string \<Rightarrow> rval"

text \<open>A missing key reads as an empty value of any type; another type is an error.\<close>

fun hash_of :: "rval \<Rightarrow> (string \<rightharpoonup> string) option" where
  "hash_of VNone = Some Map.empty"
| "hash_of (VHash m) = Some m"
| "hash_of _ = None"

fun list_of :: "rval \<Rightarrow> string list option" where
  "list_of VNone = Some []"
| "list_of (VList xs) = Some xs"
| "list_of _ = None"

fun set_of :: "rval \<Rightarrow> string set option" where
  "set_of VNone = Some {}"
| "set_of (VSet xs) = Some xs"
| "set_of _ = None"

fun zset_of :: "rval \<Rightarrow> (string \<rightharpoonup> int) option" where
  "zset_of VNone = Some Map.empty"
| "zset_of (VZset m) = Some m"
| "zset_of _ = None"

fun int_of :: "rval \<Rightarrow> int option" where
  "int_of VNone = Some 0"
| "int_of (VStr s) = parse_int s"
| "int_of _ = None"

text \<open>A key whose value becomes empty is removed.\<close>

definition put_hash :: "(string \<rightharpoonup> string) \<Rightarrow> rval" where
  "put_hash m = (if m = Map.empty then VNone else VHash m)"

definition put_list :: "string list \<Rightarrow> rval" where
  "put_list xs = (if xs = [] then VNone else VList xs)"

definition put_set :: "string set \<Rightarrow> rval" where
  "put_set xs = (if xs = {} then VNone else VSet xs)"

definition put_zset :: "(string \<rightharpoonup> int) \<Rightarrow> rval" where
  "put_zset m = (if m = Map.empty then VNone else VZset m)"

definition hset_all :: "(string \<rightharpoonup> string) \<Rightarrow> (string \<times> string) list \<Rightarrow> (string \<rightharpoonup> string)" where
  "hset_all m fs = foldl (\<lambda>m (f, x). m(f \<mapsto> x)) m fs"

definition upd :: "kv \<Rightarrow> string \<Rightarrow> 'a option \<Rightarrow> ('a \<Rightarrow> rval) \<Rightarrow> kv" where
  "upd v k x f = (case x of None \<Rightarrow> v | Some a \<Rightarrow> v(k := f a))"

section \<open>Documented behaviour\<close>

fun after :: "cmd \<Rightarrow> kv \<Rightarrow> kv" where
  "after (EXISTS k) v = v"
| "after (DEL k) v = v(k := VNone)"
| "after (GET k) v = v"
| "after (SET k x) v = v(k := VStr x)"
| "after (SETNX k x ttl) v = (if v k = VNone then v(k := VStr x) else v)"
| "after (INCRBY k d) v = upd v k (int_of (v k)) (\<lambda>n. VStr (show_int (n + d)))"
| "after (HSET k fs) v = upd v k (hash_of (v k)) (\<lambda>m. VHash (hset_all m fs))"
| "after (HGET k f) v = v"
| "after (HGETALL k) v = v"
| "after (HDEL k f) v = upd v k (hash_of (v k)) (\<lambda>m. put_hash (m(f := None)))"
| "after (RPUSH k x) v = upd v k (list_of (v k)) (\<lambda>xs. VList (xs @ [x]))"
| "after (LPUSH k x) v = upd v k (list_of (v k)) (\<lambda>xs. VList (x # xs))"
| "after (LRANGE k) v = v"
| "after (LLEN k) v = v"
| "after (LREM k x) v = upd v k (list_of (v k)) (\<lambda>xs. put_list (removeAll x xs))"
| "after (BRPOP ks) v =
     (case find (\<lambda>k. v k \<noteq> VNone) ks of
        None \<Rightarrow> v
      | Some k \<Rightarrow> upd v k (list_of (v k)) (\<lambda>xs. put_list (butlast xs)))"
| "after (SADD k x) v = upd v k (set_of (v k)) (\<lambda>S. VSet (insert x S))"
| "after (SREM k x) v = upd v k (set_of (v k)) (\<lambda>S. put_set (S - {x}))"
| "after (SMEMBERS k) v = v"
| "after (ZADD k sc x) v = upd v k (zset_of (v k)) (\<lambda>z. VZset (z(x \<mapsto> sc)))"
| "after (ZREM k x) v = upd v k (zset_of (v k)) (\<lambda>z. put_zset (z(x := None)))"
| "after (ZRANGEBYSCORE k hi n) v = v"

text \<open>\<open>fits x P r\<close>: the reply is \<open>P\<close> for a value of the right type and an error otherwise.\<close>

definition fits :: "'a option \<Rightarrow> ('a \<Rightarrow> reply \<Rightarrow> bool) \<Rightarrow> reply \<Rightarrow> bool" where
  "fits x P r = (case x of None \<Rightarrow> (\<exists>m. r = RError m) | Some a \<Rightarrow> P a r)"

definition some_int :: "'a \<Rightarrow> reply \<Rightarrow> bool" where
  "some_int _ r \<longleftrightarrow> (\<exists>n. r = RInt n)"

fun reply_ok :: "cmd \<Rightarrow> kv \<Rightarrow> reply \<Rightarrow> bool" where
  "reply_ok (EXISTS k) v r = (r = RInt (if v k = VNone then 0 else 1))"
| "reply_ok (DEL k) v r = (r = RInt (if v k = VNone then 0 else 1))"
| "reply_ok (GET k) v r = (case v k of VNone \<Rightarrow> r = RNil | VStr x \<Rightarrow> r = RBulk x | _ \<Rightarrow> (\<exists>m. r = RError m))"
| "reply_ok (SET k x) v r = (r = RBulk ''OK'')"
| "reply_ok (SETNX k x ttl) v r = (r = RInt (if v k = VNone then 1 else 0))"
| "reply_ok (INCRBY k d) v r = fits (int_of (v k)) (\<lambda>n r. r = RInt (n + d)) r"
| "reply_ok (HSET k fs) v r = fits (hash_of (v k)) some_int r"
| "reply_ok (HGET k f) v r =
     fits (hash_of (v k)) (\<lambda>m r. r = (case m f of None \<Rightarrow> RNil | Some x \<Rightarrow> RBulk x)) r"
| "reply_ok (HGETALL k) v r = fits (hash_of (v k)) (\<lambda>m r. \<exists>fs. r = RMap fs \<and> distinct (map fst fs) \<and> map_of fs = m) r"
| "reply_ok (HDEL k f) v r = fits (hash_of (v k)) some_int r"
| "reply_ok (RPUSH k x) v r = fits (list_of (v k)) some_int r"
| "reply_ok (LPUSH k x) v r = fits (list_of (v k)) some_int r"
| "reply_ok (LRANGE k) v r = fits (list_of (v k)) (\<lambda>xs r. r = RList xs) r"
| "reply_ok (LLEN k) v r = fits (list_of (v k)) (\<lambda>xs r. r = RInt (int (length xs))) r"
| "reply_ok (LREM k x) v r = fits (list_of (v k)) some_int r"
| "reply_ok (BRPOP ks) v r =
     (case find (\<lambda>k. v k \<noteq> VNone) ks of
        None \<Rightarrow> r = RNil
      | Some k \<Rightarrow> fits (list_of (v k)) (\<lambda>xs r. r = RList [k, last xs]) r)"
| "reply_ok (SADD k x) v r = fits (set_of (v k)) some_int r"
| "reply_ok (SREM k x) v r = fits (set_of (v k)) some_int r"
| "reply_ok (SMEMBERS k) v r = fits (set_of (v k)) (\<lambda>S r. \<exists>xs. r = RList xs \<and> distinct xs \<and> set xs = S) r"
| "reply_ok (ZADD k sc x) v r = fits (zset_of (v k)) some_int r"
| "reply_ok (ZREM k x) v r = fits (zset_of (v k)) some_int r"
| "reply_ok (ZRANGEBYSCORE k hi n) v r =
     fits (zset_of (v k)) (\<lambda>z r. \<exists>xs. r = RList (take (nat n) xs) \<and> distinct xs \<and>
       set xs = {x. \<exists>sc. z x = Some sc \<and> sc \<le> hi} \<and> sorted (map (\<lambda>x. the (z x)) xs)) r"

section \<open>The client\<close>

record redis_codec =
  cd_marshalState :: "jobState \<Rightarrow> string result"
  cd_unmarshalState :: "string \<Rightarrow> jobState result"
  cd_marshalServer :: "serverInfo \<Rightarrow> string result"
  cd_unmarshalServer :: "string \<Rightarrow> serverInfo result"
  cd_marshalRecurring :: "recurringJobEntry \<Rightarrow> string result"
  cd_unmarshalRecurring :: "string \<Rightarrow> recurringJobEntry result"
  cd_marshalContinuation :: "continuationEntry \<Rightarrow> string result"
  cd_unmarshalContinuation :: "string \<Rightarrow> continuationEntry result"
  cd_RFC3339Nano :: "time \<Rightarrow> string"
  cd_RFC3339 :: "time \<Rightarrow> string"
  cd_Parse :: "string \<Rightarrow> time option"

record 'db redis =
  rd_call :: "cmd \<Rightarrow> 'db \<Rightarrow> 'db \<times> reply"
  rd_scan :: "string \<Rightarrow> 'db \<Rightarrow> string list list"
  rd_codec :: redis_codec
  rd_serverID :: string

definition redisNil :: error where
  "redisNil = ErrMsg ''redis: nil''"

definition badReply :: error where
  "badReply = ErrMsg ''redis: unexpected reply type''"

definition run :: "'db redis \<Rightarrow> cmd \<Rightarrow> 'db \<Rightarrow> 'db \<times> reply result" where
  "run R c s = (let (s, r) = rd_call R c s in (s, case r of RError m \<Rightarrow> Err (ErrMsg m) | _ \<Rightarrow> Ok r))"

fun as_int :: "reply \<Rightarrow> int result" where
  "as_int (RInt n) = Ok n"
| "as_int RNil = Err redisNil"
| "as_int _ = Err badReply"

fun as_str :: "reply \<Rightarrow> string result" where
  "as_str (RBulk x) = Ok x"
| "as_str RNil = Err redisNil"
| "as_str _ = Err badReply"

fun as_list :: "reply \<Rightarrow> string list result" where
  "as_list (RList xs) = Ok xs"
| "as_list RNil = Err redisNil"
| "as_list _ = Err badReply"

fun as_map :: "reply \<Rightarrow> (string \<times> string) list result" where
  "as_map (RMap m) = Ok m"
| "as_map RNil = Err redisNil"
| "as_map _ = Err badReply"

definition typed :: "(reply \<Rightarrow> 'a result) \<Rightarrow> 'db \<times> reply result \<Rightarrow> 'db \<times> 'a result" where
  "typed f x = and_then x (\<lambda>s r. (s, f r))"

definition get_int :: "'db redis \<Rightarrow> 'db trip \<Rightarrow> cmd \<Rightarrow> 'db \<Rightarrow> 'db \<times> int result" where
  "get_int R n c s = typed as_int (send n (run R c) s)"

definition get_str :: "'db redis \<Rightarrow> 'db trip \<Rightarrow> cmd \<Rightarrow> 'db \<Rightarrow> 'db \<times> string result" where
  "get_str R n c s = typed as_str (send n (run R c) s)"

definition get_list :: "'db redis \<Rightarrow> 'db trip \<Rightarrow> cmd \<Rightarrow> 'db \<Rightarrow> 'db \<times> string list result" where
  "get_list R n c s = typed as_list (send n (run R c) s)"

definition get_map :: "'db redis \<Rightarrow> 'db trip \<Rightarrow> cmd \<Rightarrow> 'db \<Rightarrow> 'db \<times> (string \<times> string) list result" where
  "get_map R n c s = typed as_map (send n (run R c) s)"

fun run_all :: "'db redis \<Rightarrow> cmd list \<Rightarrow> 'db \<Rightarrow> 'db \<times> unit result" where
  "run_all R [] s = (s, Ok ())"
| "run_all R (c # cs) s =
     (let (s, r) = run R c s;
          (s, rest) = run_all R cs s
      in (s, case r of Err err \<Rightarrow> Err err | _ \<Rightarrow> rest))"

definition pipe :: "'db redis \<Rightarrow> 'db trip \<Rightarrow> cmd list \<Rightarrow> 'db \<Rightarrow> 'db \<times> unit result" where
  "pipe R n cs s = send n (run_all R cs) s"

text \<open>The statements of a script, each of which aborts it on an error.\<close>

fun lua :: "'db redis \<Rightarrow> cmd list \<Rightarrow> 'db \<Rightarrow> 'db \<times> unit result" where
  "lua R [] s = (s, Ok ())"
| "lua R (c # cs) s = and_then (run R c s) (\<lambda>s _. lua R cs s)"

section \<open>The laws\<close>

text \<open>JSON represents the years 0 to 9999.\<close>

definition ok_time :: "time \<Rightarrow> bool" where
  "ok_time t \<longleftrightarrow> 0 \<le> t \<and> t < 315537897600 * 1000000000"

locale redis_server =
  fixes R :: "'db redis"
    and view :: "'db \<Rightarrow> kv"
  assumes call_after: "view (fst (rd_call R c s)) = after c (view s)"
    and call_reply: "reply_ok c (view s) (snd (rd_call R c s))"
    and call_same: "after c (view s) = view s \<Longrightarrow> fst (rd_call R c s) = s"
    and state_codec: "ok_time (js_CreatedAt st) \<Longrightarrow>
      \<exists>raw st'. cd_marshalState (rd_codec R) st = Ok raw \<and> cd_unmarshalState (rd_codec R) raw = Ok st' \<and>
        (ascii (js_Name st) \<longrightarrow> js_Name st' = js_Name st) \<and>
        (ascii (js_Reason st) \<longrightarrow> js_Reason st' = js_Reason st) \<and> js_CreatedAt st' = js_CreatedAt st"
    and time_codec: "ok_time t \<Longrightarrow> cd_Parse (rd_codec R) (cd_RFC3339Nano (rd_codec R) t) = Some t"
begin

lemma run_view: "view (fst (run R c s)) = after c (view s)"
  by (simp add: run_def split_beta call_after)

lemma run_same: "after c (view s) = view s \<Longrightarrow> fst (run R c s) = s"
  by (simp add: run_def split_beta call_same)

lemma run_reply:
  assumes "\<And>r. reply_ok c (view s) r \<Longrightarrow> P r" and "\<And>m. \<not> P (RError m)"
  obtains r where "snd (run R c s) = Ok r" "P r"
proof -
  have "P (snd (rd_call R c s))" using assms(1) call_reply by blast
  with assms(2) that [of "snd (rd_call R c s)"] show ?thesis
    by (cases "snd (rd_call R c s)") (auto simp: run_def split_beta)
qed

end

end
