(* ===== verification/Redis_Store.thy ===== *)
theory Redis_Store
  imports Redis_Server Continuations
begin

text \<open>
  The Redis store (\<^verbatim>\<open>internal/storage/redis\<close>): one function per method, over the parameters of
  \<open>Redis_Server\<close>. A method takes the trips it will make (\<open>nt\<close>): interference by other clients and failures
  can occur at each. Scripts are translated statement by statement; a loop over ids uses the trips from
  a running index on. \<open>redis_ops\<close> is the store as the engine and the API use it, one call at a time.
\<close>

section \<open>Keys (\<^verbatim>\<open>keys.go\<close>)\<close>

definition keyPrefix :: string where "keyPrefix = ''gfire:''"
definition jobKey :: "string \<Rightarrow> string" where "jobKey i = keyPrefix @ ''job:'' @ i"
definition jobStatesKey :: "string \<Rightarrow> string" where "jobStatesKey i = keyPrefix @ ''job:'' @ i @ '':states''"
definition queueKey :: "string \<Rightarrow> string" where "queueKey n = keyPrefix @ ''queue:'' @ n"
definition stateIndexKey :: "string \<Rightarrow> string" where "stateIndexKey st = keyPrefix @ ''state:'' @ st"
definition processingKey :: string where "processingKey = keyPrefix @ ''processing''"
definition scheduledKey :: string where "scheduledKey = keyPrefix @ ''scheduled''"
definition recurringKey :: string where "recurringKey = keyPrefix @ ''recurring''"
definition serversKey :: string where "serversKey = keyPrefix @ ''servers''"
definition serverHBKey :: string where "serverHBKey = keyPrefix @ ''server:heartbeats''"
definition queuesIndexKey :: string where "queuesIndexKey = keyPrefix @ ''queues''"
definition counterKeyPrefix :: string where "counterKeyPrefix = keyPrefix @ ''counter:''"
definition lockKeyPrefix :: string where "lockKeyPrefix = keyPrefix @ ''lock:''"
definition counterKey :: "string \<Rightarrow> string" where "counterKey n = counterKeyPrefix @ n"
definition lockKey :: "string \<Rightarrow> string" where "lockKey r = lockKeyPrefix @ r"
definition continuationsKey :: "string \<Rightarrow> string" where "continuationsKey p = keyPrefix @ ''continuations:'' @ p"
definition continuationEntryKey :: "string \<Rightarrow> string \<Rightarrow> string" where
  "continuationEntryKey p i = keyPrefix @ ''continuation:'' @ p @ '':'' @ i"
definition idempotencyKey :: "string \<Rightarrow> string" where "idempotencyKey k = keyPrefix @ ''idempotency:'' @ k"

section \<open>Encoding (\<^verbatim>\<open>codec.go\<close>)\<close>

definition timeoutMS :: "duration \<Rightarrow> int64" where
  "timeoutMS d = (if sint d \<le> 0 then 0 else word_of_int (sint d div 1000000))"

definition durationFromMS :: "int64 \<Rightarrow> duration" where
  "durationFromMS ms = (if sint ms \<le> 0 then 0 else ms * millisecond)"

definition err_wrap :: "string \<Rightarrow> 'a result \<Rightarrow> 'a result" where
  "err_wrap msg r = (case r of Err err \<Rightarrow> Err (ErrWrap msg err) | x \<Rightarrow> x)"

definition marshalState :: "'db redis \<Rightarrow> jobState \<Rightarrow> string result" where
  "marshalState R st = err_wrap ''marshal state'' (cd_marshalState (rd_codec R) st)"

definition unmarshalState :: "'db redis \<Rightarrow> string \<Rightarrow> jobState result" where
  "unmarshalState R x = err_wrap ''unmarshal state'' (cd_unmarshalState (rd_codec R) x)"

definition marshalServer :: "'db redis \<Rightarrow> serverInfo \<Rightarrow> string result" where
  "marshalServer R sv = err_wrap ''marshal server'' (cd_marshalServer (rd_codec R) sv)"

definition unmarshalServer :: "'db redis \<Rightarrow> string \<Rightarrow> serverInfo result" where
  "unmarshalServer R x = err_wrap ''unmarshal server'' (cd_unmarshalServer (rd_codec R) x)"

definition marshalRecurring :: "'db redis \<Rightarrow> recurringJobEntry \<Rightarrow> string result" where
  "marshalRecurring R d = err_wrap ''marshal recurring'' (cd_marshalRecurring (rd_codec R) d)"

definition unmarshalRecurring :: "'db redis \<Rightarrow> string \<Rightarrow> recurringJobEntry result" where
  "unmarshalRecurring R x = err_wrap ''unmarshal recurring'' (cd_unmarshalRecurring (rd_codec R) x)"

definition marshalContinuation :: "'db redis \<Rightarrow> continuationEntry \<Rightarrow> string result" where
  "marshalContinuation R d = err_wrap ''marshal continuation'' (cd_marshalContinuation (rd_codec R) d)"

definition unmarshalContinuation :: "'db redis \<Rightarrow> string \<Rightarrow> continuationEntry result" where
  "unmarshalContinuation R x = err_wrap ''unmarshal continuation'' (cd_unmarshalContinuation (rd_codec R) x)"

text \<open>\<^verbatim>\<open>time.Now()\<close> in \<^verbatim>\<open>jobHashFields\<close> is the argument \<open>updatedAt\<close>; a zero \<open>progressAt\<close> is left out.\<close>

definition jobHashFields :: "'db redis \<Rightarrow> job \<Rightarrow> string \<Rightarrow> time \<Rightarrow> time \<Rightarrow> (string \<times> string) list" where
  "jobHashFields R job state progressAt updatedAt =
     [(''id'', j_ID job), (''name'', j_Name job), (''args'', raw (j_Args job)), (''queue'', j_Queue job),
      (''retry_max'', show_int (j_RetryMax job)), (''timeout_ms'', show_int (sint (timeoutMS (j_Timeout job)))),
      (''created_at'', cd_RFC3339Nano (rd_codec R) (j_CreatedAt job)),
      (''updated_at'', cd_RFC3339Nano (rd_codec R) updatedAt), (''state'', state)] @
     (if progressAt \<noteq> 0 then [(''progress_at'', cd_RFC3339Nano (rd_codec R) progressAt)] else []) @
     (if blen (j_Result job) > 0 then [(''result'', raw (j_Result job))] else [])"

text \<open>A read of a missing field gives the empty string; a time that does not parse is the zero time.\<close>

definition field :: "(string \<times> string) list \<Rightarrow> string \<Rightarrow> string" where
  "field fs f = (case map_of fs f of None \<Rightarrow> '''' | Some x \<Rightarrow> x)"

definition parse_time :: "'db redis \<Rightarrow> string \<Rightarrow> time" where
  "parse_time R x = (case cd_Parse (rd_codec R) x of None \<Rightarrow> 0 | Some t \<Rightarrow> t)"

definition jobFromHash :: "'db redis \<Rightarrow> (string \<times> string) list \<Rightarrow> (job \<times> string \<times> time) result" where
  "jobFromHash R fs =
     (if field fs ''id'' = '''' then Err (ErrMsg ''job hash missing id'')
      else Ok ((new_job (field fs ''name'') (Some (field fs ''args'')) (field fs ''queue''))
                 \<lparr>j_ID := field fs ''id'', j_RetryMax := Atoi (field fs ''retry_max''),
                  j_Timeout := durationFromMS (word_of_int (Atoi (field fs ''timeout_ms''))),
                  j_CreatedAt := parse_time R (field fs ''created_at''),
                  j_Result := (if field fs ''result'' \<noteq> '''' then Some (field fs ''result'') else None)\<rparr>,
               field fs ''state'', parse_time R (field fs ''progress_at'')))"

section \<open>Queues and dispatch (\<^verbatim>\<open>jobs.go\<close>)\<close>

text \<open>Every method evaluates its marshalled value before it touches the database.\<close>

definition with_value :: "'a result \<Rightarrow> ('a \<Rightarrow> 'db \<Rightarrow> 'db \<times> 'b result) \<Rightarrow> 'db \<Rightarrow> 'db \<times> 'b result" where
  "with_value r f s = and_then (s, r) (\<lambda>s x. f x s)"

definition redis_fill_job :: "env \<Rightarrow> string \<Rightarrow> job \<Rightarrow> job" where
  "redis_fill_job e queue j =
     j\<lparr>j_ID := (if j_ID j = '''' then new_uuid e 0 else j_ID j), j_Queue := queue,
       j_RetryMax := (if j_RetryMax j = 0 then 10 else j_RetryMax j),
       j_Args := (if j_Args j = None then Some ''[]'' else j_Args j), j_CreatedAt := now_at e 0\<rparr>"

definition redis_Enqueue ::
  "'db redis \<Rightarrow> 'db net \<Rightarrow> env \<Rightarrow> string \<Rightarrow> job \<Rightarrow> 'db \<Rightarrow> 'db \<times> string result" where
  "redis_Enqueue R nt e queue job =
     (let queue = (if queue = '''' then ''default'' else queue);
          job = redis_fill_job e queue job
      in with_value (marshalState R (new_state StateEnqueued '''' [] (now_at e 0))) (\<lambda>stateJSON s.
           and_then (wrapped ''enqueue'' (pipe R (nt 0)
             [HSET (jobKey (j_ID job)) (jobHashFields R job StateEnqueued 0 (now_at e 1)),
              RPUSH (jobStatesKey (j_ID job)) stateJSON,
              LPUSH (queueKey queue) (j_ID job),
              SADD queuesIndexKey queue,
              SADD (stateIndexKey StateEnqueued) (j_ID job),
              INCRBY (counterKey ''enqueued'') 1] s))
           (\<lambda>s _. (s, Ok (j_ID job)))))"

definition finalizeDequeueScript ::
  "'db redis \<Rightarrow> string \<Rightarrow> string \<Rightarrow> string \<Rightarrow> string \<Rightarrow> 'db \<Rightarrow> 'db \<times> int result" where
  "finalizeDequeueScript R jobID now stateJSON processingVal s =
     and_then (run R (EXISTS (jobKey jobID)) s) (\<lambda>s r.
       if r = RInt 0 then (s, Ok (- 1))
       else
         and_then (lua R
           [HSET (jobKey jobID) [(''state'', ''Processing''), (''progress_at'', now), (''updated_at'', now)],
            RPUSH (jobStatesKey jobID) stateJSON,
            HSET processingKey [(jobID, processingVal)],
            SREM (stateIndexKey StateEnqueued) jobID,
            SADD (stateIndexKey StateProcessing) jobID,
            INCRBY (counterKey ''dequeued'') 1] s)
         (\<lambda>s _. (s, Ok 1)))"

definition claim_dequeued :: "'db redis \<Rightarrow> 'db trip \<Rightarrow> time \<Rightarrow> string \<Rightarrow> 'db \<Rightarrow> 'db \<times> (int \<times> string) result" where
  "claim_dequeued R n now jobID =
     (let token = ''tok-'' @ jobID @ ''-'' @ show_int (sint (UnixNano now));
          st = new_state StateProcessing '''' [(''server_id'', rd_serverID R)] now
      in with_value (marshalState R st) (\<lambda>stateJSON s.
           let processingVal = rd_serverID R @ ''|'' @ token @ ''|'' @ show_int (sint (UnixNano now)) in
           and_then (wrapped ''dequeue finalize'' (send n
             (finalizeDequeueScript R jobID (cd_RFC3339Nano (rd_codec R) now) stateJSON processingVal) s))
           (\<lambda>s res. (s, Ok (res, token)))))"

text \<open>
  Each event is one \<^verbatim>\<open>BRPOP\<close> attempt: what the other clients do before it, and what ends the wait when
  the queues are empty. After a claimed id without a job the loop blocks again. An error of the client
  is reported as that of the context when the context is done, before the call or during the wait.
\<close>

definition brpop_error :: "ctx \<Rightarrow> wake \<Rightarrow> error \<Rightarrow> error" where
  "brpop_error c wk err =
     (case c of
        Some cerr \<Rightarrow> cerr
      | None \<Rightarrow> (case wk of WCtxDone cerr \<Rightarrow> cerr | _ \<Rightarrow> ErrWrap ''dequeue brpop'' err))"

fun redis_dequeue_loop ::
  "'db redis \<Rightarrow> env \<Rightarrow> ctx \<Rightarrow> string list \<Rightarrow> 'db net \<Rightarrow> nat \<Rightarrow> 'db waits \<Rightarrow> 'db \<Rightarrow> ('db \<times> jobTicket result) option" where
  "redis_dequeue_loop R e c keys nt k [] s = None"
| "redis_dequeue_loop R e c keys nt k ((others, wk) # ws) s =
     (let (s, r) = get_list R (others, snd (nt (2 * k))) (BRPOP keys) s
      in case r of
           Err err \<Rightarrow>
             if err = redisNil then
               (case wk of
                  WDeadline \<Rightarrow> Some (s, Err ErrQueueEmpty)
                | WCtxDone cerr \<Rightarrow> Some (s, Err (brpop_error c wk err))
                | _ \<Rightarrow> redis_dequeue_loop R e c keys nt (Suc k) ws s)
             else Some (s, Err (brpop_error c wk err))
         | Panic p \<Rightarrow> Some (s, Panic p)
         | Ok result \<Rightarrow>
             if length result < 2 then redis_dequeue_loop R e c keys nt (Suc k) ws s
             else
               let jobID = result ! 1;
                   (s, res) = claim_dequeued R (nt (2 * k + 1)) (now_at e k) jobID s
               in case res of
                    Err err \<Rightarrow> Some (s, Err err)
                  | Panic p \<Rightarrow> Some (s, Panic p)
                  | Ok (code, token) \<Rightarrow>
                      if code = - 1 then redis_dequeue_loop R e c keys nt (Suc k) ws s
                      else Some (s, Ok \<lparr>t_JobID = jobID, t_Token = token\<rparr>))"

definition redis_Dequeue ::
  "'db redis \<Rightarrow> 'db net \<Rightarrow> env \<Rightarrow> ctx \<Rightarrow> string list \<Rightarrow> 'db waits \<Rightarrow> 'db \<Rightarrow> ('db \<times> jobTicket result) option" where
  "redis_Dequeue R nt e c queues ws s =
     (if queues = [] then Some (s, Err ErrQueueEmpty)
      else redis_dequeue_loop R e c (map queueKey queues) nt 0 ws s)"

definition redis_Requeue ::
  "'db redis \<Rightarrow> 'db net \<Rightarrow> env \<Rightarrow> string \<Rightarrow> string \<Rightarrow> 'db \<Rightarrow> 'db \<times> unit result" where
  "redis_Requeue R nt e jobID reason s =
     and_then (wrapped ''requeue exists'' (get_int R (nt 0) (EXISTS (jobKey jobID)) s)) (\<lambda>s n.
     if n = 0 then (s, Err ErrNotFound)
     else
     and_then (wrapped ''requeue hget state'' (get_str R (nt 1) (HGET (jobKey jobID) ''state'') s)) (\<lambda>s current.
     if IrreversibleStates current then (s, Err ErrTerminalState)
     else
     and_then (wrapped ''requeue hgetall'' (get_map R (nt 2) (HGETALL (jobKey jobID)) s)) (\<lambda>s fields.
     let queue = (if field fields ''queue'' = '''' then ''default'' else field fields ''queue'');
         now = now_at e 0
     in with_value (marshalState R (new_state StateEnqueued reason [] now)) (\<lambda>stateJSON s.
        wrapped ''requeue'' (pipe R (nt 3)
          [HSET (jobKey jobID) [(''state'', StateEnqueued), (''updated_at'', cd_RFC3339Nano (rd_codec R) now)],
           HDEL (jobKey jobID) ''progress_at'',
           RPUSH (jobStatesKey jobID) stateJSON,
           LPUSH (queueKey queue) jobID,
           HDEL processingKey jobID,
           SREM (stateIndexKey StateProcessing) jobID,
           SADD (stateIndexKey StateEnqueued) jobID] s)) s)))"

definition applyState_writes :: "string \<Rightarrow> string \<Rightarrow> string \<Rightarrow> string \<Rightarrow> bool \<Rightarrow> string \<Rightarrow> string \<Rightarrow> cmd list" where
  "applyState_writes jobID expected newName now clearProgress stateJSON counterName =
     [HSET (jobKey jobID) [(''state'', newName), (''updated_at'', now)]] @
     (if clearProgress then [HDEL (jobKey jobID) ''progress_at''] else []) @
     [RPUSH (jobStatesKey jobID) stateJSON,
      SREM (stateIndexKey expected) jobID,
      SADD (stateIndexKey newName) jobID] @
     (if expected = ''Processing'' \<and> newName \<noteq> ''Processing'' then [HDEL processingKey jobID] else []) @
     (if counterName \<noteq> '''' then [INCRBY (counterKey counterName) 1] else [])"

definition applyStateScript ::
  "'db redis \<Rightarrow> string \<Rightarrow> string \<Rightarrow> string \<Rightarrow> string \<Rightarrow> bool \<Rightarrow> string \<Rightarrow> string \<Rightarrow> 'db \<Rightarrow> 'db \<times> int result" where
  "applyStateScript R jobID expected newName now clearProgress stateJSON counterName s =
     and_then (run R (HGET (jobKey jobID) ''state'') s) (\<lambda>s r.
       case r of
         RBulk current \<Rightarrow>
           if current \<noteq> expected then (s, Ok (- 2))
           else
             and_then (lua R (applyState_writes jobID expected newName now clearProgress stateJSON counterName) s)
               (\<lambda>s _. (s, Ok 1))
       | _ \<Rightarrow> (s, Ok (- 1)))"

definition counter_of :: "string \<Rightarrow> string" where
  "counter_of name = (if name = StateSucceeded then ''succeeded'' else if name = StateFailed then ''failed'' else '''')"

definition redis_ApplyState ::
  "'db redis \<Rightarrow> 'db net \<Rightarrow> env \<Rightarrow> string \<Rightarrow> string \<Rightarrow> jobState \<Rightarrow> 'db \<Rightarrow> 'db \<times> unit result" where
  "redis_ApplyState R nt e jobID expectedCurrent newState =
     (let now = (if js_CreatedAt newState = 0 then now_at e 0 else js_CreatedAt newState);
          newState = newState\<lparr>js_CreatedAt := now\<rparr>
      in with_value (marshalState R newState) (\<lambda>stateJSON s.
         and_then (wrapped ''applystate'' (send (nt 0) (applyStateScript R jobID expectedCurrent (js_Name newState)
             (cd_RFC3339Nano (rd_codec R) now) (js_Name newState \<noteq> StateProcessing) stateJSON
             (counter_of (js_Name newState))) s))
         (\<lambda>s res. (s, if res = - 1 then Err ErrNotFound else if res = - 2 then Err ErrStateConflict else Ok ()))))"

definition redis_HeartbeatJob :: "'db redis \<Rightarrow> 'db net \<Rightarrow> env \<Rightarrow> string \<Rightarrow> 'db \<Rightarrow> 'db \<times> unit result" where
  "redis_HeartbeatJob R nt e jobID s =
     and_then (wrapped ''heartbeat exists'' (get_int R (nt 0) (EXISTS (jobKey jobID)) s)) (\<lambda>s n.
     if n = 0 then (s, Err ErrNotFound)
     else
       let now = cd_RFC3339Nano (rd_codec R) (now_at e 0) in
       and_then (wrapped ''heartbeat job'' (send (nt 1) (run R (HSET (jobKey jobID) [(''progress_at'', now)])) s)) (\<lambda>s _.
       and_then (wrapped ''heartbeat processing'' (send (nt 2)
           (run R (HSET processingKey [(jobID, rd_serverID R @ ''|heartbeat|'' @ now)])) s)) (\<lambda>s _. (s, Ok ()))))"

fun orphan_loop ::
  "'db redis \<Rightarrow> 'db net \<Rightarrow> time \<Rightarrow> nat \<Rightarrow> string list \<Rightarrow> 'db \<Rightarrow> 'db \<times> jobTicket list" where
  "orphan_loop R nt cutoff k [] s = (s, [])"
| "orphan_loop R nt cutoff k (jobID # ids) s =
     (let (s, r) = get_str R (nt k) (HGET (jobKey jobID) ''progress_at'') s;
          stale = (case r of
                     Ok progressRaw \<Rightarrow>
                       progressRaw = '''' \<or>
                       (case cd_Parse (rd_codec R) progressRaw of None \<Rightarrow> True | Some t \<Rightarrow> t < cutoff)
                   | _ \<Rightarrow> True);
          (s, ts) = orphan_loop R nt cutoff (Suc k) ids s
      in (s, if stale then \<lparr>t_JobID = jobID, t_Token = ''orphan-'' @ jobID\<rparr> # ts else ts))"

definition redis_GetOrphanedJobs ::
  "'db redis \<Rightarrow> 'db net \<Rightarrow> env \<Rightarrow> duration \<Rightarrow> 'db \<Rightarrow> 'db \<times> jobTicket list result" where
  "redis_GetOrphanedJobs R nt e staleAge s =
     (let cutoff = time_add (now_at e 0) (- staleAge) in
      and_then (wrapped ''orphaned smembers'' (get_list R (nt 0) (SMEMBERS (stateIndexKey StateProcessing)) s))
        (\<lambda>s members. let (s, ts) = orphan_loop R nt cutoff 1 members s in (s, Ok ts)))"

fun unmarshal_all :: "(string \<Rightarrow> 'a result) \<Rightarrow> string list \<Rightarrow> 'a list result" where
  "unmarshal_all f [] = Ok []"
| "unmarshal_all f (x # xs) =
     (case f x of
        Ok a \<Rightarrow> map_result (\<lambda>as. a # as) (unmarshal_all f xs)
      | Err err \<Rightarrow> Err err
      | Panic p \<Rightarrow> Panic p)"

definition loadStates :: "'db redis \<Rightarrow> 'db trip \<Rightarrow> string \<Rightarrow> 'db \<Rightarrow> 'db \<times> jobState list result" where
  "loadStates R n jobID s =
     and_then (wrapped ''load states'' (get_list R n (LRANGE (jobStatesKey jobID)) s))
       (\<lambda>s xs. (s, unmarshal_all (unmarshalState R) xs))"

definition redis_GetJob :: "'db redis \<Rightarrow> 'db net \<Rightarrow> string \<Rightarrow> 'db \<Rightarrow> 'db \<times> jobWithStates result" where
  "redis_GetJob R nt jobID s =
     and_then (wrapped ''get job'' (get_map R (nt 0) (HGETALL (jobKey jobID)) s)) (\<lambda>s fields.
     if fields = [] then (s, Err ErrNotFound)
     else with_value (jobFromHash R fields) (\<lambda>(job, _) s.
       and_then (loadStates R (nt 1) jobID s) (\<lambda>s states.
         (s, Ok \<lparr>jw_Job = job, jw_States = states\<rparr>))) s)"

fun members_all :: "'db redis \<Rightarrow> 'db net \<Rightarrow> nat \<Rightarrow> string list \<Rightarrow> 'db \<Rightarrow> 'db \<times> string list result" where
  "members_all R nt k [] s = (s, Ok [])"
| "members_all R nt k (st # sts) s =
     and_then (wrapped ''jobs by state smembers'' (get_list R (nt k) (SMEMBERS (stateIndexKey st)) s)) (\<lambda>s ids.
     and_then (members_all R nt (Suc k) sts s) (\<lambda>s rest. (s, Ok (ids @ rest))))"

fun load_jobs :: "'db redis \<Rightarrow> 'db net \<Rightarrow> nat \<Rightarrow> string \<Rightarrow> string list \<Rightarrow> 'db \<Rightarrow> 'db \<times> jobWithStates list result" where
  "load_jobs R nt k state [] s = (s, Ok [])"
| "load_jobs R nt k state (i # ids) s =
     (let (s, r) = redis_GetJob R (\<lambda>m. nt (m + k)) i s in
      case r of
        Ok jws \<Rightarrow>
          if state \<noteq> '''' \<and> CurrentState jws \<noteq> state then load_jobs R nt (k + 2) state ids s
          else and_then (load_jobs R nt (k + 2) state ids s) (\<lambda>s rest. (s, Ok (jws # rest)))
      | Err err \<Rightarrow>
          if errors_Is err ErrNotFound then load_jobs R nt (k + 2) state ids s else (s, Err err)
      | Panic p \<Rightarrow> (s, Panic p))"

definition redis_GetJobsByState ::
  "'db redis \<Rightarrow> 'db net \<Rightarrow> string \<Rightarrow> int \<Rightarrow> int \<Rightarrow> 'db \<Rightarrow> 'db \<times> jobWithStates list result" where
  "redis_GetJobsByState R nt state offset limit s =
     (let limit = (if limit \<le> 0 then 100 else limit) in
      and_then
        (if state = '''' then
           members_all R nt 0 [StateEnqueued, StateProcessing, StateScheduled, StateSucceeded, StateFailed, StateDeleted] s
         else wrapped ''jobs by state'' (get_list R (nt 0) (SMEMBERS (stateIndexKey state)) s))
        (\<lambda>s jobIDs.
          if offset \<ge> int (length jobIDs) then (s, Ok [])
          else if offset < 0 then (s, Panic ''slice bounds out of range'')
          else
            let jobIDs = drop (nat offset) jobIDs;
                jobIDs = (if int (length jobIDs) > limit then take (nat limit) jobIDs else jobIDs)
            in load_jobs R nt 6 state jobIDs s))"

definition redis_GetQueueLength :: "'db redis \<Rightarrow> 'db net \<Rightarrow> string \<Rightarrow> 'db \<Rightarrow> 'db \<times> int64 result" where
  "redis_GetQueueLength R nt queue s =
     and_then (wrapped ''queue length'' (get_int R (nt 0) (LLEN (queueKey queue)) s)) (\<lambda>s n. (s, Ok (word_of_int n)))"

definition redis_GetQueues :: "'db redis \<Rightarrow> 'db net \<Rightarrow> 'db \<Rightarrow> 'db \<times> string list result" where
  "redis_GetQueues R nt s = wrapped ''get queues'' (get_list R (nt 0) (SMEMBERS queuesIndexKey) s)"

definition redis_DeleteJob :: "'db redis \<Rightarrow> 'db net \<Rightarrow> env \<Rightarrow> string \<Rightarrow> 'db \<Rightarrow> 'db \<times> unit result" where
  "redis_DeleteJob R nt e jobID s =
     and_then (wrapped ''delete exists'' (get_int R (nt 0) (EXISTS (jobKey jobID)) s)) (\<lambda>s n.
     if n = 0 then (s, Err ErrNotFound)
     else
     and_then (wrapped ''delete hget'' (get_str R (nt 1) (HGET (jobKey jobID) ''state'') s)) (\<lambda>s current.
     if IrreversibleStates current then (s, Err ErrTerminalState)
     else
       let now = now_at e 0 in
       with_value (marshalState R (new_state StateDeleted '''' [] now)) (\<lambda>stateJSON s.
         wrapped ''delete pipeline'' (pipe R (nt 2)
           [HSET (jobKey jobID) [(''state'', StateDeleted), (''updated_at'', cd_RFC3339Nano (rd_codec R) now)],
            HDEL (jobKey jobID) ''progress_at'',
            RPUSH (jobStatesKey jobID) stateJSON] s)) s))"

definition redis_EnqueueIdempotent ::
  "'db redis \<Rightarrow> 'db net \<Rightarrow> env \<Rightarrow> string \<Rightarrow> job \<Rightarrow> 'db \<Rightarrow> 'db \<times> (string \<times> bool) result" where
  "redis_EnqueueIdempotent R nt e queue job s =
     (let key = j_IdempotencyKey job;
          (s, existing) = (if key \<noteq> '''' then get_str R (nt 0) (GET (idempotencyKey key)) s else (s, Ok ''''))
      in if key \<noteq> '''' \<and> is_ok existing \<and> existing \<noteq> Ok '''' then (s, map_result (\<lambda>i. (i, False)) existing)
         else
           and_then (redis_Enqueue R (\<lambda>k. nt (k + 1)) e queue job s) (\<lambda>s i.
             let s = (if key \<noteq> '''' then fst (send (nt 2) (run R (SET (idempotencyKey key) i)) s) else s)
             in (s, Ok (i, True))))"
section \<open>Retries and results (\<^verbatim>\<open>retry.go\<close>)\<close>

text \<open>\<^verbatim>\<open>t.Unix()\<close>: whole seconds; the conversion to a float is exact below \<open>2 ^ 53\<close>.\<close>

definition Unix :: "time \<Rightarrow> int" where
  "Unix t = (t - unix_epoch) div 1000000000"

definition redis_ScheduleRetry ::
  "'db redis \<Rightarrow> 'db net \<Rightarrow> env \<Rightarrow> string \<Rightarrow> time \<Rightarrow> 'db \<Rightarrow> 'db \<times> unit result" where
  "redis_ScheduleRetry R nt e jobID enqueueAt s =
     and_then (wrapped ''schedule retry get'' (get_map R (nt 0) (HGETALL (jobKey jobID)) s)) (\<lambda>s fields.
     if fields = [] then (s, Err ErrNotFound)
     else if field fields ''state'' \<noteq> StateFailed then (s, Err ErrStateConflict)
     else
       let now = now_at e 0;
           st = new_state StateScheduled '''' [(''enqueue_at'', cd_RFC3339 (rd_codec R) enqueueAt)] now
       in with_value (marshalState R st) (\<lambda>stateJSON s.
         wrapped ''schedule retry'' (pipe R (nt 1)
           [HSET (jobKey jobID) [(''state'', StateScheduled), (''updated_at'', cd_RFC3339Nano (rd_codec R) now)],
            RPUSH (jobStatesKey jobID) stateJSON,
            ZADD scheduledKey (Unix enqueueAt) jobID,
            SREM (stateIndexKey StateFailed) jobID,
            SADD (stateIndexKey StateScheduled) jobID,
            INCRBY (counterKey ''scheduled'') 1] s)) s)"

definition redis_SetJobResult :: "'db redis \<Rightarrow> 'db net \<Rightarrow> string \<Rightarrow> bytes \<Rightarrow> 'db \<Rightarrow> 'db \<times> unit result" where
  "redis_SetJobResult R nt jobID result s =
     (let result = (if blen result > 65536 then btake 65536 result else result) in
      and_then (wrapped ''set result exists'' (get_int R (nt 0) (EXISTS (jobKey jobID)) s)) (\<lambda>s n.
      if n = 0 then (s, Err ErrNotFound)
      else
        and_then (wrapped ''set result'' (send (nt 1) (run R (HSET (jobKey jobID) [(''result'', raw result)])) s))
          (\<lambda>s _. (s, Ok ()))))"

section \<open>Servers, counters, locks, cleanup (\<^verbatim>\<open>misc.go\<close>)\<close>

definition redis_RegisterServer ::
  "'db redis \<Rightarrow> 'db net \<Rightarrow> env \<Rightarrow> serverInfo \<Rightarrow> 'db \<Rightarrow> 'db \<times> unit result" where
  "redis_RegisterServer R nt e sv =
     (let now = now_at e 0;
          sv = sv\<lparr>sv_StartedAt := (if sv_StartedAt sv = 0 then now else sv_StartedAt sv), sv_LastHeartbeat := now,
                  sv_Status := (if sv_Status sv = '''' then ServerStatusActive else sv_Status sv),
                  sv_Queues := (if sv_Queues sv = [] then [''default''] else sv_Queues sv)\<rparr>
      in with_value (marshalServer R sv) (\<lambda>x s.
           wrapped ''register server'' (pipe R (nt 0)
             [HSET serversKey [(sv_ID sv, x)], ZADD serverHBKey (Unix now) (sv_ID sv)] s)))"

definition redis_UnregisterServer :: "'db redis \<Rightarrow> 'db net \<Rightarrow> string \<Rightarrow> 'db \<Rightarrow> 'db \<times> unit result" where
  "redis_UnregisterServer R nt serverID s =
     wrapped ''unregister server'' (pipe R (nt 0) [HDEL serversKey serverID, ZREM serverHBKey serverID] s)"

definition nil_to :: "error \<Rightarrow> string \<Rightarrow> 'db \<times> 'a result \<Rightarrow> 'db \<times> 'a result" where
  "nil_to e msg x =
     (fst x, case snd x of Err err \<Rightarrow> Err (if err = redisNil then e else ErrWrap msg err) | r \<Rightarrow> r)"

definition redis_Heartbeat :: "'db redis \<Rightarrow> 'db net \<Rightarrow> env \<Rightarrow> string \<Rightarrow> 'db \<Rightarrow> 'db \<times> unit result" where
  "redis_Heartbeat R nt e serverID s =
     and_then (nil_to ErrNotFound ''server heartbeat get'' (get_str R (nt 0) (HGET serversKey serverID) s)) (\<lambda>s x.
     with_value (unmarshalServer R x) (\<lambda>sv.
       let now = now_at e 0;
           sv = sv\<lparr>sv_LastHeartbeat := now, sv_Status := ServerStatusActive\<rparr>
       in with_value (marshalServer R sv) (\<lambda>updated s.
            wrapped ''server heartbeat'' (pipe R (nt 1)
              [HSET serversKey [(serverID, updated)], ZADD serverHBKey (Unix now) serverID] s))) s)"

definition redis_GetServers :: "'db redis \<Rightarrow> 'db net \<Rightarrow> 'db \<Rightarrow> 'db \<times> serverInfo list result" where
  "redis_GetServers R nt s =
     and_then (wrapped ''get servers'' (get_map R (nt 0) (HGETALL serversKey) s))
       (\<lambda>s fs. (s, unmarshal_all (unmarshalServer R) (map snd fs)))"

definition bumpCounter :: "'db redis \<Rightarrow> 'db trip \<Rightarrow> string \<Rightarrow> int64 \<Rightarrow> 'db \<Rightarrow> 'db \<times> unit result" where
  "bumpCounter R n key delta s =
     and_then (wrapped (''bump counter '' @ key) (send n (run R (INCRBY (counterKey key) (sint delta))) s))
       (\<lambda>s _. (s, Ok ()))"

text \<open>\<^verbatim>\<open>Get(...).Int64()\<close>: a reply that is no number is a syntax error of \<^verbatim>\<open>strconv\<close>.\<close>

definition get_int64 :: "'db redis \<Rightarrow> 'db trip \<Rightarrow> string \<Rightarrow> 'db \<Rightarrow> 'db \<times> int64 result" where
  "get_int64 R n key s =
     and_then (get_str R n (GET key) s) (\<lambda>s x.
       (s, case parse_int x of None \<Rightarrow> Err (ErrMsg ''strconv.ParseInt: invalid syntax'') | Some i \<Rightarrow> Ok (word_of_int i)))"

definition redis_GetCounter :: "'db redis \<Rightarrow> 'db net \<Rightarrow> string \<Rightarrow> 'db \<Rightarrow> 'db \<times> int64 result" where
  "redis_GetCounter R nt key s =
     (let (s, r) = get_int64 R (nt 0) (counterKey key) s
      in (s, case r of Err err \<Rightarrow> if err = redisNil then Ok 0 else Err (ErrWrap ''get counter'' err) | x \<Rightarrow> x))"

text \<open>
  The pages a scan returns are a parameter; each page is one trip. The loop over the keys of a page gives
  the next trip, the keys still to skip, the entries so far, and whether the limit ended it; a repeated
  key overwrites its entry.
\<close>

fun counters_loop ::
  "'db redis \<Rightarrow> 'db net \<Rightarrow> nat \<Rightarrow> int \<Rightarrow> int \<Rightarrow> string list \<Rightarrow> (string \<times> int64) list \<Rightarrow> 'db
     \<Rightarrow> 'db \<times> (nat \<times> int \<times> (string \<times> int64) list \<times> bool) result" where
  "counters_loop R nt n skip limit [] result s = (s, Ok (n, skip, result, False))"
| "counters_loop R nt n skip limit (k # ks) result s =
     (if skip > 0 then counters_loop R nt n (skip - 1) limit ks result s
      else if int (length result) \<ge> limit then (s, Ok (n, skip, result, True))
      else
        let (s, r) = get_int64 R (nt n) k s;
            name = drop (length counterKeyPrefix) k;
            set_entry = (\<lambda>v. filter (\<lambda>p. fst p \<noteq> name) result @ [(name, v)])
        in case r of
             Ok v \<Rightarrow> counters_loop R nt (Suc n) skip limit ks (set_entry v) s
           | Err err \<Rightarrow>
               if err = redisNil then counters_loop R nt (Suc n) skip limit ks (set_entry 0) s else (s, Err err)
           | Panic p \<Rightarrow> (s, Panic p))"

fun counters_pages ::
  "'db redis \<Rightarrow> 'db net \<Rightarrow> nat \<Rightarrow> int \<Rightarrow> int \<Rightarrow> string list list \<Rightarrow> (string \<times> int64) list \<Rightarrow> 'db
     \<Rightarrow> 'db \<times> (string \<times> int64) list result" where
  "counters_pages R nt n skip limit [] result s = (s, Ok result)"
| "counters_pages R nt n skip limit (page # pages) result s =
     and_then (wrapped ''scan counters'' (send (nt n) (\<lambda>s. (s, Ok page)) s)) (\<lambda>s ks.
     and_then (counters_loop R nt (Suc n) skip limit ks result s) (\<lambda>s (n, skip, result, full).
       if full then (s, Ok result) else counters_pages R nt n skip limit pages result s))"

definition redis_GetAllCounters ::
  "'db redis \<Rightarrow> 'db net \<Rightarrow> int \<Rightarrow> int \<Rightarrow> 'db \<Rightarrow> 'db \<times> (string \<times> int64) list result" where
  "redis_GetAllCounters R nt skip limit s =
     (let limit = (if limit \<le> 0 then 1000 else limit)
      in counters_pages R nt 0 skip limit (rd_scan R counterKeyPrefix s) [] s)"

definition releaseLockScript :: "'db redis \<Rightarrow> string \<Rightarrow> string \<Rightarrow> 'db \<Rightarrow> 'db \<times> int result" where
  "releaseLockScript R key ownerID s =
     and_then (run R (GET key) s) (\<lambda>s r.
       if r = RBulk ownerID then typed as_int (run R (DEL key) s) else (s, Ok 0))"

definition redis_AcquireLock ::
  "'db redis \<Rightarrow> 'db net \<Rightarrow> env \<Rightarrow> string \<Rightarrow> duration \<Rightarrow> 'db \<Rightarrow> 'db \<times> lock result" where
  "redis_AcquireLock R nt e resource ttl s =
     (let ownerID = new_uuid e 0 in
      and_then (wrapped ''acquire lock'' (get_int R (nt 0) (SETNX (lockKey resource) ownerID ttl) s)) (\<lambda>s ok.
      if ok = 0 then (s, Err ErrLockNotHeld)
      else (s, Ok \<lparr>lk_resource = resource, lk_ownerID = ownerID, lk_expiresAt = 0, lk_released = False\<rparr>)))"

definition redis_Release :: "'db redis \<Rightarrow> 'db net \<Rightarrow> lock \<Rightarrow> 'db \<Rightarrow> 'db \<times> lock \<times> unit result" where
  "redis_Release R nt l s =
     (let (s, r) = and_then (wrapped ''release lock'' (send (nt 0)
                     (releaseLockScript R (lockKey (lk_resource l)) (lk_ownerID l)) s))
                     (\<lambda>s res. (s, if res = 0 then Err ErrLockNotHeld else Ok ()))
      in (s, l, r))"

definition deleteJob :: "'db redis \<Rightarrow> 'db net \<Rightarrow> string \<Rightarrow> string \<Rightarrow> 'db \<Rightarrow> 'db \<times> unit result" where
  "deleteJob R nt jobID state s =
     (let (s, r) = get_map R (nt 0) (HGETALL (jobKey jobID)) s;
          queue = (case r of Ok fs \<Rightarrow> field fs ''queue'' | _ \<Rightarrow> '''')
      in wrapped (''delete job '' @ jobID) (pipe R (nt 1)
           ([DEL (jobKey jobID), DEL (jobStatesKey jobID), SREM (stateIndexKey state) jobID,
             HDEL processingKey jobID, ZREM scheduledKey jobID] @
            (if queue \<noteq> '''' then [LREM (queueKey queue) jobID] else []) @
            [DEL (continuationsKey jobID)]) s))"

fun expire_ids ::
  "'db redis \<Rightarrow> 'db net \<Rightarrow> time \<Rightarrow> string \<Rightarrow> nat \<Rightarrow> string list \<Rightarrow> int64 \<Rightarrow> 'db \<Rightarrow> 'db \<times> nat \<times> int64 result" where
  "expire_ids R nt cutoff st k [] n s = (s, k, Ok n)"
| "expire_ids R nt cutoff st k (i # ids) n s =
     (let (s, r) = get_str R (nt k) (HGET (jobKey i) ''updated_at'') s in
      case r of
        Ok updatedRaw \<Rightarrow>
          (case cd_Parse (rd_codec R) updatedRaw of
             Some t \<Rightarrow>
               if t < cutoff then
                 let (s, d) = deleteJob R (\<lambda>m. nt (m + k + 1)) i st s in
                 case d of
                   Ok _ \<Rightarrow> expire_ids R nt cutoff st (k + 3) ids (n + 1) s
                 | Err err \<Rightarrow> (s, k, Err err)
                 | Panic p \<Rightarrow> (s, k, Panic p)
               else expire_ids R nt cutoff st (Suc k) ids n s
           | None \<Rightarrow> expire_ids R nt cutoff st (Suc k) ids n s)
      | Err err \<Rightarrow> if err = redisNil then expire_ids R nt cutoff st (Suc k) ids n s else (s, k, Err err)
      | Panic p \<Rightarrow> (s, k, Panic p))"

fun expire_states ::
  "'db redis \<Rightarrow> 'db net \<Rightarrow> time \<Rightarrow> nat \<Rightarrow> string list \<Rightarrow> int64 \<Rightarrow> 'db \<Rightarrow> 'db \<times> int64 result" where
  "expire_states R nt cutoff k [] n s = (s, Ok n)"
| "expire_states R nt cutoff k (st # sts) n s =
     and_then (wrapped ''remove expired smembers'' (get_list R (nt k) (SMEMBERS (stateIndexKey st)) s)) (\<lambda>s ids.
     let (s, k, r) = expire_ids R nt cutoff st (Suc k) ids n s in
     case r of
       Ok n \<Rightarrow> expire_states R nt cutoff k sts n s
     | Err err \<Rightarrow> (s, Err err)
     | Panic p \<Rightarrow> (s, Panic p))"

definition redis_RemoveExpired :: "'db redis \<Rightarrow> 'db net \<Rightarrow> time \<Rightarrow> 'db \<Rightarrow> 'db \<times> int64 result" where
  "redis_RemoveExpired R nt cutoff s = expire_states R nt cutoff 0 [StateSucceeded, StateFailed, StateDeleted] 0 s"

section \<open>Schedule, recurring definitions, continuations (\<^verbatim>\<open>scheduled.go\<close>)\<close>

definition promoteScheduledScript ::
  "'db redis \<Rightarrow> int \<Rightarrow> int \<Rightarrow> 'db \<Rightarrow> 'db \<times> string list result" where
  "promoteScheduledScript R now batch s =
     and_then (typed as_list (run R (ZRANGEBYSCORE scheduledKey now batch) s)) (\<lambda>s ids.
     and_then (lua R (map (ZREM scheduledKey) ids) s) (\<lambda>s _. (s, Ok ids)))"

definition redis_AddScheduled ::
  "'db redis \<Rightarrow> 'db net \<Rightarrow> env \<Rightarrow> time \<Rightarrow> job \<Rightarrow> 'db \<Rightarrow> 'db \<times> string result" where
  "redis_AddScheduled R nt e enqueueAt job =
     (let job = redis_fill_job e (if j_Queue job = '''' then ''default'' else j_Queue job) job;
          st = new_state StateScheduled '''' [(''enqueue_at'', cd_RFC3339 (rd_codec R) enqueueAt)] (now_at e 0)
      in with_value (marshalState R st) (\<lambda>stateJSON s.
           and_then (wrapped ''add scheduled'' (pipe R (nt 0)
             [HSET (jobKey (j_ID job)) (jobHashFields R job StateScheduled 0 (now_at e 1)),
              RPUSH (jobStatesKey (j_ID job)) stateJSON,
              ZADD scheduledKey (Unix enqueueAt) (j_ID job),
              SADD (stateIndexKey StateScheduled) (j_ID job),
              INCRBY (counterKey ''scheduled'') 1] s))
           (\<lambda>s _. (s, Ok (j_ID job)))))"

fun promote_loop ::
  "'db redis \<Rightarrow> 'db net \<Rightarrow> time \<Rightarrow> nat \<Rightarrow> string list \<Rightarrow> 'db \<Rightarrow> 'db \<times> jobTicket list result" where
  "promote_loop R nt ts k [] s = (s, Ok [])"
| "promote_loop R nt ts k (jobID # ids) s =
     (let (s, r) = get_map R (nt k) (HGETALL (jobKey jobID)) s in
      case r of
        Ok fs \<Rightarrow>
          if fs = [] then promote_loop R nt ts (Suc k) ids s
          else
            let queue = (if field fs ''queue'' = '''' then ''default'' else field fs ''queue'') in
            with_value (marshalState R (new_state StateEnqueued ''scheduled'' [] ts)) (\<lambda>stateJSON s.
              and_then (wrapped (''promote scheduled '' @ jobID) (pipe R (nt (k + 1))
                [HSET (jobKey jobID) [(''state'', StateEnqueued), (''updated_at'', cd_RFC3339Nano (rd_codec R) ts)],
                 RPUSH (jobStatesKey jobID) stateJSON,
                 LPUSH (queueKey queue) jobID,
                 SADD queuesIndexKey queue,
                 SREM (stateIndexKey StateScheduled) jobID,
                 SADD (stateIndexKey StateEnqueued) jobID,
                 INCRBY (counterKey ''scheduled'') (- 1),
                 INCRBY (counterKey ''enqueued'') 1] s)) (\<lambda>s _.
              and_then (promote_loop R nt ts (k + 2) ids s) (\<lambda>s rest.
                (s, Ok (\<lparr>t_JobID = jobID, t_Token = ''sched-'' @ jobID\<rparr> # rest))))) s
      | _ \<Rightarrow> promote_loop R nt ts (Suc k) ids s)"

definition redis_GetDueScheduled ::
  "'db redis \<Rightarrow> 'db net \<Rightarrow> env \<Rightarrow> time \<Rightarrow> int \<Rightarrow> 'db \<Rightarrow> 'db \<times> jobTicket list result" where
  "redis_GetDueScheduled R nt e now batchSize s =
     (let batchSize = (if batchSize \<le> 0 then 100 else batchSize) in
      and_then (wrapped ''due scheduled'' (send (nt 0) (promoteScheduledScript R (Unix now) batchSize) s))
        (\<lambda>s ids. promote_loop R nt (now_at e 0) 1 ids s))"

definition redis_RemoveScheduled :: "'db redis \<Rightarrow> 'db net \<Rightarrow> string \<Rightarrow> 'db \<Rightarrow> 'db \<times> unit result" where
  "redis_RemoveScheduled R nt jobID s =
     and_then (wrapped ''remove scheduled'' (send (nt 0) (run R (ZREM scheduledKey jobID)) s)) (\<lambda>s _. (s, Ok ()))"

definition redis_UpsertRecurring ::
  "'db redis \<Rightarrow> 'db net \<Rightarrow> env \<Rightarrow> recurringJobEntry \<Rightarrow> 'db \<Rightarrow> 'db \<times> unit result" where
  "redis_UpsertRecurring R nt e d =
     (let now = now_at e 0;
          d = d\<lparr>r_UpdatedAt := now, r_CreatedAt := (if r_CreatedAt d = 0 then now else r_CreatedAt d),
                r_Args := (if r_Args d = None then Some ''[]'' else r_Args d),
                r_Queue := (if r_Queue d = '''' then ''default'' else r_Queue d)\<rparr>
      in with_value (marshalRecurring R d) (\<lambda>x s.
           and_then (wrapped ''upsert recurring'' (send (nt 0) (run R (HSET recurringKey [(r_ID d, x)])) s))
             (\<lambda>s _. (s, Ok ()))))"

definition redis_RemoveRecurring :: "'db redis \<Rightarrow> 'db net \<Rightarrow> string \<Rightarrow> 'db \<Rightarrow> 'db \<times> unit result" where
  "redis_RemoveRecurring R nt i s =
     and_then (wrapped ''remove recurring'' (send (nt 0) (run R (HDEL recurringKey i)) s)) (\<lambda>s _. (s, Ok ()))"

definition redis_GetRecurringJobs :: "'db redis \<Rightarrow> 'db net \<Rightarrow> 'db \<Rightarrow> 'db \<times> recurringJobEntry list result" where
  "redis_GetRecurringJobs R nt s =
     and_then (wrapped ''get recurring'' (get_map R (nt 0) (HGETALL recurringKey) s))
       (\<lambda>s fs. (s, unmarshal_all (unmarshalRecurring R) (map snd fs)))"

definition redis_UpdateRecurringLastRun ::
  "'db redis \<Rightarrow> 'db net \<Rightarrow> env \<Rightarrow> string \<Rightarrow> time \<Rightarrow> time \<Rightarrow> 'db \<Rightarrow> 'db \<times> unit result" where
  "redis_UpdateRecurringLastRun R nt e i lastRun nextRun s =
     and_then (nil_to ErrNotFound ''update recurring last_run get'' (get_str R (nt 0) (HGET recurringKey i) s)) (\<lambda>s x.
     with_value (unmarshalRecurring R x) (\<lambda>d.
       let d = d\<lparr>r_LastRun := Some lastRun, r_NextRun := Some nextRun, r_UpdatedAt := now_at e 0\<rparr> in
       with_value (marshalRecurring R d) (\<lambda>encoded s.
         and_then (wrapped ''update recurring last_run'' (send (nt 1) (run R (HSET recurringKey [(i, encoded)])) s))
           (\<lambda>s _. (s, Ok ())))) s)"

definition redis_AddContinuation ::
  "'db redis \<Rightarrow> 'db net \<Rightarrow> env \<Rightarrow> string \<Rightarrow> continuationEntry \<Rightarrow> 'db \<Rightarrow> 'db \<times> unit result" where
  "redis_AddContinuation R nt e parentID d =
     (let d = d\<lparr>c_ChildArgs := (if c_ChildArgs d = None then Some ''[]'' else c_ChildArgs d),
                c_ChildQueue := (if c_ChildQueue d = '''' then ''default'' else c_ChildQueue d),
                c_CreatedAt := now_at e 0\<rparr>;
          entryID = new_uuid e 0
      in with_value (marshalContinuation R d) (\<lambda>x s.
           wrapped ''add continuation'' (pipe R (nt 0)
             [SADD (continuationsKey parentID) entryID, SET (continuationEntryKey parentID entryID) x] s)))"

fun load_continuations ::
  "'db redis \<Rightarrow> 'db net \<Rightarrow> string \<Rightarrow> nat \<Rightarrow> string list \<Rightarrow> 'db \<Rightarrow> 'db \<times> continuationEntry list result" where
  "load_continuations R nt p k [] s = (s, Ok [])"
| "load_continuations R nt p k (i # ids) s =
     (let (s, r) = get_str R (nt k) (GET (continuationEntryKey p i)) s in
      case r of
        Ok x \<Rightarrow> with_value (unmarshalContinuation R x) (\<lambda>d s.
            and_then (load_continuations R nt p (Suc k) ids s) (\<lambda>s rest. (s, Ok (d # rest)))) s
      | Err err \<Rightarrow> if err = redisNil then load_continuations R nt p (Suc k) ids s else (s, Err err)
      | Panic q \<Rightarrow> (s, Panic q))"

definition redis_GetContinuations ::
  "'db redis \<Rightarrow> 'db net \<Rightarrow> string \<Rightarrow> 'db \<Rightarrow> 'db \<times> continuationEntry list result" where
  "redis_GetContinuations R nt parentID s =
     and_then (wrapped ''get continuations'' (get_list R (nt 0) (SMEMBERS (continuationsKey parentID)) s))
       (\<lambda>s ids. load_continuations R nt parentID 1 ids s)"

definition redis_RemoveContinuations :: "'db redis \<Rightarrow> 'db net \<Rightarrow> string \<Rightarrow> 'db \<Rightarrow> 'db \<times> unit result" where
  "redis_RemoveContinuations R nt parentID s =
     and_then (wrapped ''remove continuations list'' (get_list R (nt 0) (SMEMBERS (continuationsKey parentID)) s))
       (\<lambda>s ids. wrapped ''remove continuations'' (pipe R (nt 1)
          (DEL (continuationsKey parentID) # map (\<lambda>i. DEL (continuationEntryKey parentID i)) ids) s))"

section \<open>The store (\<^verbatim>\<open>storage.go\<close>)\<close>

definition redis_New :: "'db redis \<Rightarrow> 'db redis" where
  "redis_New R = R\<lparr>rd_serverID := ''local''\<rparr>"

definition redis_NewWithServerID :: "string \<Rightarrow> 'db redis \<Rightarrow> 'db redis" where
  "redis_NewWithServerID serverID R = R\<lparr>rd_serverID := (if serverID = '''' then ''local'' else serverID)\<rparr>"

definition SetServerID :: "string \<Rightarrow> 'db redis \<Rightarrow> 'db redis" where
  "SetServerID serverID R = R\<lparr>rd_serverID := (if serverID = '''' then ''local'' else serverID)\<rparr>"

definition redis_ops :: "'db redis \<Rightarrow> 'db storage_ops" where
  "redis_ops R = \<lparr>
     op_Enqueue = \<lambda>e c. redis_Enqueue R (quiet c) e,
     op_Dequeue = \<lambda>e c. redis_Dequeue R (quiet c) e c,
     op_Requeue = \<lambda>e c. redis_Requeue R (quiet c) e,
     op_ApplyState = \<lambda>e c. redis_ApplyState R (quiet c) e,
     op_HeartbeatJob = \<lambda>e c. redis_HeartbeatJob R (quiet c) e,
     op_GetOrphanedJobs = \<lambda>e c age s. snd (redis_GetOrphanedJobs R (quiet c) e age s),
     op_GetJob = \<lambda>c i s. snd (redis_GetJob R (quiet c) i s),
     op_GetJobsByState = \<lambda>e c st off lim s. snd (redis_GetJobsByState R (quiet c) st off lim s),
     op_GetQueueLength = \<lambda>c q s. snd (redis_GetQueueLength R (quiet c) q s),
     op_GetQueues = \<lambda>e c s. snd (redis_GetQueues R (quiet c) s),
     op_RegisterServer = \<lambda>e c sv ttl. redis_RegisterServer R (quiet c) e sv,
     op_UnregisterServer = \<lambda>c. redis_UnregisterServer R (quiet c),
     op_Heartbeat = \<lambda>e c i ttl. redis_Heartbeat R (quiet c) e i,
     op_GetServers = \<lambda>e c s. snd (redis_GetServers R (quiet c) s),
     op_AddScheduled = \<lambda>e c. redis_AddScheduled R (quiet c) e,
     op_GetDueScheduled = \<lambda>e c. redis_GetDueScheduled R (quiet c) e,
     op_RemoveScheduled = \<lambda>c. redis_RemoveScheduled R (quiet c),
     op_UpsertRecurring = \<lambda>e c. redis_UpsertRecurring R (quiet c) e,
     op_RemoveRecurring = \<lambda>c. redis_RemoveRecurring R (quiet c),
     op_GetRecurringJobs = \<lambda>e c s. snd (redis_GetRecurringJobs R (quiet c) s),
     op_UpdateRecurringLastRun = \<lambda>e c. redis_UpdateRecurringLastRun R (quiet c) e,
     op_AddContinuation = \<lambda>e c. redis_AddContinuation R (quiet c) e,
     op_GetContinuations = \<lambda>c i s. snd (redis_GetContinuations R (quiet c) i s),
     op_RemoveContinuations = \<lambda>c. redis_RemoveContinuations R (quiet c),
     op_IncrementCounter = \<lambda>c. bumpCounter R (quiet c 0),
     op_GetCounter = \<lambda>c k s. snd (redis_GetCounter R (quiet c) k s),
     op_GetAllCounters = \<lambda>e c skip lim s. snd (redis_GetAllCounters R (quiet c) skip lim s),
     op_AcquireLock = \<lambda>e c. redis_AcquireLock R (quiet c) e,
     op_Release = \<lambda>c. redis_Release R (quiet c),
     op_RemoveExpired = \<lambda>e c. redis_RemoveExpired R (quiet c),
     op_ScheduleRetry = \<lambda>e c. redis_ScheduleRetry R (quiet c) e,
     op_SetJobResult = \<lambda>c. redis_SetJobResult R (quiet c),
     op_DeleteJob = \<lambda>e c. redis_DeleteJob R (quiet c) e,
     op_EnqueueIdempotent = \<lambda>e c. redis_EnqueueIdempotent R (quiet c) e,
     op_Close = \<lambda>s. (s, Ok ())\<rparr>"

end
