(* ===== verification/Redis_Contract.thy ===== *)
theory Redis_Contract
  imports Redis_Store Coordinator
begin

text \<open>
  The Redis store keeps the storage contract, for every server that keeps the laws of \<open>redis_server\<close>: the
  sublocale at the end gives all the engine's lemmas to it. The invariant says which type each key
  has, that every job has a hash and a non-empty history of readable states, and that the state field
  of the hash is the last state of the history. Ids contain no colon, as the UUIDs the store draws;
  with one, the key of a job could be that of another job's history.
\<close>

section \<open>Keys\<close>

definition no_colon :: "string \<Rightarrow> bool" where
  "no_colon i \<longleftrightarrow> CHR '':'' \<notin> set i"

lemmas key_defs = keyPrefix_def jobKey_def jobStatesKey_def queueKey_def stateIndexKey_def processingKey_def
  scheduledKey_def queuesIndexKey_def counterKey_def counterKeyPrefix_def recurringKey_def serversKey_def
  serverHBKey_def lockKey_def lockKeyPrefix_def continuationsKey_def continuationEntryKey_def idempotencyKey_def

lemma key_inj [simp]:
  "jobKey i = jobKey j \<longleftrightarrow> i = j" "jobStatesKey i = jobStatesKey j \<longleftrightarrow> i = j"
  "queueKey q = queueKey p \<longleftrightarrow> q = p" "stateIndexKey m = stateIndexKey n \<longleftrightarrow> m = n"
  "counterKey m = counterKey n \<longleftrightarrow> m = n" "idempotencyKey m = idempotencyKey n \<longleftrightarrow> m = n"
  "lockKey m = lockKey n \<longleftrightarrow> m = n"
  by (simp_all add: key_defs)

lemma key_neq:
  "jobKey i \<noteq> queueKey q" "jobKey i \<noteq> stateIndexKey n" "jobKey i \<noteq> processingKey" "jobKey i \<noteq> scheduledKey"
  "jobKey i \<noteq> queuesIndexKey" "jobKey i \<noteq> counterKey n" "jobKey i \<noteq> idempotencyKey n"
  "jobStatesKey i \<noteq> queueKey q" "jobStatesKey i \<noteq> stateIndexKey n" "jobStatesKey i \<noteq> processingKey"
  "jobStatesKey i \<noteq> scheduledKey" "jobStatesKey i \<noteq> queuesIndexKey" "jobStatesKey i \<noteq> counterKey n"
  "jobStatesKey i \<noteq> idempotencyKey n"
  "queueKey q \<noteq> stateIndexKey n" "queueKey q \<noteq> processingKey" "queueKey q \<noteq> scheduledKey"
  "queueKey q \<noteq> queuesIndexKey" "queueKey q \<noteq> counterKey n" "queueKey q \<noteq> idempotencyKey n"
  "stateIndexKey m \<noteq> processingKey" "stateIndexKey m \<noteq> scheduledKey" "stateIndexKey m \<noteq> queuesIndexKey"
  "stateIndexKey m \<noteq> counterKey n" "stateIndexKey m \<noteq> idempotencyKey n"
  "processingKey \<noteq> scheduledKey" "processingKey \<noteq> queuesIndexKey" "processingKey \<noteq> counterKey n"
  "processingKey \<noteq> idempotencyKey n" "scheduledKey \<noteq> queuesIndexKey" "scheduledKey \<noteq> counterKey n"
  "scheduledKey \<noteq> idempotencyKey n" "queuesIndexKey \<noteq> counterKey n" "queuesIndexKey \<noteq> idempotencyKey n"
  "counterKey m \<noteq> idempotencyKey n"
  by (simp_all add: key_defs)

lemmas key_neqs [simp] = key_neq key_neq [symmetric]

lemma jobKey_states [simp]:
  assumes "no_colon i"
  shows "jobKey i \<noteq> jobStatesKey j" "jobStatesKey j \<noteq> jobKey i"
proof -
  have "i \<noteq> j @ '':states''" using assms by (auto simp: no_colon_def)
  then show "jobKey i \<noteq> jobStatesKey j" "jobStatesKey j \<noteq> jobKey i" by (auto simp: key_defs)
qed

section \<open>The invariant\<close>

fun key_of :: "cmd \<Rightarrow> string set" where
  "key_of (DEL k) = {k}"
| "key_of (SET k x) = {k}"
| "key_of (SETNX k x ttl) = {k}"
| "key_of (INCRBY k d) = {k}"
| "key_of (HSET k fs) = {k}"
| "key_of (HDEL k f) = {k}"
| "key_of (RPUSH k x) = {k}"
| "key_of (LPUSH k x) = {k}"
| "key_of (LREM k x) = {k}"
| "key_of (BRPOP ks) = set ks"
| "key_of (SADD k x) = {k}"
| "key_of (SREM k x) = {k}"
| "key_of (ZADD k sc x) = {k}"
| "key_of (ZREM k x) = {k}"
| "key_of _ = {}"

lemma upd_other: "k' \<noteq> k \<Longrightarrow> upd v k x f k' = v k'"
  by (simp add: upd_def split: option.split)

lemma after_frame: "k \<notin> key_of c \<Longrightarrow> after c v k = v k"
proof (cases c)
  case (BRPOP ks)
  assume "k \<notin> key_of c"
  with BRPOP have "find P ks = Some k' \<Longrightarrow> k' \<noteq> k" for k' P by (auto simp: find_Some_iff dest: nth_mem)
  then have "find P ks = Some k' \<Longrightarrow> k \<noteq> k'" for k' P by blast
  with BRPOP show ?thesis by (auto intro!: upd_other split: option.split)
qed (auto simp: upd_other)

definition after_all :: "cmd list \<Rightarrow> kv \<Rightarrow> kv" where
  "after_all cs v = foldl (\<lambda>v c. after c v) v cs"

lemma after_all_simps [simp]: "after_all [] v = v" "after_all (c # cs) v = after_all cs (after c v)"
  by (simp_all add: after_all_def)

lemma after_all_frame: "k \<notin> \<Union> (key_of ` set cs) \<Longrightarrow> after_all cs v k = v k"
  by (induction cs arbitrary: v) (auto simp: after_frame)

text \<open>What a key holds after a command on it; every other key is framed.\<close>

lemma after_here:
  "after (HSET k fs) v k = (case hash_of (v k) of None \<Rightarrow> v k | Some m \<Rightarrow> VHash (hset_all m fs))"
  "after (HDEL k f) v k = (case hash_of (v k) of None \<Rightarrow> v k | Some m \<Rightarrow> put_hash (m(f := None)))"
  "after (RPUSH k x) v k = (case list_of (v k) of None \<Rightarrow> v k | Some xs \<Rightarrow> VList (xs @ [x]))"
  "after (LPUSH k x) v k = (case list_of (v k) of None \<Rightarrow> v k | Some xs \<Rightarrow> VList (x # xs))"
  "after (LREM k x) v k = (case list_of (v k) of None \<Rightarrow> v k | Some xs \<Rightarrow> put_list (removeAll x xs))"
  "after (SADD k x) v k = (case set_of (v k) of None \<Rightarrow> v k | Some S \<Rightarrow> VSet (insert x S))"
  "after (SREM k x) v k = (case set_of (v k) of None \<Rightarrow> v k | Some S \<Rightarrow> put_set (S - {x}))"
  "after (ZADD k sc x) v k = (case zset_of (v k) of None \<Rightarrow> v k | Some z \<Rightarrow> VZset (z(x \<mapsto> sc)))"
  "after (ZREM k x) v k = (case zset_of (v k) of None \<Rightarrow> v k | Some z \<Rightarrow> put_zset (z(x := None)))"
  "after (INCRBY k d) v k = (case int_of (v k) of None \<Rightarrow> v k | Some n \<Rightarrow> VStr (show_int (n + d)))"
  "after (DEL k) v k = VNone"
  "after (SET k x) v k = VStr x"
  by (simp_all add: upd_def split: option.split)

declare after.simps [simp del]

lemmas view_simps = after_here after_frame

lemma put_inverse [simp]:
  "hash_of (put_hash m) = Some m" "list_of (put_list xs) = Some xs" "set_of (put_set S) = Some S"
  "zset_of (put_zset z) = Some z"
  by (simp_all add: put_hash_def put_list_def put_set_def put_zset_def)

lemma put_hash_state: "m ''state'' = Some x \<Longrightarrow> put_hash m = VHash m"
  by (auto simp: put_hash_def)

text \<open>Every key has one type: the invariant that lets commands succeed.\<close>

datatype kind = KHash | KList | KSet | KZset | KInt

fun has_kind :: "kind \<Rightarrow> rval \<Rightarrow> bool" where
  "has_kind KHash x = (hash_of x \<noteq> None)"
| "has_kind KList x = (list_of x \<noteq> None)"
| "has_kind KSet x = (set_of x \<noteq> None)"
| "has_kind KZset x = (zset_of x \<noteq> None)"
| "has_kind KInt x = (int_of x \<noteq> None)"

inductive of_kind :: "string \<Rightarrow> kind \<Rightarrow> bool" where
  "no_colon i \<Longrightarrow> of_kind (jobKey i) KHash"
| "no_colon i \<Longrightarrow> of_kind (jobStatesKey i) KList"
| "of_kind (queueKey q) KList"
| "of_kind (stateIndexKey n) KSet"
| "of_kind queuesIndexKey KSet"
| "of_kind processingKey KHash"
| "of_kind scheduledKey KZset"
| "of_kind (counterKey n) KInt"

declare of_kind.intros [simp]

lemma of_kind_unique: "of_kind k K \<Longrightarrow> of_kind k K' \<Longrightarrow> K = K'"
  by (erule of_kind.cases; erule of_kind.cases; simp)

definition keys_typed :: "kv \<Rightarrow> bool" where
  "keys_typed v \<longleftrightarrow> (\<forall>k K. of_kind k K \<longrightarrow> has_kind K (v k))"

lemma typed_at: "keys_typed v \<Longrightarrow> of_kind k K \<Longrightarrow> has_kind K (v k)"
  by (simp add: keys_typed_def)

fun well_keyed :: "cmd \<Rightarrow> bool" where
  "well_keyed (HSET k fs) = of_kind k KHash"
| "well_keyed (HDEL k f) = of_kind k KHash"
| "well_keyed (RPUSH k x) = of_kind k KList"
| "well_keyed (LPUSH k x) = of_kind k KList"
| "well_keyed (LREM k x) = of_kind k KList"
| "well_keyed (SADD k x) = of_kind k KSet"
| "well_keyed (SREM k x) = of_kind k KSet"
| "well_keyed (ZADD k sc x) = of_kind k KZset"
| "well_keyed (ZREM k x) = of_kind k KZset"
| "well_keyed (INCRBY k d) = of_kind k KInt"
| "well_keyed _ = False"

text \<open>A command that meets a value of its own type does not fail.\<close>

fun cmd_ok :: "cmd \<Rightarrow> kv \<Rightarrow> bool" where
  "cmd_ok (GET k) v = (v k = VNone \<or> (\<exists>x. v k = VStr x))"
| "cmd_ok (INCRBY k d) v = has_kind KInt (v k)"
| "cmd_ok (HSET k fs) v = has_kind KHash (v k)"
| "cmd_ok (HGET k f) v = has_kind KHash (v k)"
| "cmd_ok (HGETALL k) v = has_kind KHash (v k)"
| "cmd_ok (HDEL k f) v = has_kind KHash (v k)"
| "cmd_ok (RPUSH k x) v = has_kind KList (v k)"
| "cmd_ok (LPUSH k x) v = has_kind KList (v k)"
| "cmd_ok (LRANGE k) v = has_kind KList (v k)"
| "cmd_ok (LLEN k) v = has_kind KList (v k)"
| "cmd_ok (LREM k x) v = has_kind KList (v k)"
| "cmd_ok (BRPOP ks) v = (\<forall>k \<in> set ks. has_kind KList (v k))"
| "cmd_ok (SADD k x) v = has_kind KSet (v k)"
| "cmd_ok (SREM k x) v = has_kind KSet (v k)"
| "cmd_ok (SMEMBERS k) v = has_kind KSet (v k)"
| "cmd_ok (ZADD k sc x) v = has_kind KZset (v k)"
| "cmd_ok (ZREM k x) v = has_kind KZset (v k)"
| "cmd_ok (ZRANGEBYSCORE k hi n) v = has_kind KZset (v k)"
| "cmd_ok _ v = True"

lemma well_keyed_ok: "well_keyed c \<Longrightarrow> keys_typed v \<Longrightarrow> cmd_ok c v"
  by (cases c) (simp_all add: keys_typed_def del: has_kind.simps)

lemma well_keyed_typed:
  assumes "well_keyed c" "keys_typed v"
  shows "keys_typed (after c v)"
  unfolding keys_typed_def
proof (intro allI impI)
  fix k K assume K: "of_kind k K"
  then have old: "has_kind K (v k)" using assms(2) by (simp add: keys_typed_def)
  show "has_kind K (after c v k)"
  proof (cases "k \<in> key_of c")
    case True
    with assms(1) K old show ?thesis
      by (cases c) (auto simp: after.simps upd_def dest: of_kind_unique split: option.split)
  qed (simp add: after_frame old)
qed

fun cmds_ok :: "cmd list \<Rightarrow> kv \<Rightarrow> bool" where
  "cmds_ok [] v = True"
| "cmds_ok (c # cs) v = (cmd_ok c v \<and> cmds_ok cs (after c v))"

lemma well_keyed_all: "list_all well_keyed cs \<Longrightarrow> keys_typed v \<Longrightarrow> cmds_ok cs v \<and> keys_typed (after_all cs v)"
  by (induction cs arbitrary: v) (auto simp: well_keyed_ok well_keyed_typed)

lemma reply_no_error: "cmd_ok c v \<Longrightarrow> reply_ok c v r \<Longrightarrow> r \<noteq> RError m"
  by (cases c) (auto simp: fits_def some_int_def find_Some_iff split: option.splits rval.splits if_splits dest!: nth_mem)

lemma trip_simps [simp]:
  "with_value (Ok a) f s = f a s" "with_value (Err err) f s = (s, Err err)"
  by (simp_all add: with_value_def)

section \<open>The observations\<close>

fun text_at :: "(string \<rightharpoonup> string) \<Rightarrow> string \<Rightarrow> string" where
  "text_at m f = (case m f of None \<Rightarrow> '''' | Some x \<Rightarrow> x)"

definition hash_job :: "'db redis \<Rightarrow> (string \<rightharpoonup> string) \<Rightarrow> job" where
  "hash_job R m =
     (new_job (text_at m ''name'') (Some (text_at m ''args'')) (text_at m ''queue''))
       \<lparr>j_ID := text_at m ''id'', j_RetryMax := Atoi (text_at m ''retry_max''),
        j_Timeout := durationFromMS (word_of_int (Atoi (text_at m ''timeout_ms''))),
        j_CreatedAt := parse_time R (text_at m ''created_at''),
        j_Result := (if text_at m ''result'' \<noteq> '''' then Some (text_at m ''result'') else None)\<rparr>"

definition decode_states :: "'db redis \<Rightarrow> string list \<Rightarrow> jobState list option" where
  "decode_states R xs = (case unmarshal_all (unmarshalState R) xs of Ok h \<Rightarrow> Some h | _ \<Rightarrow> None)"

definition job_entry :: "'db redis \<Rightarrow> string \<Rightarrow> (string \<rightharpoonup> string) \<Rightarrow> string list \<Rightarrow> bool" where
  "job_entry R i m xs \<longleftrightarrow>
     i \<noteq> '''' \<and> m ''id'' = Some i \<and> (\<exists>q. q \<noteq> '''' \<and> m ''queue'' = Some q) \<and>
     (\<exists>h. decode_states R xs = Some h \<and> h \<noteq> [] \<and> m ''state'' = Some (current_of h))"

definition redis_inv :: "'db redis \<Rightarrow> kv \<Rightarrow> bool" where
  "redis_inv R v \<longleftrightarrow> keys_typed v \<and>
     (\<forall>i. no_colon i \<longrightarrow> v (jobKey i) = VNone \<and> v (jobStatesKey i) = VNone \<or>
        (\<exists>m xs. v (jobKey i) = VHash m \<and> v (jobStatesKey i) = VList xs \<and> job_entry R i m xs))"

definition redis_hist :: "'db redis \<Rightarrow> kv \<Rightarrow> string \<Rightarrow> jobState list option" where
  "redis_hist R v i =
     (if no_colon i then case v (jobStatesKey i) of VList xs \<Rightarrow> decode_states R xs | _ \<Rightarrow> None else None)"

definition redis_job :: "'db redis \<Rightarrow> kv \<Rightarrow> string \<Rightarrow> job option" where
  "redis_job R v i = (if no_colon i then case v (jobKey i) of VHash m \<Rightarrow> Some (hash_job R m) | _ \<Rightarrow> None else None)"

definition redis_queued :: "kv \<Rightarrow> string \<Rightarrow> string set" where
  "redis_queued v q = (case v (queueKey q) of VList xs \<Rightarrow> set xs | _ \<Rightarrow> {})"

lemma redis_inv_typed: "redis_inv R v \<Longrightarrow> keys_typed v"
  by (simp add: redis_inv_def)

lemma redis_entry:
  assumes "redis_inv R v" "redis_hist R v i = Some h"
  obtains m xs where "no_colon i" "v (jobKey i) = VHash m" "v (jobStatesKey i) = VList xs" "job_entry R i m xs"
    "decode_states R xs = Some h" "h \<noteq> []" "m ''state'' = Some (current_of h)" "redis_job R v i = Some (hash_job R m)"
proof -
  from assms(2) have nc: "no_colon i" by (simp add: redis_hist_def split: if_splits)
  with assms obtain m xs where "v (jobKey i) = VHash m" "v (jobStatesKey i) = VList xs" "job_entry R i m xs"
    by (auto simp: redis_inv_def redis_hist_def)
  with assms nc that show thesis by (auto simp: redis_hist_def redis_job_def job_entry_def)
qed

lemma redis_absent:
  assumes "redis_inv R v" "no_colon i"
  shows "redis_hist R v i = None \<longleftrightarrow> v (jobKey i) = VNone" "redis_job R v i = None \<longleftrightarrow> v (jobKey i) = VNone"
    "redis_hist R v i = None \<Longrightarrow> v (jobStatesKey i) = VNone"
  using assms by (force simp: redis_inv_def redis_hist_def redis_job_def job_entry_def)+

lemma jobFromHash_job:
  assumes "map_of fs = m" "job_entry R i m xs"
  shows "\<exists>x. jobFromHash R fs = Ok (hash_job R m, x)" "fs \<noteq> []"
  using assms by (auto simp: jobFromHash_def hash_job_def field_def job_entry_def)

lemma decode_snoc:
  "decode_states R xs = Some h \<Longrightarrow> unmarshalState R enc = Ok st \<Longrightarrow> decode_states R (xs @ [enc]) = Some (h @ [st])"
proof -
  assume a: "decode_states R xs = Some h" "unmarshalState R enc = Ok st"
  have "unmarshal_all f xs = Ok h \<Longrightarrow> f enc = Ok st \<Longrightarrow> unmarshal_all f (xs @ [enc]) = Ok (h @ [st])"
    for f :: "string \<Rightarrow> jobState result"
    by (induction xs arbitrary: h) (auto split: result.splits elim!: map_result.elims)
  with a show ?thesis by (auto simp: decode_states_def split: result.splits)
qed

text \<open>
  A transition of job \<open>i\<close>: its hash keeps the fields the job is read from and takes the new state's
  name, the encoded state is appended, the other jobs are untouched.
\<close>

definition job_fields :: "string set" where
  "job_fields = {''id'', ''name'', ''args'', ''queue'', ''retry_max'', ''timeout_ms'', ''created_at'', ''result''}"

lemma hash_job_cong: "\<forall>f \<in> job_fields. m' f = m f \<Longrightarrow> hash_job R m' = hash_job R m"
  by (simp add: hash_job_def job_fields_def)

lemma redis_transition:
  assumes inv: "redis_inv R v" and h: "redis_hist R v i = Some h"
    and ent: "v (jobKey i) = VHash m" "v (jobStatesKey i) = VList xs"
    and new: "v' (jobKey i) = VHash m'" "v' (jobStatesKey i) = VList (xs @ [enc])"
    and fields: "\<forall>f \<in> job_fields. m' f = m f" and state: "m' ''state'' = Some (js_Name st)"
    and enc: "unmarshalState R enc = Ok st"
    and others: "\<forall>j. no_colon j \<longrightarrow> j \<noteq> i \<longrightarrow> v' (jobKey j) = v (jobKey j) \<and> v' (jobStatesKey j) = v (jobStatesKey j)"
    and typed: "keys_typed v'"
  shows "redis_inv R v'" "redis_hist R v' = (redis_hist R v)(i \<mapsto> h @ [st])" "redis_job R v' = redis_job R v"
proof -
  from redis_entry [OF inv h] ent have nc: "no_colon i" and d: "decode_states R xs = Some h" and e: "job_entry R i m xs"
    by auto
  have d': "decode_states R (xs @ [enc]) = Some (h @ [st])" by (rule decode_snoc [OF d enc])
  have e': "job_entry R i m' (xs @ [enc])"
    using e d' state fields by (auto simp: job_entry_def job_fields_def)
  show "redis_inv R v'" unfolding redis_inv_def
  proof (intro conjI allI impI typed)
    fix j assume j: "no_colon j"
    show "v' (jobKey j) = VNone \<and> v' (jobStatesKey j) = VNone \<or>
        (\<exists>m xs. v' (jobKey j) = VHash m \<and> v' (jobStatesKey j) = VList xs \<and> job_entry R j m xs)"
      using inv others new e' j by (cases "j = i") (auto simp: redis_inv_def)
  qed
  show "redis_hist R v' = (redis_hist R v)(i \<mapsto> h @ [st])"
  proof (rule ext)
    show "redis_hist R v' j = ((redis_hist R v)(i \<mapsto> h @ [st])) j" for j
      using others new d' nc by (cases "j = i") (auto simp: redis_hist_def)
  qed
  show "redis_job R v' = redis_job R v"
  proof (rule ext)
    have "hash_job R m' = hash_job R m" by (rule hash_job_cong [OF fields])
    then show "redis_job R v' j = redis_job R v j" for j
      using others new ent by (cases "j = i") (auto simp: redis_job_def)
  qed
qed

lemma redis_created:
  assumes inv: "redis_inv R v" and u: "no_colon u" "u \<noteq> ''''"
    and new: "v' (jobKey u) = VHash m" "v' (jobStatesKey u) = VList [enc]" "unmarshalState R enc = Ok st"
    and m: "m ''id'' = Some u" "m ''queue'' = Some q" "q \<noteq> ''''" "m ''state'' = Some (js_Name st)"
    and others: "\<forall>j. no_colon j \<longrightarrow> j \<noteq> u \<longrightarrow> v' (jobKey j) = v (jobKey j) \<and> v' (jobStatesKey j) = v (jobStatesKey j)"
    and typed: "keys_typed v'"
  shows "redis_inv R v'" "redis_hist R v' = (redis_hist R v)(u \<mapsto> [st])" "redis_job R v' = (redis_job R v)(u \<mapsto> hash_job R m)"
proof -
  have d: "decode_states R [enc] = Some [st]" using new(3) by (simp add: decode_states_def)
  have e: "job_entry R u m [enc]" using d m u by (auto simp: job_entry_def)
  show "redis_inv R v'" unfolding redis_inv_def
  proof (intro conjI allI impI typed)
    fix j assume j: "no_colon j"
    show "v' (jobKey j) = VNone \<and> v' (jobStatesKey j) = VNone \<or>
        (\<exists>m xs. v' (jobKey j) = VHash m \<and> v' (jobStatesKey j) = VList xs \<and> job_entry R j m xs)"
      using inv others new e j by (cases "j = u") (auto simp: redis_inv_def)
  qed
  show "redis_hist R v' = (redis_hist R v)(u \<mapsto> [st])"
  proof (rule ext)
    show "redis_hist R v' j = ((redis_hist R v)(u \<mapsto> [st])) j" for j
      using others new d u by (cases "j = u") (auto simp: redis_hist_def)
  qed
  show "redis_job R v' = (redis_job R v)(u \<mapsto> hash_job R m)"
  proof (rule ext)
    show "redis_job R v' j = ((redis_job R v)(u \<mapsto> hash_job R m)) j" for j
      using others new u by (cases "j = u") (auto simp: redis_job_def)
  qed
qed

context redis_server
begin

lemma run_ok:
  assumes "cmd_ok c (view s)"
  shows "\<exists>s' r. run R c s = (s', Ok r) \<and> view s' = after c (view s) \<and> reply_ok c (view s) r"
proof -
  have "snd (rd_call R c s) \<noteq> RError m" for m using reply_no_error [OF assms call_reply] .
  then show ?thesis using call_after [of c s] call_reply [of c s]
    by (cases "rd_call R c s"; cases "snd (rd_call R c s)") (auto simp: run_def)
qed

lemma run_read:
  assumes "cmd_ok c (view s)" "key_of c = {}"
  shows "\<exists>r. run R c s = (s, Ok r) \<and> reply_ok c (view s) r"
proof -
  have "after c (view s) = view s" using assms(2) after_frame by auto
  with run_ok [OF assms(1)] run_same [of c s] show ?thesis by fastforce
qed

lemma run_all_ok:
  assumes "cmds_ok cs (view s)"
  shows "\<exists>s'. run_all R cs s = (s', Ok ()) \<and> view s' = after_all cs (view s)"
  using assms
proof (induction cs arbitrary: s)
  case (Cons c cs)
  then obtain s1 r where s1: "run R c s = (s1, Ok r)" "view s1 = after c (view s)" using run_ok [of c s] by auto
  have "cmds_ok cs (view s1)" using Cons.prems s1 by simp
  from Cons.IH [OF this] obtain s2 where "run_all R cs s1 = (s2, Ok ())" "view s2 = after_all cs (view s1)" by blast
  with s1 show ?case by simp
qed simp

lemma lua_ok:
  assumes "cmds_ok cs (view s)"
  shows "\<exists>s'. lua R cs s = (s', Ok ()) \<and> view s' = after_all cs (view s)"
  using assms
proof (induction cs arbitrary: s)
  case (Cons c cs)
  then obtain s1 r where s1: "run R c s = (s1, Ok r)" "view s1 = after c (view s)" using run_ok [of c s] by auto
  have "cmds_ok cs (view s1)" using Cons.prems s1 by simp
  from Cons.IH [OF this] obtain s2 where "lua R cs s1 = (s2, Ok ())" "view s2 = after_all cs (view s1)" by blast
  with s1 show ?case by simp
qed simp

text \<open>The round trips of a method that no one disturbs.\<close>

lemma get_exists [simp]:
  "get_int R (quiet None n) (EXISTS k) s = (s, Ok (if view s k = VNone then 0 else 1))"
  using run_read [of "EXISTS k" s] by (auto simp: get_int_def typed_def)

lemma run_hget:
  "hash_of (view s k) = Some m \<Longrightarrow> run R (HGET k f) s = (s, Ok (case m f of None \<Rightarrow> RNil | Some x \<Rightarrow> RBulk x))"
  using run_read [of "HGET k f" s] by (auto simp: fits_def)

lemma get_hget:
  "hash_of (view s k) = Some m \<Longrightarrow>
   get_str R (quiet None n) (HGET k f) s = (s, case m f of None \<Rightarrow> Err redisNil | Some x \<Rightarrow> Ok x)"
  by (simp add: get_str_def typed_def run_hget split: option.split)

lemma get_hgetall:
  assumes "hash_of (view s k) = Some m"
  shows "\<exists>fs. get_map R (quiet None n) (HGETALL k) s = (s, Ok fs) \<and> map_of fs = m"
  using run_read [of "HGETALL k" s] assms by (auto simp: get_map_def typed_def fits_def)

lemma get_lrange: "list_of (view s k) = Some xs \<Longrightarrow> get_list R (quiet None n) (LRANGE k) s = (s, Ok xs)"
  using run_read [of "LRANGE k" s] by (auto simp: get_list_def typed_def fits_def)

lemma pipe_ok:
  assumes "keys_typed (view s)" "list_all well_keyed cs"
  obtains s' where "pipe R (quiet None n) cs s = (s', Ok ())" "view s' = after_all cs (view s)" "keys_typed (view s')"
proof -
  from well_keyed_all [OF assms(2,1)] have "cmds_ok cs (view s)" "keys_typed (after_all cs (view s))" by auto
  with run_all_ok that show thesis by (metis pipe_def send_quiet)
qed

lemma lua_typed:
  assumes "keys_typed (view s)" "list_all well_keyed cs"
  obtains s' where "lua R cs s = (s', Ok ())" "view s' = after_all cs (view s)" "keys_typed (view s')"
proof -
  from well_keyed_all [OF assms(2,1)] have "cmds_ok cs (view s)" "keys_typed (after_all cs (view s))" by auto
  with lua_ok that show thesis by metis
qed

lemma marshal_new:
  assumes "ok_time t" "ascii n"
  obtains enc st where "marshalState R (new_state n r d t) = Ok enc" "unmarshalState R enc = Ok st" "js_Name st = n"
    "ascii r \<longrightarrow> js_Reason st = r" "js_CreatedAt st = t"
  using state_codec [of "new_state n r d t"] assms that by (auto simp: marshalState_def unmarshalState_def err_wrap_def)

lemma marshal_ok:
  assumes "ok_time (js_CreatedAt st)" "ascii (js_Name st)"
  obtains enc st' where "marshalState R st = Ok enc" "unmarshalState R enc = Ok st'" "js_Name st' = js_Name st"
    "ascii (js_Reason st) \<longrightarrow> js_Reason st' = js_Reason st"
  using state_codec [OF assms(1)] assms(2) that by (auto simp: marshalState_def unmarshalState_def err_wrap_def)

lemma marshal_some: "ok_time (js_CreatedAt st) \<Longrightarrow> \<exists>enc. marshalState R st = Ok enc"
  using state_codec [of st] by (auto simp: marshalState_def err_wrap_def)

section \<open>The laws\<close>

lemma redis_apply_refused:
  assumes "hash_of (view s (jobKey i)) = Some m" "m ''state'' \<noteq> Some cur"
    and "ok_time (now_at e 0)" "js_CreatedAt st = 0"
  shows "redis_ApplyState R (quiet None) e i cur st s =
    (s, Err (if m ''state'' = None then ErrNotFound else ErrStateConflict))"
proof -
  from assms(3) marshal_some obtain enc where "marshalState R (st\<lparr>js_CreatedAt := now_at e 0\<rparr>) = Ok enc" by fastforce
  with assms run_hget [OF assms(1)] show ?thesis
    by (auto simp: redis_ApplyState_def applyStateScript_def Let_def)
qed

lemma redis_apply:
  assumes inv: "redis_inv R (view s)" and h: "redis_hist R (view s) i = Some h" and cur: "current_of h = cur"
    and e: "ok_time (now_at e 0)" and st: "js_CreatedAt st = 0" "ascii (js_Name st)"
  shows "\<exists>s' st'. redis_ApplyState R (quiet None) e i cur st s = (s', Ok ()) \<and> redis_inv R (view s') \<and>
    redis_hist R (view s') = (redis_hist R (view s))(i \<mapsto> h @ [st']) \<and> js_Name st' = js_Name st \<and>
    (ascii (js_Reason st) \<longrightarrow> js_Reason st' = js_Reason st) \<and>
    redis_job R (view s') = redis_job R (view s) \<and> redis_queued (view s') = redis_queued (view s)"
proof -
  let ?st = "st\<lparr>js_CreatedAt := now_at e 0\<rparr>"
  have "ok_time (js_CreatedAt ?st)" "ascii (js_Name ?st)" using e st by simp_all
  from marshal_ok [OF this] obtain enc st' where enc: "marshalState R ?st = Ok enc" "unmarshalState R enc = Ok st'"
    "js_Name st' = js_Name st" "ascii (js_Reason st) \<longrightarrow> js_Reason st' = js_Reason st" by auto
  from redis_entry [OF inv h] obtain m xs where ent: "no_colon i" "view s (jobKey i) = VHash m"
    "view s (jobStatesKey i) = VList xs" "m ''state'' = Some cur" using cur by metis
  let ?cs = "applyState_writes i cur (js_Name st) (cd_RFC3339Nano (rd_codec R) (now_at e 0))
    (js_Name st \<noteq> StateProcessing) enc (counter_of (js_Name st))"
  have "list_all well_keyed ?cs" using ent(1) by (simp add: applyState_writes_def)
  from lua_typed [OF redis_inv_typed [OF inv] this] obtain s' where s': "lua R ?cs s = (s', Ok ())"
    "view s' = after_all ?cs (view s)" "keys_typed (view s')" by blast
  have run: "redis_ApplyState R (quiet None) e i cur st s = (s', Ok ())"
    using s'(1) ent enc(1) st(1) run_hget [of s "jobKey i" m]
    by (simp add: redis_ApplyState_def applyStateScript_def Let_def del: lua.simps)
  have "\<exists>m'. view s' (jobKey i) = VHash m' \<and> (\<forall>f \<in> job_fields. m' f = m f) \<and> m' ''state'' = Some (js_Name st')"
    using ent enc(3) by (simp add: s'(2) applyState_writes_def view_simps hset_all_def put_hash_state job_fields_def)
  then obtain m' where m': "view s' (jobKey i) = VHash m'" "\<forall>f \<in> job_fields. m' f = m f"
    "m' ''state'' = Some (js_Name st')" by blast
  have xs': "view s' (jobStatesKey i) = VList (xs @ [enc])" using ent by (simp add: s'(2) applyState_writes_def view_simps)
  have fr: "k \<notin> {jobKey i, jobStatesKey i, stateIndexKey cur, stateIndexKey (js_Name st), processingKey,
      counterKey (counter_of (js_Name st))} \<Longrightarrow> view s' k = view s k" for k
    unfolding s'(2) by (rule after_all_frame) (auto simp: applyState_writes_def split: if_splits)
  have oth: "\<forall>j. no_colon j \<longrightarrow> j \<noteq> i \<longrightarrow>
      view s' (jobKey j) = view s (jobKey j) \<and> view s' (jobStatesKey j) = view s (jobStatesKey j)"
    using ent(1) by (simp add: fr)
  have q: "redis_queued (view s') = redis_queued (view s)" by (rule ext) (simp add: redis_queued_def fr)
  note redis_transition [OF inv h ent(2,3) m'(1) xs' m'(2,3) enc(2) oth s'(3)]
  with run enc(3,4) q show ?thesis by blast
qed

lemma redis_retry:
  assumes inv: "redis_inv R (view s)" and h: "redis_hist R (view s) i = Some h" and cur: "current_of h = StateFailed"
    and e: "ok_time (now_at e 0)"
  shows "\<exists>s' st'. redis_ScheduleRetry R (quiet None) e i at s = (s', Ok ()) \<and> redis_inv R (view s') \<and>
    redis_hist R (view s') = (redis_hist R (view s))(i \<mapsto> h @ [st']) \<and> js_Name st' = StateScheduled \<and>
    redis_job R (view s') = redis_job R (view s) \<and> redis_queued (view s') = redis_queued (view s)"
proof -
  let ?st = "new_state StateScheduled '''' [(''enqueue_at'', cd_RFC3339 (rd_codec R) at)] (now_at e 0)"
  have "ok_time (js_CreatedAt ?st)" "ascii (js_Name ?st)" using e by simp_all
  from marshal_ok [OF this] obtain enc st' where enc: "marshalState R ?st = Ok enc" "unmarshalState R enc = Ok st'"
    "js_Name st' = StateScheduled" by (metis new_state_sel(1))
  from redis_entry [OF inv h] obtain m xs where ent: "no_colon i" "view s (jobKey i) = VHash m"
    "view s (jobStatesKey i) = VList xs" "m ''state'' = Some StateFailed" using cur by metis
  from get_hgetall [of s "jobKey i" m 0] ent obtain fs where fs: "get_map R (quiet None 0) (HGETALL (jobKey i)) s = (s, Ok fs)"
    "map_of fs = m" by auto
  let ?cs = "[HSET (jobKey i) [(''state'', StateScheduled), (''updated_at'', cd_RFC3339Nano (rd_codec R) (now_at e 0))],
    RPUSH (jobStatesKey i) enc, ZADD scheduledKey (Unix at) i, SREM (stateIndexKey StateFailed) i,
    SADD (stateIndexKey StateScheduled) i, INCRBY (counterKey ''scheduled'') 1]"
  have "list_all well_keyed ?cs" using ent(1) by simp
  from pipe_ok [OF redis_inv_typed [OF inv] this] obtain s' where s': "pipe R (quiet None 1) ?cs s = (s', Ok ())"
    "view s' = after_all ?cs (view s)" "keys_typed (view s')" by blast
  have run: "redis_ScheduleRetry R (quiet None) e i at s = (s', Ok ())"
    using s'(1) ent(4) fs enc(1) by (auto simp: redis_ScheduleRetry_def field_def Let_def)
  have "\<exists>m'. view s' (jobKey i) = VHash m' \<and> (\<forall>f \<in> job_fields. m' f = m f) \<and> m' ''state'' = Some (js_Name st')"
    using ent enc(3) by (simp add: s'(2) view_simps hset_all_def job_fields_def)
  then obtain m' where m': "view s' (jobKey i) = VHash m'" "\<forall>f \<in> job_fields. m' f = m f"
    "m' ''state'' = Some (js_Name st')" by blast
  have xs': "view s' (jobStatesKey i) = VList (xs @ [enc])" using ent by (simp add: s'(2) view_simps)
  have oth: "\<forall>j. no_colon j \<longrightarrow> j \<noteq> i \<longrightarrow>
      view s' (jobKey j) = view s (jobKey j) \<and> view s' (jobStatesKey j) = view s (jobStatesKey j)"
    using ent(1) by (simp add: s'(2) view_simps)
  have q: "redis_queued (view s') = redis_queued (view s)" by (rule ext) (simp add: redis_queued_def s'(2) view_simps)
  note redis_transition [OF inv h ent(2,3) m'(1) xs' m'(2,3) enc(2) oth s'(3)]
  with run enc(3) q show ?thesis by blast
qed

lemma redis_requeue:
  assumes inv: "redis_inv R (view s)" and h: "redis_hist R (view s) i = Some h" and j: "redis_job R (view s) i = Some j"
    and cur: "\<not> IrreversibleStates (current_of h)" and e: "ok_time (now_at e 0)" and why: "ascii why"
  shows "\<exists>s' st'. redis_Requeue R (quiet None) e i why s = (s', Ok ()) \<and> redis_inv R (view s') \<and>
    redis_hist R (view s') = (redis_hist R (view s))(i \<mapsto> h @ [st']) \<and> js_Name st' = StateEnqueued \<and>
    js_Reason st' = why \<and> redis_job R (view s') = redis_job R (view s) \<and>
    redis_queued (view s') = (redis_queued (view s))(j_Queue j := insert i (redis_queued (view s) (j_Queue j)))"
proof -
  let ?st = "new_state StateEnqueued why [] (now_at e 0)"
  have "ok_time (js_CreatedAt ?st)" "ascii (js_Name ?st)" using e by simp_all
  from marshal_ok [OF this] obtain enc st' where enc: "marshalState R ?st = Ok enc" "unmarshalState R enc = Ok st'"
    "js_Name st' = StateEnqueued" "js_Reason st' = why" using why by auto
  from redis_entry [OF inv h] obtain m xs where ent: "no_colon i" "view s (jobKey i) = VHash m"
    "view s (jobStatesKey i) = VList xs" "m ''state'' = Some (current_of h)" "job_entry R i m xs"
    "redis_job R (view s) i = Some (hash_job R m)" by metis
  define q where "q = j_Queue j"
  have q: "q \<noteq> ''''" "m ''queue'' = Some q" using ent j by (auto simp: q_def hash_job_def job_entry_def)
  from get_hgetall [of s "jobKey i" m 2] ent obtain fs where fs: "get_map R (quiet None 2) (HGETALL (jobKey i)) s = (s, Ok fs)"
    "map_of fs = m" by auto
  let ?cs = "[HSET (jobKey i) [(''state'', StateEnqueued), (''updated_at'', cd_RFC3339Nano (rd_codec R) (now_at e 0))],
    HDEL (jobKey i) ''progress_at'', RPUSH (jobStatesKey i) enc, LPUSH (queueKey q) i, HDEL processingKey i,
    SREM (stateIndexKey StateProcessing) i, SADD (stateIndexKey StateEnqueued) i]"
  have "list_all well_keyed ?cs" using ent(1) by simp
  from pipe_ok [OF redis_inv_typed [OF inv] this] obtain s' where s': "pipe R (quiet None 3) ?cs s = (s', Ok ())"
    "view s' = after_all ?cs (view s)" "keys_typed (view s')" by blast
  have run: "redis_Requeue R (quiet None) e i why s = (s', Ok ())"
    using s'(1) ent cur fs q enc(1) by (auto simp: redis_Requeue_def get_hget field_def Let_def)
  have "\<exists>m'. view s' (jobKey i) = VHash m' \<and> (\<forall>f \<in> job_fields. m' f = m f) \<and> m' ''state'' = Some (js_Name st')"
    using ent enc(3) by (simp add: s'(2) view_simps hset_all_def put_hash_state job_fields_def)
  then obtain m' where m': "view s' (jobKey i) = VHash m'" "\<forall>f \<in> job_fields. m' f = m f"
    "m' ''state'' = Some (js_Name st')" by blast
  have xs': "view s' (jobStatesKey i) = VList (xs @ [enc])" using ent by (simp add: s'(2) view_simps)
  have oth: "\<forall>j. no_colon j \<longrightarrow> j \<noteq> i \<longrightarrow>
      view s' (jobKey j) = view s (jobKey j) \<and> view s' (jobStatesKey j) = view s (jobStatesKey j)"
    using ent(1) by (simp add: s'(2) view_simps)
  have "list_of (view s (queueKey q)) \<noteq> None" using typed_at [OF redis_inv_typed [OF inv] of_kind.intros(3)] by simp
  then have q': "redis_queued (view s') = (redis_queued (view s))(q := insert i (redis_queued (view s) q))"
    by (intro ext) (auto simp: redis_queued_def s'(2) view_simps split: rval.split)
  note redis_transition [OF inv h ent(2,3) m'(1) xs' m'(2,3) enc(2) oth s'(3)]
  with run enc(3,4) q' show ?thesis unfolding q_def by blast
qed

lemma redis_result:
  assumes inv: "redis_inv R (view s)" and j: "redis_job R (view s) i = Some j"
  shows "\<exists>s' r'. redis_SetJobResult R (quiet None) i r s = (s', Ok ()) \<and> redis_inv R (view s') \<and>
    redis_hist R (view s') = redis_hist R (view s) \<and>
    redis_job R (view s') = (redis_job R (view s))(i \<mapsto> j\<lparr>j_Result := r'\<rparr>) \<and> blen r' \<le> 65536 \<and>
    (blen r \<le> 65536 \<longrightarrow> 0 < blen r \<longrightarrow> r' = r) \<and> redis_queued (view s') = redis_queued (view s)"
proof -
  from j have nc: "no_colon i" by (simp add: redis_job_def split: if_splits)
  with inv j obtain m xs where ent: "view s (jobKey i) = VHash m" "view s (jobStatesKey i) = VList xs"
    "job_entry R i m xs" "j = hash_job R m" by (auto simp: redis_inv_def redis_job_def)
  define x where "x = raw (if blen r > 65536 then btake 65536 r else r)"
  let ?c = "HSET (jobKey i) [(''result'', x)]"
  from run_ok [of ?c s] ent obtain s' rp where s': "run R ?c s = (s', Ok rp)" "view s' = after ?c (view s)"
    by auto
  have run: "redis_SetJobResult R (quiet None) i r s = (s', Ok ())"
    using s'(1) ent by (simp add: redis_SetJobResult_def x_def Let_def)
  have ty: "keys_typed (view s')"
    unfolding s'(2) by (rule well_keyed_typed) (simp_all add: nc redis_inv_typed [OF inv])
  have new: "view s' (jobKey i) = VHash (m(''result'' \<mapsto> x))" and fr: "k \<noteq> jobKey i \<Longrightarrow> view s' k = view s k" for k
    using ent by (simp_all add: s'(2) view_simps hset_all_def)
  define r' where "r' = (if x = '''' then None else Some x)"
  have job: "redis_job R (view s') = (redis_job R (view s))(i \<mapsto> j\<lparr>j_Result := r'\<rparr>)"
  proof (rule ext)
    show "redis_job R (view s') k = ((redis_job R (view s))(i \<mapsto> j\<lparr>j_Result := r'\<rparr>)) k" for k
      using nc new fr [of "jobKey k"] ent(4) by (cases "k = i") (auto simp: redis_job_def hash_job_def r'_def)
  qed
  have r: "blen r' \<le> 65536" "blen r \<le> 65536 \<longrightarrow> 0 < blen r \<longrightarrow> r' = r"
    by (cases r; auto simp: r'_def x_def blen_def btake_def raw_def)+
  have ent': "job_entry R i (m(''result'' \<mapsto> x)) xs" using ent(3) by (simp add: job_entry_def)
  have "redis_inv R (view s')" unfolding redis_inv_def
  proof (intro conjI allI impI ty)
    fix k assume "no_colon k"
    then show "view s' (jobKey k) = VNone \<and> view s' (jobStatesKey k) = VNone \<or>
        (\<exists>m xs. view s' (jobKey k) = VHash m \<and> view s' (jobStatesKey k) = VList xs \<and> job_entry R k m xs)"
      using inv new ent ent' nc fr by (cases "k = i") (auto simp: redis_inv_def)
  qed
  moreover have "redis_hist R (view s') = redis_hist R (view s)" using nc by (intro ext) (simp add: redis_hist_def fr)
  moreover have "redis_queued (view s') = redis_queued (view s)" by (intro ext) (simp add: redis_queued_def fr)
  ultimately show ?thesis using run job r by (intro exI [of _ s'] exI [of _ r'] conjI)
qed

lemma redis_get:
  assumes inv: "redis_inv R (view s)" and h: "redis_hist R (view s) i = Some h" and j: "redis_job R (view s) i = Some j"
  shows "redis_GetJob R (quiet None) i s = (s, Ok \<lparr>jw_Job = j, jw_States = h\<rparr>)"
proof -
  from redis_entry [OF inv h] obtain m xs where ent: "view s (jobKey i) = VHash m"
    "view s (jobStatesKey i) = VList xs" "job_entry R i m xs" "decode_states R xs = Some h" "j = hash_job R m"
    using j by (metis option.inject)
  from get_hgetall [of s "jobKey i" m 0] ent obtain fs where fs: "get_map R (quiet None 0) (HGETALL (jobKey i)) s = (s, Ok fs)"
    "map_of fs = m" by auto
  from jobFromHash_job [OF fs(2) ent(3)] obtain p where p: "jobFromHash R fs = Ok (j, p)" "fs \<noteq> []" using ent(5) by auto
  have "unmarshal_all (unmarshalState R) xs = Ok h" using ent(4) by (simp add: decode_states_def split: result.splits)
  then have "loadStates R (quiet None 1) i s = (s, Ok h)" using get_lrange [of s "jobStatesKey i" xs 1] ent(2)
    by (simp add: loadStates_def)
  with fs p show ?thesis by (simp add: redis_GetJob_def split_beta)
qed

lemma redis_get_missing:
  assumes "view s (jobKey i) = VNone"
  shows "redis_GetJob R (quiet None) i s = (s, Err ErrNotFound)"
    "redis_ScheduleRetry R (quiet None) e i at s = (s, Err ErrNotFound)"
proof -
  have get: "get_map R (quiet None 0) (HGETALL (jobKey i)) s = (s, Ok [])"
    using get_hgetall [of s "jobKey i" Map.empty 0] assms by auto
  show "redis_GetJob R (quiet None) i s = (s, Err ErrNotFound)"
    "redis_ScheduleRetry R (quiet None) e i at s = (s, Err ErrNotFound)"
    by (simp_all add: redis_GetJob_def redis_ScheduleRetry_def get)
qed

lemma redis_retry_conflict:
  assumes inv: "redis_inv R (view s)" and h: "redis_hist R (view s) i = Some h" and cur: "current_of h \<noteq> StateFailed"
  shows "redis_ScheduleRetry R (quiet None) e i at s = (s, Err ErrStateConflict)"
proof -
  from redis_entry [OF inv h] obtain m xs where ent: "view s (jobKey i) = VHash m" "job_entry R i m xs"
    "m ''state'' = Some (current_of h)" by metis
  from get_hgetall [of s "jobKey i" m 0] ent obtain fs where fs: "get_map R (quiet None 0) (HGETALL (jobKey i)) s = (s, Ok fs)"
    "map_of fs = m" by auto
  with jobFromHash_job(2) [OF fs(2) ent(2)] ent cur show ?thesis
    by (auto simp: redis_ScheduleRetry_def field_def)
qed

lemma redis_enqueue_exact:
  assumes inv: "redis_inv R (view s)" and q: "q \<noteq> ''''" and job: "redis_fill_job e q j = job" "j_ID job = u"
    and u: "u \<noteq> ''''" "no_colon u" "redis_hist R (view s) u = None" and e: "ok_time (now_at e 0)"
  obtains s' st enc where "redis_Enqueue R (quiet None) e q j s = (s', Ok u)" "redis_inv R (view s')"
    "redis_hist R (view s') = (redis_hist R (view s))(u \<mapsto> [st])" "js_Name st = StateEnqueued" "js_Reason st = ''''"
    "js_CreatedAt st = now_at e 0"
    "redis_job R (view s') = (redis_job R (view s))
       (u \<mapsto> hash_job R (hset_all Map.empty (jobHashFields R job StateEnqueued 0 (now_at e 1))))"
    "redis_queued (view s') = (redis_queued (view s))(q := insert u (redis_queued (view s) q))"
    "view s' = after_all [HSET (jobKey u) (jobHashFields R job StateEnqueued 0 (now_at e 1)), RPUSH (jobStatesKey u) enc,
       LPUSH (queueKey q) u, SADD queuesIndexKey q, SADD (stateIndexKey StateEnqueued) u,
       INCRBY (counterKey ''enqueued'') 1] (view s)"
proof -
  let ?st = "new_state StateEnqueued '''' [] (now_at e 0)"
  from marshal_new [OF e ascii_states(1)] obtain enc st where enc: "marshalState R ?st = Ok enc" "unmarshalState R enc = Ok st"
    "js_Name st = StateEnqueued" "js_Reason st = ''''" "js_CreatedAt st = now_at e 0" by (metis ascii_Nil)
  have jq: "j_Queue job = q" using job(1) by (auto simp: redis_fill_job_def)
  define fs where "fs = jobHashFields R job StateEnqueued 0 (now_at e 1)"
  let ?cs = "[HSET (jobKey u) fs, RPUSH (jobStatesKey u) enc, LPUSH (queueKey q) u, SADD queuesIndexKey q,
    SADD (stateIndexKey StateEnqueued) u, INCRBY (counterKey ''enqueued'') 1]"
  have "list_all well_keyed ?cs" using u(2) by simp
  from pipe_ok [OF redis_inv_typed [OF inv] this] obtain s' where s': "pipe R (quiet None 0) ?cs s = (s', Ok ())"
    "view s' = after_all ?cs (view s)" "keys_typed (view s')" by blast
  have run: "redis_Enqueue R (quiet None) e q j s = (s', Ok u)"
    using s'(1) enc(1) q job by (simp add: redis_Enqueue_def Let_def fs_def)
  have old: "view s (jobKey u) = VNone" "view s (jobStatesKey u) = VNone"
    using redis_absent [OF inv u(2)] u(3) by auto
  define m where "m = hset_all Map.empty fs"
  have m: "m ''id'' = Some u" "m ''queue'' = Some q" "m ''state'' = Some (js_Name st)"
    using job(2) jq enc(3) by (simp_all add: m_def fs_def jobHashFields_def hset_all_def)
  have new: "view s' (jobKey u) = VHash m" "view s' (jobStatesKey u) = VList [enc]"
    using old u(2) by (simp_all add: s'(2) view_simps m_def)
  have oth: "\<forall>j. no_colon j \<longrightarrow> j \<noteq> u \<longrightarrow>
      view s' (jobKey j) = view s (jobKey j) \<and> view s' (jobStatesKey j) = view s (jobStatesKey j)"
    using u(2) by (simp add: s'(2) view_simps)
  have "list_of (view s (queueKey q)) \<noteq> None" using typed_at [OF redis_inv_typed [OF inv] of_kind.intros(3)] by simp
  then have q': "redis_queued (view s') = (redis_queued (view s))(q := insert u (redis_queued (view s) q))"
    by (intro ext) (auto simp: redis_queued_def s'(2) view_simps split: rval.split)
  note redis_created [OF inv u(2,1) new enc(2) m(1,2) q m(3) oth s'(3)]
  with run enc(3-5) q' s'(2) show thesis unfolding m_def fs_def by (intro that) assumption+
qed

lemma redis_enqueue:
  assumes inv: "redis_inv R (view s)" and j: "j_ID j = ''''" "q \<noteq> ''''"
    and u: "new_uuid e 0 = u" "u \<noteq> ''''" "no_colon u" "redis_hist R (view s) u = None"
    and e: "ok_time (now_at e 0)" and rm: "- (2 ^ 63) \<le> j_RetryMax j" "j_RetryMax j < 2 ^ 63"
  shows "\<exists>s' st' j'. redis_Enqueue R (quiet None) e q j s = (s', Ok u) \<and> redis_inv R (view s') \<and>
    redis_hist R (view s') = (redis_hist R (view s))(u \<mapsto> [st']) \<and> js_Name st' = StateEnqueued \<and>
    redis_job R (view s') = (redis_job R (view s))(u \<mapsto> j') \<and> j_ID j' = u \<and> j_Name j' = j_Name j \<and>
    (0 < blen (j_Args j) \<longrightarrow> j_Args j' = j_Args j) \<and> j_Queue j' = q \<and>
    j_RetryMax j' = (if j_RetryMax j = 0 then 10 else j_RetryMax j) \<and>
    redis_queued (view s') = (redis_queued (view s))(q := insert u (redis_queued (view s) q))"
proof -
  define job where "job = redis_fill_job e q j"
  have id: "j_ID job = u" using j u by (simp add: job_def redis_fill_job_def)
  define j' where "j' = hash_job R (hset_all Map.empty (jobHashFields R job StateEnqueued 0 (now_at e 1)))"
  have j': "j_ID j' = u" "j_Name j' = j_Name j" "j_Queue j' = q" "0 < blen (j_Args j) \<longrightarrow> j_Args j' = j_Args j"
    using id by (auto simp: j'_def jobHashFields_def hset_all_def hash_job_def job_def redis_fill_job_def blen_def raw_def
        split: option.splits)
  have rm': "j_RetryMax j' = (if j_RetryMax j = 0 then 10 else j_RetryMax j)"
    using rm by (simp add: j'_def jobHashFields_def hset_all_def hash_job_def job_def redis_fill_job_def Atoi_show_int)
  obtain s' st where s': "redis_Enqueue R (quiet None) e q j s = (s', Ok u)" "redis_inv R (view s')"
    "redis_hist R (view s') = (redis_hist R (view s))(u \<mapsto> [st])" "js_Name st = StateEnqueued"
    "redis_job R (view s') = (redis_job R (view s))(u \<mapsto> j')"
    "redis_queued (view s') = (redis_queued (view s))(q := insert u (redis_queued (view s) q))"
    by (rule redis_enqueue_exact [OF inv j(2) job_def [symmetric] id u(2-4) e]) (unfold j'_def, blast)
  with j' rm' show ?thesis by (intro exI [of _ s'] exI [of _ st] exI [of _ j'] conjI)
qed

lemma redis_missing:
  assumes "redis_inv R (view s)" "no_colon i" "view s (jobKey i) = VNone"
  shows "ok_time (now_at e 0) \<Longrightarrow> js_CreatedAt st = 0 \<Longrightarrow>
      redis_ApplyState R (quiet None) e i cur st s = (s, Err ErrNotFound)"
    "redis_SetJobResult R (quiet None) i r s = (s, Err ErrNotFound)"
    "redis_Requeue R (quiet None) e i why s = (s, Err ErrNotFound)"
    "redis_DeleteJob R (quiet None) e i s = (s, Err ErrNotFound)"
    "redis_HeartbeatJob R (quiet None) e i s = (s, Err ErrNotFound)"
  using assms redis_apply_refused [of s i Map.empty cur e st]
  by (simp_all add: redis_SetJobResult_def redis_Requeue_def redis_DeleteJob_def redis_HeartbeatJob_def)

lemma redis_conflict:
  assumes "redis_inv R (view s)" "redis_hist R (view s) i = Some h" "current_of h \<noteq> cur"
    and "ok_time (now_at e 0)" "js_CreatedAt st = 0"
  shows "redis_ApplyState R (quiet None) e i cur st s = (s, Err ErrStateConflict)"
proof -
  from redis_entry [OF assms(1,2)] obtain m xs where "view s (jobKey i) = VHash m" "m ''state'' = Some (current_of h)"
    by metis
  with redis_apply_refused [of s i m cur e st] assms(3-) show ?thesis by simp
qed

lemma redis_terminal:
  assumes "redis_inv R (view s)" "redis_hist R (view s) i = Some h" "IrreversibleStates (current_of h)"
  shows "redis_Requeue R (quiet None) e i why s = (s, Err ErrTerminalState)"
    "redis_DeleteJob R (quiet None) e i s = (s, Err ErrTerminalState)"
proof -
  from redis_entry [OF assms(1,2)] obtain m xs where "view s (jobKey i) = VHash m" "m ''state'' = Some (current_of h)"
    by metis
  with assms(3) show "redis_Requeue R (quiet None) e i why s = (s, Err ErrTerminalState)"
    "redis_DeleteJob R (quiet None) e i s = (s, Err ErrTerminalState)"
    by (simp_all add: redis_Requeue_def redis_DeleteJob_def get_hget)
qed

end

definition ok_clock :: "env \<Rightarrow> bool" where
  "ok_clock e \<longleftrightarrow> (\<forall>n. ok_time (now_at e n))"

sublocale redis_server \<subseteq> storage_contract "redis_ops R" no_colon ok_clock "\<lambda>s. redis_inv R (view s)"
  "\<lambda>s. redis_hist R (view s)" "\<lambda>s. redis_job R (view s)" "\<lambda>s. redis_queued (view s)"
proof (unfold_locales, unfold redis_ops_def storage_ops.simps ok_clock_def, goal_cases)
  case (1 s i)
  show ?case
  proof (cases "no_colon i")
    case True with 1 show ?thesis by (simp add: redis_absent)
  qed (simp add: redis_hist_def redis_job_def)
next
  case (2 s i h) then show ?case by (metis redis_entry)
next
  case (3 s i j) then show ?case
    by (auto simp: redis_inv_def redis_job_def job_entry_def hash_job_def split: if_splits rval.splits)
next
  case (4 s i e st cur) then show ?case by (simp add: redis_missing redis_absent)
next
  case (5 s i h cur e st) then show ?case by (simp add: redis_conflict)
next
  case (6 s i h cur e st) then show ?case by (intro redis_apply) simp_all
next
  case (7 s i r) then show ?case by (simp add: redis_missing redis_absent)
next
  case (8 s i j r) then show ?case by (rule redis_result)
next
  case (9 s i e at) then show ?case by (simp add: redis_get_missing redis_absent)
next
  case (10 s i h e at) then show ?case by (rule redis_retry_conflict)
next
  case (11 s i h e at) then show ?case by (intro redis_retry) simp_all
next
  case (12 s i) then show ?case by (simp add: redis_get_missing redis_absent)
next
  case (13 s i j h) then show ?case by (simp add: redis_get)
next
  case (14 s i e why) then show ?case by (simp add: redis_missing redis_absent)
next
  case (15 s i h e why) then show ?case by (simp add: redis_terminal)
next
  case (16 s i h j e why) then show ?case by (intro redis_requeue) simp_all
next
  case (17 s j q e u) then show ?case by (intro redis_enqueue) simp_all
qed

end
