(* ===== verification/Redis_Instance.thy ===== *)
theory Redis_Instance
  imports Redis_Contract "HOL-Library.AList"
begin

text \<open>
  A server that keeps the laws of \<open>redis_server\<close>: a database held as an association list, every command
  executed on the value of its key. The interpretation \<open>kvs\<close> discharges the laws, so the contract and the
  engine's lemmas hold for the Redis store over it, and the concrete runs evaluate on it.
\<close>

section \<open>Values\<close>

datatype cval = CStr string | CHash "(string \<times> string) list" | CList "string list" | CSet "string list"
  | CZset "(string \<times> int) list"

type_synonym cdb = "(string \<times> cval) list"

fun vview :: "cval option \<Rightarrow> rval" where
  "vview None = VNone"
| "vview (Some (CStr x)) = VStr x"
| "vview (Some (CHash al)) = VHash (map_of al)"
| "vview (Some (CList xs)) = VList xs"
| "vview (Some (CSet xs)) = VSet (set xs)"
| "vview (Some (CZset al)) = VZset (map_of al)"

definition cview :: "cdb \<Rightarrow> kv" where
  "cview s = (\<lambda>k. vview (map_of s k))"

definition same_map :: "('k \<times> 'v) list \<Rightarrow> ('k \<times> 'v) list \<Rightarrow> bool" where
  "same_map al bl \<longleftrightarrow> list_all (\<lambda>k. map_of al k = map_of bl k) (map fst al @ map fst bl)"

lemma same_map_iff: "same_map al bl \<longleftrightarrow> map_of al = map_of bl"
proof
  assume a: "same_map al bl"
  have "map_of al k = map_of bl k" for k
  proof (cases "k \<in> set (map fst al @ map fst bl)")
    case False
    then have "map_of al k = None" "map_of bl k = None" by (auto simp: map_of_eq_None_iff)
    then show ?thesis by simp
  qed (use a in \<open>auto simp: same_map_def list_all_iff\<close>)
  then show "map_of al = map_of bl" by (rule ext)
qed (simp add: same_map_def list_all_iff)

fun same_val :: "cval option \<Rightarrow> cval option \<Rightarrow> bool" where
  "same_val None None = True"
| "same_val (Some (CStr x)) (Some (CStr y)) = (x = y)"
| "same_val (Some (CHash al)) (Some (CHash bl)) = same_map al bl"
| "same_val (Some (CList xs)) (Some (CList ys)) = (xs = ys)"
| "same_val (Some (CSet xs)) (Some (CSet ys)) = (set xs = set ys)"
| "same_val (Some (CZset al)) (Some (CZset bl)) = same_map al bl"
| "same_val _ _ = False"

lemma vview_None [simp]: "vview x = VNone \<longleftrightarrow> x = None" "VNone = vview x \<longleftrightarrow> x = None"
  by (cases x rule: vview.cases; simp)+

lemma same_val_iff: "same_val x y \<longleftrightarrow> vview x = vview y"
  by (cases "(x, y)" rule: same_val.cases) (simp_all add: same_map_iff)

definition put :: "cdb \<Rightarrow> string \<Rightarrow> cval option \<Rightarrow> cdb" where
  "put s k y =
     (if same_val (map_of s k) y then s
      else case y of None \<Rightarrow> filter (\<lambda>p. fst p \<noteq> k) s | Some c \<Rightarrow> AList.update k c s)"

lemma map_of_filter_key: "map_of (filter (\<lambda>p. fst p \<noteq> k) s) = (map_of s)(k := None)"
  by (induction s) (auto simp: fun_eq_iff)

lemma cview_put: "cview (put s k y) = (cview s)(k := vview y)"
  by (auto simp: cview_def put_def same_val_iff map_of_filter_key update_conv fun_eq_iff split: option.split)

lemma put_same: "vview y = cview s k \<Longrightarrow> put s k y = s"
  by (simp add: put_def same_val_iff cview_def)

section \<open>Commands\<close>

fun chash :: "cval option \<Rightarrow> (string \<times> string) list option" where
  "chash None = Some []"
| "chash (Some (CHash al)) = Some al"
| "chash _ = None"

fun clist :: "cval option \<Rightarrow> string list option" where
  "clist None = Some []"
| "clist (Some (CList xs)) = Some xs"
| "clist _ = None"

fun cset :: "cval option \<Rightarrow> string list option" where
  "cset None = Some []"
| "cset (Some (CSet xs)) = Some xs"
| "cset _ = None"

fun czset :: "cval option \<Rightarrow> (string \<times> int) list option" where
  "czset None = Some []"
| "czset (Some (CZset al)) = Some al"
| "czset _ = None"

fun cint :: "cval option \<Rightarrow> int option" where
  "cint None = Some 0"
| "cint (Some (CStr x)) = parse_int x"
| "cint _ = None"

lemma cval_of:
  "hash_of (vview x) = map_option map_of (chash x)" "list_of (vview x) = clist x"
  "set_of (vview x) = map_option set (cset x)" "zset_of (vview x) = map_option map_of (czset x)"
  "int_of (vview x) = cint x"
  by (cases x rule: vview.cases; simp)+

definition nonempty :: "('a list \<Rightarrow> cval) \<Rightarrow> 'a list \<Rightarrow> cval option" where
  "nonempty f xs = (if xs = [] then None else Some (f xs))"

definition wrong :: reply where
  "wrong = RError ''WRONGTYPE''"

definition on_val :: "cval option \<Rightarrow> 'a option \<Rightarrow> ('a \<Rightarrow> cval option \<times> reply) \<Rightarrow> cval option \<times> reply" where
  "on_val x v f = (case v of None \<Rightarrow> (x, wrong) | Some a \<Rightarrow> f a)"

definition hset_list :: "(string \<times> string) list \<Rightarrow> (string \<times> string) list \<Rightarrow> (string \<times> string) list" where
  "hset_list al fs = foldl (\<lambda>al (f, x). AList.update f x al) al fs"

definition zrange :: "(string \<times> int) list \<Rightarrow> int \<Rightarrow> int \<Rightarrow> string list" where
  "zrange al hi n =
     take (nat n) (map fst (sort_key snd (filter (\<lambda>p. snd p \<le> hi) (AList.clearjunk al))))"

fun cstep :: "cmd \<Rightarrow> cval option \<Rightarrow> cval option \<times> reply" where
  "cstep (EXISTS k) x = (x, RInt (if x = None then 0 else 1))"
| "cstep (DEL k) x = (None, RInt (if x = None then 0 else 1))"
| "cstep (GET k) x = (x, case x of None \<Rightarrow> RNil | Some (CStr y) \<Rightarrow> RBulk y | _ \<Rightarrow> wrong)"
| "cstep (SET k y) x = (Some (CStr y), RBulk ''OK'')"
| "cstep (SETNX k y ttl) x = (if x = None then (Some (CStr y), RInt 1) else (x, RInt 0))"
| "cstep (INCRBY k d) x = on_val x (cint x) (\<lambda>n. (Some (CStr (show_int (n + d))), RInt (n + d)))"
| "cstep (HSET k fs) x = on_val x (chash x) (\<lambda>al. (Some (CHash (hset_list al fs)), RInt (int (length fs))))"
| "cstep (HGET k f) x = on_val x (chash x) (\<lambda>al. (x, case map_of al f of None \<Rightarrow> RNil | Some y \<Rightarrow> RBulk y))"
| "cstep (HGETALL k) x = on_val x (chash x) (\<lambda>al. (x, RMap (AList.clearjunk al)))"
| "cstep (HDEL k f) x = on_val x (chash x) (\<lambda>al. (nonempty CHash (filter (\<lambda>p. fst p \<noteq> f) al), RInt 1))"
| "cstep (RPUSH k y) x = on_val x (clist x) (\<lambda>xs. (Some (CList (xs @ [y])), RInt (int (Suc (length xs)))))"
| "cstep (LPUSH k y) x = on_val x (clist x) (\<lambda>xs. (Some (CList (y # xs)), RInt (int (Suc (length xs)))))"
| "cstep (LRANGE k) x = on_val x (clist x) (\<lambda>xs. (x, RList xs))"
| "cstep (LLEN k) x = on_val x (clist x) (\<lambda>xs. (x, RInt (int (length xs))))"
| "cstep (LREM k y) x = on_val x (clist x) (\<lambda>xs. (nonempty CList (removeAll y xs), RInt 1))"
| "cstep (BRPOP ks) x = (x, RNil)"
| "cstep (SADD k y) x = on_val x (cset x) (\<lambda>xs. (Some (CSet (List.insert y xs)), RInt 1))"
| "cstep (SREM k y) x = on_val x (cset x) (\<lambda>xs. (nonempty CSet (removeAll y xs), RInt 1))"
| "cstep (SMEMBERS k) x = on_val x (cset x) (\<lambda>xs. (x, RList (remdups xs)))"
| "cstep (ZADD k sc y) x = on_val x (czset x) (\<lambda>al. (Some (CZset (AList.update y sc al)), RInt 1))"
| "cstep (ZREM k y) x = on_val x (czset x) (\<lambda>al. (nonempty CZset (filter (\<lambda>p. fst p \<noteq> y) al), RInt 1))"
| "cstep (ZRANGEBYSCORE k hi n) x = on_val x (czset x) (\<lambda>al. (x, RList (zrange al hi n)))"

fun the_key :: "cmd \<Rightarrow> string" where
  "the_key (EXISTS k) = k" | "the_key (DEL k) = k" | "the_key (GET k) = k" | "the_key (SET k y) = k"
| "the_key (SETNX k y ttl) = k" | "the_key (INCRBY k d) = k" | "the_key (HSET k fs) = k"
| "the_key (HGET k f) = k" | "the_key (HGETALL k) = k" | "the_key (HDEL k f) = k" | "the_key (RPUSH k y) = k"
| "the_key (LPUSH k y) = k" | "the_key (LRANGE k) = k" | "the_key (LLEN k) = k" | "the_key (LREM k y) = k"
| "the_key (BRPOP ks) = ''''" | "the_key (SADD k y) = k" | "the_key (SREM k y) = k" | "the_key (SMEMBERS k) = k"
| "the_key (ZADD k sc y) = k" | "the_key (ZREM k y) = k" | "the_key (ZRANGEBYSCORE k hi n) = k"

definition brpop :: "string list \<Rightarrow> cdb \<Rightarrow> cdb \<times> reply" where
  "brpop ks s =
     (case find (\<lambda>k. map_of s k \<noteq> None) ks of
        None \<Rightarrow> (s, RNil)
      | Some k \<Rightarrow> (case clist (map_of s k) of
          None \<Rightarrow> (s, wrong)
        | Some xs \<Rightarrow> (put s k (nonempty CList (butlast xs)), RList [k, last xs])))"

definition ccall :: "cmd \<Rightarrow> cdb \<Rightarrow> cdb \<times> reply" where
  "ccall c s =
     (case c of BRPOP ks \<Rightarrow> brpop ks s
      | _ \<Rightarrow> let (y, r) = cstep c (map_of s (the_key c)) in (put s (the_key c) y, r))"

section \<open>The laws\<close>

lemma map_of_hset: "map_of (hset_list al fs) = hset_all (map_of al) fs"
  by (induction fs arbitrary: al) (auto simp: hset_list_def hset_all_def update_conv')

lemma vview_nonempty:
  "vview (nonempty CHash al) = put_hash (map_of al)" "vview (nonempty CList xs) = put_list xs"
  "vview (nonempty CSet xs) = put_set (set xs)" "vview (nonempty CZset zs) = put_zset (map_of zs)"
  by (simp_all add: nonempty_def put_hash_def put_list_def put_set_def put_zset_def)

lemmas cstep_simps = on_val_def cview_put vview_nonempty map_of_hset map_of_filter_key update_conv upd_def

lemma cstep_after: "(\<forall>ks. c \<noteq> BRPOP ks) \<Longrightarrow>
   after c (cview s) = (cview s)(the_key c := vview (fst (cstep c (map_of s (the_key c)))))"
  by (cases c) (auto simp: after.simps cstep_simps cview_def cval_of fun_eq_iff split: option.split)

lemma find_cview: "find (\<lambda>k. cview s k \<noteq> VNone) ks = find (\<lambda>k. map_of s k \<noteq> None) ks"
  by (simp add: cview_def)

lemma brpop_after: "cview (fst (brpop ks s)) = after (BRPOP ks) (cview s)"
  by (auto simp: brpop_def after.simps find_cview cstep_simps cval_of fun_eq_iff cview_def [of s] split: option.split)

lemma ccall_after: "cview (fst (ccall c s)) = after c (cview s)"
proof (cases "\<exists>ks. c = BRPOP ks")
  case False
  then show ?thesis by (cases c) (simp_all add: ccall_def cstep_after split_beta cview_put del: cstep.simps)
qed (auto simp: ccall_def brpop_after)

lemma ccall_same:
  assumes "after c (cview s) = cview s"
  shows "fst (ccall c s) = s"
proof (cases "\<exists>ks. c = BRPOP ks")
  case True
  then obtain ks where c: "c = BRPOP ks" by blast
  show ?thesis
  proof (cases "find (\<lambda>k. map_of s k \<noteq> None) ks")
    case (Some k)
    with assms c show ?thesis
      by (auto simp: ccall_def brpop_def after.simps find_cview upd_def cval_of cview_def [of s] vview_nonempty fun_eq_iff
        dest!: spec [where x = k] intro!: put_same split: option.splits)
  qed (simp add: c ccall_def brpop_def)
next
  case False
  then have "vview (fst (cstep c (map_of s (the_key c)))) = cview s (the_key c)"
    using cstep_after [of c s] assms by (metis fun_upd_same)
  then show ?thesis using False by (cases c) (simp_all add: ccall_def split_beta put_same del: cstep.simps)
qed

lemma zrange_ok:
  "\<exists>xs. zrange al hi n = take (nat n) xs \<and> distinct xs \<and> set xs = {x. \<exists>sc. map_of al x = Some sc \<and> sc \<le> hi} \<and>
     sorted (map (\<lambda>x. the (map_of al x)) xs)"
proof -
  let ?ps = "sort_key snd (filter (\<lambda>p. snd p \<le> hi) (AList.clearjunk al))"
  have cj: "(x, sc) \<in> set (AList.clearjunk al) \<longleftrightarrow> map_of al x = Some sc" for x sc
    using map_of_eq_Some_iff [OF distinct_clearjunk, of al x sc] by (simp add: map_of_clearjunk)
  have "distinct (map fst (filter (\<lambda>p. snd p \<le> hi) (AList.clearjunk al)))"
    by (rule distinct_map_filter) (rule distinct_clearjunk)
  then have "distinct (map fst ?ps)" by (simp only: distinct_map distinct_sort set_sort)
  moreover have "set (map fst ?ps) = {x. \<exists>sc. map_of al x = Some sc \<and> sc \<le> hi}"
    by (auto simp: image_iff cj)
  moreover have "map (\<lambda>x. the (map_of al x)) (map fst ?ps) = map snd ?ps"
    by (auto simp: cj)
  ultimately show ?thesis unfolding zrange_def by (metis sorted_sort_key)
qed

lemma vview_Some: "vview x = VStr y \<longleftrightarrow> x = Some (CStr y)"
  by (cases x rule: vview.cases) auto

lemma cstep_reply: "(\<forall>ks. c \<noteq> BRPOP ks) \<Longrightarrow> reply_ok c (cview s) (snd (cstep c (map_of s (the_key c))))"
proof (cases c)
  case (GET k)
  then show ?thesis by (cases "map_of s k" rule: vview.cases) (simp_all add: cview_def wrong_def)
next
  case (ZRANGEBYSCORE k hi n)
  then show ?thesis using zrange_ok
    by (auto simp: on_val_def fits_def cview_def cval_of wrong_def split: option.split)
qed (auto simp: on_val_def fits_def some_int_def cview_def cval_of wrong_def map_of_clearjunk distinct_clearjunk
    split: option.split)

lemma ccall_reply: "reply_ok c (cview s) (snd (ccall c s))"
proof (cases "\<exists>ks. c = BRPOP ks")
  case True
  then show ?thesis
    by (auto simp: ccall_def brpop_def find_cview fits_def cval_of cview_def [of s] wrong_def split: option.split)
next
  case False
  then show ?thesis using cstep_reply [of c s] by (cases c) (simp_all add: ccall_def split_beta del: cstep.simps reply_ok.simps)
qed

section \<open>Encoding\<close>

text \<open>A list of texts as one text: every character is marked, and a text ends with a dash.\<close>

definition enc_text :: "string \<Rightarrow> string" where
  "enc_text x = concat (map (\<lambda>ch. [CHR ''+'', ch]) x) @ ''-''"

definition enc_texts :: "string list \<Rightarrow> string" where
  "enc_texts xs = concat (map enc_text xs)"

fun dec_texts :: "string \<Rightarrow> string \<Rightarrow> string list option" where
  "dec_texts cur [] = (if cur = [] then Some [] else None)"
| "dec_texts cur [ch] = (if ch = CHR ''-'' then Some [cur] else None)"
| "dec_texts cur (ch # d # rest) =
     (if ch = CHR ''-'' then map_option (\<lambda>xs. cur # xs) (dec_texts [] (d # rest))
      else if ch = CHR ''+'' then dec_texts (cur @ [d]) rest
      else None)"

lemma dec_enc_text: "dec_texts cur (enc_text x @ ys) = map_option (\<lambda>xs. (cur @ x) # xs) (dec_texts [] ys)"
proof (induction x arbitrary: cur)
  case Nil
  show ?case by (cases ys) (simp_all add: enc_text_def)
next
  case (Cons ch x)
  have "enc_text (ch # x) @ ys = CHR ''+'' # ch # enc_text x @ ys" by (simp add: enc_text_def)
  with Cons [of "cur @ [ch]"] show ?case by simp
qed

lemma dec_enc_texts [simp]: "dec_texts [] (enc_texts xs) = Some xs"
  by (induction xs) (simp_all add: enc_texts_def dec_enc_text)

definition enc_opt :: "string option \<Rightarrow> string list" where
  "enc_opt x = (case x of None \<Rightarrow> [''n'', ''''] | Some y \<Rightarrow> [''s'', y])"

definition dec_opt :: "string \<Rightarrow> string \<Rightarrow> string option" where
  "dec_opt a y = (if a = ''n'' then None else Some y)"

fun pairs_of :: "string list \<Rightarrow> (string \<times> string) list" where
  "pairs_of (a # b # xs) = (a, b) # pairs_of xs"
| "pairs_of _ = []"

definition dec_with :: "(string list \<Rightarrow> 'a option) \<Rightarrow> string \<Rightarrow> 'a result" where
  "dec_with f x = (case Option.bind (dec_texts [] x) f of None \<Rightarrow> Err (ErrMsg ''bad encoding'') | Some a \<Rightarrow> Ok a)"

definition number :: "string \<Rightarrow> int" where
  "number x = (case parse_int x of None \<Rightarrow> 0 | Some n \<Rightarrow> n)"

definition c_codec :: redis_codec where
  "c_codec = \<lparr>
     cd_marshalState = \<lambda>st. Ok (enc_texts (js_Name st # js_Reason st # show_int (js_CreatedAt st) #
       concat (map (\<lambda>(a, b). [a, b]) (js_Data st)))),
     cd_unmarshalState = dec_with (\<lambda>xs. case xs of n # r # t # d \<Rightarrow> Some (new_state n r (pairs_of d) (number t)) | _ \<Rightarrow> None),
     cd_marshalServer = \<lambda>sv. Ok (enc_texts (sv_ID sv # show_int (sv_StartedAt sv) # show_int (sv_LastHeartbeat sv) #
       show_int (sv_WorkerCount sv) # sv_Status sv # sv_Queues sv)),
     cd_unmarshalServer = dec_with (\<lambda>xs. case xs of i # a # b # n # st # qs \<Rightarrow>
       Some \<lparr>sv_ID = i, sv_StartedAt = number a, sv_LastHeartbeat = number b, sv_WorkerCount = number n,
         sv_Queues = qs, sv_Status = st\<rparr> | _ \<Rightarrow> None),
     cd_marshalRecurring = \<lambda>d. Ok (enc_texts ([r_ID d, r_JobName d] @ enc_opt (r_Args d) @ [r_Queue d, r_CronExpr d] @
       enc_opt (map_option show_int (r_LastRun d)) @ enc_opt (map_option show_int (r_NextRun d)) @
       [if r_Enabled d then ''t'' else ''f'', show_int (r_CreatedAt d), show_int (r_UpdatedAt d)])),
     cd_unmarshalRecurring = dec_with (\<lambda>xs. case xs of [i, n, a, a', q, c, l, l', x, x', en, ca, ua] \<Rightarrow>
       Some \<lparr>r_ID = i, r_JobName = n, r_Args = dec_opt a a', r_Queue = q, r_CronExpr = c,
         r_LastRun = map_option number (dec_opt l l'), r_NextRun = map_option number (dec_opt x x'),
         r_Enabled = (en = ''t''), r_CreatedAt = number ca, r_UpdatedAt = number ua\<rparr> | _ \<Rightarrow> None),
     cd_marshalContinuation = \<lambda>d. Ok (enc_texts ([c_ChildName d] @ enc_opt (c_ChildArgs d) @ [c_ChildQueue d, c_Condition d,
       show_int (c_CreatedAt d)])),
     cd_unmarshalContinuation = dec_with (\<lambda>xs. case xs of [n, a, a', q, c, t] \<Rightarrow>
       Some \<lparr>c_ChildName = n, c_ChildArgs = dec_opt a a', c_ChildQueue = q, c_Condition = c, c_CreatedAt = number t\<rparr>
       | _ \<Rightarrow> None),
     cd_RFC3339Nano = show_int,
     cd_RFC3339 = show_int,
     cd_Parse = parse_int\<rparr>"

definition kv_server :: "string \<Rightarrow> cdb redis" where
  "kv_server i = \<lparr>rd_call = ccall, rd_scan = \<lambda>p s. [filter (has_prefix p) (map fst s)], rd_codec = c_codec, rd_serverID = i\<rparr>"

interpretation kvs: redis_server "kv_server i" cview for i
proof (unfold_locales, goal_cases)
  case (4 st) then show ?case by (simp add: kv_server_def c_codec_def dec_with_def number_def)
qed (simp_all add: kv_server_def ccall_after ccall_reply ccall_same c_codec_def)

end
