(* ===== verification/Redis_Properties.thy ===== *)
theory Redis_Properties
  imports Redis_Instance
begin

text \<open>
  What the Redis store guarantees, for every server with the documented command behaviour: the round
  trip of a job through its hash, the verdict of the engine, claims, promotion, locks; and where the
  absence of atomicity over several round trips shows. The witnesses run on \<open>kv_server\<close>.
\<close>

section \<open>Round trip\<close>

text \<open>What the hash keeps of a job: no idempotency key, a timeout in whole milliseconds, no nil arguments.\<close>

definition redis_stored :: "job \<Rightarrow> job" where
  "redis_stored j = j\<lparr>j_Args := Some (raw (j_Args j)), j_IdempotencyKey := '''', j_Result := append_nil (j_Result j),
     j_Timeout := word_of_int (max 0 (sint (j_Timeout j)) div 1000000 * 1000000)\<rparr>"

lemma timeout_roundtrip:
  "durationFromMS (word_of_int (Atoi (show_int (sint (timeoutMS d))))) = word_of_int (max 0 (sint d) div 1000000 * 1000000)"
proof -
  have r: "- (2 ^ 63) \<le> sint d" "sint d < 2 ^ 63" using sint_ge [of d] sint_lt [of d] by simp_all
  let ?x = "max 0 (sint d) div 1000000"
  have x: "0 \<le> ?x" "?x < 2 ^ 63" using r by auto
  have ms: "sint (timeoutMS d) = ?x"
    using r x by (auto simp: timeoutMS_def sint_int64 max_def)
  have "sint (word_of_int ?x :: int64) = ?x" using x by (simp add: sint_int64)
  then show ?thesis using x by (simp add: ms Atoi_show_int durationFromMS_def millisecond_def)
qed

context redis_server
begin

lemma redis_contract: "storage_contract (redis_ops R) no_colon ok_clock (\<lambda>s. redis_inv R (view s))
    (\<lambda>s. redis_hist R (view s)) (\<lambda>s. redis_job R (view s)) (\<lambda>s. redis_queued (view s))"
  by unfold_locales

lemma stored_job:
  assumes "ok_time (j_CreatedAt j)" "- (2 ^ 63) \<le> j_RetryMax j" "j_RetryMax j < 2 ^ 63"
  shows "hash_job R (hset_all Map.empty (jobHashFields R j st p t)) = redis_stored j"
  using assms
  by (simp add: hash_job_def jobHashFields_def hset_all_def redis_stored_def timeout_roundtrip Atoi_show_int
      parse_time_def time_codec append_nil_def raw_def blen_def new_job_def split: option.split)

end

text \<open>Jobs do not notice a change that leaves their keys alone.\<close>

lemma redis_frame:
  assumes "redis_inv R v" "keys_typed v'"
    and "\<forall>i. no_colon i \<longrightarrow> v' (jobKey i) = v (jobKey i) \<and> v' (jobStatesKey i) = v (jobStatesKey i)"
  shows "redis_inv R v'" "redis_hist R v' = redis_hist R v" "redis_job R v' = redis_job R v"
  using assms by (auto simp: redis_inv_def redis_hist_def redis_job_def fun_eq_iff)

lemma find_first:
  "\<forall>x \<in> set xs. \<not> P (f x) \<Longrightarrow> P (f y) \<Longrightarrow> find P (map f (xs @ y # zs)) = Some (f y)"
  by (induction xs) auto

text \<open>
  The claim script as one update of the keyspace: the job's hash and history, the processing table, the
  two state indexes and the counter, and no other key. \<open>enc\<close> is the encoded Processing state.
\<close>

definition claim_effect :: "'db redis \<Rightarrow> time \<Rightarrow> string \<Rightarrow> string \<Rightarrow> kv \<Rightarrow> kv" where
  "claim_effect R t i enc v =
     (let now = cd_RFC3339Nano (rd_codec R) t; nanos = show_int (sint (UnixNano t)) in
      v(jobKey i := VHash ((the (hash_of (v (jobKey i))))(''state'' \<mapsto> StateProcessing, ''progress_at'' \<mapsto> now, ''updated_at'' \<mapsto> now)),
        jobStatesKey i := VList (the (list_of (v (jobStatesKey i))) @ [enc]),
        processingKey := VHash ((the (hash_of (v processingKey)))(i \<mapsto> rd_serverID R @ ''|tok-'' @ i @ ''-'' @ nanos @ ''|'' @ nanos)),
        stateIndexKey StateEnqueued := put_set (the (set_of (v (stateIndexKey StateEnqueued))) - {i}),
        stateIndexKey StateProcessing := VSet (insert i (the (set_of (v (stateIndexKey StateProcessing))))),
        counterKey ''dequeued'' := VStr (show_int (the (int_of (v (counterKey ''dequeued''))) + 1))))"

lemma has_kindE:
  "keys_typed v \<Longrightarrow> of_kind k KHash \<Longrightarrow> hash_of (v k) = Some (the (hash_of (v k)))"
  "keys_typed v \<Longrightarrow> of_kind k KList \<Longrightarrow> list_of (v k) = Some (the (list_of (v k)))"
  "keys_typed v \<Longrightarrow> of_kind k KSet \<Longrightarrow> set_of (v k) = Some (the (set_of (v k)))"
  "keys_typed v \<Longrightarrow> of_kind k KInt \<Longrightarrow> int_of (v k) = Some (the (int_of (v k)))"
  by (auto dest: typed_at)

lemma stateIndex_neq: "stateIndexKey StateEnqueued \<noteq> stateIndexKey StateProcessing" "stateIndexKey StateProcessing \<noteq> stateIndexKey StateEnqueued"
  by (simp_all add: stateIndexKey_def state_defs)

lemma claim_script_effect:
  fixes R :: "'db redis" and t :: time
  assumes ty: "keys_typed v" and i: "no_colon i"
  defines "now \<equiv> cd_RFC3339Nano (rd_codec R) t" and "nanos \<equiv> show_int (sint (UnixNano t))"
  shows "after_all [HSET (jobKey i) [(''state'', StateProcessing), (''progress_at'', now), (''updated_at'', now)],
    RPUSH (jobStatesKey i) enc, HSET processingKey [(i, rd_serverID R @ ''|tok-'' @ i @ ''-'' @ nanos @ ''|'' @ nanos)],
    SREM (stateIndexKey StateEnqueued) i, SADD (stateIndexKey StateProcessing) i, INCRBY (counterKey ''dequeued'') 1] v =
    claim_effect R t i enc v"
proof -
  obtain m l p E S n where "hash_of (v (jobKey i)) = Some m" "list_of (v (jobStatesKey i)) = Some l" "hash_of (v processingKey) = Some p"
    "set_of (v (stateIndexKey StateEnqueued)) = Some E" "set_of (v (stateIndexKey StateProcessing)) = Some S"
    "int_of (v (counterKey ''dequeued'')) = Some n"
    using has_kindE(1) [OF ty of_kind.intros(1) [OF i]] has_kindE(2) [OF ty of_kind.intros(2) [OF i]]
      has_kindE(1) [OF ty of_kind.intros(6)] has_kindE(3) [OF ty of_kind.intros(4)] has_kindE(4) [OF ty of_kind.intros(8)]
    by blast
  with i show ?thesis
    by (simp add: claim_effect_def after.simps upd_def Let_def hset_all_def stateIndex_neq now_def nanos_def)
qed

context redis_server
begin

lemma claim_ok:
  assumes inv: "redis_inv R (view s)" and h: "redis_hist R (view s) i = Some h" and t: "ok_time t"
  obtains s' st token where "claim_dequeued R (quiet None n) t i s = (s', Ok (1, token))" "redis_inv R (view s')"
    "redis_hist R (view s') = (redis_hist R (view s))(i \<mapsto> h @ [st])" "js_Name st = StateProcessing"
    "js_CreatedAt st = t" "redis_job R (view s') = redis_job R (view s)"
    "\<And>q. view s' (queueKey q) = view s (queueKey q)"
    "\<And>S. set_of (view s (stateIndexKey StateProcessing)) = Some S \<Longrightarrow>
       view s' (stateIndexKey StateProcessing) = VSet (insert i S)"
    "\<exists>enc. unmarshalState R enc = Ok st \<and> view s' = claim_effect R t i enc (view s)"
    "token = ''tok-'' @ i @ ''-'' @ show_int (sint (UnixNano t))"
proof -
  let ?st = "new_state StateProcessing '''' [(''server_id'', rd_serverID R)] t"
  from marshal_new [OF t ascii_states(2)] obtain enc st where enc: "marshalState R ?st = Ok enc"
    "unmarshalState R enc = Ok st" "js_Name st = StateProcessing" "js_CreatedAt st = t" by metis
  from redis_entry [OF inv h] obtain m xs where ent: "no_colon i" "view s (jobKey i) = VHash m"
    "view s (jobStatesKey i) = VList xs" by metis
  define now where "now = cd_RFC3339Nano (rd_codec R) t"
  define token where "token = ''tok-'' @ i @ ''-'' @ show_int (sint (UnixNano t))"
  define pv where "pv = rd_serverID R @ ''|'' @ token @ ''|'' @ show_int (sint (UnixNano t))"
  let ?cs = "[HSET (jobKey i) [(''state'', ''Processing''), (''progress_at'', now), (''updated_at'', now)],
    RPUSH (jobStatesKey i) enc, HSET processingKey [(i, pv)], SREM (stateIndexKey StateEnqueued) i,
    SADD (stateIndexKey StateProcessing) i, INCRBY (counterKey ''dequeued'') 1]"
  have "list_all well_keyed ?cs" using ent(1) by simp
  from lua_typed [OF redis_inv_typed [OF inv] this] obtain s' where s': "lua R ?cs s = (s', Ok ())"
    "view s' = after_all ?cs (view s)" "keys_typed (view s')" by blast
  have ex: "run R (EXISTS (jobKey i)) s = (s, Ok (RInt 1))" using run_read [of "EXISTS (jobKey i)" s] ent(2) by auto
  have run: "claim_dequeued R (quiet None n) t i s = (s', Ok (1, token))"
    using s'(1) enc(1) ex
    by (simp add: claim_dequeued_def finalizeDequeueScript_def Let_def now_def pv_def token_def del: lua.simps)
  have "\<exists>m'. view s' (jobKey i) = VHash m' \<and> (\<forall>f \<in> job_fields. m' f = m f) \<and> m' ''state'' = Some (js_Name st)"
    using ent enc(3) by (simp add: s'(2) view_simps hset_all_def job_fields_def StateProcessing_def)
  then obtain m' where m': "view s' (jobKey i) = VHash m'" "\<forall>f \<in> job_fields. m' f = m f"
    "m' ''state'' = Some (js_Name st)" by blast
  have xs': "view s' (jobStatesKey i) = VList (xs @ [enc])" using ent by (simp add: s'(2) view_simps)
  have oth: "\<forall>j. no_colon j \<longrightarrow> j \<noteq> i \<longrightarrow>
      view s' (jobKey j) = view s (jobKey j) \<and> view s' (jobStatesKey j) = view s (jobStatesKey j)"
    using ent(1) by (simp add: s'(2) view_simps)
  show thesis
  proof (rule that [OF run redis_transition(1,2) [OF inv h ent(2,3) m'(1) xs' m'(2,3) enc(2) oth s'(3)] enc(3,4)
        redis_transition(3) [OF inv h ent(2,3) m'(1) xs' m'(2,3) enc(2) oth s'(3)]])
    show "view s' (queueKey q) = view s (queueKey q)" for q by (simp add: s'(2) view_simps)
    show "view s' (stateIndexKey StateProcessing) = VSet (insert i S)"
      if "set_of (view s (stateIndexKey StateProcessing)) = Some S" for S using that by (simp add: s'(2) view_simps)
    show "\<exists>enc. unmarshalState R enc = Ok st \<and> view s' = claim_effect R t i enc (view s)"
      using claim_script_effect [OF redis_inv_typed [OF inv] ent(1), of R t enc] enc(2)
      unfolding s'(2) now_def pv_def token_def StateProcessing_def by auto
  qed (rule token_def)
qed

lemma pop_ok:
  assumes inv: "redis_inv R (view s)" and qs: "qs = ps @ q # rs" "\<forall>p \<in> set ps. view s (queueKey p) = VNone"
    and xs: "view s (queueKey q) = VList xs"
  obtains s' where "get_list R (quiet None n) (BRPOP (map queueKey qs)) s = (s', Ok [queueKey q, last xs])"
    "redis_inv R (view s')" "redis_hist R (view s') = redis_hist R (view s)" "redis_job R (view s') = redis_job R (view s)"
    "view s' = (view s)(queueKey q := put_list (butlast xs))"
proof -
  let ?c = "BRPOP (map queueKey qs)"
  have f: "find (\<lambda>k. view s k \<noteq> VNone) (map queueKey qs) = Some (queueKey q)"
    unfolding qs(1) by (rule find_first) (use qs(2) xs in auto)
  have "cmd_ok ?c (view s)" using typed_at [OF redis_inv_typed [OF inv] of_kind.intros(3)] by (auto simp del: has_kind.simps)
  from run_ok [OF this] obtain s' r where s': "run R ?c s = (s', Ok r)" "view s' = after ?c (view s)" "reply_ok ?c (view s) r"
    by blast
  have v: "view s' = (view s)(queueKey q := put_list (butlast xs))"
    using s'(2) f xs by (simp add: after.simps upd_def)
  have r: "r = RList [queueKey q, last xs]" using s'(3) f xs by (simp add: fits_def)
  have ty: "keys_typed (view s')"
    unfolding keys_typed_def
  proof (intro allI impI)
    fix k K assume "of_kind k K"
    then show "has_kind K (view s' k)"
      using typed_at [OF redis_inv_typed [OF inv]] of_kind_unique [of "queueKey q" K KList]
      by (cases "k = queueKey q") (auto simp: v)
  qed
  have "\<forall>i. no_colon i \<longrightarrow> view s' (jobKey i) = view s (jobKey i) \<and> view s' (jobStatesKey i) = view s (jobStatesKey i)"
    by (simp add: v)
  note fr = redis_frame [OF inv ty this]
  have "get_list R (quiet None n) ?c s = (s', Ok [queueKey q, last xs])" using s'(1) r by (simp add: get_list_def typed_def)
  from that [OF this fr v] show thesis .
qed

text \<open>A blocked \<^verbatim>\<open>Dequeue\<close> that finds a job takes the oldest id of the first non-empty queue and claims it.\<close>

lemma dequeue_ok:
  assumes inv: "redis_inv R (view s0)" and s0: "others s = s0"
    and qs: "qs = ps @ q # rs" "\<forall>p \<in> set ps. view s0 (queueKey p) = VNone" and xs: "view s0 (queueKey q) = VList xs"
    and h: "redis_hist R (view s0) (last xs) = Some h" and t: "ok_time (now_at e 0)"
  obtains s' st token where
    "redis_Dequeue R (quiet None) e None qs ((others, wk) # ws) s = Some (s', Ok \<lparr>t_JobID = last xs, t_Token = token\<rparr>)"
    "redis_inv R (view s')" "redis_hist R (view s') = (redis_hist R (view s0))(last xs \<mapsto> h @ [st])"
    "js_Name st = StateProcessing" "js_CreatedAt st = now_at e 0" "redis_job R (view s') = redis_job R (view s0)"
    "view s' (queueKey q) = put_list (butlast xs)" "\<And>p. p \<noteq> q \<Longrightarrow> view s' (queueKey p) = view s0 (queueKey p)"
    "\<And>S. set_of (view s0 (stateIndexKey StateProcessing)) = Some S \<Longrightarrow>
       view s' (stateIndexKey StateProcessing) = VSet (insert (last xs) S)"
    "\<exists>enc. unmarshalState R enc = Ok st \<and> view s' = claim_effect R (now_at e 0) (last xs) enc ((view s0)(queueKey q := put_list (butlast xs)))"
    "token = ''tok-'' @ last xs @ ''-'' @ show_int (sint (UnixNano (now_at e 0)))"
proof -
  obtain s1 where s1: "get_list R (quiet None 0) (BRPOP (map queueKey qs)) s0 = (s1, Ok [queueKey q, last xs])"
    "redis_inv R (view s1)" "redis_hist R (view s1) = redis_hist R (view s0)" "redis_job R (view s1) = redis_job R (view s0)"
    "view s1 = (view s0)(queueKey q := put_list (butlast xs))"
    using pop_ok [OF inv qs xs] by blast
  have h1: "redis_hist R (view s1) (last xs) = Some h" using s1(3) h by simp
  obtain s' st token where s': "claim_dequeued R (quiet None 1) (now_at e 0) (last xs) s1 = (s', Ok (1, token))"
    "redis_inv R (view s')" "redis_hist R (view s') = (redis_hist R (view s1))(last xs \<mapsto> h @ [st])"
    "js_Name st = StateProcessing" "js_CreatedAt st = now_at e 0" "redis_job R (view s') = redis_job R (view s1)"
    "\<And>q. view s' (queueKey q) = view s1 (queueKey q)"
    "\<And>S. set_of (view s1 (stateIndexKey StateProcessing)) = Some S \<Longrightarrow>
       view s' (stateIndexKey StateProcessing) = VSet (insert (last xs) S)"
    "\<exists>enc. unmarshalState R enc = Ok st \<and> view s' = claim_effect R (now_at e 0) (last xs) enc (view s1)"
    "token = ''tok-'' @ last xs @ ''-'' @ show_int (sint (UnixNano (now_at e 0)))"
    by (rule claim_ok [OF s1(2) h1 t]) blast
  have "get_list R (others, Delivered) (BRPOP (map queueKey qs)) s = (s1, Ok [queueKey q, last xs])"
    using s1(1) s0 by (simp add: get_list_def send_def quiet_def)
  moreover have "qs \<noteq> []" using qs by simp
  ultimately have "redis_Dequeue R (quiet None) e None qs ((others, wk) # ws) s =
      Some (s', Ok \<lparr>t_JobID = last xs, t_Token = token\<rparr>)"
    using s'(1) by (simp add: redis_Dequeue_def quiet_link)
  with s' s1 show thesis by (intro that) simp_all
qed

end

section \<open>A database to run on\<close>

definition redis_env :: "time \<Rightarrow> string \<Rightarrow> env" where
  "redis_env t u = \<lparr>now_at = (\<lambda>_. t), new_uuid = (\<lambda>_. u), key_order = [], rfc3339 = (\<lambda>_. [])\<rparr>"

lemma redis_env_sel [simp]: "now_at (redis_env t u) n = t" "new_uuid (redis_env t u) n = u"
  by (simp_all add: redis_env_def)

definition redis_task :: job where
  "redis_task = new_job ''mail'' None ''default''"

lemma redis_inv_empty: "redis_inv R (cview [])"
  by (auto simp: redis_inv_def keys_typed_def cview_def elim: has_kind.elims) (metis has_kind.elims(3) hash_of.simps(1)
      int_of.simps(1) list_of.simps(1) option.simps(3) set_of.simps(1) zset_of.simps(1))

lemma redis_hist_empty [simp]: "redis_hist R (cview []) i = None"
  by (simp add: redis_hist_def cview_def)

definition redis_one :: "cdb" where
  "redis_one = fst (redis_Enqueue (kv_server ''n1'') (quiet None) (redis_env 5 ''a'') ''default'' redis_task [])"

lemma redis_one_sel:
  "redis_inv (kv_server ''n1'') (cview redis_one)"
  "\<exists>st. redis_hist (kv_server ''n1'') (cview redis_one) ''a'' = Some [st] \<and> js_Name st = StateEnqueued"
  "cview redis_one (queueKey ''default'') = VList [''a'']"
  "cview redis_one (stateIndexKey n) = (if n = StateEnqueued then VSet {''a''} else VNone)"
  "redis_job (kv_server ''n1'') (cview redis_one) ''a'' \<noteq> None"
  "p \<noteq> ''default'' \<Longrightarrow> cview redis_one (queueKey p) = VNone"
  "cview redis_one scheduledKey = VNone" "cview redis_one (idempotencyKey k) = VNone"
  "i \<noteq> ''a'' \<Longrightarrow> redis_hist (kv_server ''n1'') (cview redis_one) i = None"
proof -
  let ?R = "kv_server ''n1''"
  have pre: "j_ID (redis_fill_job (redis_env 5 ''a'') ''default'' redis_task) = ''a''" "''a'' \<noteq> []" "no_colon ''a''"
    "ok_time (now_at (redis_env 5 ''a'') 0)" "''default'' \<noteq> []"
    by (simp_all add: redis_fill_job_def redis_task_def no_colon_def ok_time_def)
  obtain s' st enc where s': "redis_Enqueue ?R (quiet None) (redis_env 5 ''a'') ''default'' redis_task [] = (s', Ok ''a'')"
    "redis_inv ?R (cview s')" "redis_hist ?R (cview s') = (redis_hist ?R (cview []))(''a'' \<mapsto> [st])"
    "js_Name st = StateEnqueued" "js_Reason st = []" "js_CreatedAt st = now_at (redis_env 5 ''a'') 0"
    "redis_job ?R (cview s') = (redis_job ?R (cview []))(''a'' \<mapsto> hash_job ?R (hset_all Map.empty
      (jobHashFields ?R (redis_fill_job (redis_env 5 ''a'') ''default'' redis_task) StateEnqueued 0 (now_at (redis_env 5 ''a'') 1))))"
    "redis_queued (cview s') = (redis_queued (cview []))(''default'' := insert ''a'' (redis_queued (cview []) ''default''))"
    "cview s' = after_all [HSET (jobKey ''a'') (jobHashFields ?R (redis_fill_job (redis_env 5 ''a'') ''default'' redis_task)
        StateEnqueued 0 (now_at (redis_env 5 ''a'') 1)), RPUSH (jobStatesKey ''a'') enc,
       LPUSH (queueKey ''default'') ''a'', SADD queuesIndexKey ''default'', SADD (stateIndexKey StateEnqueued) ''a'',
       INCRBY (counterKey ''enqueued'') 1] (cview [])"
    by (rule kvs.redis_enqueue_exact [OF redis_inv_empty pre(5) refl pre(1-3) redis_hist_empty pre(4)])
  have one: "redis_one = s'" using s'(1) by (simp add: redis_one_def)
  have e: "cview [] k = VNone" for k by (simp add: cview_def)
  show "redis_inv ?R (cview redis_one)" "\<exists>st. redis_hist ?R (cview redis_one) ''a'' = Some [st] \<and> js_Name st = StateEnqueued"
    "redis_job ?R (cview redis_one) ''a'' \<noteq> None"
    using s'(2-4,7) one by simp_all
  show "redis_hist ?R (cview redis_one) i = None" if "i \<noteq> ''a''" using that s'(3) one by simp
  show "cview redis_one (queueKey ''default'') = VList [''a'']" "cview redis_one scheduledKey = VNone"
    "cview redis_one (idempotencyKey k) = VNone"
    "cview redis_one (stateIndexKey n) = (if n = StateEnqueued then VSet {''a''} else VNone)"
    by (simp_all add: one s'(9) view_simps e)
  show "cview redis_one (queueKey p) = VNone" if "p \<noteq> ''default''" using that by (simp add: one s'(9) view_simps e)
qed

section \<open>Properties\<close>

text \<open>
  C21. A job survives its encoding: after an Enqueue, GetJob gives back the enqueued job with the
  defaults filled in, its history the single state Enqueued at the time of the call. What is lost: the
  idempotency key, the part of a timeout below a millisecond, and a negative timeout, which reads as 0 (the
  default); nil arguments read as empty, an empty result as nil. Every other job reads as before.
\<close>
theorem redis_roundtrip:
  assumes srv: "redis_server R view" and inv: "redis_inv R (view s)" and q: "q \<noteq> ''''"
    and job: "redis_fill_job e q j = job" "j_ID job = u"
    and u: "u \<noteq> ''''" "no_colon u" "redis_hist R (view s) u = None" and e: "ok_time (now_at e 0)"
    and rm: "- (2 ^ 63) \<le> j_RetryMax j" "j_RetryMax j < 2 ^ 63"
  shows "\<exists>s' st. redis_Enqueue R (quiet None) e q j s = (s', Ok u) \<and>
    redis_GetJob R (quiet None) u s' = (s', Ok \<lparr>jw_Job = job\<lparr>j_Args := Some (raw (j_Args job)), j_IdempotencyKey := '''',
        j_Result := (if blen (j_Result job) = 0 then None else j_Result job),
        j_Timeout := (if sint (j_Timeout job) < 0 then 0 else word_of_int (sint (j_Timeout job) div 1000000 * 1000000))\<rparr>,
      jw_States = [st]\<rparr>) \<and>
    js_Name st = StateEnqueued \<and> js_Reason st = '''' \<and> js_CreatedAt st = now_at e 0 \<and>
    (\<forall>i. i \<noteq> u \<and> no_colon i \<longrightarrow> snd (redis_GetJob R (quiet None) i s') = snd (redis_GetJob R (quiet None) i s))"
proof -
  obtain s' st where s': "redis_Enqueue R (quiet None) e q j s = (s', Ok u)" "redis_inv R (view s')"
    "redis_hist R (view s') = (redis_hist R (view s))(u \<mapsto> [st])" "js_Name st = StateEnqueued" "js_Reason st = ''''"
    "js_CreatedAt st = now_at e 0"
    "redis_job R (view s') = (redis_job R (view s))
       (u \<mapsto> hash_job R (hset_all Map.empty (jobHashFields R job StateEnqueued 0 (now_at e 1))))"
    by (rule redis_server.redis_enqueue_exact [OF srv inv q job u e]) blast
  have "ok_time (j_CreatedAt job)" "- (2 ^ 63) \<le> j_RetryMax job" "j_RetryMax job < 2 ^ 63"
    using job(1) e rm by (auto simp: redis_fill_job_def)
  note sj = redis_server.stored_job [OF srv this]
  have own: "redis_GetJob R (quiet None) u s' = (s', Ok \<lparr>jw_Job = redis_stored job, jw_States = [st]\<rparr>)"
    by (rule redis_server.redis_get [OF srv s'(2)]) (simp_all add: s'(3,7) sj)
  have oth: "snd (redis_GetJob R (quiet None) i s') = snd (redis_GetJob R (quiet None) i s)" if i: "i \<noteq> u" "no_colon i" for i
  proof (cases "redis_hist R (view s) i")
    case None
    then have "view s (jobKey i) = VNone" "view s' (jobKey i) = VNone"
      using redis_absent(1) [OF inv i(2)] redis_absent(1) [OF s'(2) i(2)] s'(3) i(1) by auto
    then show ?thesis by (simp add: redis_server.redis_get_missing(1) [OF srv])
  next
    case (Some h)
    obtain j where "redis_job R (view s) i = Some j" using redis_entry [OF inv Some] by metis
    with Some i(1) show ?thesis
      using redis_server.redis_get [OF srv inv Some] redis_server.redis_get [OF srv s'(2), of i h j] s'(3,7) by simp
  qed
  have "redis_stored job = job\<lparr>j_Args := Some (raw (j_Args job)), j_IdempotencyKey := '''',
      j_Result := (if blen (j_Result job) = 0 then None else j_Result job),
      j_Timeout := (if sint (j_Timeout job) < 0 then 0 else word_of_int (sint (j_Timeout job) div 1000000 * 1000000))\<rparr>"
    by (simp add: redis_stored_def append_nil_def blen_def max_def split: option.split)
  with s'(1,4-6) own oth show ?thesis by auto
qed

theorem redis_roundtrip_witness:
  "\<exists>s' st. redis_GetJob (kv_server ''n1'') (quiet None) ''a'' s' = (s', Ok \<lparr>jw_Job =
       redis_task\<lparr>j_ID := ''a'', j_RetryMax := 10, j_Args := Some ''[]'', j_CreatedAt := 5, j_Timeout := 1000000\<rparr>, jw_States = [st]\<rparr>) \<and>
     js_Name st = StateEnqueued"
proof -
  have "redis_fill_job (redis_env 5 ''a'') ''default'' (redis_task\<lparr>j_Timeout := 1500000, j_IdempotencyKey := ''k''\<rparr>) =
      redis_task\<lparr>j_ID := ''a'', j_RetryMax := 10, j_Args := Some ''[]'', j_CreatedAt := 5, j_Timeout := 1500000, j_IdempotencyKey := ''k''\<rparr>"
    by (simp add: redis_fill_job_def redis_task_def new_job_def)
  from redis_roundtrip [OF kvs.redis_server_axioms [of "''n1''"] redis_inv_empty _ this, of "''a''"]
  show ?thesis by (auto simp: no_colon_def ok_time_def redis_task_def new_job_def raw_def blen_def)
qed

text \<open>
  C12. Dequeue over Redis. When the blocked call finds work (possibly after other clients acted), it takes
  the oldest id of the first non-empty queue in the order of the arguments. Its whole effect on the
  keyspace is: the id leaves that queue; the job's hash gets the state Processing and the two instants;
  Processing is appended to its history; the processing table gets the server, token and instant; the
  id moves from the Enqueued to the Processing index; the counter of dequeued jobs grows by one. Every
  other key keeps its value, and every other job its record and history.
\<close>
theorem redis_dequeue_claims:
  assumes srv: "redis_server R view" and inv: "redis_inv R (view s0)" and s0: "others s = s0"
    and qs: "qs = ps @ q # rs" "\<forall>p \<in> set ps. view s0 (queueKey p) = VNone" and xs: "view s0 (queueKey q) = VList xs"
    and h: "redis_hist R (view s0) i = Some h" and i: "i = last xs" and t: "ok_time t" "t = now_at e 0"
    and now: "now = cd_RFC3339Nano (rd_codec R) t" "nanos = show_int (sint (UnixNano t))"
  shows "\<exists>s' st enc m p E S n.
    redis_Dequeue R (quiet None) e None qs ((others, wk) # ws) s = Some (s', Ok \<lparr>t_JobID = i, t_Token = ''tok-'' @ i @ ''-'' @ nanos\<rparr>) \<and>
    redis_inv R (view s') \<and> redis_hist R (view s') = (redis_hist R (view s0))(i \<mapsto> h @ [st]) \<and>
    js_Name st = StateProcessing \<and> js_CreatedAt st = t \<and> redis_job R (view s') = redis_job R (view s0) \<and>
    view s0 (jobKey i) = VHash m \<and> hash_of (view s0 processingKey) = Some p \<and>
    set_of (view s0 (stateIndexKey StateEnqueued)) = Some E \<and> set_of (view s0 (stateIndexKey StateProcessing)) = Some S \<and>
    int_of (view s0 (counterKey ''dequeued'')) = Some n \<and> unmarshalState R enc = Ok st \<and>
    view s' = (view s0)(queueKey q := put_list (butlast xs),
      jobKey i := VHash (m(''state'' \<mapsto> StateProcessing, ''progress_at'' \<mapsto> now, ''updated_at'' \<mapsto> now)),
      jobStatesKey i := VList (the (list_of (view s0 (jobStatesKey i))) @ [enc]),
      processingKey := VHash (p(i \<mapsto> rd_serverID R @ ''|tok-'' @ i @ ''-'' @ nanos @ ''|'' @ nanos)),
      stateIndexKey StateEnqueued := put_set (E - {i}), stateIndexKey StateProcessing := VSet (insert i S),
      counterKey ''dequeued'' := VStr (show_int (n + 1)))"
proof -
  have h': "redis_hist R (view s0) (last xs) = Some h" and t': "ok_time (now_at e 0)" using h i t by simp_all
  note ty = redis_inv_typed [OF inv]
  obtain m where m: "no_colon i" "view s0 (jobKey i) = VHash m" using redis_entry [OF inv h] by metis
  obtain p E S n where k: "hash_of (view s0 processingKey) = Some p" "set_of (view s0 (stateIndexKey StateEnqueued)) = Some E"
    "set_of (view s0 (stateIndexKey StateProcessing)) = Some S" "int_of (view s0 (counterKey ''dequeued'')) = Some n"
    using has_kindE(1) [OF ty of_kind.intros(6)] has_kindE(3) [OF ty of_kind.intros(4)] has_kindE(4) [OF ty of_kind.intros(8)] by blast
  obtain s' st token where s':
    "redis_Dequeue R (quiet None) e None qs ((others, wk) # ws) s = Some (s', Ok \<lparr>t_JobID = last xs, t_Token = token\<rparr>)"
    "redis_inv R (view s')" "redis_hist R (view s') = (redis_hist R (view s0))(last xs \<mapsto> h @ [st])"
    "js_Name st = StateProcessing" "js_CreatedAt st = now_at e 0" "redis_job R (view s') = redis_job R (view s0)"
    "\<exists>enc. unmarshalState R enc = Ok st \<and> view s' = claim_effect R (now_at e 0) (last xs) enc ((view s0)(queueKey q := put_list (butlast xs)))"
    "token = ''tok-'' @ last xs @ ''-'' @ show_int (sint (UnixNano (now_at e 0)))"
    by (rule redis_server.dequeue_ok [where others = others and s = s and wk = wk and ws = ws, OF srv inv s0 qs xs h' t']) blast
  from s'(7) obtain enc where enc: "unmarshalState R enc = Ok st"
    "view s' = claim_effect R t i enc ((view s0)(queueKey q := put_list (butlast xs)))" using i t(2) by blast
  have "view s' = (view s0)(queueKey q := put_list (butlast xs),
      jobKey i := VHash (m(''state'' \<mapsto> StateProcessing, ''progress_at'' \<mapsto> now, ''updated_at'' \<mapsto> now)),
      jobStatesKey i := VList (the (list_of (view s0 (jobStatesKey i))) @ [enc]),
      processingKey := VHash (p(i \<mapsto> rd_serverID R @ ''|tok-'' @ i @ ''-'' @ nanos @ ''|'' @ nanos)),
      stateIndexKey StateEnqueued := put_set (E - {i}), stateIndexKey StateProcessing := VSet (insert i S),
      counterKey ''dequeued'' := VStr (show_int (n + 1)))"
    by (simp add: enc(2) claim_effect_def Let_def m(2) k now)
  with s' m(2) k enc(1) i t(2) now(2) show ?thesis
    by (intro exI [of _ s'] exI [of _ st] exI [of _ enc] exI [of _ m] exI [of _ p] exI [of _ E] exI [of _ S] exI [of _ n] conjI) (assumption | simp)+
qed

definition redis_two :: cdb where
  "redis_two = (case redis_Dequeue (kv_server ''n1'') (quiet None) (redis_env 6 []) None [''default''] [(id, WDeadline)] redis_one of
     Some (s, _) \<Rightarrow> s | None \<Rightarrow> [])"

theorem redis_dequeue_claims_witness:
  "\<exists>h st. redis_hist (kv_server ''n1'') (cview redis_two) ''a'' = Some (h @ [st]) \<and> js_Name st = StateProcessing \<and>
     cview redis_two (queueKey ''default'') = VNone \<and> cview redis_two (stateIndexKey StateEnqueued) = VNone"
proof -
  obtain st where h: "redis_hist (kv_server ''n1'') (cview redis_one) ''a'' = Some [st]" using redis_one_sel(2) by auto
  have i: "''a'' = last [''a'']" and t: "ok_time 6" "6 = now_at (redis_env 6 []) 0"
    and q: "[''default''] = [] @ ''default'' # []" "\<forall>p \<in> set []. cview redis_one (queueKey p) = VNone" by (simp_all add: ok_time_def)
  from redis_dequeue_claims [where others = id and s = redis_one and wk = WDeadline and ws = "[]" and e = "redis_env 6 []" and qs = "[''default'']"
      and ps = "[]" and q = "''default''" and rs = "[]" and i = "''a''" and xs = "[''a'']", OF kvs.redis_server_axioms redis_one_sel(1) id_apply q
      redis_one_sel(3) h i t refl refl]
  show ?thesis
  proof (elim exE conjE, goal_cases)
    case (1 s' st' enc m p E S n)
    have two: "redis_two = s'" using 1(1) by (simp add: redis_two_def)
    have "E = {''a''}" using 1(9) by (simp add: redis_one_sel(4))
    then have "cview s' (queueKey ''default'') = VNone" "cview s' (stateIndexKey StateEnqueued) = VNone"
      by (simp_all only: 1(13)) (simp_all add: put_list_def put_set_def stateIndex_neq)
    moreover have "redis_hist (kv_server ''n1'') (cview s') ''a'' = Some ([st] @ [st'])" by (simp only: 1(3) fun_upd_same)
    ultimately show ?case unfolding two using 1(4) by blast
  qed
qed

lemma redis_two_sel:
  "redis_inv (kv_server ''n1'') (cview redis_two)"
  "\<exists>h. redis_hist (kv_server ''n1'') (cview redis_two) ''a'' = Some h \<and> current_of h = StateProcessing"
  "redis_job (kv_server ''n1'') (cview redis_two) ''a'' \<noteq> None"
  "cview redis_two (stateIndexKey StateProcessing) = VSet {''a''}"
proof -
  let ?R = "kv_server ''n1''"
  obtain st where h: "redis_hist ?R (cview redis_one) (last [''a'']) = Some [st]" using redis_one_sel(2) by auto
  have q: "[''default''] = [] @ ''default'' # []" "\<forall>p \<in> set []. cview redis_one (queueKey p) = VNone"
    and t: "ok_time (now_at (redis_env 6 []) 0)" and S: "set_of (cview redis_one (stateIndexKey StateProcessing)) = Some {}"
    by (simp_all add: ok_time_def redis_one_sel(4))
  obtain s' st' token where s': "redis_Dequeue ?R (quiet None) (redis_env 6 []) None [''default''] [(id, WDeadline)] redis_one =
      Some (s', Ok \<lparr>t_JobID = last [''a''], t_Token = token\<rparr>)" "redis_inv ?R (cview s')"
    "redis_hist ?R (cview s') = (redis_hist ?R (cview redis_one))(last [''a''] \<mapsto> [st] @ [st'])" "js_Name st' = StateProcessing"
    "redis_job ?R (cview s') = redis_job ?R (cview redis_one)"
    "cview s' (stateIndexKey StateProcessing) = VSet (insert (last [''a'']) {})"
    by (rule kvs.dequeue_ok [where others = id and s = redis_one and wk = WDeadline and ws = "[]",
          OF redis_one_sel(1) id_apply q redis_one_sel(3) h t]) (use S in blast)
  have two: "redis_two = s'" using s'(1) by (simp add: redis_two_def)
  show "redis_inv ?R (cview redis_two)" "\<exists>h. redis_hist ?R (cview redis_two) ''a'' = Some h \<and> current_of h = StateProcessing"
    "redis_job ?R (cview redis_two) ''a'' \<noteq> None" "cview redis_two (stateIndexKey StateProcessing) = VSet {''a''}"
    using s'(2-6) redis_one_sel(5) by (simp_all add: two current_of_def)
qed

text \<open>
  C5. The engine's verdict does not depend on the store: finishing a job over Redis appends the states
  the outcome calls for, as over memory, keeps every other job and every queue, stores the result of a
  success, and a later GetJob reads exactly that.
\<close>
theorem redis_verdict:
  assumes srv: "redis_server R view" and inv: "redis_inv R (view s)" and j: "redis_job R (view s) i = Some j"
    and h: "redis_hist R (view s) i = Some h" "current_of h = StateProcessing"
    and c: "c 0 = None" "c 1 = None" and out: "out = Ret result err" and id: "j_ID job = i"
    and e: "ok_clock (w 0)" "ok_clock (w 1)"
  shows "\<exists>s' sts r'. finish (redis_ops R) w c jitter job attempt out s =
      (s', Ok (terminal_of (verdict out attempt (j_RetryMax job)))) \<and>
    map js_Name sts = verdict out attempt (j_RetryMax job) \<and>
    redis_GetJob R (quiet None) i s' = (s', Ok \<lparr>jw_Job = j\<lparr>j_Result := r'\<rparr>, jw_States = h @ sts\<rparr>) \<and>
    (err = None \<and> 0 < blen result \<and> blen result \<le> 65536 \<longrightarrow> r' = result) \<and>
    (\<forall>k. k \<noteq> i \<longrightarrow> redis_hist R (view s') k = redis_hist R (view s) k \<and> redis_job R (view s') k = redis_job R (view s) k) \<and>
    redis_queued (view s') = redis_queued (view s) \<and> redis_inv R (view s')"
proof -
  obtain s' sts r' where s': "finish (redis_ops R) w c jitter job attempt out s =
      (s', Ok (terminal_of (verdict out attempt (j_RetryMax job))))" "redis_inv R (view s')"
    "redis_hist R (view s') = (redis_hist R (view s))(i \<mapsto> h @ sts)" "map js_Name sts = verdict out attempt (j_RetryMax job)"
    "redis_job R (view s') = (redis_job R (view s))(i \<mapsto> j\<lparr>j_Result := r'\<rparr>)" "redis_queued (view s') = redis_queued (view s)"
    "err = None \<and> 0 < blen result \<and> blen result \<le> 65536 \<longrightarrow> r' = result"
    using storage_contract.finish_spec [OF redis_server.redis_contract [OF srv] inv j h c out id e, of jitter attempt] by blast
  have "redis_GetJob R (quiet None) i s' = (s', Ok \<lparr>jw_Job = j\<lparr>j_Result := r'\<rparr>, jw_States = h @ sts\<rparr>)"
    by (rule redis_server.redis_get [OF srv s'(2)]) (simp_all add: s'(3,5))
  with s' show ?thesis by (intro exI [of _ s'] exI [of _ sts] exI [of _ r']) simp
qed

theorem redis_verdict_witness:
  "\<exists>j s' sts r' h. finish (redis_ops (kv_server ''n1'')) (\<lambda>_. redis_env 7 []) (\<lambda>_. None) 0 j 0 (Ret (Some ''ok'') None) redis_two =
      (s', Ok StateSucceeded) \<and>
    redis_GetJob (kv_server ''n1'') (quiet None) ''a'' s' = (s', Ok \<lparr>jw_Job = j\<lparr>j_Result := Some ''ok''\<rparr>, jw_States = h @ sts\<rparr>) \<and>
    map js_Name sts = [StateSucceeded]"
proof -
  obtain j h where j: "redis_job (kv_server ''n1'') (cview redis_two) ''a'' = Some j"
    "redis_hist (kv_server ''n1'') (cview redis_two) ''a'' = Some h" "current_of h = StateProcessing"
    using redis_two_sel(2,3) by auto
  have "j_ID j = ''a''" by (rule kvs.job_id [OF redis_two_sel(1) j(1)])
  moreover have "ok_clock (redis_env 7 [])" by (simp add: ok_clock_def ok_time_def)
  ultimately obtain s' sts r' where "finish (redis_ops (kv_server ''n1'')) (\<lambda>_. redis_env 7 []) (\<lambda>_. None) 0 j 0 (Ret (Some ''ok'') None)
      redis_two = (s', Ok (terminal_of (verdict (Ret (Some ''ok'') None) 0 (j_RetryMax j))))"
    "map js_Name sts = verdict (Ret (Some ''ok'') None) 0 (j_RetryMax j)"
    "redis_GetJob (kv_server ''n1'') (quiet None) ''a'' s' = (s', Ok \<lparr>jw_Job = j\<lparr>j_Result := r'\<rparr>, jw_States = h @ sts\<rparr>)"
    "(None :: error option) = None \<and> 0 < blen (Some ''ok'') \<and> blen (Some ''ok'') \<le> 65536 \<longrightarrow> r' = Some ''ok''"
    using redis_verdict [where c = "\<lambda>_. None" and w = "\<lambda>_. redis_env 7 []" and out = "Ret (Some ''ok'') None" and jitter = 0
        and attempt = 0 and job = j, OF kvs.redis_server_axioms redis_two_sel(1) j refl refl refl] by blast
  then show ?thesis by (intro exI [of _ j] exI [of _ s'] exI [of _ sts] exI [of _ r'] exI [of _ h]) (simp add: blen_def terminal_of_def)
qed

section \<open>Deletion and lost claims\<close>

context redis_server
begin

lemma delete_ok:
  assumes inv: "redis_inv R (view s)" and h: "redis_hist R (view s) i = Some h"
    and cur: "\<not> IrreversibleStates (current_of h)" and t: "ok_time (now_at e 0)"
  obtains s' st where "redis_DeleteJob R (quiet None) e i s = (s', Ok ())" "redis_inv R (view s')"
    "redis_hist R (view s') = (redis_hist R (view s))(i \<mapsto> h @ [st])" "js_Name st = StateDeleted"
    "redis_job R (view s') = redis_job R (view s)"
    "\<And>k. k \<noteq> jobKey i \<Longrightarrow> k \<noteq> jobStatesKey i \<Longrightarrow> view s' k = view s k"
proof -
  from marshal_new [OF t ascii_states(6)] obtain enc st where
    enc: "marshalState R (new_state StateDeleted '''' [] (now_at e 0)) = Ok enc" "unmarshalState R enc = Ok st"
      "js_Name st = StateDeleted" by metis
  from redis_entry [OF inv h] obtain m xs where ent: "no_colon i" "view s (jobKey i) = VHash m"
    "view s (jobStatesKey i) = VList xs" "m ''state'' = Some (current_of h)" by metis
  let ?cs = "[HSET (jobKey i) [(''state'', StateDeleted), (''updated_at'', cd_RFC3339Nano (rd_codec R) (now_at e 0))],
    HDEL (jobKey i) ''progress_at'', RPUSH (jobStatesKey i) enc]"
  have "list_all well_keyed ?cs" using ent(1) by simp
  from pipe_ok [OF redis_inv_typed [OF inv] this] obtain s' where s': "pipe R (quiet None 2) ?cs s = (s', Ok ())"
    "view s' = after_all ?cs (view s)" "keys_typed (view s')" by blast
  have run: "redis_DeleteJob R (quiet None) e i s = (s', Ok ())"
    using s'(1) ent cur enc(1) by (simp add: redis_DeleteJob_def get_hget Let_def)
  have "\<exists>m'. view s' (jobKey i) = VHash m' \<and> (\<forall>f \<in> job_fields. m' f = m f) \<and> m' ''state'' = Some (js_Name st)"
    using ent enc(3) by (simp add: s'(2) view_simps hset_all_def put_hash_state job_fields_def)
  then obtain m' where m': "view s' (jobKey i) = VHash m'" "\<forall>f \<in> job_fields. m' f = m f"
    "m' ''state'' = Some (js_Name st)" by blast
  have xs': "view s' (jobStatesKey i) = VList (xs @ [enc])" using ent by (simp add: s'(2) view_simps)
  have fr: "k \<noteq> jobKey i \<Longrightarrow> k \<noteq> jobStatesKey i \<Longrightarrow> view s' k = view s k" for k by (simp add: s'(2) view_simps)
  have oth: "\<forall>j. no_colon j \<longrightarrow> j \<noteq> i \<longrightarrow>
      view s' (jobKey j) = view s (jobKey j) \<and> view s' (jobStatesKey j) = view s (jobStatesKey j)"
    using ent(1) by (simp add: fr)
  note tr = redis_transition [OF inv h ent(2,3) m'(1) xs' m'(2,3) enc(2) oth s'(3)]
  from that [OF run tr(1,2) enc(3) tr(3) fr] show thesis by blast
qed

end

text \<open>
  Deleting a waiting job does not stop it over Redis: DeleteJob reports success and appends Deleted, but
  touches neither the queue nor the state indexes, and the claim only asks whether the job exists. The
  next Dequeue hands the deleted job to a worker, with Processing appended after Deleted; the index of
  deleted jobs, which listing and cleanup read, never names it.
\<close>
lemma redis_deleted_runs:
  assumes srv: "redis_server R view" and inv: "redis_inv R (view s)" and xs: "view s (queueKey q) = VList xs"
    and h: "redis_hist R (view s) (last xs) = Some h" "\<not> IrreversibleStates (current_of h)"
    and t: "ok_time (now_at e 0)" "ok_time (now_at e' 0)"
  shows "\<exists>s1 s2 st st' token. redis_DeleteJob R (quiet None) e (last xs) s = (s1, Ok ()) \<and>
    (\<forall>n. view s1 (stateIndexKey n) = view s (stateIndexKey n)) \<and>
    redis_Dequeue R (quiet None) e' None [q] ((id, wk) # ws) s1 = Some (s2, Ok \<lparr>t_JobID = last xs, t_Token = token\<rparr>) \<and>
    redis_hist R (view s2) (last xs) = Some (h @ [st, st']) \<and> js_Name st = StateDeleted \<and> js_Name st' = StateProcessing"
proof -
  obtain s1 st where s1: "redis_DeleteJob R (quiet None) e (last xs) s = (s1, Ok ())" "redis_inv R (view s1)"
    "redis_hist R (view s1) = (redis_hist R (view s))(last xs \<mapsto> h @ [st])" "js_Name st = StateDeleted"
    "\<And>k. k \<noteq> jobKey (last xs) \<Longrightarrow> k \<noteq> jobStatesKey (last xs) \<Longrightarrow> view s1 k = view s k"
    by (rule redis_server.delete_ok [OF srv inv h t(1)]) blast
  have q: "[q] = [] @ q # []" "\<forall>p \<in> set []. view s1 (queueKey p) = VNone" by simp_all
  have h1: "view s1 (queueKey q) = VList xs" "redis_hist R (view s1) (last xs) = Some (h @ [st])" using s1(3,5) xs by simp_all
  obtain s2 st' token where
    "redis_Dequeue R (quiet None) e' None [q] ((id, wk) # ws) s1 = Some (s2, Ok \<lparr>t_JobID = last xs, t_Token = token\<rparr>)"
    "redis_hist R (view s2) = (redis_hist R (view s1))(last xs \<mapsto> (h @ [st]) @ [st'])" "js_Name st' = StateProcessing"
    by (rule redis_server.dequeue_ok [where others = id and s = s1 and wk = wk and ws = ws, OF srv s1(2) id_apply q h1 t(2)]) blast
  then show ?thesis using s1 by (intro exI [of _ s1] exI [of _ s2] exI [of _ st] exI [of _ st'] exI [of _ token]) simp
qed

text \<open>
  C35. A claim that fails loses the job: when the connection breaks between the pop and the claim script,
  Dequeue returns the error, the id has left its queue, and the job still reads as it did before: its
  record, its history, every state index and the schedule are unchanged, so the Processing index, the only
  place orphan recovery looks, does not name it unless it did before. If it waited in no other place, no
  queue holds it any more.
\<close>
theorem redis_claim_lost:
  assumes srv: "redis_server R view" and inv: "redis_inv R (view s)" and xs: "view s (queueKey q) = VList xs"
    and once: "last xs \<notin> set (butlast xs)" "\<forall>p. p \<noteq> q \<longrightarrow> last xs \<notin> redis_queued (view s) p"
    and t: "ok_time (now_at e 0)"
    and net: "nt = (\<lambda>k. (id, if k = 1 then Lost False err else Delivered))"
  shows "\<exists>s'. redis_Dequeue R nt e None [q] ((id, wk) # ws) s = Some (s', Err (ErrWrap ''dequeue finalize'' err)) \<and>
    (\<forall>p. last xs \<notin> redis_queued (view s') p) \<and>
    redis_hist R (view s') = redis_hist R (view s) \<and> redis_job R (view s') = redis_job R (view s) \<and>
    (\<forall>n. view s' (stateIndexKey n) = view s (stateIndexKey n)) \<and> view s' scheduledKey = view s scheduledKey"
proof -
  have q: "[q] = [] @ q # []" "\<forall>p \<in> set []. view s (queueKey p) = VNone" by simp_all
  obtain s1 where s1: "get_list R (quiet None 0) (BRPOP (map queueKey [q])) s = (s1, Ok [queueKey q, last xs])"
    "redis_hist R (view s1) = redis_hist R (view s)" "redis_job R (view s1) = redis_job R (view s)"
    "view s1 = (view s)(queueKey q := put_list (butlast xs))"
    by (rule redis_server.pop_ok [OF srv inv q xs, of 0]) blast
  let ?st = "new_state StateProcessing '''' [(''server_id'', rd_serverID R)] (now_at e 0)"
  obtain enc where "marshalState R ?st = Ok enc" using redis_server.marshal_some [OF srv, of ?st] t by auto
  then have "claim_dequeued R (id, Lost False err) (now_at e 0) (last xs) s1 = (s1, Err (ErrWrap ''dequeue finalize'' err))"
    by (simp add: claim_dequeued_def send_def Let_def)
  moreover have "get_list R (id, Delivered) (BRPOP [queueKey q]) s = (s1, Ok [queueKey q, last xs])"
    using s1(1) by (simp add: quiet_def)
  ultimately have "redis_Dequeue R nt e None [q] ((id, wk) # ws) s = Some (s1, Err (ErrWrap ''dequeue finalize'' err))"
    using net by (simp add: redis_Dequeue_def)
  moreover have "last xs \<notin> redis_queued (view s1) p" for p
    using once by (cases "p = q") (auto simp: s1(4) redis_queued_def put_list_def)
  ultimately show ?thesis using s1(2-4) by (intro exI [of _ s1]) simp
qed

theorem redis_claim_lost_witness:
  "\<exists>s'. redis_Dequeue (kv_server ''n1'') (\<lambda>k. (id, if k = 1 then Lost False CtxCanceled else Delivered)) (redis_env 6 []) None
      [''default''] [(id, WDeadline)] redis_one = Some (s', Err (ErrWrap ''dequeue finalize'' CtxCanceled)) \<and>
    (\<forall>p. ''a'' \<notin> redis_queued (cview s') p)"
proof -
  let ?nt = "\<lambda>k. (id, if k = 1 then Lost False CtxCanceled else Delivered) :: cdb trip"
  have once: "last [''a''] \<notin> set (butlast [''a''])" "\<forall>p. p \<noteq> ''default'' \<longrightarrow> last [''a''] \<notin> redis_queued (cview redis_one) p"
    using redis_one_sel(6) by (simp_all add: redis_queued_def)
  have t: "ok_time (now_at (redis_env 6 []) 0)" by (simp add: ok_time_def)
  have nt: "?nt = ?nt" ..
  show ?thesis
    using redis_claim_lost [where wk = WDeadline and ws = "[]" and err = CtxCanceled and nt = ?nt,
        OF kvs.redis_server_axioms redis_one_sel(1,3) once t nt] by auto
qed

end
