(* ===== verification/Redis_Services.thy ===== *)
theory Redis_Services
  imports Redis_Properties
begin

text \<open>
  The services of the Redis store that other nodes take part in: orphan recovery, distributed locks,
  idempotent enqueueing and the promotion of scheduled jobs, for every server with the documented command
  behaviour.
\<close>

section \<open>Orphans\<close>

definition redis_stale :: "'db redis \<Rightarrow> kv \<Rightarrow> time \<Rightarrow> string \<Rightarrow> bool" where
  "redis_stale R v cutoff i =
     (case Option.bind (hash_of (v (jobKey i))) (\<lambda>m. m ''progress_at'') of
        None \<Rightarrow> True
      | Some x \<Rightarrow> x = '''' \<or> (case cd_Parse (rd_codec R) x of None \<Rightarrow> True | Some t \<Rightarrow> t < cutoff))"

context redis_server
begin

lemma orphan_loop_reads:
  assumes "keys_typed (view s)" "\<forall>i \<in> set ids. no_colon i"
  shows "orphan_loop R (quiet None) cutoff k ids s =
    (s, map (\<lambda>i. \<lparr>t_JobID = i, t_Token = ''orphan-'' @ i\<rparr>) (filter (redis_stale R (view s) cutoff) ids))"
  using assms
proof (induction ids arbitrary: k)
  case (Cons i ids)
  then have "has_kind KHash (view s (jobKey i))" by (intro typed_at) simp_all
  then obtain m where m: "hash_of (view s (jobKey i)) = Some m" by auto
  have IH: "orphan_loop R (quiet None) cutoff (Suc k) ids s =
      (s, map (\<lambda>i. \<lparr>t_JobID = i, t_Token = ''orphan-'' @ i\<rparr>) (filter (redis_stale R (view s) cutoff) ids))"
    by (rule Cons.IH) (use Cons.prems in auto)
  show ?case by (simp add: get_hget [OF m] IH redis_stale_def [of R "view s" cutoff i] m split: option.split)
qed simp

lemma orphans_read:
  assumes "keys_typed (view s)" "set_of (view s (stateIndexKey StateProcessing)) = Some S" "\<forall>i \<in> S. no_colon i"
  obtains ts where "redis_GetOrphanedJobs R (quiet None) e age s = (s, Ok ts)" "distinct (map t_JobID ts)"
    "t_JobID ` set ts = {i \<in> S. redis_stale R (view s) (time_add (now_at e 0) (- age)) i}"
proof -
  from run_read [of "SMEMBERS (stateIndexKey StateProcessing)" s] assms(2)
  obtain ids where ids: "get_list R (quiet None 0) (SMEMBERS (stateIndexKey StateProcessing)) s = (s, Ok ids)"
    "distinct ids" "set ids = S" by (auto simp: get_list_def typed_def fits_def)
  let ?cut = "time_add (now_at e 0) (- age)"
  have "\<forall>i \<in> set ids. no_colon i" using assms(3) ids(3) by simp
  note lp = orphan_loop_reads [OF assms(1) this, of ?cut 1]
  show thesis
  proof (rule that)
    show "redis_GetOrphanedJobs R (quiet None) e age s = (s, Ok (map (\<lambda>i. \<lparr>t_JobID = i, t_Token = ''orphan-'' @ i\<rparr>)
        (filter (redis_stale R (view s) ?cut) ids)))"
      using lp ids(1) by (simp add: redis_GetOrphanedJobs_def Let_def)
  qed (use ids(2,3) in \<open>auto simp: comp_def image_iff\<close>)
qed

end

text \<open>
  Orphan recovery over Redis. The tickets name, each once, exactly the ids of the Processing index whose
  job shows no sign of life since the cutoff (no progress time, an unreadable one, or an old one).
  Requeueing them puts each such job that is not in an irreversible state back into its queue with
  Enqueued appended, and leaves the history of every other job alone.
\<close>
lemma redis_orphan_recovery:
  assumes srv: "redis_server R view" and inv: "redis_inv R (view s)"
    and S: "set_of (view s (stateIndexKey StateProcessing)) = Some S" "\<forall>i \<in> S. no_colon i"
    and w: "\<forall>k. ok_clock (w k)"
    and lost: "lost = {i \<in> S. redis_stale R (view s) (time_add (now_at e 0) (- age)) i \<and> can_requeue (redis_hist R (view s) i)}"
  shows "\<exists>ts s'. op_GetOrphanedJobs (redis_ops R) e None age s = Ok ts \<and> distinct (map t_JobID ts) \<and>
    t_JobID ` set ts = {i \<in> S. redis_stale R (view s) (time_add (now_at e 0) (- age)) i} \<and>
    requeue_all (redis_ops R) w None ts s = s' \<and> redis_inv R (view s') \<and> redis_job R (view s') = redis_job R (view s) \<and>
    (\<forall>i \<in> lost. reinstated (redis_hist R (view s) i) (redis_hist R (view s') i) ''orphan recovery'' \<and>
       (\<forall>j. redis_job R (view s) i = Some j \<longrightarrow> i \<in> redis_queued (view s') (j_Queue j))) \<and>
    (\<forall>i. i \<notin> lost \<longrightarrow> redis_hist R (view s') i = redis_hist R (view s) i)"
proof -
  obtain ts where ts: "redis_GetOrphanedJobs R (quiet None) e age s = (s, Ok ts)" "distinct (map t_JobID ts)"
    "t_JobID ` set ts = {i \<in> S. redis_stale R (view s) (time_add (now_at e 0) (- age)) i}"
    by (rule redis_server.orphans_read [OF srv redis_inv_typed [OF inv] S])
  have ids: "\<forall>t \<in> set ts. no_colon (t_JobID t)" using ts(3) S(2) by blast
  have wk: "ok_clock (w k)" for k using w by blast
  let ?s = "requeue_all (redis_ops R) w None ts s"
  note sp = storage_contract.requeue_all_spec [OF redis_server.redis_contract [OF srv] inv ts(2) ids wk]
  note rq = sp [THEN conjunct1] sp [THEN conjunct2, THEN conjunct1] sp [THEN conjunct2, THEN conjunct2, THEN conjunct1]
    sp [THEN conjunct2, THEN conjunct2, THEN conjunct2, THEN conjunct1]
    sp [THEN conjunct2, THEN conjunct2, THEN conjunct2, THEN conjunct2]
  have lost': "i \<in> lost \<longleftrightarrow> i \<in> t_JobID ` set ts \<and> can_requeue (redis_hist R (view s) i)" for i
    using ts(3) lost by auto
  have "op_GetOrphanedJobs (redis_ops R) e None age s = Ok ts" using ts(1) by (simp add: redis_ops_def)
  moreover have "\<forall>i \<in> lost. reinstated (redis_hist R (view s) i) (redis_hist R (view ?s) i) ''orphan recovery'' \<and>
       (\<forall>j. redis_job R (view s) i = Some j \<longrightarrow> i \<in> redis_queued (view ?s) (j_Queue j))"
    using rq(4) by (simp add: lost')
  moreover have "\<forall>i. i \<notin> lost \<longrightarrow> redis_hist R (view ?s) i = redis_hist R (view s) i" using rq(5) by (simp add: lost')
  moreover note rq(1,2)
  ultimately show ?thesis using ts(2,3) by (intro exI [of _ ts] exI [of _ ?s] conjI refl)
qed

section \<open>Locks\<close>

context redis_server
begin

lemma acquire_ok:
  assumes "view s (lockKey r) = VNone"
  obtains s' where "redis_AcquireLock R (quiet None) e r ttl s =
      (s', Ok \<lparr>lk_resource = r, lk_ownerID = new_uuid e 0, lk_expiresAt = 0, lk_released = False\<rparr>)"
    "view s' = (view s)(lockKey r := VStr (new_uuid e 0))"
proof -
  let ?c = "SETNX (lockKey r) (new_uuid e 0) ttl"
  from run_ok [of ?c s] obtain s' rp where s': "run R ?c s = (s', Ok rp)" "view s' = after ?c (view s)"
    "reply_ok ?c (view s) rp" by auto
  show thesis using assms s' that [of s']
    by (simp add: redis_AcquireLock_def get_int_def typed_def after.simps Let_def)
qed

lemma acquire_held:
  assumes "view s (lockKey r) \<noteq> VNone"
  shows "redis_AcquireLock R (quiet None) e r ttl s = (s, Err ErrLockNotHeld)"
proof -
  let ?c = "SETNX (lockKey r) (new_uuid e 0) ttl"
  have "after ?c (view s) = view s" using assms by (simp add: after.simps)
  then have "fst (run R ?c s) = s" by (rule run_same)
  moreover from run_ok [of ?c s] obtain s' rp where "run R ?c s = (s', Ok rp)" "reply_ok ?c (view s) rp" by auto
  ultimately show ?thesis using assms by (simp add: redis_AcquireLock_def get_int_def typed_def Let_def)
qed

lemma run_get: "view s k = VStr x \<Longrightarrow> run R (GET k) s = (s, Ok (RBulk x))" "view s k = VNone \<Longrightarrow> run R (GET k) s = (s, Ok RNil)"
  using run_read [of "GET k" s] by auto

lemma release_other:
  assumes "view s (lockKey (lk_resource l)) = VStr x" "x \<noteq> lk_ownerID l"
  shows "redis_Release R (quiet None) l s = (s, l, Err ErrLockNotHeld)"
  using assms run_get(1) [OF assms(1)] by (simp add: redis_Release_def releaseLockScript_def)

lemma release_own:
  assumes "view s (lockKey (lk_resource l)) = VStr (lk_ownerID l)"
  obtains s' where "redis_Release R (quiet None) l s = (s', l, Ok ())" "view s' = (view s)(lockKey (lk_resource l) := VNone)"
proof -
  let ?c = "DEL (lockKey (lk_resource l))"
  from run_ok [of ?c s] obtain s' rp where s': "run R ?c s = (s', Ok rp)" "view s' = after ?c (view s)"
    "reply_ok ?c (view s) rp" by auto
  show thesis using assms run_get(1) [OF assms] s' that [of s']
    by (simp add: redis_Release_def releaseLockScript_def typed_def after.simps)
qed

end

text \<open>
  C23. Locks over Redis exclude. An AcquireLock on a free resource stores the caller's id; until the key is gone
  every other AcquireLock of the resource is refused without effect, whatever its time-to-live, and a
  Release by a holder of another id (one whose lock expired in the meantime) is refused without effect.
  The holder's Release frees the resource and changes nothing else.
\<close>
theorem redis_lock_excludes:
  assumes srv: "redis_server R view" and free: "view s (lockKey r) = VNone"
  shows "\<exists>s' l. redis_AcquireLock R (quiet None) e r ttl s = (s', Ok l) \<and>
    (\<forall>e' ttl'. redis_AcquireLock R (quiet None) e' r ttl' s' = (s', Err ErrLockNotHeld)) \<and>
    (\<forall>l'. lk_resource l' = r \<and> lk_ownerID l' \<noteq> lk_ownerID l \<longrightarrow>
       redis_Release R (quiet None) l' s' = (s', l', Err ErrLockNotHeld)) \<and>
    (\<exists>s''. redis_Release R (quiet None) l s' = (s'', l, Ok ()) \<and> view s'' = view s)"
proof -
  obtain s' where s': "redis_AcquireLock R (quiet None) e r ttl s =
      (s', Ok \<lparr>lk_resource = r, lk_ownerID = new_uuid e 0, lk_expiresAt = 0, lk_released = False\<rparr>)"
    "view s' = (view s)(lockKey r := VStr (new_uuid e 0))" by (rule redis_server.acquire_ok [OF srv free])
  let ?l = "\<lparr>lk_resource = r, lk_ownerID = new_uuid e 0, lk_expiresAt = 0, lk_released = False\<rparr>"
  have held: "view s' (lockKey r) = VStr (new_uuid e 0)" using s'(2) by simp
  have own: "view s' (lockKey (lk_resource ?l)) = VStr (lk_ownerID ?l)" using held by simp
  obtain s'' where s'': "redis_Release R (quiet None) ?l s' = (s'', ?l, Ok ())"
    "view s'' = (view s')(lockKey (lk_resource ?l) := VNone)" by (rule redis_server.release_own [OF srv own])
  have "view s'' = view s" using s''(2) s'(2) free by (simp add: fun_upd_idem)
  moreover have "redis_AcquireLock R (quiet None) e' r ttl' s' = (s', Err ErrLockNotHeld)" for e' ttl'
    by (rule redis_server.acquire_held [OF srv]) (simp add: held)
  moreover have "redis_Release R (quiet None) l' s' = (s', l', Err ErrLockNotHeld)"
    if "lk_resource l' = r" "lk_ownerID l' \<noteq> lk_ownerID ?l" for l'
    using redis_server.release_other [OF srv, of s' l' "new_uuid e 0"] held that by simp
  ultimately show ?thesis using s'(1) s''(1) by blast
qed

theorem redis_lock_excludes_witness:
  "\<exists>s' l. redis_AcquireLock (kv_server ''n1'') (quiet None) (redis_env 5 ''o1'') ''tick'' 9 [] = (s', Ok l) \<and>
    redis_AcquireLock (kv_server ''n1'') (quiet None) (redis_env 6 ''o2'') ''tick'' 9 s' = (s', Err ErrLockNotHeld)"
proof -
  have "cview [] (lockKey ''tick'') = VNone" by (simp add: cview_def)
  from redis_lock_excludes [where e = "redis_env 5 ''o1''" and ttl = 9, OF kvs.redis_server_axioms [of "''n1''"] this]
  show ?thesis by blast
qed

section \<open>Idempotent enqueueing\<close>

lemma of_kind_plain: "of_kind k K \<Longrightarrow> k \<noteq> idempotencyKey n"
  by (erule of_kind.cases) simp_all

context redis_server
begin

lemma idempotent_replay:
  assumes "view s (idempotencyKey key) = VStr i" "i \<noteq> ''''" "j_IdempotencyKey j = key" "key \<noteq> ''''"
  shows "redis_EnqueueIdempotent R (quiet None) e q j s = (s, Ok (i, False))"
  using assms run_get(1) [OF assms(1)] by (simp add: redis_EnqueueIdempotent_def get_str_def typed_def)

lemma enqueue_shifted:
  assumes "ok_time (now_at e 0)" "nt 0 = (f, Delivered)"
  shows "redis_Enqueue R nt e q j s = redis_Enqueue R (quiet None) e q j (f s)"
proof -
  let ?st = "new_state StateEnqueued '''' [] (now_at e 0)"
  obtain enc where enc: "marshalState R ?st = Ok enc" using marshal_some [of ?st] assms(1) by auto
  have "pipe R (f, Delivered) cs s = pipe R (quiet None 0) cs (f s)" for cs by (simp add: pipe_def send_def quiet_def)
  with enc show ?thesis by (simp add: redis_Enqueue_def Let_def assms(2))
qed

text \<open>The call when the key is unused, with other clients (\<open>f\<close>) acting between its read and its write.\<close>

lemma idempotent_fresh:
  assumes inv: "redis_inv R (view (f s))" and key: "view s (idempotencyKey key) = VNone" "j_IdempotencyKey j = key" "key \<noteq> ''''"
    and j: "j_ID j = ''''" "q \<noteq> ''''"
    and u: "new_uuid e 0 = u" "u \<noteq> ''''" "no_colon u" "redis_hist R (view (f s)) u = None" and t: "ok_time (now_at e 0)"
  obtains s' st where
    "redis_EnqueueIdempotent R (\<lambda>k. (if k = 1 then f else id, Delivered)) e q j s = (s', Ok (u, True))" "redis_inv R (view s')"
    "redis_hist R (view s') = (redis_hist R (view (f s)))(u \<mapsto> [st])" "js_Name st = StateEnqueued"
    "redis_queued (view s') = (redis_queued (view (f s)))(q := insert u (redis_queued (view (f s)) q))"
    "view s' (idempotencyKey key) = VStr u"
proof -
  let ?nt = "\<lambda>k. (if k = 1 then f else id, Delivered)"
  have id: "j_ID (redis_fill_job e q j) = u" using j u by (simp add: redis_fill_job_def)
  obtain s1 st enc where s1: "redis_Enqueue R (quiet None) e q j (f s) = (s1, Ok u)" "redis_inv R (view s1)"
    "redis_hist R (view s1) = (redis_hist R (view (f s)))(u \<mapsto> [st])" "js_Name st = StateEnqueued"
    "redis_queued (view s1) = (redis_queued (view (f s)))(q := insert u (redis_queued (view (f s)) q))"
    by (rule redis_enqueue_exact [OF inv j(2) refl id u(2-4) t]) blast
  have enq: "redis_Enqueue R (\<lambda>k. ?nt (k + 1)) e q j s = (s1, Ok u)" using enqueue_shifted [OF t, of "\<lambda>k. ?nt (k + 1)" f q j s] s1(1) by simp
  let ?c = "SET (idempotencyKey key) u"
  from run_ok [of ?c s1] obtain s' rp where s': "run R ?c s1 = (s', Ok rp)" "view s' = after ?c (view s1)" by auto
  have v: "view s' = (view s1)(idempotencyKey key := VStr u)" by (simp add: s'(2) after.simps)
  have get: "get_str R (id, Delivered) (GET (idempotencyKey key)) s = (s, Err redisNil)"
    using run_get(2) [OF key(1)] by (simp add: get_str_def typed_def send_def)
  have run: "redis_EnqueueIdempotent R ?nt e q j s = (s', Ok (u, True))"
    using enq s'(1) key(2,3) get by (simp add: redis_EnqueueIdempotent_def send_def)
  have ty: "keys_typed (view s')"
    using redis_inv_typed [OF s1(2)] of_kind_plain by (auto simp: keys_typed_def v)
  have "\<forall>i. no_colon i \<longrightarrow> view s' (jobKey i) = view s1 (jobKey i) \<and> view s' (jobStatesKey i) = view s1 (jobStatesKey i)"
    by (simp add: v)
  note fr = redis_frame [OF s1(2) ty this]
  have q: "redis_queued (view s') = redis_queued (view s1)" by (rule ext) (simp add: redis_queued_def v)
  have hist: "redis_hist R (view s') = (redis_hist R (view (f s)))(u \<mapsto> [st])" using fr(2) s1(3) by (rule trans)
  have queued: "redis_queued (view s') = (redis_queued (view (f s)))(q := insert u (redis_queued (view (f s)) q))"
    using q s1(5) by (rule trans)
  have "view s' (idempotencyKey key) = VStr u" by (simp add: v)
  from that [OF run fr(1) hist s1(4) queued this] show thesis .
qed

end

text \<open>
  Idempotent enqueueing over Redis is atomic only for callers that do not overlap. A call with an unused
  key creates the job and records its id, and every later call with the key gets that id and creates
  nothing. When another call with the same key runs between the read of the key and the write, both
  report a created job, and two jobs wait in the queue.
\<close>
lemma redis_idempotency_race:
  assumes srv: "redis_server R view" and inv: "redis_inv R (view s)"
    and key: "view s (idempotencyKey key) = VNone" "j_IdempotencyKey j = key" "key \<noteq> ''''" and j: "j_ID j = ''''" "q \<noteq> ''''"
    and u: "new_uuid e1 0 = u1" "new_uuid e2 0 = u2" "u1 \<noteq> u2" "u1 \<noteq> ''''" "u2 \<noteq> ''''" "no_colon u1" "no_colon u2"
      "redis_hist R (view s) u1 = None" "redis_hist R (view s) u2 = None"
    and t: "ok_time (now_at e1 0)" "ok_time (now_at e2 0)"
    and other: "other = (\<lambda>s. fst (redis_EnqueueIdempotent R (quiet None) e2 q j s))"
  shows "\<exists>s2 s1. redis_EnqueueIdempotent R (quiet None) e2 q j s = (s2, Ok (u2, True)) \<and>
    (\<forall>e. redis_EnqueueIdempotent R (quiet None) e q j s2 = (s2, Ok (u2, False))) \<and>
    redis_EnqueueIdempotent R (\<lambda>k. (if k = 1 then other else id, Delivered)) e1 q j s = (s1, Ok (u1, True)) \<and>
    {u1, u2} \<subseteq> redis_queued (view s1) q \<and> redis_hist R (view s1) u1 \<noteq> None \<and> redis_hist R (view s1) u2 \<noteq> None"
proof -
  have inv': "redis_inv R (view (id s))" "redis_hist R (view (id s)) u2 = None" using inv u(9) by simp_all
  have quiet: "(\<lambda>k. (if k = 1 then id else id, Delivered)) = quiet None" by (simp add: quiet_def fun_eq_iff)
  obtain s2 st where s2: "redis_EnqueueIdempotent R (quiet None) e2 q j s = (s2, Ok (u2, True))" "redis_inv R (view s2)"
    "redis_hist R (view s2) = (redis_hist R (view (id s)))(u2 \<mapsto> [st])"
    "redis_queued (view s2) = (redis_queued (view (id s)))(q := insert u2 (redis_queued (view (id s)) q))"
    "view s2 (idempotencyKey key) = VStr u2"
    by (rule redis_server.idempotent_fresh [where f = id, OF srv inv'(1) key j u(2,5,7) inv'(2) t(2), unfolded quiet]) blast
  have oth: "other s = s2" using s2(1) by (simp add: other)
  have o: "redis_inv R (view (other s))" "redis_hist R (view (other s)) u1 = None" using s2(2,3) u(3,8) oth by simp_all
  obtain s1 st' where s1: "redis_EnqueueIdempotent R (\<lambda>k. (if k = 1 then other else id, Delivered)) e1 q j s = (s1, Ok (u1, True))"
    "redis_hist R (view s1) = (redis_hist R (view (other s)))(u1 \<mapsto> [st'])"
    "redis_queued (view s1) = (redis_queued (view (other s)))(q := insert u1 (redis_queued (view (other s)) q))"
    by (rule redis_server.idempotent_fresh [where f = other, OF srv o(1) key j u(1,4,6) o(2) t(1)]) blast
  have "redis_EnqueueIdempotent R (quiet None) e q j s2 = (s2, Ok (u2, False))" for e
    by (rule redis_server.idempotent_replay [OF srv s2(5) u(5) key(2,3)])
  then show ?thesis using s2 s1 u(3) oth by (intro exI [of _ s2] exI [of _ s1]) simp
qed

section \<open>Promotion of scheduled jobs\<close>


lemma after_zrems:
  assumes "zset_of (v scheduledKey) = Some z"
  shows "zset_of (after_all (map (ZREM scheduledKey) ids) v scheduledKey) = Some (z |` (- set ids))"
    and "k \<noteq> scheduledKey \<Longrightarrow> after_all (map (ZREM scheduledKey) ids) v k = v k"
proof -
  show "zset_of (after_all (map (ZREM scheduledKey) ids) v scheduledKey) = Some (z |` (- set ids))"
    using assms
  proof (induction ids arbitrary: v z)
    case (Cons i ids)
    have "zset_of (after (ZREM scheduledKey i) v scheduledKey) = Some (z(i := None))" using Cons.prems by (simp add: after_here)
    from Cons.IH [where v = "after (ZREM scheduledKey i) v", OF this] show ?case by (auto simp: restrict_map_def fun_eq_iff intro!: arg_cong [where f = Some])
  qed (simp add: restrict_map_def)
  show "k \<noteq> scheduledKey \<Longrightarrow> after_all (map (ZREM scheduledKey) ids) v k = v k" by (rule after_all_frame) auto
qed

text \<open>The number of ids taken, and that they are the earliest.\<close>

lemma take_sorted_earliest:
  assumes "sorted (map f xs)" "i \<in> set (take n xs)" "k \<in> set xs - set (take n xs)"
  shows "f i \<le> f k"
proof -
  from assms(3) have "k \<in> set (drop n xs)" by (metis DiffD1 DiffD2 Un_iff append_take_drop_id set_append)
  moreover have "sorted (map f (take n xs) @ map f (drop n xs))" using assms(1) by (simp flip: map_append)
  ultimately show ?thesis using assms(2) by (auto simp: sorted_append)
qed

text \<open>The pipeline that promotes one job, and what a sequence of them does to the shared keys.\<close>

definition promote_writes :: "string \<Rightarrow> string \<Rightarrow> string \<Rightarrow> string \<Rightarrow> cmd list" where
  "promote_writes i q now enc =
     [HSET (jobKey i) [(''state'', StateEnqueued), (''updated_at'', now)],
      RPUSH (jobStatesKey i) enc, LPUSH (queueKey q) i, SADD queuesIndexKey q, SREM (stateIndexKey StateScheduled) i,
      SADD (stateIndexKey StateEnqueued) i, INCRBY (counterKey ''scheduled'') (- 1), INCRBY (counterKey ''enqueued'') 1]"

definition promoted_keys :: "(string \<Rightarrow> string) \<Rightarrow> string list \<Rightarrow> kv \<Rightarrow> kv \<Rightarrow> bool" where
  "promoted_keys queue_of ids v v' \<longleftrightarrow>
     (\<forall>q. list_of (v' (queueKey q)) = Some (rev (filter (\<lambda>i. queue_of i = q) ids) @ the (list_of (v (queueKey q))))) \<and>
     set_of (v' queuesIndexKey) = Some (the (set_of (v queuesIndexKey)) \<union> queue_of ` set ids) \<and>
     set_of (v' (stateIndexKey StateScheduled)) = Some (the (set_of (v (stateIndexKey StateScheduled))) - set ids) \<and>
     set_of (v' (stateIndexKey StateEnqueued)) = Some (the (set_of (v (stateIndexKey StateEnqueued))) \<union> set ids) \<and>
     int_of (v' (counterKey ''scheduled'')) = Some (the (int_of (v (counterKey ''scheduled''))) - int (length ids)) \<and>
     int_of (v' (counterKey ''enqueued'')) = Some (the (int_of (v (counterKey ''enqueued''))) + int (length ids)) \<and>
     (\<forall>k. k \<notin> range queueKey \<and> k \<notin> {queuesIndexKey, stateIndexKey StateScheduled, stateIndexKey StateEnqueued,
         counterKey ''scheduled'', counterKey ''enqueued''} \<and> k \<notin> jobKey ` set ids \<and> k \<notin> jobStatesKey ` set ids \<longrightarrow> v' k = v k)"

lemma promoted_keys_Nil: "keys_typed v \<Longrightarrow> promoted_keys f [] v v"
  using has_kindE [of v] by (simp add: promoted_keys_def)

lemma stateIndex_neq2:
  "stateIndexKey StateEnqueued \<noteq> stateIndexKey StateScheduled" "stateIndexKey StateScheduled \<noteq> stateIndexKey StateEnqueued"
  "counterKey ''scheduled'' \<noteq> counterKey ''enqueued''" "counterKey ''enqueued'' \<noteq> counterKey ''scheduled''"
  by (simp_all add: stateIndexKey_def counterKey_def state_defs)

lemma promoted_keys_Cons:
  assumes ty: "keys_typed v" and v1: "v1 = after_all (promote_writes i (f i) now enc) v" and i: "no_colon i"
    and rest: "promoted_keys f ids v1 v'"
  shows "promoted_keys f (i # ids) v v'"
proof -
  obtain I S E m n where k: "set_of (v queuesIndexKey) = Some I" "set_of (v (stateIndexKey StateScheduled)) = Some S"
    "set_of (v (stateIndexKey StateEnqueued)) = Some E" "int_of (v (counterKey ''scheduled'')) = Some m" "int_of (v (counterKey ''enqueued'')) = Some n"
    using has_kindE(3) [OF ty of_kind.intros(4)] has_kindE(3) [OF ty of_kind.intros(5)] has_kindE(4) [OF ty of_kind.intros(8)] by blast
  have l: "list_of (v (queueKey q)) = Some (the (list_of (v (queueKey q))))" for q by (rule has_kindE(2) [OF ty of_kind.intros(3)])
  have q1: "list_of (v1 (queueKey q)) = Some ((if q = f i then [i] else []) @ the (list_of (v (queueKey q))))" for q
    using l [of q] l [of "f i"] i by (cases "q = f i") (auto simp: v1 promote_writes_def view_simps split: option.split)
  have s1: "set_of (v1 queuesIndexKey) = Some (insert (f i) I)" "set_of (v1 (stateIndexKey StateScheduled)) = Some (S - {i})"
      "set_of (v1 (stateIndexKey StateEnqueued)) = Some (insert i E)" "int_of (v1 (counterKey ''scheduled'')) = Some (m - 1)"
      "int_of (v1 (counterKey ''enqueued'')) = Some (n + 1)"
    using k i by (auto simp: v1 promote_writes_def view_simps stateIndex_neq2 put_set_def split: if_splits)
  have fr: "v1 x = v x" if "x \<notin> range queueKey" "x \<notin> {queuesIndexKey, stateIndexKey StateScheduled, stateIndexKey StateEnqueued,
         counterKey ''scheduled'', counterKey ''enqueued''}" "x \<noteq> jobKey i" "x \<noteq> jobStatesKey i" for x
    unfolding v1 by (rule after_all_frame) (use that in \<open>auto simp: promote_writes_def\<close>)
  show ?thesis
    using rest fr unfolding promoted_keys_def q1 s1 k by (auto simp: insert_commute)
qed

context redis_server
begin

lemma promote_script_ok:
  assumes typed: "keys_typed (view s)" and z: "zset_of (view s scheduledKey) = Some z"
    and due: "due = {i. \<exists>sc. z i = Some sc \<and> sc \<le> hi}"
  obtains s' ids where "promoteScheduledScript R hi n s = (s', Ok ids)" "keys_typed (view s')"
    "distinct ids" "set ids \<subseteq> due" "finite due" "length ids = min (nat n) (card due)"
    "\<forall>i \<in> set ids. \<forall>k \<in> due - set ids. the (z i) \<le> the (z k)"
    "zset_of (view s' scheduledKey) = Some (z |` (- set ids))" "\<And>k. k \<noteq> scheduledKey \<Longrightarrow> view s' k = view s k"
proof -
  let ?c = "ZRANGEBYSCORE scheduledKey hi n"
  from run_read [of ?c s] z obtain xs where xs: "run R ?c s = (s, Ok (RList (take (nat n) xs)))" "distinct xs"
    "set xs = due" "sorted (map (\<lambda>x. the (z x)) xs)" by (auto simp: fits_def due)
  let ?ids = "take (nat n) xs"
  have "list_all well_keyed (map (ZREM scheduledKey) ?ids)" by (simp add: list_all_iff)
  from lua_typed [OF typed this] obtain s' where s': "lua R (map (ZREM scheduledKey) ?ids) s = (s', Ok ())"
    "view s' = after_all (map (ZREM scheduledKey) ?ids) (view s)" "keys_typed (view s')" by blast
  have run: "promoteScheduledScript R hi n s = (s', Ok ?ids)"
    using xs(1) s'(1) by (simp add: promoteScheduledScript_def typed_def)
  have sub: "set ?ids \<subseteq> due" using xs(3) set_take_subset by fastforce
  have len: "length ?ids = min (nat n) (card due)" using distinct_card [OF xs(2)] xs(3) by simp
  have early: "\<forall>i \<in> set ?ids. \<forall>k \<in> due - set ?ids. the (z i) \<le> the (z k)"
    using take_sorted_earliest [OF xs(4), of _ "nat n"] xs(3) by blast
  show thesis
    by (rule that [OF run s'(3) _ sub _ len early])
      (use xs(2,3) after_zrems [where v = "view s" and ids = ?ids, OF z] in \<open>auto simp: s'(2)\<close>)
qed

lemma promote_step:
  assumes inv: "redis_inv R (view s)" and h: "redis_hist R (view s) i = Some h" and j: "redis_job R (view s) i = Some j"
    and t: "ok_time t"
  obtains s' where
    "\<And>ids. promote_loop R (quiet None) t k (i # ids) s = and_then (promote_loop R (quiet None) t (k + 2) ids s')
       (\<lambda>s rest. (s, Ok (\<lparr>t_JobID = i, t_Token = ''sched-'' @ i\<rparr> # rest)))"
    "redis_inv R (view s')" "\<And>k. k \<noteq> i \<Longrightarrow> redis_hist R (view s') k = redis_hist R (view s) k"
    "reinstated (redis_hist R (view s) i) (redis_hist R (view s') i) ''scheduled''"
    "redis_job R (view s') = redis_job R (view s)"
    "redis_queued (view s') = (redis_queued (view s))(j_Queue j := insert i (redis_queued (view s) (j_Queue j)))"
    "view s' scheduledKey = view s scheduledKey"
    "\<exists>now enc. view s' = after_all (promote_writes i (j_Queue j) now enc) (view s)"
proof -
  have plain: "ascii ''scheduled''" by (simp add: ascii_def)
  from marshal_new [OF t ascii_states(1)] obtain enc st where
    enc: "marshalState R (new_state StateEnqueued ''scheduled'' [] t) = Ok enc" "unmarshalState R enc = Ok st"
      "js_Name st = StateEnqueued" "js_Reason st = ''scheduled''" using plain by metis
  from redis_entry [OF inv h] obtain m xs where ent: "no_colon i" "view s (jobKey i) = VHash m"
    "view s (jobStatesKey i) = VList xs" "job_entry R i m xs" "redis_job R (view s) i = Some (hash_job R m)" by metis
  define q where "q = j_Queue j"
  have q: "q \<noteq> ''''" "m ''queue'' = Some q" using ent(4,5) j by (auto simp: q_def hash_job_def job_entry_def)
  from get_hgetall [of s "jobKey i" m k] ent(2) obtain fs where fs: "get_map R (quiet None k) (HGETALL (jobKey i)) s = (s, Ok fs)"
    "map_of fs = m" by auto
  have fs': "fs \<noteq> []" "field fs ''queue'' = q" using fs(2) q(2) by (auto simp: field_def)
  let ?cs = "[HSET (jobKey i) [(''state'', StateEnqueued), (''updated_at'', cd_RFC3339Nano (rd_codec R) t)],
    RPUSH (jobStatesKey i) enc, LPUSH (queueKey q) i, SADD queuesIndexKey q, SREM (stateIndexKey StateScheduled) i,
    SADD (stateIndexKey StateEnqueued) i, INCRBY (counterKey ''scheduled'') (- 1), INCRBY (counterKey ''enqueued'') 1]"
  have "list_all well_keyed ?cs" using ent(1) by simp
  from pipe_ok [OF redis_inv_typed [OF inv] this] obtain s' where s': "pipe R (quiet None (k + 1)) ?cs s = (s', Ok ())"
    "view s' = after_all ?cs (view s)" "keys_typed (view s')" by blast
  have run: "promote_loop R (quiet None) t k (i # ids) s = and_then (promote_loop R (quiet None) t (k + 2) ids s')
       (\<lambda>s rest. (s, Ok (\<lparr>t_JobID = i, t_Token = ''sched-'' @ i\<rparr> # rest)))" for ids
    using s'(1) fs(1) fs' q(1) enc(1) by simp
  have "\<exists>m'. view s' (jobKey i) = VHash m' \<and> (\<forall>f \<in> job_fields. m' f = m f) \<and> m' ''state'' = Some (js_Name st)"
    using ent enc(3) by (simp add: s'(2) view_simps hset_all_def job_fields_def)
  then obtain m' where m': "view s' (jobKey i) = VHash m'" "\<forall>f \<in> job_fields. m' f = m f"
    "m' ''state'' = Some (js_Name st)" by blast
  have xs': "view s' (jobStatesKey i) = VList (xs @ [enc])" using ent by (simp add: s'(2) view_simps)
  have oth: "\<forall>j. no_colon j \<longrightarrow> j \<noteq> i \<longrightarrow>
      view s' (jobKey j) = view s (jobKey j) \<and> view s' (jobStatesKey j) = view s (jobStatesKey j)"
    using ent(1) by (simp add: s'(2) view_simps)
  note tr = redis_transition [OF inv h ent(2,3) m'(1) xs' m'(2,3) enc(2) oth s'(3)]
  have "list_of (view s (queueKey q)) \<noteq> None" using typed_at [OF redis_inv_typed [OF inv] of_kind.intros(3)] by simp
  then have qd: "redis_queued (view s') = (redis_queued (view s))(q := insert i (redis_queued (view s) q))"
    by (intro ext) (auto simp: redis_queued_def s'(2) view_simps split: rval.split)
  have sch: "view s' scheduledKey = view s scheduledKey" by (simp add: s'(2) view_simps)
  have re: "reinstated (redis_hist R (view s) i) (redis_hist R (view s') i) ''scheduled''"
    using h tr(2) enc(3,4) by (simp add: reinstated_def)
  have wr: "\<exists>now enc. view s' = after_all (promote_writes i (j_Queue j) now enc) (view s)"
    unfolding s'(2) promote_writes_def q_def by blast
  show thesis using that [OF run tr(1) _ re tr(3) qd [unfolded q_def] sch wr] tr(2) by simp
qed

lemma promote_skip:
  assumes "view s (jobKey i) = VNone"
  shows "promote_loop R (quiet None) t k (i # ids) s = promote_loop R (quiet None) t (Suc k) ids s"
proof -
  have "get_map R (quiet None k) (HGETALL (jobKey i)) s = (s, Ok [])"
    using get_hgetall [of s "jobKey i" Map.empty k] assms by auto
  then show ?thesis by simp
qed

text \<open>What the loop does to the keys the jobs share.\<close>

lemma promote_loop_keys:
  assumes "redis_inv R (view s)" "distinct ids" "\<forall>i \<in> set ids. no_colon i" "ok_time t"
    and "\<And>i j. i \<in> set ids \<Longrightarrow> redis_job R (view s) i = Some j \<Longrightarrow> f i = j_Queue j"
  shows "promoted_keys f (filter (\<lambda>i. redis_hist R (view s) i \<noteq> None) ids) (view s) (view (fst (promote_loop R (quiet None) t k ids s)))"
  using assms
proof (induction ids arbitrary: s k)
  case Nil
  then show ?case by (simp add: promoted_keys_Nil redis_inv_typed)
next
  case (Cons i ids)
  have ids: "distinct ids" "\<forall>i \<in> set ids. no_colon i" "i \<notin> set ids" "no_colon i" using Cons.prems by auto
  show ?case
  proof (cases "redis_hist R (view s) i")
    case None
    then have "view s (jobKey i) = VNone" using redis_absent(1) [OF Cons.prems(1) ids(4)] by simp
    from promote_skip [OF this] Cons.IH [OF Cons.prems(1) ids(1,2) Cons.prems(4), of "Suc k"] None Cons.prems(5)
    show ?thesis by simp
  next
    case (Some h)
    obtain j where j: "redis_job R (view s) i = Some j" using redis_entry [OF Cons.prems(1) Some] by metis
    then have fi: "j_Queue j = f i" using Cons.prems(5) by simp
    obtain s1 where s1:
      "\<And>ids. promote_loop R (quiet None) t k (i # ids) s = and_then (promote_loop R (quiet None) t (k + 2) ids s1)
         (\<lambda>s rest. (s, Ok (\<lparr>t_JobID = i, t_Token = ''sched-'' @ i\<rparr> # rest)))"
      "redis_inv R (view s1)" "\<And>k. k \<noteq> i \<Longrightarrow> redis_hist R (view s1) k = redis_hist R (view s) k"
      "reinstated (redis_hist R (view s) i) (redis_hist R (view s1) i) ''scheduled''"
      "redis_job R (view s1) = redis_job R (view s)"
      "redis_queued (view s1) = (redis_queued (view s))(j_Queue j := insert i (redis_queued (view s) (j_Queue j)))"
      "view s1 scheduledKey = view s scheduledKey" "\<exists>now enc. view s1 = after_all (promote_writes i (j_Queue j) now enc) (view s)"
      by (rule promote_step [OF Cons.prems(1) Some j Cons.prems(4), where k = k]) (rule that)
    have rest: "promoted_keys f (filter (\<lambda>i. redis_hist R (view s1) i \<noteq> None) ids) (view s1)
        (view (fst (promote_loop R (quiet None) t (k + 2) ids s1)))"
      by (rule Cons.IH [OF s1(2) ids(1,2) Cons.prems(4)]) (use Cons.prems(5) s1(5) in simp)
    have same: "filter (\<lambda>i. redis_hist R (view s1) i \<noteq> None) ids = filter (\<lambda>i. redis_hist R (view s) i \<noteq> None) ids"
      by (rule filter_cong [OF refl]) (metis ids(3) s1(3))
    obtain now enc where w: "view s1 = after_all (promote_writes i (f i) now enc) (view s)" using s1(8) unfolding fi by blast
    have "fst (promote_loop R (quiet None) t k (i # ids) s) = fst (promote_loop R (quiet None) t (k + 2) ids s1)"
      unfolding s1(1) by (cases "promote_loop R (quiet None) t (k + 2) ids s1"; cases "snd (promote_loop R (quiet None) t (k + 2) ids s1)") auto
    with promoted_keys_Cons [OF redis_inv_typed [OF Cons.prems(1)] w ids(4) rest [unfolded same]] Some
    show ?thesis by simp
  qed
qed

text \<open>The loop promotes the ids that have a job, in order.\<close>

lemma promote_loop_ok:
  assumes "redis_inv R (view s)" "distinct ids" "\<forall>i \<in> set ids. no_colon i" "ok_time t"
  shows "\<exists>s'. promote_loop R (quiet None) t k ids s =
      (s', Ok (map (\<lambda>i. \<lparr>t_JobID = i, t_Token = ''sched-'' @ i\<rparr>) (filter (\<lambda>i. redis_hist R (view s) i \<noteq> None) ids))) \<and>
    redis_inv R (view s') \<and> redis_job R (view s') = redis_job R (view s) \<and>
    (\<forall>i. i \<in> set ids \<and> redis_hist R (view s) i \<noteq> None \<longrightarrow>
       reinstated (redis_hist R (view s) i) (redis_hist R (view s') i) ''scheduled'' \<and>
       (\<forall>j. redis_job R (view s) i = Some j \<longrightarrow> i \<in> redis_queued (view s') (j_Queue j))) \<and>
    (\<forall>i. \<not> (i \<in> set ids \<and> redis_hist R (view s) i \<noteq> None) \<longrightarrow> redis_hist R (view s') i = redis_hist R (view s) i) \<and>
    (\<forall>q. redis_queued (view s) q \<subseteq> redis_queued (view s') q) \<and> view s' scheduledKey = view s scheduledKey"
  using assms
proof (induction ids arbitrary: s k)
  case Nil
  then show ?case by simp
next
  case (Cons i ids)
  have ids: "distinct ids" "\<forall>i \<in> set ids. no_colon i" "i \<notin> set ids" "no_colon i" using Cons.prems by auto
  show ?case
  proof (cases "redis_hist R (view s) i")
    case None
    then have "view s (jobKey i) = VNone" using redis_absent(1) [OF Cons.prems(1) ids(4)] by simp
    from promote_skip [OF this] Cons.IH [OF Cons.prems(1) ids(1,2) Cons.prems(4), of "Suc k"] None
    show ?thesis by (simp add: all_conj_distrib) (metis (no_types, lifting) None option.distinct(1))
  next
    case (Some h)
    obtain j where j: "redis_job R (view s) i = Some j" using redis_entry [OF Cons.prems(1) Some] by metis
    obtain s1 where s1:
      "\<And>ids. promote_loop R (quiet None) t k (i # ids) s = and_then (promote_loop R (quiet None) t (k + 2) ids s1)
         (\<lambda>s rest. (s, Ok (\<lparr>t_JobID = i, t_Token = ''sched-'' @ i\<rparr> # rest)))"
      "redis_inv R (view s1)" "\<And>k. k \<noteq> i \<Longrightarrow> redis_hist R (view s1) k = redis_hist R (view s) k"
      "reinstated (redis_hist R (view s) i) (redis_hist R (view s1) i) ''scheduled''"
      "redis_job R (view s1) = redis_job R (view s)"
      "redis_queued (view s1) = (redis_queued (view s))(j_Queue j := insert i (redis_queued (view s) (j_Queue j)))"
      "view s1 scheduledKey = view s scheduledKey"
      using promote_step [OF Cons.prems(1) Some j Cons.prems(4)] by blast
    obtain s2 where s2: "promote_loop R (quiet None) t (k + 2) ids s1 =
        (s2, Ok (map (\<lambda>i. \<lparr>t_JobID = i, t_Token = ''sched-'' @ i\<rparr>) (filter (\<lambda>i. redis_hist R (view s1) i \<noteq> None) ids)))"
      "redis_inv R (view s2)" "redis_job R (view s2) = redis_job R (view s1)"
      "\<forall>i. i \<in> set ids \<and> redis_hist R (view s1) i \<noteq> None \<longrightarrow>
         reinstated (redis_hist R (view s1) i) (redis_hist R (view s2) i) ''scheduled'' \<and>
         (\<forall>j. redis_job R (view s1) i = Some j \<longrightarrow> i \<in> redis_queued (view s2) (j_Queue j))"
      "\<forall>i. \<not> (i \<in> set ids \<and> redis_hist R (view s1) i \<noteq> None) \<longrightarrow> redis_hist R (view s2) i = redis_hist R (view s1) i"
      "\<forall>q. redis_queued (view s1) q \<subseteq> redis_queued (view s2) q" "view s2 scheduledKey = view s1 scheduledKey"
      using Cons.IH [OF s1(2) ids(1,2) Cons.prems(4), of "k + 2"] by blast
    have same: "filter (\<lambda>i. redis_hist R (view s1) i \<noteq> None) ids = filter (\<lambda>i. redis_hist R (view s) i \<noteq> None) ids"
    proof (rule filter_cong [OF refl])
      fix x assume "x \<in> set ids"
      then have "x \<noteq> i" using ids(3) by blast
      then show "(redis_hist R (view s1) x \<noteq> None) = (redis_hist R (view s) x \<noteq> None)" by (simp add: s1(3))
    qed
    have run: "promote_loop R (quiet None) t k (i # ids) s = (s2, Ok (map (\<lambda>i. \<lparr>t_JobID = i, t_Token = ''sched-'' @ i\<rparr>)
        (filter (\<lambda>i. redis_hist R (view s) i \<noteq> None) (i # ids))))"
      using s1(1) [of ids] s2(1) Some same by simp
    have own: "redis_hist R (view s2) i = redis_hist R (view s1) i" using s2(5) ids(3) by blast
    have yes: "reinstated (redis_hist R (view s) k) (redis_hist R (view s2) k) ''scheduled'' \<and>
        (\<forall>j. redis_job R (view s) k = Some j \<longrightarrow> k \<in> redis_queued (view s2) (j_Queue j))"
      if "k \<in> set (i # ids)" "redis_hist R (view s) k \<noteq> None" for k
    proof (cases "k = i")
      case True
      then show ?thesis using own s1(4,6) s2(6) j by fastforce
    next
      case False
      then show ?thesis using that s1(3) [OF False] s1(5) s2(4) by auto
    qed
    have no: "redis_hist R (view s2) k = redis_hist R (view s) k"
      if "\<not> (k \<in> set (i # ids) \<and> redis_hist R (view s) k \<noteq> None)" for k
      using that Some s1(3) [of k] s2(5) by (cases "k = i") auto
    have mono: "redis_queued (view s) q \<subseteq> redis_queued (view s2) q" for q using s1(6) s2(6) by (auto split: if_splits)
    show ?thesis using run s2(2,3,7) s1(5,7) yes no mono by (intro exI [of _ s2]) simp
  qed
qed

end

context redis_server
begin

lemma schedule_ok:
  assumes inv: "redis_inv R (view s)" and q: "j_Queue j = q" "q \<noteq> ''''" and j: "j_ID j = ''''"
    and u: "new_uuid e 0 = u" "u \<noteq> ''''" "no_colon u" "redis_hist R (view s) u = None" and t: "ok_time (now_at e 0)"
    and z: "zset_of (view s scheduledKey) = Some z"
  obtains s' st where "redis_AddScheduled R (quiet None) e at j s = (s', Ok u)" "redis_inv R (view s')"
    "redis_hist R (view s') = (redis_hist R (view s))(u \<mapsto> [st])" "js_Name st = StateScheduled"
    "redis_queued (view s') = redis_queued (view s)" "view s' scheduledKey = VZset (z(u \<mapsto> Unix at))"
    "\<exists>j'. redis_job R (view s') = (redis_job R (view s))(u \<mapsto> j') \<and> j_Queue j' = q"
proof -
  let ?st = "new_state StateScheduled '''' [(''enqueue_at'', cd_RFC3339 (rd_codec R) at)] (now_at e 0)"
  from marshal_new [OF t ascii_states(5)] obtain enc st where enc: "marshalState R ?st = Ok enc" "unmarshalState R enc = Ok st"
    "js_Name st = StateScheduled" by metis
  define job where "job = redis_fill_job e q j"
  have job: "j_ID job = u" "j_Queue job = q" using j u by (simp_all add: job_def redis_fill_job_def)
  define fs where "fs = jobHashFields R job StateScheduled 0 (now_at e 1)"
  let ?cs = "[HSET (jobKey u) fs, RPUSH (jobStatesKey u) enc, ZADD scheduledKey (Unix at) u,
    SADD (stateIndexKey StateScheduled) u, INCRBY (counterKey ''scheduled'') 1]"
  have "list_all well_keyed ?cs" using u(3) by simp
  from pipe_ok [OF redis_inv_typed [OF inv] this] obtain s' where s': "pipe R (quiet None 0) ?cs s = (s', Ok ())"
    "view s' = after_all ?cs (view s)" "keys_typed (view s')" by blast
  have run: "redis_AddScheduled R (quiet None) e at j s = (s', Ok u)"
    using s'(1) enc(1) q job by (simp add: redis_AddScheduled_def Let_def fs_def flip: job_def)
  have old: "view s (jobKey u) = VNone" "view s (jobStatesKey u) = VNone"
    using redis_absent [OF inv u(3)] u(4) by auto
  define m where "m = hset_all Map.empty fs"
  have m: "m ''id'' = Some u" "m ''queue'' = Some q" "m ''state'' = Some (js_Name st)"
    using job enc(3) by (simp_all add: m_def fs_def jobHashFields_def hset_all_def)
  have new: "view s' (jobKey u) = VHash m" "view s' (jobStatesKey u) = VList [enc]"
    using old u(3) by (simp_all add: s'(2) view_simps m_def)
  have oth: "\<forall>j. no_colon j \<longrightarrow> j \<noteq> u \<longrightarrow>
      view s' (jobKey j) = view s (jobKey j) \<and> view s' (jobStatesKey j) = view s (jobStatesKey j)"
    using u(3) by (simp add: s'(2) view_simps)
  note cr = redis_created [OF inv u(3,2) new enc(2) m(1,2) q(2) m(3) oth s'(3)]
  have qd: "redis_queued (view s') = redis_queued (view s)" by (rule ext) (simp add: redis_queued_def s'(2) view_simps)
  have sch: "view s' scheduledKey = VZset (z(u \<mapsto> Unix at))" using z by (simp add: s'(2) view_simps)
  have "j_Queue (hash_job R m) = q" using m(2) by (simp add: hash_job_def)
  with that [OF run cr(1,2) enc(3) qd sch] cr(3) show thesis by blast
qed

end





end
