(* ===== verification/Postgres_Store.thy ===== *)
theory Postgres_Store
  imports Remote_Calls Continuations
begin

text \<open>
  The PostgreSQL store (\<^verbatim>\<open>internal/storage/postgres\<close>). The tables of \<^verbatim>\<open>migrations/*.up.sql\<close> are lists of rows, a
  SQL statement is a function on the database that gives rows, a number of affected rows or an error
  (a violated constraint, a value that is not of the column's type), and a transaction works on a copy
  that replaces the database at the commit and is dropped on an error. Other clients act before a
  transaction and, where it only has read so far without a lock, between its statements; rows that
  others hold locked at a \<^verbatim>\<open>SKIP LOCKED\<close> are an argument. Each trip to the server may fail.

  \<open>pg\<close> holds what the server decides: which texts are JSON (and the text it gives back), UUIDs or valid
  text, the order of texts, its clock; and Go's encoding of string maps and instants. Instants are stored
  in whole microseconds. Sequence numbers of failed transactions are reused here; only their order matters.
\<close>

section \<open>The server\<close>

record pg =
  pg_jsonb :: "string \<Rightarrow> string option"
  pg_uuid :: "string \<Rightarrow> string option"
  pg_text :: "string \<Rightarrow> bool"
  pg_le :: "string \<Rightarrow> string \<Rightarrow> bool"
  pg_now :: "env \<Rightarrow> time"
  pg_marshal :: "(string \<times> string) list \<Rightarrow> string"
  pg_unmarshal :: "string \<Rightarrow> (string \<times> string) list"
  pg_rfc3339 :: "time \<Rightarrow> string"
  pg_serverID :: string

record job_row =
  jr_id :: string
  jr_token :: nat
  jr_name :: string
  jr_args :: string
  jr_queue :: string
  jr_state :: string
  jr_retry_max :: int
  jr_timeout_ms :: int64
  jr_progress :: "time option"
  jr_created :: time
  jr_updated :: time
  jr_result :: "string option"
  jr_idem :: "string option"

record state_row =
  sr_id :: nat
  sr_job :: string
  sr_name :: string
  sr_reason :: "string option"
  sr_data :: string
  sr_created :: time

record sched_row =
  sc_id :: string
  sc_job :: string
  sc_at :: time

record cont_row =
  cr_id :: nat
  cr_parent :: string
  cr_entry :: continuationEntry

record lock_row =
  lr_resource :: string
  lr_owner :: string
  lr_expires :: time

record pg_db =
  db_jobs :: "job_row list"
  db_states :: "state_row list"
  db_sched :: "sched_row list"
  db_recurring :: "recurringJobEntry list"
  db_conts :: "cont_row list"
  db_servers :: "serverInfo list"
  db_counters :: "(string \<times> int) list"
  db_locks :: "lock_row list"
  db_seq :: nat

definition micro :: "time \<Rightarrow> time" where
  "micro t = t div 1000 * 1000"

definition noRows :: error where "noRows = ErrMsg ''no rows in result set''"
definition badInput :: error where "badInput = ErrMsg ''invalid input''"
definition uniqueViolation :: error where "uniqueViolation = ErrMsg ''duplicate key value''"
definition fkViolation :: error where "fkViolation = ErrMsg ''violates foreign key constraint''"
definition txAborted :: error where "txAborted = ErrMsg ''current transaction is aborted''"

definition int32 :: "int \<Rightarrow> bool" where
  "int32 n \<longleftrightarrow> - (2 ^ 31) \<le> n \<and> n < 2 ^ 31"

definition int64_ok :: "int \<Rightarrow> bool" where
  "int64_ok n \<longleftrightarrow> - (2 ^ 63) \<le> n \<and> n < 2 ^ 63"

type_synonym 'a sql = "pg_db \<Rightarrow> pg_db \<times> 'a result"

definition with_uuid :: "pg \<Rightarrow> string \<Rightarrow> (string \<Rightarrow> 'a sql) \<Rightarrow> 'a sql" where
  "with_uuid P i f db = (case pg_uuid P i of None \<Rightarrow> (db, Err badInput) | Some u \<Rightarrow> f u db)"

fun insert_by :: "('a \<Rightarrow> 'a \<Rightarrow> bool) \<Rightarrow> 'a \<Rightarrow> 'a list \<Rightarrow> 'a list" where
  "insert_by le x [] = [x]"
| "insert_by le x (y # ys) = (if le x y then x # y # ys else y # insert_by le x ys)"

definition order_by :: "('a \<Rightarrow> 'a \<Rightarrow> bool) \<Rightarrow> 'a list \<Rightarrow> 'a list" where
  "order_by le xs = foldr (insert_by le) xs []"

text \<open>\<^verbatim>\<open>OFFSET ... LIMIT ...\<close>.\<close>

definition page :: "int \<Rightarrow> int \<Rightarrow> 'a list \<Rightarrow> 'a list result" where
  "page off lim xs = (if off < 0 then Err badInput else Ok (take (nat lim) (drop (nat off) xs)))"

section \<open>Transactions\<close>

text \<open>
  \<^verbatim>\<open>Begin\<close>, the statements that read without holding a lock (the others may act between them), the
  statements on the copy, \<^verbatim>\<open>Commit\<close>. The deferred \<^verbatim>\<open>Rollback\<close> drops the copy on every error; whether a
  commit whose answer is lost took effect is not known.
\<close>

definition in_tx ::
  "pg_db trip \<Rightarrow> string \<Rightarrow> 'b sql \<Rightarrow> ('b \<Rightarrow> 'a sql) \<Rightarrow> link \<Rightarrow> (error \<Rightarrow> error) \<Rightarrow> 'a sql" where
  "in_tx begin_trip msg reads writes commit wrap s =
     and_then (wrapped msg (send (fst begin_trip, case snd begin_trip of Lost _ err \<Rightarrow> Lost False err | l \<Rightarrow> l) (\<lambda>s. (s, Ok ())) s)) (\<lambda>s _.
     and_then (reads s) (\<lambda>s b.
       case writes b s of
         (w, Ok a) \<Rightarrow>
           (case commit of
              Delivered \<Rightarrow> (w, Ok a)
            | Lost done err \<Rightarrow> (if done then w else s, Err (wrap err)))
       | (w, Err err) \<Rightarrow> (s, Err err)
       | (w, Panic p) \<Rightarrow> (s, Panic p)))"

definition no_reads :: "unit sql" where
  "no_reads s = (s, Ok ())"

text \<open>A statement of a transaction, its error wrapped; a read of it, with the others acting before.\<close>

definition stmt :: "pg_db trip \<Rightarrow> string \<Rightarrow> 'a sql \<Rightarrow> 'a sql" where
  "stmt n msg f w = (case snd n of Delivered \<Rightarrow> wrapped msg (f w) | Lost _ err \<Rightarrow> (w, Err (ErrWrap msg err)))"

definition read_stmt :: "pg_db trip \<Rightarrow> 'a sql \<Rightarrow> 'a sql" where
  "read_stmt n f s = (case snd n of Delivered \<Rightarrow> f (fst n s) | Lost _ err \<Rightarrow> (fst n s, Err err))"

text \<open>\<^verbatim>\<open>ErrNoRows\<close> becomes \<^verbatim>\<open>ErrNotFound\<close> or \<^verbatim>\<open>ErrQueueEmpty\<close>, other errors are wrapped.\<close>

definition no_rows_to :: "error \<Rightarrow> string \<Rightarrow> pg_db \<times> 'a result \<Rightarrow> pg_db \<times> 'a result" where
  "no_rows_to e msg x = (fst x, case snd x of Err err \<Rightarrow> Err (if err = noRows then e else ErrWrap msg err) | r \<Rightarrow> r)"

definition affected :: "error \<Rightarrow> pg_db \<times> nat result \<Rightarrow> pg_db \<times> unit result" where
  "affected e x = and_then x (\<lambda>s n. if n = 0 then (s, Err e) else (s, Ok ()))"

definition no_value :: "pg_db \<times> 'a result \<Rightarrow> pg_db \<times> unit result" where
  "no_value x = and_then x (\<lambda>s _. (s, Ok ()))"

section \<open>Statements\<close>

definition insert_job :: "pg \<Rightarrow> job \<Rightarrow> string \<Rightarrow> int64 \<Rightarrow> string option \<Rightarrow> time \<Rightarrow> string sql" where
  "insert_job P j state timeout_ms key now db =
     (case (pg_uuid P (j_ID j), pg_jsonb P (raw (j_Args j))) of
        (Some u, Some args) \<Rightarrow>
          if \<not> list_all (pg_text P) [j_Name j, j_Queue j] \<or> \<not> (case key of None \<Rightarrow> True | Some k \<Rightarrow> pg_text P k) \<or>
             \<not> int32 (j_RetryMax j) then (db, Err badInput)
          else if list_ex (\<lambda>r. jr_id r = u \<or> (key \<noteq> None \<and> jr_idem r = key)) (db_jobs db) then (db, Err uniqueViolation)
          else
            (db\<lparr>db_jobs := db_jobs db @
                  [\<lparr>jr_id = u, jr_token = db_seq db, jr_name = j_Name j, jr_args = args, jr_queue = j_Queue j,
                    jr_state = state, jr_retry_max = j_RetryMax j, jr_timeout_ms = timeout_ms, jr_progress = None,
                    jr_created = micro now, jr_updated = micro now, jr_result = None, jr_idem = key\<rparr>],
                db_seq := Suc (db_seq db)\<rparr>, Ok u)
      | _ \<Rightarrow> (db, Err badInput))"

definition insert_state :: "pg \<Rightarrow> string \<Rightarrow> string \<Rightarrow> string option \<Rightarrow> string \<Rightarrow> time \<Rightarrow> unit sql" where
  "insert_state P i name reason data now =
     with_uuid P i (\<lambda>u db.
       case pg_jsonb P data of
         None \<Rightarrow> (db, Err badInput)
       | Some d \<Rightarrow>
           if \<not> pg_text P name \<or> \<not> (case reason of None \<Rightarrow> True | Some r \<Rightarrow> pg_text P r) then (db, Err badInput)
           else if \<not> list_ex (\<lambda>r. jr_id r = u) (db_jobs db) then (db, Err fkViolation)
           else
             (db\<lparr>db_states := db_states db @
                   [\<lparr>sr_id = db_seq db, sr_job = u, sr_name = name, sr_reason = reason, sr_data = d, sr_created = micro now\<rparr>],
                 db_seq := Suc (db_seq db)\<rparr>, Ok ()))"

definition insert_sched :: "pg \<Rightarrow> string \<Rightarrow> time \<Rightarrow> unit sql" where
  "insert_sched P i at =
     with_uuid P i (\<lambda>u db.
       if list_ex (\<lambda>r. sc_id r = u) (db_sched db) then (db, Err uniqueViolation)
       else if \<not> list_ex (\<lambda>r. jr_id r = u) (db_jobs db) then (db, Err fkViolation)
       else (db\<lparr>db_sched := db_sched db @ [\<lparr>sc_id = u, sc_job = u, sc_at = micro at\<rparr>]\<rparr>, Ok ()))"

definition delete_sched :: "pg \<Rightarrow> string \<Rightarrow> unit sql" where
  "delete_sched P i = with_uuid P i (\<lambda>u db. (db\<lparr>db_sched := filter (\<lambda>r. sc_job r \<noteq> u) (db_sched db)\<rparr>, Ok ()))"

definition update_job :: "pg \<Rightarrow> string \<Rightarrow> (job_row \<Rightarrow> job_row) \<Rightarrow> nat sql" where
  "update_job P i f =
     with_uuid P i (\<lambda>u db.
       (db\<lparr>db_jobs := map (\<lambda>r. if jr_id r = u then f r else r) (db_jobs db)\<rparr>,
        Ok (length (filter (\<lambda>r. jr_id r = u) (db_jobs db)))))"

definition select_state :: "pg \<Rightarrow> string \<Rightarrow> string sql" where
  "select_state P i =
     with_uuid P i (\<lambda>u db.
       (db, case find (\<lambda>r. jr_id r = u) (db_jobs db) of None \<Rightarrow> Err noRows | Some r \<Rightarrow> Ok (jr_state r)))"

text \<open>The \<^verbatim>\<open>INSERT ... ON CONFLICT DO UPDATE\<close> of the counters; \<^verbatim>\<open>bigint\<close> does not wrap.\<close>

definition upsert_counter :: "pg \<Rightarrow> string \<Rightarrow> int64 \<Rightarrow> unit sql" where
  "upsert_counter P key delta db =
     (let old = (case map_of (db_counters db) key of None \<Rightarrow> 0 | Some v \<Rightarrow> v) in
      if \<not> pg_text P key \<or> \<not> int64_ok (old + sint delta) then (db, Err badInput)
      else (db\<lparr>db_counters := filter (\<lambda>p. fst p \<noteq> key) (db_counters db) @ [(key, old + sint delta)]\<rparr>, Ok ()))"

section \<open>Helpers (\<^verbatim>\<open>storage.go\<close>, \<^verbatim>\<open>misc.go\<close>, \<^verbatim>\<open>jobs.go\<close>)\<close>

definition pg_timeoutMS :: "duration \<Rightarrow> int64" where
  "pg_timeoutMS d = (if sint d \<le> 0 then 0 else word_of_int (sint d div 1000000))"

definition pg_durationFromMS :: "int64 \<Rightarrow> duration" where
  "pg_durationFromMS ms = (if sint ms \<le> 0 then 0 else ms * millisecond)"

definition pg_New :: "pg \<Rightarrow> pg" where
  "pg_New P = P\<lparr>pg_serverID := ''local''\<rparr>"

definition pg_NewWithServerID :: "string \<Rightarrow> pg \<Rightarrow> pg" where
  "pg_NewWithServerID serverID P = P\<lparr>pg_serverID := (if serverID = '''' then ''local'' else serverID)\<rparr>"

definition pg_SetServerID :: "string \<Rightarrow> pg \<Rightarrow> pg" where
  "pg_SetServerID serverID P = P\<lparr>pg_serverID := (if serverID = '''' then ''local'' else serverID)\<rparr>"

definition pg_bumpCounter :: "pg \<Rightarrow> pg_db trip \<Rightarrow> string \<Rightarrow> int64 \<Rightarrow> unit sql" where
  "pg_bumpCounter P n key delta = stmt n (''bump counter '' @ key) (upsert_counter P key delta)"

definition nullIfEmpty :: "string \<Rightarrow> string option" where
  "nullIfEmpty s = (if s = '''' then None else Some s)"

definition marshalStateData :: "pg \<Rightarrow> (string \<times> string) list \<Rightarrow> string" where
  "marshalStateData P data = (if data = [] then ''{}'' else pg_marshal P data)"

definition bumpCounterForState :: "pg \<Rightarrow> pg_db trip \<Rightarrow> string \<Rightarrow> unit sql" where
  "bumpCounterForState P n name =
     (if name = StateSucceeded then pg_bumpCounter P n ''succeeded'' 1
      else if name = StateFailed then pg_bumpCounter P n ''failed'' 1
      else if name = StateDead then pg_bumpCounter P n ''dead'' 1
      else (\<lambda>w. (w, Ok ())))"

definition pg_fill_job :: "env \<Rightarrow> string \<Rightarrow> job \<Rightarrow> job" where
  "pg_fill_job e queue j =
     j\<lparr>j_ID := (if j_ID j = '''' then new_uuid e 0 else j_ID j), j_Queue := queue,
       j_RetryMax := (if j_RetryMax j = 0 then 10 else j_RetryMax j),
       j_Args := (if j_Args j = None then Some ''[]'' else j_Args j), j_CreatedAt := now_at e 0\<rparr>"

section \<open>Jobs (\<^verbatim>\<open>jobs.go\<close>)\<close>

definition pg_Enqueue :: "pg \<Rightarrow> pg_db net \<Rightarrow> env \<Rightarrow> string \<Rightarrow> job \<Rightarrow> string sql" where
  "pg_Enqueue P nt e queue job =
     (let job = pg_fill_job e (if queue = '''' then ''default'' else queue) job; now = now_at e 0 in
      in_tx (nt 0) ''enqueue begin'' no_reads (\<lambda>_ w.
        and_then (stmt (nt 1) ''enqueue insert job''
          (insert_job P job StateEnqueued (pg_timeoutMS (j_Timeout job)) None now) w) (\<lambda>w _.
        and_then (stmt (nt 2) ''enqueue insert state''
          (insert_state P (j_ID job) StateEnqueued None ''{}'' now) w) (\<lambda>w _.
        and_then (pg_bumpCounter P (nt 3) ''enqueued'' 1 w) (\<lambda>w _. (w, Ok (j_ID job))))))
        (snd (nt 4)) (ErrWrap ''enqueue commit''))"

text \<open>The row a \<^verbatim>\<open>FOR UPDATE SKIP LOCKED ... LIMIT 1\<close> takes; \<open>locked\<close> are the ids other transactions hold.\<close>

definition select_next :: "pg \<Rightarrow> string list \<Rightarrow> string list \<Rightarrow> string sql" where
  "select_next P locked queues db =
     (db, if \<not> list_all (pg_text P) queues then Err badInput
          else case sort_key jr_token (filter (\<lambda>r. jr_state r = StateEnqueued \<and> jr_queue r \<in> set queues \<and> jr_id r \<notin> set locked)
                 (db_jobs db)) of
            [] \<Rightarrow> Err noRows
          | r # _ \<Rightarrow> Ok (jr_id r))"

definition tryDequeue :: "pg \<Rightarrow> pg_db net \<Rightarrow> string list \<Rightarrow> time \<Rightarrow> string list \<Rightarrow> jobTicket sql" where
  "tryDequeue P nt locked now queues =
     in_tx (nt 0) ''dequeue begin''
       (\<lambda>s. no_rows_to ErrQueueEmpty ''dequeue select'' (read_stmt (nt 1) (select_next P locked queues) s))
       (\<lambda>jobID w.
         and_then (stmt (nt 2) ''dequeue update'' (update_job P jobID
           (\<lambda>r. r\<lparr>jr_state := StateProcessing, jr_progress := Some (micro now), jr_updated := micro now\<rparr>)) w) (\<lambda>w _.
         and_then (stmt (nt 3) ''dequeue state'' (insert_state P jobID StateProcessing None
           (pg_marshal P [(''server_id'', pg_serverID P)]) now) w) (\<lambda>w _.
         and_then (pg_bumpCounter P (nt 4) ''dequeued'' 1 w) (\<lambda>w _.
           (w, Ok \<lparr>t_JobID = jobID, t_Token = ''tok-'' @ jobID @ ''-'' @ show_int (sint (UnixNano now))\<rparr>)))))
       (snd (nt 5)) (ErrWrap ''dequeue commit'')"

fun pg_dequeue_loop ::
  "pg \<Rightarrow> pg_db net \<Rightarrow> env \<Rightarrow> (nat \<Rightarrow> string list) \<Rightarrow> string list \<Rightarrow> nat \<Rightarrow> pg_db waits \<Rightarrow> pg_db
     \<Rightarrow> (pg_db \<times> jobTicket result) option" where
  "pg_dequeue_loop P nt e lk queues k [] s = None"
| "pg_dequeue_loop P nt e lk queues k ((others, wk) # ws) s =
     (case tryDequeue P (\<lambda>m. nt (m + 6 * k)) (lk k) (now_at e k) queues (others s) of
        (s, Ok ticket) \<Rightarrow> Some (s, Ok ticket)
      | (s, Panic p) \<Rightarrow> Some (s, Panic p)
      | (s, Err err) \<Rightarrow>
          if \<not> errors_Is err ErrQueueEmpty then Some (s, Err err)
          else
            (case wk of
               WDeadline \<Rightarrow> Some (s, Err ErrQueueEmpty)
             | WCtxDone cerr \<Rightarrow> Some (s, Err cerr)
             | _ \<Rightarrow> pg_dequeue_loop P nt e lk queues (Suc k) ws s))"

definition pg_Dequeue ::
  "pg \<Rightarrow> pg_db net \<Rightarrow> env \<Rightarrow> (nat \<Rightarrow> string list) \<Rightarrow> string list \<Rightarrow> pg_db waits \<Rightarrow> pg_db
     \<Rightarrow> (pg_db \<times> jobTicket result) option" where
  "pg_Dequeue P nt e lk queues ws s =
     (if queues = [] then Some (s, Err ErrQueueEmpty) else pg_dequeue_loop P nt e lk queues 0 ws s)"

text \<open>
  \<^verbatim>\<open>Requeue\<close> and \<^verbatim>\<open>DeleteJob\<close> read the state without a lock, so the others act again before the update;
  any error of the read counts as a missing job.
\<close>

definition read_unlocked :: "pg \<Rightarrow> pg_db net \<Rightarrow> string \<Rightarrow> unit sql" where
  "read_unlocked P nt jobID s =
     (let (s, r) = read_stmt (nt 1) (select_state P jobID) s in
      case r of
        Ok current \<Rightarrow> if IrreversibleStates current then (s, Err ErrTerminalState) else (fst (nt 2) s, Ok ())
      | Err _ \<Rightarrow> (s, Err ErrNotFound)
      | Panic p \<Rightarrow> (s, Panic p))"

definition pg_Requeue :: "pg \<Rightarrow> pg_db net \<Rightarrow> env \<Rightarrow> string \<Rightarrow> string \<Rightarrow> unit sql" where
  "pg_Requeue P nt e jobID reason =
     (let now = now_at e 0 in
      in_tx (nt 0) ''requeue begin'' (read_unlocked P nt jobID) (\<lambda>_ w.
        and_then (affected ErrNotFound (stmt (nt 2) ''requeue update'' (update_job P jobID
          (\<lambda>r. r\<lparr>jr_state := StateEnqueued, jr_progress := None, jr_updated := micro now\<rparr>)) w)) (\<lambda>w _.
        stmt (nt 3) ''requeue state'' (insert_state P jobID StateEnqueued (Some reason) ''{}'' now) w))
        (snd (nt 4)) (ErrWrap ''requeue commit''))"

definition applyStateTx :: "pg \<Rightarrow> pg_db net \<Rightarrow> env \<Rightarrow> string \<Rightarrow> jobState \<Rightarrow> unit sql" where
  "applyStateTx P nt e jobID newState w =
     (let now = (if js_CreatedAt newState = 0 then now_at e 0 else js_CreatedAt newState);
          clearProgress = (js_Name newState \<noteq> StateProcessing)
      in and_then (stmt (nt 2) ''applystate update'' (\<lambda>w.
            if \<not> pg_text P (js_Name newState) then (w, Err badInput)
            else update_job P jobID (\<lambda>r. r\<lparr>jr_state := js_Name newState,
                   jr_progress := (if clearProgress then None else jr_progress r), jr_updated := micro now\<rparr>) w) w) (\<lambda>w _.
         and_then (stmt (nt 3) ''applystate insert state'' (insert_state P jobID (js_Name newState)
            (nullIfEmpty (js_Reason newState)) (marshalStateData P (js_Data newState)) now) w) (\<lambda>w _.
         bumpCounterForState P (nt 4) (js_Name newState) w)))"

text \<open>The row lock of \<^verbatim>\<open>SELECT ... FOR UPDATE\<close> keeps the others away from the job until the commit.\<close>

definition read_locked :: "pg \<Rightarrow> pg_db trip \<Rightarrow> string \<Rightarrow> string \<Rightarrow> string \<Rightarrow> unit sql" where
  "read_locked P n jobID msg expected s =
     and_then (no_rows_to ErrNotFound msg (read_stmt n (select_state P jobID) s)) (\<lambda>s current.
       if current \<noteq> expected then (s, Err ErrStateConflict) else (s, Ok ()))"

definition pg_ApplyState :: "pg \<Rightarrow> pg_db net \<Rightarrow> env \<Rightarrow> string \<Rightarrow> string \<Rightarrow> jobState \<Rightarrow> unit sql" where
  "pg_ApplyState P nt e jobID expectedCurrent newState =
     in_tx (nt 0) ''applystate begin'' (read_locked P (nt 1) jobID ''applystate select'' expectedCurrent)
       (\<lambda>_. applyStateTx P nt e jobID newState) (snd (nt 5)) (ErrWrap ''applystate commit'')"

definition pg_HeartbeatJob :: "pg \<Rightarrow> pg_db net \<Rightarrow> env \<Rightarrow> string \<Rightarrow> unit sql" where
  "pg_HeartbeatJob P nt e jobID s =
     affected ErrNotFound (wrapped ''heartbeat job'' (send (nt 0) (update_job P jobID
       (\<lambda>r. r\<lparr>jr_progress := Some (micro (now_at e 0)), jr_updated := micro (now_at e 0)\<rparr>)) s))"

definition orphan_row :: "time \<Rightarrow> job_row \<Rightarrow> bool" where
  "orphan_row cutoff r \<longleftrightarrow> jr_state r = StateProcessing \<and>
     (case jr_progress r of None \<Rightarrow> False | Some t \<Rightarrow> t < micro cutoff)"

definition pg_GetOrphanedJobs :: "pg \<Rightarrow> pg_db net \<Rightarrow> env \<Rightarrow> duration \<Rightarrow> jobTicket list sql" where
  "pg_GetOrphanedJobs P nt e staleAge s =
     (let cutoff = time_add (now_at e 0) (- staleAge) in
      wrapped ''orphaned jobs'' (send (nt 0) (\<lambda>db. (db, Ok (map (\<lambda>r. \<lparr>t_JobID = jr_id r, t_Token = ''orphan-'' @ jr_id r\<rparr>)
        (filter (orphan_row cutoff) (db_jobs db))))) s))"

definition pg_DeleteJob :: "pg \<Rightarrow> pg_db net \<Rightarrow> env \<Rightarrow> string \<Rightarrow> unit sql" where
  "pg_DeleteJob P nt e jobID =
     (let now = now_at e 0 in
      in_tx (nt 0) ''delete begin'' (read_unlocked P nt jobID) (\<lambda>_ w.
        and_then (affected ErrNotFound (stmt (nt 2) ''delete update'' (update_job P jobID
          (\<lambda>r. r\<lparr>jr_state := StateDeleted, jr_progress := None, jr_updated := micro now\<rparr>)) w)) (\<lambda>w _.
        stmt (nt 3) ''delete state'' (insert_state P jobID StateDeleted None ''{}'' now) w))
        (snd (nt 4)) id)"

definition select_key :: "pg \<Rightarrow> string \<Rightarrow> string sql" where
  "select_key P key db =
     (db, if \<not> pg_text P key then Err badInput
          else case find (\<lambda>r. jr_idem r = Some key) (db_jobs db) of None \<Rightarrow> Err noRows | Some r \<Rightarrow> Ok (jr_id r))"

definition insert_keyed :: "pg \<Rightarrow> pg_db net \<Rightarrow> env \<Rightarrow> string \<Rightarrow> job \<Rightarrow> (string \<times> bool) sql" where
  "insert_keyed P nt e queue job =
     (let key = j_IdempotencyKey job;
          job = pg_fill_job e (if queue = '''' then ''default'' else queue) job; now = now_at e 0 in
      in_tx (nt 0) ''enqueue begin'' no_reads (\<lambda>_ w.
        and_then (stmt (nt 1) ''enqueue insert job''
          (insert_job P job StateEnqueued (pg_timeoutMS (j_Timeout job)) (nullIfEmpty key) now) w) (\<lambda>w _.
        and_then (stmt (nt 2) ''enqueue insert state''
          (insert_state P (j_ID job) StateEnqueued None ''{}'' now) w) (\<lambda>w _.
        and_then (pg_bumpCounter P (nt 3) ''enqueued'' 1 w) (\<lambda>w _. (w, Ok (j_ID job, True))))))
        (snd (nt 4)) id)"

definition pg_EnqueueIdempotent :: "pg \<Rightarrow> pg_db net \<Rightarrow> env \<Rightarrow> string \<Rightarrow> job \<Rightarrow> (string \<times> bool) sql" where
  "pg_EnqueueIdempotent P nt e queue job s =
     (if j_IdempotencyKey job = '''' then insert_keyed P nt e queue job s
      else case send (nt 0) (select_key P (j_IdempotencyKey job)) s of
             (s, Ok i) \<Rightarrow> (s, Ok (i, False))
           | (s, _) \<Rightarrow> insert_keyed P (\<lambda>m. nt (Suc m)) e queue job s)"

section \<open>Reads (\<^verbatim>\<open>queries.go\<close>)\<close>

definition scanJobFromRow :: "job_row \<Rightarrow> job" where
  "scanJobFromRow r =
     (new_job (jr_name r) (Some (jr_args r)) (jr_queue r))
       \<lparr>j_ID := jr_id r, j_RetryMax := jr_retry_max r, j_Timeout := pg_durationFromMS (jr_timeout_ms r),
        j_CreatedAt := jr_created r,
        j_Result := (case jr_result r of
                       None \<Rightarrow> None
                     | Some x \<Rightarrow> if x \<noteq> '''' \<and> x \<noteq> ''null'' then Some x else None)\<rparr>"

definition scanJob :: "pg \<Rightarrow> string \<Rightarrow> job sql" where
  "scanJob P i = with_uuid P i (\<lambda>u db.
     (db, case find (\<lambda>r. jr_id r = u) (db_jobs db) of None \<Rightarrow> Err noRows | Some r \<Rightarrow> Ok (scanJobFromRow r)))"

definition state_of_row :: "pg \<Rightarrow> state_row \<Rightarrow> jobState" where
  "state_of_row P r =
     new_state (sr_name r) (case sr_reason r of None \<Rightarrow> '''' | Some x \<Rightarrow> x)
       (if sr_data r \<noteq> '''' \<and> sr_data r \<noteq> ''{}'' \<and> sr_data r \<noteq> ''null'' then pg_unmarshal P (sr_data r) else [])
       (sr_created r)"

text \<open>\<^verbatim>\<open>ORDER BY created_at ASC, id ASC\<close>: rows are kept in the order of their ids and sorting is stable.\<close>

definition select_states :: "pg \<Rightarrow> string \<Rightarrow> jobState list sql" where
  "select_states P i = with_uuid P i (\<lambda>u db.
     (db, Ok (map (state_of_row P) (sort_key sr_created (filter (\<lambda>r. sr_job r = u) (db_states db))))))"

definition pg_loadStates :: "pg \<Rightarrow> pg_db trip \<Rightarrow> string \<Rightarrow> jobState list sql" where
  "pg_loadStates P n jobID s = wrapped ''load states'' (send n (select_states P jobID) s)"

definition pg_GetJob :: "pg \<Rightarrow> pg_db net \<Rightarrow> string \<Rightarrow> jobWithStates sql" where
  "pg_GetJob P nt jobID s =
     (let (s, r) = send (nt 0) (scanJob P jobID) s in
      and_then (s, case r of Err err \<Rightarrow> Err (if err = noRows then ErrNotFound else err) | x \<Rightarrow> x) (\<lambda>s j.
      and_then (pg_loadStates P (nt 1) jobID s) (\<lambda>s states. (s, Ok \<lparr>jw_Job = j, jw_States = states\<rparr>))))"

definition select_jobs :: "pg \<Rightarrow> string \<Rightarrow> int \<Rightarrow> int \<Rightarrow> job list sql" where
  "select_jobs P state off lim db =
     (db, if state \<noteq> '''' \<and> \<not> pg_text P state then Err badInput else map_result (map scanJobFromRow) (page off lim (sort_key (\<lambda>r. - jr_created r)
        (filter (\<lambda>r. state = '''' \<or> jr_state r = state) (db_jobs db)))))"

fun pg_load_jobs :: "pg \<Rightarrow> pg_db net \<Rightarrow> nat \<Rightarrow> job list \<Rightarrow> jobWithStates list sql" where
  "pg_load_jobs P nt k [] s = (s, Ok [])"
| "pg_load_jobs P nt k (j # js) s =
     and_then (pg_loadStates P (nt k) (j_ID j) s) (\<lambda>s states.
     and_then (pg_load_jobs P nt (Suc k) js s) (\<lambda>s rest. (s, Ok (\<lparr>jw_Job = j, jw_States = states\<rparr> # rest))))"

definition pg_GetJobsByState :: "pg \<Rightarrow> pg_db net \<Rightarrow> string \<Rightarrow> int \<Rightarrow> int \<Rightarrow> jobWithStates list sql" where
  "pg_GetJobsByState P nt state offset limit s =
     (let limit = (if limit \<le> 0 then 100 else limit) in
      and_then (wrapped ''jobs by state'' (send (nt 0) (select_jobs P state offset limit) s)) (\<lambda>s js. pg_load_jobs P nt 1 js s))"

definition pg_GetQueueLength :: "pg \<Rightarrow> pg_db net \<Rightarrow> string \<Rightarrow> int64 sql" where
  "pg_GetQueueLength P nt queue s =
     wrapped ''queue length'' (send (nt 0) (\<lambda>db.
       (db, if \<not> pg_text P queue then Err badInput
            else Ok (of_nat (length (filter (\<lambda>r. jr_queue r = queue \<and> jr_state r = StateEnqueued) (db_jobs db)))))) s)"

definition pg_GetQueues :: "pg \<Rightarrow> pg_db net \<Rightarrow> string list sql" where
  "pg_GetQueues P nt s =
     wrapped ''get queues'' (send (nt 0) (\<lambda>db. (db, Ok (order_by (pg_le P) (remdups (map jr_queue (db_jobs db)))))) s)"

section \<open>Retries and results (\<^verbatim>\<open>retry.go\<close>)\<close>

definition pg_ScheduleRetry :: "pg \<Rightarrow> pg_db net \<Rightarrow> env \<Rightarrow> string \<Rightarrow> time \<Rightarrow> unit sql" where
  "pg_ScheduleRetry P nt e jobID enqueueAt =
     (let now = now_at e 0 in
      in_tx (nt 0) ''schedule retry begin'' (read_locked P (nt 1) jobID ''schedule retry select'' StateFailed) (\<lambda>_ w.
        and_then (stmt (nt 2) ''schedule retry update'' (update_job P jobID
          (\<lambda>r. r\<lparr>jr_state := StateScheduled, jr_updated := micro now\<rparr>)) w) (\<lambda>w _.
        and_then (stmt (nt 3) ''schedule retry state'' (insert_state P jobID StateScheduled None
          (pg_marshal P [(''enqueue_at'', pg_rfc3339 P enqueueAt)]) now) w) (\<lambda>w _.
        and_then (stmt (nt 4) ''schedule retry delete'' (delete_sched P jobID) w) (\<lambda>w _.
        and_then (stmt (nt 5) ''schedule retry row'' (insert_sched P jobID enqueueAt) w) (\<lambda>w _.
        pg_bumpCounter P (nt 6) ''scheduled'' 1 w)))))
        (snd (nt 7)) id)"

text \<open>A nil slice is the SQL \<^verbatim>\<open>NULL\<close>; any other text must be JSON.\<close>

definition pg_SetJobResult :: "pg \<Rightarrow> pg_db net \<Rightarrow> env \<Rightarrow> string \<Rightarrow> bytes \<Rightarrow> unit sql" where
  "pg_SetJobResult P nt e jobID result s =
     (let result = (if blen result > 65536 then btake 65536 result else result) in
      affected ErrNotFound (wrapped ''set job result'' (send (nt 0) (\<lambda>db.
        case result of
          None \<Rightarrow> update_job P jobID (\<lambda>r. r\<lparr>jr_result := None, jr_updated := micro (pg_now P e)\<rparr>) db
        | Some x \<Rightarrow>
            (case pg_jsonb P x of
               None \<Rightarrow> (db, Err badInput)
             | Some y \<Rightarrow> update_job P jobID (\<lambda>r. r\<lparr>jr_result := Some y, jr_updated := micro (pg_now P e)\<rparr>) db)) s)))"

section \<open>Servers (\<^verbatim>\<open>servers.go\<close>)\<close>

text \<open>The empty list of queues is the nil slice; the engine registers no other empty one.\<close>

definition server_texts :: "pg \<Rightarrow> serverInfo \<Rightarrow> bool" where
  "server_texts P sv \<longleftrightarrow> list_all (pg_text P) (sv_ID sv # sv_Status sv # sv_Queues sv) \<and> int32 (sv_WorkerCount sv)"

definition pg_RegisterServer :: "pg \<Rightarrow> pg_db net \<Rightarrow> env \<Rightarrow> serverInfo \<Rightarrow> unit sql" where
  "pg_RegisterServer P nt e sv s =
     (let now = now_at e 0;
          sv = sv\<lparr>sv_StartedAt := micro (if sv_StartedAt sv = 0 then now else sv_StartedAt sv), sv_LastHeartbeat := micro now,
                  sv_Status := (if sv_Status sv = '''' then ServerStatusActive else sv_Status sv),
                  sv_Queues := (if sv_Queues sv = [] then [''default''] else sv_Queues sv)\<rparr>
      in wrapped ''register server'' (send (nt 0) (\<lambda>db.
           if \<not> server_texts P sv then (db, Err badInput)
           else if list_ex (\<lambda>r. sv_ID r = sv_ID sv) (db_servers db)
           then (db\<lparr>db_servers := map (\<lambda>r. if sv_ID r = sv_ID sv then sv\<lparr>sv_StartedAt := sv_StartedAt r\<rparr> else r)
                   (db_servers db)\<rparr>, Ok ())
           else (db\<lparr>db_servers := db_servers db @ [sv]\<rparr>, Ok ())) s))"

definition pg_UnregisterServer :: "pg \<Rightarrow> pg_db net \<Rightarrow> string \<Rightarrow> unit sql" where
  "pg_UnregisterServer P nt serverID s =
     wrapped ''unregister server'' (send (nt 0) (\<lambda>db.
       if \<not> pg_text P serverID then (db, Err badInput)
       else (db\<lparr>db_servers := filter (\<lambda>r. sv_ID r \<noteq> serverID) (db_servers db)\<rparr>, Ok ())) s)"

definition pg_Heartbeat :: "pg \<Rightarrow> pg_db net \<Rightarrow> env \<Rightarrow> string \<Rightarrow> unit sql" where
  "pg_Heartbeat P nt e serverID s =
     affected ErrNotFound (wrapped ''server heartbeat'' (send (nt 0) (\<lambda>db.
       if \<not> pg_text P serverID then (db, Err badInput)
       else (db\<lparr>db_servers := map (\<lambda>r. if sv_ID r = serverID
                 then r\<lparr>sv_LastHeartbeat := micro (now_at e 0), sv_Status := ServerStatusActive\<rparr> else r) (db_servers db)\<rparr>,
             Ok (length (filter (\<lambda>r. sv_ID r = serverID) (db_servers db))))) s))"

definition pg_GetServers :: "pg \<Rightarrow> pg_db net \<Rightarrow> serverInfo list sql" where
  "pg_GetServers P nt s =
     wrapped ''get servers'' (send (nt 0) (\<lambda>db. (db, Ok (order_by (\<lambda>a b. pg_le P (sv_ID a) (sv_ID b)) (db_servers db)))) s)"

section \<open>Counters, locks, cleanup (\<^verbatim>\<open>misc.go\<close>)\<close>

definition pg_IncrementCounter :: "pg \<Rightarrow> pg_db net \<Rightarrow> string \<Rightarrow> int64 \<Rightarrow> unit sql" where
  "pg_IncrementCounter P nt key delta s = wrapped ''increment counter'' (send (nt 0) (upsert_counter P key delta) s)"

definition pg_GetCounter :: "pg \<Rightarrow> pg_db net \<Rightarrow> string \<Rightarrow> int64 sql" where
  "pg_GetCounter P nt key s =
     (let (s, r) = send (nt 0) (\<lambda>db. (db, if \<not> pg_text P key then Err badInput
              else case map_of (db_counters db) key of None \<Rightarrow> Err noRows | Some v \<Rightarrow> Ok (word_of_int v))) s
      in (s, case r of Err err \<Rightarrow> if err = noRows then Ok 0 else Err (ErrWrap ''get counter'' err) | x \<Rightarrow> x))"

definition pg_GetAllCounters :: "pg \<Rightarrow> pg_db net \<Rightarrow> int \<Rightarrow> int \<Rightarrow> (string \<times> int64) list sql" where
  "pg_GetAllCounters P nt skip limit s =
     (let limit = (if limit \<le> 0 then 1000 else limit) in
      wrapped ''get all counters'' (send (nt 0) (\<lambda>db.
        (db, page skip limit (map (\<lambda>(k, v). (k, word_of_int v)) (order_by (\<lambda>a b. pg_le P (fst a) (fst b)) (db_counters db))))) s))"

definition pg_Release :: "pg \<Rightarrow> pg_db net \<Rightarrow> lock \<Rightarrow> pg_db \<Rightarrow> pg_db \<times> lock \<times> unit result" where
  "pg_Release P nt l s =
     (let (s, r) = affected ErrLockNotHeld (wrapped ''release lock'' (send (nt 0) (\<lambda>db.
            let mine = (\<lambda>r. lr_resource r = lk_resource l \<and> lr_owner r = lk_ownerID l) in
            if \<not> pg_text P (lk_resource l) then (db, Err badInput) else
            (db\<lparr>db_locks := filter (\<lambda>r. \<not> mine r) (db_locks db)\<rparr>, Ok (length (filter mine (db_locks db))))) s))
      in (s, l, r))"

text \<open>
  An error of the first statement (a text the server does not take, a lost trip) is ignored by the code,
  but it aborts the transaction.
\<close>

definition insert_lock :: "pg \<Rightarrow> string \<Rightarrow> string \<Rightarrow> time \<Rightarrow> nat sql" where
  "insert_lock P resource owner expires db =
     (if \<not> pg_text P resource then (db, Err txAborted)
      else if list_ex (\<lambda>r. lr_resource r = resource) (db_locks db) then (db, Ok 0)
      else (db\<lparr>db_locks := db_locks db @ [\<lparr>lr_resource = resource, lr_owner = owner, lr_expires = micro expires\<rparr>]\<rparr>, Ok 1))"

definition pg_AcquireLock :: "pg \<Rightarrow> pg_db net \<Rightarrow> env \<Rightarrow> string \<Rightarrow> duration \<Rightarrow> lock sql" where
  "pg_AcquireLock P nt e resource ttl =
     (let ownerID = new_uuid e 0; expires = time_add (now_at e 0) ttl in
      in_tx (nt 0) ''acquire lock begin'' no_reads (\<lambda>_ w.
        and_then (affected ErrLockNotHeld (stmt (nt 2) ''acquire lock insert'' (\<lambda>w.
          case snd (nt 1) of
            Lost _ _ \<Rightarrow> (w, Err txAborted)
          | Delivered \<Rightarrow> insert_lock P resource ownerID expires
              (w\<lparr>db_locks := filter (\<lambda>r. \<not> (lr_resource r = resource \<and> lr_expires r < pg_now P e)) (db_locks w)\<rparr>)) w)) (\<lambda>w _.
        (w, Ok \<lparr>lk_resource = resource, lk_ownerID = ownerID, lk_expiresAt = 0, lk_released = False\<rparr>)))
        (snd (nt 3)) (ErrWrap ''acquire lock commit''))"

definition expired_row :: "time \<Rightarrow> job_row \<Rightarrow> bool" where
  "expired_row cutoff r \<longleftrightarrow> jr_state r \<in> {StateSucceeded, StateFailed, StateDeleted} \<and> jr_updated r < micro cutoff"

text \<open>\<^verbatim>\<open>ON DELETE CASCADE\<close> takes the states, the schedule and the continuations of the jobs along.\<close>

definition delete_jobs :: "(job_row \<Rightarrow> bool) \<Rightarrow> nat sql" where
  "delete_jobs gone db =
     (let ids = map jr_id (filter gone (db_jobs db)) in
      (db\<lparr>db_jobs := filter (\<lambda>r. \<not> gone r) (db_jobs db),
          db_states := filter (\<lambda>r. sr_job r \<notin> set ids) (db_states db),
          db_sched := filter (\<lambda>r. sc_job r \<notin> set ids) (db_sched db),
          db_conts := filter (\<lambda>r. cr_parent r \<notin> set ids) (db_conts db)\<rparr>, Ok (length ids)))"

definition pg_RemoveExpired :: "pg \<Rightarrow> pg_db net \<Rightarrow> time \<Rightarrow> int64 sql" where
  "pg_RemoveExpired P nt cutoff s =
     and_then (wrapped ''remove expired'' (send (nt 0) (delete_jobs (expired_row cutoff)) s)) (\<lambda>s n. (s, Ok (of_nat n)))"

section \<open>Schedule, recurring definitions, continuations (\<^verbatim>\<open>scheduled.go\<close>)\<close>

definition pg_AddScheduled :: "pg \<Rightarrow> pg_db net \<Rightarrow> env \<Rightarrow> time \<Rightarrow> job \<Rightarrow> string sql" where
  "pg_AddScheduled P nt e enqueueAt job =
     (let job = pg_fill_job e (if j_Queue job = '''' then ''default'' else j_Queue job) job; now = now_at e 0 in
      in_tx (nt 0) ''add scheduled begin'' no_reads (\<lambda>_ w.
        and_then (stmt (nt 1) ''add scheduled job''
          (insert_job P job StateScheduled (pg_timeoutMS (j_Timeout job)) None now) w) (\<lambda>w _.
        and_then (stmt (nt 2) ''add scheduled state'' (insert_state P (j_ID job) StateScheduled None
          (pg_marshal P [(''enqueue_at'', pg_rfc3339 P enqueueAt)]) now) w) (\<lambda>w _.
        and_then (stmt (nt 3) ''add scheduled row'' (insert_sched P (j_ID job) enqueueAt) w) (\<lambda>w _.
        and_then (pg_bumpCounter P (nt 4) ''scheduled'' 1 w) (\<lambda>w _. (w, Ok (j_ID job)))))))
        (snd (nt 5)) (ErrWrap ''add scheduled commit''))"

definition select_due :: "string list \<Rightarrow> time \<Rightarrow> int \<Rightarrow> string list sql" where
  "select_due locked now batch db =
     (db, Ok (map sc_job (take (nat batch) (sort_key sc_at
        (filter (\<lambda>r. sc_at r \<le> micro now \<and> sc_id r \<notin> set locked) (db_sched db))))))"

fun pg_promote_loop :: "pg \<Rightarrow> pg_db net \<Rightarrow> time \<Rightarrow> nat \<Rightarrow> string list \<Rightarrow> jobTicket list sql" where
  "pg_promote_loop P nt ts k [] w = (w, Ok [])"
| "pg_promote_loop P nt ts k (jobID # ids) w =
     and_then (stmt (nt k) ''due scheduled delete'' (delete_sched P jobID) w) (\<lambda>w _.
     and_then (stmt (nt (k + 1)) ''due scheduled update'' (update_job P jobID
       (\<lambda>r. r\<lparr>jr_state := StateEnqueued, jr_updated := micro ts\<rparr>)) w) (\<lambda>w _.
     and_then (stmt (nt (k + 2)) ''due scheduled state''
       (insert_state P jobID StateEnqueued (Some ''scheduled'') ''{}'' ts) w) (\<lambda>w _.
     and_then (pg_bumpCounter P (nt (k + 3)) ''scheduled'' (- 1) w) (\<lambda>w _.
     and_then (pg_bumpCounter P (nt (k + 4)) ''enqueued'' 1 w) (\<lambda>w _.
     and_then (pg_promote_loop P nt ts (k + 5) ids w) (\<lambda>w rest.
       (w, Ok (\<lparr>t_JobID = jobID, t_Token = ''sched-'' @ jobID\<rparr> # rest))))))))"

definition pg_GetDueScheduled :: "pg \<Rightarrow> pg_db net \<Rightarrow> env \<Rightarrow> string list \<Rightarrow> time \<Rightarrow> int \<Rightarrow> jobTicket list sql" where
  "pg_GetDueScheduled P nt e locked now batchSize =
     (let batchSize = (if batchSize \<le> 0 then 100 else batchSize) in
      in_tx (nt 0) ''due scheduled begin''
        (\<lambda>s. wrapped ''due scheduled select'' (read_stmt (nt 1) (select_due locked now batchSize) s))
        (\<lambda>ids. pg_promote_loop P nt (now_at e 0) 3 ids) (snd (nt 2)) (ErrWrap ''due scheduled commit''))"

definition pg_RemoveScheduled :: "pg \<Rightarrow> pg_db net \<Rightarrow> string \<Rightarrow> unit sql" where
  "pg_RemoveScheduled P nt jobID s = wrapped ''remove scheduled'' (send (nt 0) (delete_sched P jobID) s)"

definition pg_UpsertRecurring :: "pg \<Rightarrow> pg_db net \<Rightarrow> env \<Rightarrow> recurringJobEntry \<Rightarrow> unit sql" where
  "pg_UpsertRecurring P nt e d s =
     (let now = now_at e 0;
          d = d\<lparr>r_UpdatedAt := micro now, r_CreatedAt := micro (if r_CreatedAt d = 0 then now else r_CreatedAt d),
                r_Args := (if r_Args d = None then Some ''[]'' else r_Args d),
                r_Queue := (if r_Queue d = '''' then ''default'' else r_Queue d),
                r_LastRun := map_option micro (r_LastRun d), r_NextRun := map_option micro (r_NextRun d)\<rparr>
      in wrapped ''upsert recurring'' (send (nt 0) (\<lambda>db.
           case pg_jsonb P (raw (r_Args d)) of
             None \<Rightarrow> (db, Err badInput)
           | Some args \<Rightarrow>
               if \<not> list_all (pg_text P) [r_ID d, r_JobName d, r_Queue d, r_CronExpr d] then (db, Err badInput)
               else
                 let d = d\<lparr>r_Args := Some args\<rparr> in
                 if list_ex (\<lambda>r. r_ID r = r_ID d) (db_recurring db)
                 then (db\<lparr>db_recurring := map (\<lambda>r. if r_ID r = r_ID d then d\<lparr>r_CreatedAt := r_CreatedAt r\<rparr> else r)
                         (db_recurring db)\<rparr>, Ok ())
                 else (db\<lparr>db_recurring := db_recurring db @ [d]\<rparr>, Ok ())) s))"

definition pg_RemoveRecurring :: "pg \<Rightarrow> pg_db net \<Rightarrow> string \<Rightarrow> unit sql" where
  "pg_RemoveRecurring P nt i s =
     wrapped ''remove recurring'' (send (nt 0) (\<lambda>db.
       if \<not> pg_text P i then (db, Err badInput)
       else (db\<lparr>db_recurring := filter (\<lambda>r. r_ID r \<noteq> i) (db_recurring db)\<rparr>, Ok ())) s)"

definition pg_GetRecurringJobs :: "pg \<Rightarrow> pg_db net \<Rightarrow> recurringJobEntry list sql" where
  "pg_GetRecurringJobs P nt s =
     wrapped ''get recurring'' (send (nt 0) (\<lambda>db. (db, Ok (order_by (\<lambda>a b. pg_le P (r_ID a) (r_ID b)) (db_recurring db)))) s)"

definition pg_UpdateRecurringLastRun :: "pg \<Rightarrow> pg_db net \<Rightarrow> env \<Rightarrow> string \<Rightarrow> time \<Rightarrow> time \<Rightarrow> unit sql" where
  "pg_UpdateRecurringLastRun P nt e i lastRun nextRun s =
     affected ErrNotFound (wrapped ''update recurring last_run'' (send (nt 0) (\<lambda>db.
       if \<not> pg_text P i then (db, Err badInput)
       else (db\<lparr>db_recurring := map (\<lambda>r. if r_ID r = i
                 then r\<lparr>r_LastRun := Some (micro lastRun), r_NextRun := Some (micro nextRun), r_UpdatedAt := micro (now_at e 0)\<rparr>
                 else r) (db_recurring db)\<rparr>,
             Ok (length (filter (\<lambda>r. r_ID r = i) (db_recurring db))))) s))"

definition conditions :: "string list" where
  "conditions = [ConditionOnSucceeded, ConditionOnFailed, ConditionOnAny]"

definition pg_AddContinuation :: "pg \<Rightarrow> pg_db net \<Rightarrow> env \<Rightarrow> string \<Rightarrow> continuationEntry \<Rightarrow> unit sql" where
  "pg_AddContinuation P nt e parentID d s =
     (let d = d\<lparr>c_ChildArgs := (if c_ChildArgs d = None then Some ''[]'' else c_ChildArgs d),
                c_ChildQueue := (if c_ChildQueue d = '''' then ''default'' else c_ChildQueue d),
                c_CreatedAt := micro (now_at e 0)\<rparr>
      in wrapped ''add continuation'' (send (nt 0) (with_uuid P parentID (\<lambda>u db.
           case pg_jsonb P (raw (c_ChildArgs d)) of
             None \<Rightarrow> (db, Err badInput)
           | Some args \<Rightarrow>
               if \<not> list_all (pg_text P) [c_ChildName d, c_ChildQueue d] \<or> c_Condition d \<notin> set conditions then (db, Err badInput)
               else if \<not> list_ex (\<lambda>r. jr_id r = u) (db_jobs db) then (db, Err fkViolation)
               else (db\<lparr>db_conts := db_conts db @ [\<lparr>cr_id = db_seq db, cr_parent = u, cr_entry = d\<lparr>c_ChildArgs := Some args\<rparr>\<rparr>],
                        db_seq := Suc (db_seq db)\<rparr>, Ok ()))) s))"

definition pg_GetContinuations :: "pg \<Rightarrow> pg_db net \<Rightarrow> string \<Rightarrow> continuationEntry list sql" where
  "pg_GetContinuations P nt parentID s =
     wrapped ''get continuations'' (send (nt 0) (with_uuid P parentID (\<lambda>u db.
       (db, Ok (map cr_entry (sort_key cr_id (filter (\<lambda>r. cr_parent r = u) (db_conts db))))))) s)"

definition pg_RemoveContinuations :: "pg \<Rightarrow> pg_db net \<Rightarrow> string \<Rightarrow> unit sql" where
  "pg_RemoveContinuations P nt parentID s =
     wrapped ''remove continuations'' (send (nt 0) (with_uuid P parentID (\<lambda>u db.
       (db\<lparr>db_conts := filter (\<lambda>r. cr_parent r \<noteq> u) (db_conts db)\<rparr>, Ok ()))) s)"

section \<open>The store (\<^verbatim>\<open>storage.go\<close>)\<close>

text \<open>The store as the engine uses it, no row locked by others; \<open>SetJobResult\<close> reads the server's clock.\<close>

definition pg_ops :: "pg \<Rightarrow> env \<Rightarrow> pg_db storage_ops" where
  "pg_ops P env0 = \<lparr>
     op_Enqueue = \<lambda>e c. pg_Enqueue P (quiet c) e,
     op_Dequeue = \<lambda>e c. pg_Dequeue P (quiet c) e (\<lambda>_. []),
     op_Requeue = \<lambda>e c. pg_Requeue P (quiet c) e,
     op_ApplyState = \<lambda>e c. pg_ApplyState P (quiet c) e,
     op_HeartbeatJob = \<lambda>e c. pg_HeartbeatJob P (quiet c) e,
     op_GetOrphanedJobs = \<lambda>e c age s. snd (pg_GetOrphanedJobs P (quiet c) e age s),
     op_GetJob = \<lambda>c i s. snd (pg_GetJob P (quiet c) i s),
     op_GetJobsByState = \<lambda>e c st off lim s. snd (pg_GetJobsByState P (quiet c) st off lim s),
     op_GetQueueLength = \<lambda>c q s. snd (pg_GetQueueLength P (quiet c) q s),
     op_GetQueues = \<lambda>e c s. snd (pg_GetQueues P (quiet c) s),
     op_RegisterServer = \<lambda>e c sv ttl. pg_RegisterServer P (quiet c) e sv,
     op_UnregisterServer = \<lambda>c. pg_UnregisterServer P (quiet c),
     op_Heartbeat = \<lambda>e c i ttl. pg_Heartbeat P (quiet c) e i,
     op_GetServers = \<lambda>e c s. snd (pg_GetServers P (quiet c) s),
     op_AddScheduled = \<lambda>e c. pg_AddScheduled P (quiet c) e,
     op_GetDueScheduled = \<lambda>e c. pg_GetDueScheduled P (quiet c) e [],
     op_RemoveScheduled = \<lambda>c. pg_RemoveScheduled P (quiet c),
     op_UpsertRecurring = \<lambda>e c. pg_UpsertRecurring P (quiet c) e,
     op_RemoveRecurring = \<lambda>c. pg_RemoveRecurring P (quiet c),
     op_GetRecurringJobs = \<lambda>e c s. snd (pg_GetRecurringJobs P (quiet c) s),
     op_UpdateRecurringLastRun = \<lambda>e c. pg_UpdateRecurringLastRun P (quiet c) e,
     op_AddContinuation = \<lambda>e c. pg_AddContinuation P (quiet c) e,
     op_GetContinuations = \<lambda>c i s. snd (pg_GetContinuations P (quiet c) i s),
     op_RemoveContinuations = \<lambda>c. pg_RemoveContinuations P (quiet c),
     op_IncrementCounter = \<lambda>c. pg_IncrementCounter P (quiet c),
     op_GetCounter = \<lambda>c k s. snd (pg_GetCounter P (quiet c) k s),
     op_GetAllCounters = \<lambda>e c skip lim s. snd (pg_GetAllCounters P (quiet c) skip lim s),
     op_AcquireLock = \<lambda>e c. pg_AcquireLock P (quiet c) e,
     op_Release = \<lambda>c. pg_Release P (quiet c),
     op_RemoveExpired = \<lambda>e c. pg_RemoveExpired P (quiet c),
     op_ScheduleRetry = \<lambda>e c. pg_ScheduleRetry P (quiet c) e,
     op_SetJobResult = \<lambda>c. pg_SetJobResult P (quiet c) env0,
     op_DeleteJob = \<lambda>e c. pg_DeleteJob P (quiet c) e,
     op_EnqueueIdempotent = \<lambda>e c. pg_EnqueueIdempotent P (quiet c) e,
     op_Close = \<lambda>s. (s, Ok ())\<rparr>"

end
