(* ===== verification/Postgres_Invariant.thy ===== *)
theory Postgres_Invariant
  imports Postgres_Store
begin

text \<open>
  The invariant of the PostgreSQL tables, kept by every method whatever the other clients (who keep it
  too) do between the trips and whichever trips fail: keys are unique, sequence numbers grow, every
  dependent row names a job that exists, and a job's \<^verbatim>\<open>state\<close> column is the name of the last state row
  inserted for it. The proofs use triples about the statements of a transaction that do not fail,
  since an error drops the copy they work on.
\<close>

section \<open>Triples over statements\<close>

definition ok_to :: "(pg_db \<Rightarrow> bool) \<Rightarrow> 'a sql \<Rightarrow> ('a \<Rightarrow> pg_db \<Rightarrow> bool) \<Rightarrow> bool" where
  "ok_to A f B \<longleftrightarrow> (\<forall>w w' a. A w \<longrightarrow> f w = (w', Ok a) \<longrightarrow> B a w')"

definition keeps :: "(pg_db \<Rightarrow> bool) \<Rightarrow> (pg_db \<Rightarrow> pg_db \<times> 'a) \<Rightarrow> bool" where
  "keeps I f \<longleftrightarrow> (\<forall>w. I w \<longrightarrow> I (fst (f w)))"

definition rely :: "(pg_db \<Rightarrow> bool) \<Rightarrow> pg_db net \<Rightarrow> bool" where
  "rely I nt \<longleftrightarrow> (\<forall>k w. I w \<longrightarrow> I (fst (nt k) w))"

named_theorems triple \<open>triples of the statements\<close>

lemma and_then_Ok: "and_then x f = (w, Ok b) \<longleftrightarrow> (\<exists>s a. x = (s, Ok a) \<and> f s a = (w, Ok b))"
  by (cases x; cases "snd x") auto

lemma wrapped_Ok [simp]: "wrapped msg x = (w, Ok a) \<longleftrightarrow> x = (w, Ok a)"
  by (cases x; cases "snd x") auto

lemma stmt_Ok: "stmt n msg f w = (w', Ok a) \<longleftrightarrow> snd n = Delivered \<and> f w = (w', Ok a)"
  by (auto simp: stmt_def split: link.splits)

lemma ok_bind [triple]:
  "ok_to A f B \<Longrightarrow> (\<And>a. ok_to (B a) (g a) C) \<Longrightarrow> ok_to A (\<lambda>w. and_then (f w) (\<lambda>w a. g a w)) C"
  unfolding ok_to_def and_then_Ok by blast

lemma ok_stmt [triple]: "ok_to A f B \<Longrightarrow> ok_to A (stmt n msg f) B"
  by (auto simp: ok_to_def stmt_Ok)

lemma ok_affected [triple]: "ok_to A f (\<lambda>_. B) \<Longrightarrow> ok_to A (\<lambda>w. affected e (f w)) (\<lambda>_. B)"
  by (auto simp: ok_to_def affected_def and_then_Ok split: if_splits)

lemma ok_return [triple]: "ok_to A (\<lambda>w. (w, Ok a)) (\<lambda>_. A)"
  by (simp add: ok_to_def)

lemma ok_if: "ok_to A f B \<Longrightarrow> ok_to A g B \<Longrightarrow> ok_to A (if b then f else g) B"
  by simp

lemma ok_guard [triple]: "ok_to A f B \<Longrightarrow> ok_to A (\<lambda>w. if b then (w, Err e) else f w) B"
  by (simp add: ok_to_def)

section \<open>Sending\<close>

lemma rely_shift: "rely I nt \<Longrightarrow> rely I (\<lambda>m. nt (m + k))"
  by (simp add: rely_def)

lemma rely_quiet [simp]: "rely I (quiet c)"
  by (simp add: rely_def quiet_def)

lemma keeps_send: "rely I nt \<Longrightarrow> keeps I f \<Longrightarrow> keeps I (send (nt k) f)"
  by (auto simp: rely_def keeps_def send_def Let_def split: link.splits)

lemma keeps_read_stmt: "rely I nt \<Longrightarrow> keeps I f \<Longrightarrow> keeps I (read_stmt (nt k) f)"
  by (auto simp: rely_def keeps_def read_stmt_def split: link.splits)

lemma keeps_wrapped: "keeps I f \<Longrightarrow> keeps I (\<lambda>w. wrapped msg (f w))"
  by (simp add: keeps_def wrapped_def)

lemma keeps_no_rows_to: "keeps I f \<Longrightarrow> keeps I (\<lambda>w. no_rows_to e msg (f w))"
  by (simp add: keeps_def no_rows_to_def)

lemma fst_and_then: "I (fst x) \<Longrightarrow> (\<And>s a. I s \<Longrightarrow> I (fst (f s a))) \<Longrightarrow> I (fst (and_then x f))"
  by (cases x; cases "snd x") auto

lemma keeps_bind: "keeps I f \<Longrightarrow> (\<And>a. keeps I (\<lambda>w. g w a)) \<Longrightarrow> keeps I (\<lambda>w. and_then (f w) g)"
  unfolding keeps_def by (blast intro: fst_and_then)

lemma keeps_affected: "keeps I f \<Longrightarrow> keeps I (\<lambda>w. affected e (f w))"
  unfolding affected_def by (rule keeps_bind) (auto simp: keeps_def)

lemma keeps_ok: "ok_to I f (\<lambda>_. I) \<Longrightarrow> (\<And>w. \<forall>a. snd (f w) \<noteq> Ok a \<Longrightarrow> fst (f w) = w) \<Longrightarrow> keeps I f"
  unfolding keeps_def ok_to_def by (metis prod.collapse)

lemma keeps_read: "(\<And>w. fst (f w) = w) \<Longrightarrow> keeps I f"
  by (simp add: keeps_def)

lemma keeps_let: "keeps I (f a) \<Longrightarrow> keeps I (\<lambda>w. let x = a in f x w)"
  by simp

lemma keeps_in_tx:
  assumes rely: "rely I nt" and reads: "keeps I reads" and writes: "\<And>b. ok_to I (writes b) (\<lambda>_. I)"
  shows "keeps I (in_tx (nt k) msg reads writes commit wrap)"
proof -
  have tx: "keeps I (\<lambda>s. case writes b s of
      (w, Ok a) \<Rightarrow> (case commit of Delivered \<Rightarrow> (w, Ok a) | Lost done err \<Rightarrow> (if done then w else s, Err (wrap err)))
    | (w, Err err) \<Rightarrow> (s, Err err) | (w, Panic p) \<Rightarrow> (s, Panic p))" for b
    using writes [of b] by (auto simp: keeps_def ok_to_def split: prod.splits result.splits link.splits)
  have begin_tx: "keeps I (\<lambda>s. wrapped msg (send (fst (nt k), case snd (nt k) of Lost _ err \<Rightarrow> Lost False err | l \<Rightarrow> l)
      (\<lambda>s. (s, Ok ())) s))"
    using rely by (auto simp: keeps_def rely_def wrapped_def send_def Let_def split: link.splits)
  show ?thesis
    unfolding in_tx_def by (intro keeps_bind begin_tx reads tx)
qed

section \<open>The invariant\<close>

definition last_name :: "pg_db \<Rightarrow> string \<Rightarrow> string option" where
  "last_name db u =
     (case rev (filter (\<lambda>r. sr_job r = u) (db_states db)) of [] \<Rightarrow> None | r # _ \<Rightarrow> Some (sr_name r))"

definition keys :: "job_row list \<Rightarrow> string list" where
  "keys rs = List.map_filter jr_idem rs"

definition refers :: "pg_db \<Rightarrow> string \<Rightarrow> bool" where
  "refers db u \<longleftrightarrow> u \<in> jr_id ` set (db_jobs db)"

definition pg_struct :: "pg_db \<Rightarrow> bool" where
  "pg_struct db \<longleftrightarrow>
     distinct (map jr_id (db_jobs db)) \<and> distinct (keys (db_jobs db)) \<and>
     sorted_wrt (<) (map jr_token (db_jobs db)) \<and> (\<forall>r\<in>set (db_jobs db). jr_token r < db_seq db) \<and>
     sorted_wrt (<) (map sr_id (db_states db)) \<and> (\<forall>r\<in>set (db_states db). sr_id r < db_seq db \<and> refers db (sr_job r)) \<and>
     distinct (map sc_id (db_sched db)) \<and> (\<forall>r\<in>set (db_sched db). sc_id r = sc_job r \<and> refers db (sc_job r)) \<and>
     sorted_wrt (<) (map cr_id (db_conts db)) \<and> (\<forall>r\<in>set (db_conts db). cr_id r < db_seq db \<and> refers db (cr_parent r))"

definition pg_wf :: "pg_db \<Rightarrow> bool" where
  "pg_wf db \<longleftrightarrow> pg_struct db \<and> (\<forall>r\<in>set (db_jobs db). last_name db (jr_id r) = Some (jr_state r))"

text \<open>Between the update of a job and the insertion of its state row.\<close>

definition pg_open :: "pg \<Rightarrow> string \<Rightarrow> string \<Rightarrow> pg_db \<Rightarrow> bool" where
  "pg_open P i n db \<longleftrightarrow> pg_struct db \<and>
     (\<forall>r\<in>set (db_jobs db). if pg_uuid P i = Some (jr_id r) then jr_state r = n else last_name db (jr_id r) = Some (jr_state r))"

lemma sorted_wrt_filter_map: "sorted_wrt R (map f xs) \<Longrightarrow> sorted_wrt R (map f (filter p xs))"
  by (induction xs) auto

lemma keys_simps [simp]: "keys [] = []"
  "keys (r # rs) = (case jr_idem r of None \<Rightarrow> keys rs | Some k \<Rightarrow> k # keys rs)"
  by (simp_all add: keys_def map_filter_simps split: option.split)

lemma keys_append: "keys (xs @ ys) = keys xs @ keys ys"
  by (induction xs) (auto split: option.splits)

lemma in_keys: "k \<in> set (keys rs) \<longleftrightarrow> (\<exists>r\<in>set rs. jr_idem r = Some k)"
  by (induction rs) (auto split: option.splits)

lemma keys_filter: "distinct (keys rs) \<Longrightarrow> distinct (keys (filter p rs))"
  by (induction rs) (auto simp: in_keys split: option.splits)

section \<open>Statements\<close>

text \<open>The columns that keys and references are about.\<close>

definition same_key :: "(job_row \<Rightarrow> job_row) \<Rightarrow> bool" where
  "same_key f \<longleftrightarrow> (\<forall>r. jr_id (f r) = jr_id r \<and> jr_token (f r) = jr_token r \<and> jr_idem (f r) = jr_idem r)"

lemma same_key_map: assumes "same_key f"
  shows "map jr_id (map (\<lambda>r. if c r then f r else r) rs) = map jr_id rs"
    "map jr_token (map (\<lambda>r. if c r then f r else r) rs) = map jr_token rs"
    "keys (map (\<lambda>r. if c r then f r else r) rs) = keys rs"
proof -
  show "keys (map (\<lambda>r. if c r then f r else r) rs) = keys rs"
    using assms by (induction rs) (auto simp: same_key_def split: option.splits)
qed (use assms in \<open>simp_all add: same_key_def\<close>)

lemma struct_map: assumes f: "same_key f" and db: "pg_struct db"
  shows "pg_struct (db\<lparr>db_jobs := map (\<lambda>r. if c r then f r else r) (db_jobs db)\<rparr>)"
proof -
  let ?db = "db\<lparr>db_jobs := map (\<lambda>r. if c r then f r else r) (db_jobs db)\<rparr>"
  have "refers ?db = refers db"
    unfolding refers_def fun_eq_iff set_map [symmetric] pg_db.select_convs pg_db.update_convs
    using same_key_map(1) [OF f, of c "db_jobs db"] by simp
  moreover have "\<forall>r\<in>set (db_jobs ?db). jr_token r < db_seq ?db"
    using f db by (auto simp: pg_struct_def same_key_def)
  ultimately show ?thesis
    using db same_key_map [OF f, of c "db_jobs db"] by (simp add: pg_struct_def del: map_map)
qed

lemma last_name_jobs [simp]:
  "last_name (db\<lparr>db_jobs := x\<rparr>) = last_name db" "last_name (db\<lparr>db_sched := y\<rparr>) = last_name db"
  "last_name (db\<lparr>db_counters := z\<rparr>) = last_name db" "last_name (db\<lparr>db_seq := n\<rparr>) = last_name db"
  "last_name (db\<lparr>db_conts := cs\<rparr>) = last_name db"
  by (simp_all add: last_name_def fun_eq_iff)

lemma last_name_snoc: "last_name (db\<lparr>db_states := db_states db @ [r]\<rparr>) =
    (last_name db)(sr_job r \<mapsto> sr_name r)"
  by (auto simp: last_name_def fun_eq_iff)

lemma update_state [triple]:
  assumes "same_key f" "\<forall>r. jr_state (f r) = n"
  shows "ok_to pg_wf (update_job P i f) (\<lambda>_. pg_open P i n)"
  using assms struct_map [OF assms(1)]
  by (auto simp: ok_to_def update_job_def with_uuid_def pg_wf_def pg_open_def same_key_def split: option.splits)

lemma update_other:
  assumes "same_key f" "\<forall>r. jr_state (f r) = jr_state r"
  shows "keeps pg_wf (update_job P i f)"
  using assms struct_map [OF assms(1)]
  by (auto simp: keeps_def update_job_def with_uuid_def pg_wf_def same_key_def split: option.splits)

lemma insert_job_opens [triple]:
  "ok_to pg_wf (insert_job P j st t key now) (\<lambda>_. pg_open P (j_ID j) st)"
proof -
  have "pg_open P (j_ID j) st (db\<lparr>db_jobs := db_jobs db @ [r], db_seq := Suc (db_seq db)\<rparr>)"
    if db: "pg_wf db" and r: "jr_id r \<notin> jr_id ` set (db_jobs db)" "\<forall>k. jr_idem r = Some k \<longrightarrow> k \<notin> set (keys (db_jobs db))"
      "jr_token r = db_seq db" "jr_state r = st" "pg_uuid P (j_ID j) = Some (jr_id r)" for db r
  proof -
    have "refers db u \<Longrightarrow> refers (db\<lparr>db_jobs := db_jobs db @ [r], db_seq := Suc (db_seq db)\<rparr>) u" for u
      by (simp add: refers_def)
    then show ?thesis
      using db r
      by (auto simp: pg_open_def pg_wf_def pg_struct_def keys_append sorted_wrt_append in_keys less_Suc_eq split: option.splits)
  qed
  note opens = this
  show ?thesis
    unfolding ok_to_def
  proof (intro allI impI)
    fix w w' u assume w: "pg_wf w" and ok: "insert_job P j st t key now w = (w', Ok u)"
    then obtain r where "w' = w\<lparr>db_jobs := db_jobs w @ [r], db_seq := Suc (db_seq w)\<rparr>"
        "jr_id r = u" "jr_idem r = key" "jr_token r = db_seq w" "jr_state r = st" "pg_uuid P (j_ID j) = Some u"
        "\<not> list_ex (\<lambda>r. jr_id r = u \<or> (key \<noteq> None \<and> jr_idem r = key)) (db_jobs w)"
      by (auto simp: insert_job_def split: option.splits if_splits)
    then show "pg_open P (j_ID j) st w'"
      using opens [OF w, of r] by (fastforce simp: list_ex_iff in_keys)
  qed
qed

lemma insert_state_closes [triple]:
  "ok_to (pg_open P i n) (insert_state P i n reason data now) (\<lambda>_. pg_wf)"
proof -
  have "pg_wf (db\<lparr>db_states := db_states db @ [r], db_seq := Suc (db_seq db)\<rparr>)"
    if db: "pg_open P i (sr_name r) db" and r: "pg_uuid P i = Some (sr_job r)" "refers db (sr_job r)" "sr_id r = db_seq db" for db r
  proof -
    let ?db = "db\<lparr>db_states := db_states db @ [r], db_seq := Suc (db_seq db)\<rparr>"
    have ref: "refers ?db = refers db"
      by (simp add: refers_def fun_eq_iff)
    show ?thesis
      using db r by (auto simp: pg_open_def pg_wf_def pg_struct_def ref last_name_snoc sorted_wrt_append less_Suc_eq)
  qed
  then show ?thesis
    by (fastforce simp: ok_to_def insert_state_def with_uuid_def list_ex_iff refers_def split: option.splits if_splits)
qed

lemma counter_triple [triple]:
  "ok_to pg_wf (upsert_counter P key d) (\<lambda>_. pg_wf)"
  by (auto simp: ok_to_def upsert_counter_def Let_def pg_wf_def pg_struct_def refers_def split: if_splits)

lemma sched_triples [triple]:
  "ok_to pg_wf (insert_sched P i at) (\<lambda>_. pg_wf)" "ok_to pg_wf (delete_sched P i) (\<lambda>_. pg_wf)"
proof -
  show "ok_to pg_wf (insert_sched P i at) (\<lambda>_. pg_wf)"
    by (auto simp: ok_to_def insert_sched_def with_uuid_def list_ex_iff pg_wf_def pg_struct_def refers_def
        split: option.splits if_splits)
  show "ok_to pg_wf (delete_sched P i) (\<lambda>_. pg_wf)"
    by (auto simp: ok_to_def delete_sched_def with_uuid_def pg_wf_def pg_struct_def refers_def distinct_map_filter
        split: option.splits if_splits)
qed

lemma bump_triple [triple]: "ok_to pg_wf (pg_bumpCounter P n key d) (\<lambda>_. pg_wf)"
  unfolding pg_bumpCounter_def by (rule ok_stmt counter_triple)+


lemma same_key_simps [simp]:
  "same_key (\<lambda>r. r\<lparr>jr_state := f1 r, jr_progress := f2 r, jr_updated := t\<rparr>)"
  "same_key (\<lambda>r. r\<lparr>jr_state := f1 r, jr_updated := t\<rparr>)"
  "same_key (\<lambda>r. r\<lparr>jr_progress := f2 r, jr_updated := t\<rparr>)"
  "same_key (\<lambda>r. r\<lparr>jr_result := f3 r, jr_updated := t\<rparr>)"
  by (simp_all add: same_key_def)

text \<open>Inserting a row with a failing guard, and deleting jobs with all that refers to them.\<close>

lemma delete_jobs_keeps: "keeps pg_wf (delete_jobs gone)"
proof -
  have "pg_wf (fst (delete_jobs gone db))" if db: "pg_wf db" for db
  proof -
    let ?ids = "map jr_id (filter gone (db_jobs db))"
    let ?db = "fst (delete_jobs gone db)"
    from db have dist: "distinct (map jr_id (db_jobs db))" by (simp add: pg_wf_def pg_struct_def)
    have ids: "jr_id r \<in> set ?ids \<longleftrightarrow> gone r" if "r \<in> set (db_jobs db)" for r
      using that dist by (auto simp: distinct_map inj_on_def)
    have ref: "refers db u \<Longrightarrow> u \<notin> set ?ids \<Longrightarrow> refers ?db u" for u
      by (auto simp: refers_def delete_jobs_def Let_def)
    have last_kept: "last_name ?db u = last_name db u" if "u \<notin> set ?ids" for u
    proof -
      have "filter (\<lambda>r. sr_job r = u) (filter (\<lambda>r. sr_job r \<notin> set ?ids) (db_states db)) = filter (\<lambda>r. sr_job r = u) (db_states db)"
        using that by (auto intro: filter_cong)
      then show ?thesis by (simp add: last_name_def delete_jobs_def Let_def)
    qed
    have "pg_struct ?db"
      using db ref unfolding pg_wf_def pg_struct_def
      by (auto simp: delete_jobs_def Let_def distinct_map_filter sorted_wrt_filter_map keys_filter)
    moreover have "last_name ?db (jr_id r) = Some (jr_state r)" if "r \<in> set (db_jobs ?db)" for r
      using that db ids last_kept [of "jr_id r"] by (auto simp: delete_jobs_def Let_def pg_wf_def)
    ultimately show ?thesis by (simp add: pg_wf_def)
  qed
  then show ?thesis by (simp add: keeps_def)
qed

section \<open>Methods\<close>

lemmas keeps_rules = keeps_in_tx keeps_affected keeps_wrapped keeps_no_rows_to keeps_send keeps_read_stmt

lemma no_reads_keeps [simp]: "keeps I no_reads"
  by (simp add: keeps_def no_reads_def)

lemma with_uuid_keeps: "(\<And>u. keeps I (f u)) \<Longrightarrow> keeps I (with_uuid P i f)"
  by (auto simp: keeps_def with_uuid_def split: option.splits)

lemma reads_keep [simp]:
  "keeps I (select_state P i)" "keeps I (select_next P lk qs)" "keeps I (select_due lk t n)" "keeps I (select_key P k)"
  "keeps I (scanJob P i)" "keeps I (select_states P i)" "keeps I (select_jobs P st off lim)"
  by (auto simp: keeps_def select_state_def select_next_def select_due_def select_key_def scanJob_def select_states_def
      select_jobs_def with_uuid_def split: option.splits)

lemma read_locked_keeps: "rely I nt \<Longrightarrow> keeps I (read_locked P (nt k) i msg expected)"
  unfolding read_locked_def [abs_def] by (intro keeps_bind keeps_rules reads_keep) (auto simp: keeps_def)

lemma read_unlocked_keeps: assumes "rely I nt" shows "keeps I (read_unlocked P nt i)"
  using keeps_read_stmt [OF assms reads_keep(1), of 1 P i] assms
  by (auto simp: keeps_def rely_def read_unlocked_def Let_def split: prod.splits result.splits)

lemma statement_keeps:
  "keeps pg_wf (upsert_counter P key d)" "keeps pg_wf (delete_sched P i)"
  by (rule keeps_ok [OF counter_triple] keeps_ok [OF sched_triples(2)];
      auto simp: upsert_counter_def delete_sched_def with_uuid_def Let_def split: option.splits if_splits)+

lemma Enqueue_wf: "rely pg_wf nt \<Longrightarrow> keeps pg_wf (pg_Enqueue P nt e queue job)"
  unfolding pg_Enqueue_def Let_def by (rule keeps_rules no_reads_keeps triple | assumption | simp)+

lemma tryDequeue_wf: "rely pg_wf nt \<Longrightarrow> keeps pg_wf (tryDequeue P nt lk now queues)"
  unfolding tryDequeue_def by (rule keeps_rules reads_keep triple | assumption | simp)+

lemma Requeue_wf: "rely pg_wf nt \<Longrightarrow> keeps pg_wf (pg_Requeue P nt e i reason)"
  unfolding pg_Requeue_def Let_def by (rule keeps_rules read_unlocked_keeps triple | assumption | simp)+

lemma DeleteJob_wf: "rely pg_wf nt \<Longrightarrow> keeps pg_wf (pg_DeleteJob P nt e i)"
  unfolding pg_DeleteJob_def Let_def by (rule keeps_rules read_unlocked_keeps triple | assumption | simp)+

lemma bumpForState_triple [triple]: "ok_to pg_wf (bumpCounterForState P n name) (\<lambda>_. pg_wf)"
  unfolding bumpCounterForState_def by (rule ok_if triple | assumption | simp)+

lemma applyStateTx_triple [triple]: "ok_to pg_wf (applyStateTx P nt e i st) (\<lambda>_. pg_wf)"
  unfolding applyStateTx_def [abs_def] Let_def by (rule triple | assumption | simp)+

lemma ApplyState_wf: "rely pg_wf nt \<Longrightarrow> keeps pg_wf (pg_ApplyState P nt e i expected st)"
  unfolding pg_ApplyState_def by (rule keeps_rules read_locked_keeps triple | assumption | simp)+

lemma ScheduleRetry_wf: "rely pg_wf nt \<Longrightarrow> keeps pg_wf (pg_ScheduleRetry P nt e i at)"
  unfolding pg_ScheduleRetry_def Let_def by (rule keeps_rules read_locked_keeps triple | assumption | simp)+

lemma AddScheduled_wf: "rely pg_wf nt \<Longrightarrow> keeps pg_wf (pg_AddScheduled P nt e at job)"
  unfolding pg_AddScheduled_def Let_def by (rule keeps_rules no_reads_keeps triple | assumption | simp)+

lemma promote_triple [triple]: "ok_to pg_wf (pg_promote_loop P nt ts k ids) (\<lambda>_. pg_wf)"
proof (induction ids arbitrary: k)
  case (Cons i ids)
  show ?case unfolding pg_promote_loop.simps [abs_def] by (rule Cons.IH triple | simp)+
qed (simp add: ok_to_def)

lemma GetDueScheduled_wf: "rely pg_wf nt \<Longrightarrow> keeps pg_wf (pg_GetDueScheduled P nt e lk now n)"
  unfolding pg_GetDueScheduled_def Let_def by (rule keeps_rules reads_keep triple | assumption)+

lemma insert_keyed_wf: "rely pg_wf nt \<Longrightarrow> keeps pg_wf (insert_keyed P nt e queue job)"
  unfolding insert_keyed_def Let_def by (rule keeps_rules no_reads_keeps triple | assumption)+

lemma EnqueueIdempotent_wf: assumes nt: "rely pg_wf nt" shows "keeps pg_wf (pg_EnqueueIdempotent P nt e queue job)"
proof -
  have "keeps pg_wf (send (nt 0) (select_key P k))" for k
    by (rule keeps_rules reads_keep nt)+
  then have "pg_wf w \<Longrightarrow> send (nt 0) (select_key P k) w = (s, r) \<Longrightarrow> pg_wf s" for k w s r
    unfolding keeps_def by (metis fst_conv)
  then show ?thesis
    using insert_keyed_wf [OF nt, of P e queue job] insert_keyed_wf [OF rely_shift [OF nt, of 1], of P e queue job]
    by (auto simp: keeps_def pg_EnqueueIdempotent_def Let_def split: prod.splits result.splits)
qed

lemma HeartbeatJob_wf: "rely pg_wf nt \<Longrightarrow> keeps pg_wf (pg_HeartbeatJob P nt e i)"
  unfolding pg_HeartbeatJob_def [abs_def] by (rule keeps_rules update_other | assumption | simp)+

lemma SetJobResult_wf: "rely pg_wf nt \<Longrightarrow> keeps pg_wf (pg_SetJobResult P nt e i x)"
proof -
  have upd: "keeps pg_wf (update_job P i (\<lambda>r. r\<lparr>jr_result := y, jr_updated := t\<rparr>))" for y t
    by (rule update_other) simp_all
  assume nt: "rely pg_wf nt"
  show ?thesis
    unfolding pg_SetJobResult_def [abs_def] Let_def
    by (rule keeps_rules nt)+ (use upd in \<open>auto simp: keeps_def split: option.splits\<close>)
qed

lemma RemoveExpired_wf: "rely pg_wf nt \<Longrightarrow> keeps pg_wf (pg_RemoveExpired P nt cutoff)"
  unfolding pg_RemoveExpired_def [abs_def] by (rule keeps_bind keeps_rules delete_jobs_keeps | assumption)+ (simp add: keeps_def)

text \<open>Tables that the invariant does not speak of.\<close>

lemma wf_other_tables [simp]:
  "pg_wf (db\<lparr>db_servers := x\<rparr>) = pg_wf db" "pg_wf (db\<lparr>db_locks := l\<rparr>) = pg_wf db"
  "pg_wf (db\<lparr>db_recurring := y\<rparr>) = pg_wf db"
  by (simp_all add: pg_wf_def pg_struct_def refers_def last_name_def)

lemma AddContinuation_wf: "rely pg_wf nt \<Longrightarrow> keeps pg_wf (pg_AddContinuation P nt e i d)"
  unfolding pg_AddContinuation_def [abs_def] Let_def
  by (rule keeps_rules with_uuid_keeps | assumption)+
    (auto simp: keeps_def pg_wf_def pg_struct_def refers_def list_ex_iff sorted_wrt_append less_Suc_eq split: option.splits)

lemma RemoveContinuations_wf: "rely pg_wf nt \<Longrightarrow> keeps pg_wf (pg_RemoveContinuations P nt i)"
  unfolding pg_RemoveContinuations_def [abs_def]
  by (rule keeps_rules with_uuid_keeps | assumption)+
    (auto simp: keeps_def pg_wf_def pg_struct_def refers_def sorted_wrt_filter_map)

lemma single_statements_wf:
  assumes "rely pg_wf nt"
  shows "keeps pg_wf (pg_RemoveScheduled P nt i)" "keeps pg_wf (pg_IncrementCounter P nt key d)"
    "keeps pg_wf (pg_RegisterServer P nt e sv)" "keeps pg_wf (pg_UnregisterServer P nt i)" "keeps pg_wf (pg_Heartbeat P nt e i)"
    "keeps pg_wf (pg_UpsertRecurring P nt e d')" "keeps pg_wf (pg_RemoveRecurring P nt i)"
    "keeps pg_wf (pg_UpdateRecurringLastRun P nt e i t1 t2)"
  unfolding pg_RemoveScheduled_def [abs_def] pg_IncrementCounter_def [abs_def] pg_RegisterServer_def [abs_def]
    pg_UnregisterServer_def [abs_def] pg_Heartbeat_def [abs_def] pg_UpsertRecurring_def [abs_def] pg_RemoveRecurring_def [abs_def]
    pg_UpdateRecurringLastRun_def [abs_def] Let_def
  by (rule keeps_rules statement_keeps assms; (simp add: keeps_def split: option.split; fail)?)+

lemma AcquireLock_wf: "rely pg_wf nt \<Longrightarrow> keeps pg_wf (pg_AcquireLock P nt e res ttl)"
  unfolding pg_AcquireLock_def Let_def
  by (rule keeps_rules no_reads_keeps | assumption)+
    (auto simp: ok_to_def and_then_Ok affected_def stmt_Ok insert_lock_def split: link.splits if_splits)

lemma Release_wf: "rely pg_wf nt \<Longrightarrow> keeps pg_wf (pg_Release P nt l)"
proof -
  assume nt: "rely pg_wf nt"
  have "keeps pg_wf (\<lambda>s. affected ErrLockNotHeld (wrapped ''release lock'' (send (nt 0) (\<lambda>db.
            let mine = (\<lambda>r. lr_resource r = lk_resource l \<and> lr_owner r = lk_ownerID l) in
            if \<not> pg_text P (lk_resource l) then (db, Err badInput) else
            (db\<lparr>db_locks := filter (\<lambda>r. \<not> mine r) (db_locks db)\<rparr>, Ok (length (filter mine (db_locks db))))) s)))"
    by (rule keeps_rules nt)+ (simp add: keeps_def Let_def)
  then show ?thesis
    by (auto simp: keeps_def pg_Release_def split_def Let_def)
qed

end
