(* ===== verification/Postgres_Calls.thy ===== *)
theory Postgres_Calls
  imports Postgres_Invariant
begin

text \<open>
  The calls that change the PostgreSQL tables as one datatype, and what holds of all of them: the
  invariant is kept, no call panics, and a call that returns an error did nothing, or it did all of its
  work and only the answer was lost.
\<close>

section \<open>Calls\<close>

datatype pg_call =
    CEnqueue env string job
  | CTryDequeue "string list" time "string list"
  | CRequeue env string string
  | CApplyState env string string jobState
  | CHeartbeatJob env string
  | CDeleteJob env string
  | CEnqueueIdempotent env string job
  | CScheduleRetry env string time
  | CSetJobResult env string bytes
  | CRegisterServer env serverInfo
  | CUnregisterServer string
  | CHeartbeat env string
  | CIncrementCounter string int64
  | CAcquireLock env string duration
  | CRelease lock
  | CRemoveExpired time
  | CAddScheduled env time job
  | CGetDueScheduled env "string list" time int
  | CRemoveScheduled string
  | CUpsertRecurring env recurringJobEntry
  | CRemoveRecurring string
  | CUpdateRecurringLastRun env string time time
  | CAddContinuation env string continuationEntry
  | CRemoveContinuations string

primrec pg_run :: "pg \<Rightarrow> pg_db net \<Rightarrow> pg_call \<Rightarrow> unit sql" where
  "pg_run P nt (CEnqueue e q j) s = no_value (pg_Enqueue P nt e q j s)"
| "pg_run P nt (CTryDequeue lk now qs) s = no_value (tryDequeue P nt lk now qs s)"
| "pg_run P nt (CRequeue e i why) s = pg_Requeue P nt e i why s"
| "pg_run P nt (CApplyState e i cur st) s = pg_ApplyState P nt e i cur st s"
| "pg_run P nt (CHeartbeatJob e i) s = pg_HeartbeatJob P nt e i s"
| "pg_run P nt (CDeleteJob e i) s = pg_DeleteJob P nt e i s"
| "pg_run P nt (CEnqueueIdempotent e q j) s = no_value (pg_EnqueueIdempotent P nt e q j s)"
| "pg_run P nt (CScheduleRetry e i at) s = pg_ScheduleRetry P nt e i at s"
| "pg_run P nt (CSetJobResult e i x) s = pg_SetJobResult P nt e i x s"
| "pg_run P nt (CRegisterServer e sv) s = pg_RegisterServer P nt e sv s"
| "pg_run P nt (CUnregisterServer i) s = pg_UnregisterServer P nt i s"
| "pg_run P nt (CHeartbeat e i) s = pg_Heartbeat P nt e i s"
| "pg_run P nt (CIncrementCounter k d) s = pg_IncrementCounter P nt k d s"
| "pg_run P nt (CAcquireLock e r ttl) s = no_value (pg_AcquireLock P nt e r ttl s)"
| "pg_run P nt (CRelease l) s = (fst (pg_Release P nt l s), snd (snd (pg_Release P nt l s)))"
| "pg_run P nt (CRemoveExpired t) s = no_value (pg_RemoveExpired P nt t s)"
| "pg_run P nt (CAddScheduled e at j) s = no_value (pg_AddScheduled P nt e at j s)"
| "pg_run P nt (CGetDueScheduled e lk now n) s = no_value (pg_GetDueScheduled P nt e lk now n s)"
| "pg_run P nt (CRemoveScheduled i) s = pg_RemoveScheduled P nt i s"
| "pg_run P nt (CUpsertRecurring e d) s = pg_UpsertRecurring P nt e d s"
| "pg_run P nt (CRemoveRecurring i) s = pg_RemoveRecurring P nt i s"
| "pg_run P nt (CUpdateRecurringLastRun e i t1 t2) s = pg_UpdateRecurringLastRun P nt e i t1 t2 s"
| "pg_run P nt (CAddContinuation e i d) s = pg_AddContinuation P nt e i d s"
| "pg_run P nt (CRemoveContinuations i) s = pg_RemoveContinuations P nt i s"

lemma no_value_keeps: "keeps I f \<Longrightarrow> keeps I (\<lambda>s. no_value (f s))"
  unfolding no_value_def by (rule keeps_bind) (auto simp: keeps_def)

lemmas calls_wf = Enqueue_wf tryDequeue_wf Requeue_wf ApplyState_wf HeartbeatJob_wf DeleteJob_wf EnqueueIdempotent_wf
  ScheduleRetry_wf SetJobResult_wf single_statements_wf AcquireLock_wf RemoveExpired_wf AddScheduled_wf
  GetDueScheduled_wf AddContinuation_wf RemoveContinuations_wf

lemma run_wf: assumes "rely pg_wf nt" shows "keeps pg_wf (pg_run P nt c)"
proof (cases c)
  case (CRelease l)
  then show ?thesis using Release_wf [OF assms, of P l] by (simp add: keeps_def)
qed (simp_all only: pg_run.simps [abs_def], (rule no_value_keeps calls_wf assms)+)

lemma dequeue_loop_wf:
  assumes "rely pg_wf nt" and "\<forall>p\<in>set ws. \<forall>t. pg_wf t \<longrightarrow> pg_wf (fst p t)"
    and "pg_dequeue_loop P nt e lk qs k ws s = Some (s', r)" "pg_wf s"
  shows "pg_wf s'"
  using assms(2-)
proof (induction ws arbitrary: k s)
  case (Cons p ws)
  obtain others wk where p: "p = (others, wk)" by (cases p)
  obtain t x where t: "tryDequeue P (\<lambda>m. nt (m + 6 * k)) (lk k) (now_at e k) qs (others s) = (t, x)"
    by (cases "tryDequeue P (\<lambda>m. nt (m + 6 * k)) (lk k) (now_at e k) qs (others s)")
  have "keeps pg_wf (tryDequeue P (\<lambda>m. nt (m + 6 * k)) (lk k) (now_at e k) qs)"
    by (rule tryDequeue_wf [OF rely_shift [OF assms(1)]])
  then have "pg_wf t" using Cons.prems p t unfolding keeps_def by (metis fst_conv list.set_intros(1))
  then show ?case
    using Cons p t by (auto split: result.splits if_splits wake.splits)
qed simp

section \<open>All or nothing\<close>

text \<open>The effects of the others before the first \<open>n\<close> trips.\<close>

definition others :: "pg_db net \<Rightarrow> nat \<Rightarrow> pg_db \<Rightarrow> pg_db" where
  "others nt n s = foldl (\<lambda>t k. fst (nt k) t) s [0..<n]"

lemma others_simps [simp]: "others nt 0 s = s" "others nt (Suc n) s = fst (nt n) (others nt n s)"
  by (simp_all add: others_def)

text \<open>The same network with the answer of trip \<open>m\<close> delivered.\<close>

definition answered :: "pg_db net \<Rightarrow> nat \<Rightarrow> pg_db net" where
  "answered nt m = nt(m := (fst (nt m), Delivered))"

lemma answered_simps [simp]:
  "fst (answered nt m k) = fst (nt k)" "k \<noteq> m \<Longrightarrow> answered nt m k = nt k" "snd (answered nt m m) = Delivered"
  by (simp_all add: answered_def)

definition all_or_nothing :: "(pg_db net \<Rightarrow> 'a sql) \<Rightarrow> pg_db net \<Rightarrow> bool" where
  "all_or_nothing F nt \<longleftrightarrow> (\<forall>s.
     case F nt s of
       (t, Ok _) \<Rightarrow> True
     | (t, Err _) \<Rightarrow> (\<exists>n. t = others nt n s) \<or> (\<exists>m a. F (answered nt m) s = (t, Ok a))
     | (t, Panic _) \<Rightarrow> False)"

definition no_panic :: "'a sql \<Rightarrow> bool" where
  "no_panic f \<longleftrightarrow> (\<forall>s p. snd (f s) \<noteq> Panic p)"

named_theorems panic_free \<open>statements do not panic\<close>

lemma and_then_Panic: "snd (and_then x f) = Panic p \<longleftrightarrow> snd x = Panic p \<or> (\<exists>s a. x = (s, Ok a) \<and> snd (f s a) = Panic p)"
  by (cases x; cases "snd x") auto

lemma panic_and_then [panic_free]:
  "no_panic f \<Longrightarrow> (\<And>a. no_panic (g a)) \<Longrightarrow> no_panic (\<lambda>w. and_then (f w) (\<lambda>w a. g a w))"
  by (auto simp: no_panic_def and_then_Panic)

lemma panic_stmt [panic_free]: "no_panic f \<Longrightarrow> no_panic (stmt n msg f)"
  by (auto simp: no_panic_def stmt_def wrapped_def split: link.splits result.splits)

lemma panic_affected [panic_free]: "no_panic f \<Longrightarrow> no_panic (\<lambda>w. affected e (f w))"
  unfolding affected_def by (rule panic_and_then) (auto simp: no_panic_def)

lemma panic_return [panic_free]: "no_panic (\<lambda>w. (w, Ok a))"
  by (simp add: no_panic_def)

lemma panic_statements [panic_free]:
  "no_panic (insert_job P j st t key now)" "no_panic (insert_state P i n reason data now)" "no_panic (insert_sched P i at)"
  "no_panic (delete_sched P i)" "no_panic (update_job P i f)" "no_panic (upsert_counter P k d)"
  by (auto simp: no_panic_def insert_job_def insert_state_def insert_sched_def delete_sched_def update_job_def
      upsert_counter_def with_uuid_def Let_def split: option.splits if_splits)

lemma panic_bump [panic_free]: "no_panic (pg_bumpCounter P n k d)"
  unfolding pg_bumpCounter_def by (rule panic_free)+

lemma panic_bumpFor [panic_free]: "no_panic (bumpCounterForState P n name)"
  unfolding bumpCounterForState_def by (auto intro: panic_free)

lemma panic_promote [panic_free]: "no_panic (pg_promote_loop P nt ts k ids)"
proof (induction ids arbitrary: k)
  case (Cons i ids)
  show ?case unfolding pg_promote_loop.simps [abs_def] by (rule Cons.IH panic_free)+
qed (simp add: no_panic_def)

lemma panic_applyStateTx [panic_free]: "no_panic (applyStateTx P nt e i st)"
proof -
  have guarded: "no_panic (\<lambda>w. if c then (w, Err badInput) else update_job P i f w)" for c f
    using panic_statements(5) by (simp add: no_panic_def)
  show ?thesis
    unfolding applyStateTx_def [abs_def] Let_def by (rule panic_free guarded)+
qed


text \<open>A transaction that starts at trip \<open>k\<close> and commits at trip \<open>m\<close>.\<close>

lemma in_tx_atomic:
  assumes F: "\<And>nt. F nt = in_tx (nt k) msg (reads nt) (writes nt) (snd (nt m)) wrap" and k: "k \<noteq> m"
    and same: "reads (answered nt m) = reads nt" "writes (answered nt m) = writes nt"
    and reads: "no_panic (reads nt)" "\<And>s. \<exists>n. fst (reads nt (others nt (Suc k) s)) = others nt n s"
    and writes: "\<And>b. no_panic (writes nt b)"
  shows "case F nt (others nt k s) of
      (t, Ok _) \<Rightarrow> True
    | (t, Err _) \<Rightarrow> (\<exists>n. t = others nt n s) \<or> (\<exists>a. F (answered nt m) (others nt k s) = (t, Ok a))
    | (t, Panic _) \<Rightarrow> False"
proof (cases "snd (nt k)")
  case (Lost b err)
  then have "F nt (others nt k s) = (others nt (Suc k) s, Err (ErrWrap msg err))"
    by (simp add: F in_tx_def send_def Let_def)
  then show ?thesis using k by (auto intro: exI [of _ "Suc k"])
next
  case Delivered
  obtain s2 x where s2: "reads nt (others nt (Suc k) s) = (s2, x)" by (cases "reads nt (others nt (Suc k) s)")
  with reads(2) [of s] obtain n where n: "s2 = others nt n s" by auto
  show ?thesis
  proof (cases x)
    case (Ok b)
    obtain w y where w: "writes nt b s2 = (w, y)" by (cases "writes nt b s2")
    have ok: "y \<noteq> Panic p" for p using writes [of b] w unfolding no_panic_def by (metis snd_conv)
    have ans: "F (answered nt m) (others nt k s) = (w, Ok a)" if "y = Ok a" for a
      using Delivered s2 Ok w that k by (simp add: F in_tx_def send_def Let_def same)
    show ?thesis
      using Delivered s2 Ok w ok ans n
      by (cases y; cases "snd (nt m)") (auto simp: F in_tx_def send_def Let_def)
  next
    case (Panic p)
    then show ?thesis using reads(1) s2 unfolding no_panic_def by (metis snd_conv)
  qed (use Delivered s2 n in \<open>auto simp: F in_tx_def send_def Let_def\<close>)
qed

lemma reads_none: "no_panic no_reads" "\<exists>n. fst (no_reads (others nt (Suc k) s)) = others nt n s"
  by (auto simp: no_panic_def no_reads_def intro: exI [of _ "Suc k"])

lemma reads_locked:
  "no_panic (read_locked P (nt 1) i msg expected)"
  "\<exists>n. fst (read_locked P (nt 1) i msg expected (others nt (Suc 0) s)) = others nt n s"
proof -
  show "no_panic (read_locked P (nt 1) i msg expected)"
    unfolding no_panic_def read_locked_def and_then_Panic
    by (auto simp: no_rows_to_def read_stmt_def select_state_def with_uuid_def split: link.splits option.splits result.splits)
  have "fst (read_locked P (nt 1) i msg expected (others nt (Suc 0) s)) = others nt 2 s"
    by (auto simp: read_locked_def no_rows_to_def read_stmt_def select_state_def with_uuid_def numeral_2_eq_2
        split: link.splits option.splits)
  then show "\<exists>n. fst (read_locked P (nt 1) i msg expected (others nt (Suc 0) s)) = others nt n s"
    by (auto intro: exI [of _ 2])
qed

lemma reads_unlocked:
  "no_panic (read_unlocked P nt i)"
  "\<exists>n. fst (read_unlocked P nt i (others nt (Suc 0) s)) = others nt n s"
proof -
  show "no_panic (read_unlocked P nt i)"
    by (auto simp: no_panic_def read_unlocked_def read_stmt_def select_state_def with_uuid_def Let_def
        split: link.splits option.splits prod.splits result.splits)
  have "fst (read_unlocked P nt i (others nt (Suc 0) s)) \<in> {others nt 2 s, others nt 3 s}"
    by (auto simp: read_unlocked_def read_stmt_def select_state_def with_uuid_def Let_def numeral_2_eq_2 numeral_3_eq_3
        split: link.splits option.splits)
  then show "\<exists>n. fst (read_unlocked P nt i (others nt (Suc 0) s)) = others nt n s"
    by (auto intro: exI [of _ 2] exI [of _ 3])
qed

lemma reads_select:
  assumes "\<And>t. fst (f t) = t" "no_panic f"
  shows "no_panic (\<lambda>s. no_rows_to e msg (read_stmt (nt 1) f s))" "no_panic (\<lambda>s. wrapped msg (read_stmt (nt 1) f s))"
    "\<exists>n. fst (no_rows_to e msg (read_stmt (nt 1) f (others nt (Suc 0) s))) = others nt n s"
    "\<exists>n. fst (wrapped msg (read_stmt (nt 1) f (others nt (Suc 0) s))) = others nt n s"
proof -
  have "fst (read_stmt (nt 1) f (others nt (Suc 0) s)) = others nt 2 s"
    using assms(1) by (auto simp: read_stmt_def numeral_2_eq_2 split: link.splits)
  then show "\<exists>n. fst (no_rows_to e msg (read_stmt (nt 1) f (others nt (Suc 0) s))) = others nt n s"
    "\<exists>n. fst (wrapped msg (read_stmt (nt 1) f (others nt (Suc 0) s))) = others nt n s"
    by (auto simp: no_rows_to_def wrapped_def intro: exI [of _ 2])
qed (use assms(2) in \<open>auto simp: no_panic_def no_rows_to_def wrapped_def read_stmt_def split: link.splits result.splits\<close>)

text \<open>The rules for methods: one transaction, one statement, one statement that must affect a row.\<close>

lemma tx_atomic:
  assumes F: "\<And>nt. F nt = in_tx (nt 0) msg (reads nt) (writes nt) (snd (nt m)) wrap" and m: "0 < m"
    and same: "reads (answered nt m) = reads nt" "writes (answered nt m) = writes nt"
    and reads: "no_panic (reads nt)" "\<And>s. \<exists>n. fst (reads nt (others nt (Suc 0) s)) = others nt n s"
    and writes: "\<And>b. no_panic (writes nt b)"
  shows "all_or_nothing F nt"
  using in_tx_atomic [where F = F, OF F _ same reads writes] m
  by (fastforce simp: all_or_nothing_def split: prod.splits result.splits)

lemma map_atomic:
  assumes "all_or_nothing F nt"
  shows "all_or_nothing (\<lambda>nt s. and_then (F nt s) (\<lambda>s a. (s, Ok (g a)))) nt"
  unfolding all_or_nothing_def
proof
  fix s
  show "case and_then (F nt s) (\<lambda>s a. (s, Ok (g a))) of
      (t, Ok _) \<Rightarrow> True
    | (t, Err _) \<Rightarrow> (\<exists>n. t = others nt n s) \<or> (\<exists>m a. and_then (F (answered nt m) s) (\<lambda>s a. (s, Ok (g a))) = (t, Ok a))
    | (t, Panic _) \<Rightarrow> False"
  proof (cases "F nt s")
    case (Pair t r)
    with assms [unfolded all_or_nothing_def, rule_format, of s] show ?thesis
      by (cases r) (auto simp: and_then_Ok; blast)+
  qed
qed

text \<open>A statement whose error leaves the database as it was.\<close>

definition calm :: "'a sql \<Rightarrow> bool" where
  "calm f \<longleftrightarrow> (\<forall>s t err. f s = (t, Err err) \<longrightarrow> t = s) \<and> (\<forall>s t p. f s \<noteq> (t, Panic p))"

lemma one_trip:
  assumes F: "\<And>nt s. F nt s = (case snd (nt 0) of
       Delivered \<Rightarrow> g (fst (nt 0) s)
     | Lost did err \<Rightarrow> (if did then fst (g (fst (nt 0) s)) else fst (nt 0) s, Err (w err)))"
    and g: "calm g"
  shows "all_or_nothing F nt"
  unfolding all_or_nothing_def
proof
  fix s
  obtain t r where tr: "g (fst (nt 0) s) = (t, r)" by (cases "g (fst (nt 0) s)")
  have one: "\<exists>n. fst (nt 0) s = others nt n s" by (auto intro: exI [of _ "Suc 0"])
  have ans: "\<exists>m a. F (answered nt m) s = (t, Ok a)" if "r = Ok a" for a
    using tr that by (auto simp: F intro: exI [of _ 0])
  have "\<forall>err. r = Err err \<longrightarrow> t = fst (nt 0) s" "\<forall>p. r \<noteq> Panic p"
    using g tr unfolding calm_def by blast+
  then show "case F nt s of
      (t, Ok _) \<Rightarrow> True
    | (t, Err _) \<Rightarrow> (\<exists>n. t = others nt n s) \<or> (\<exists>m a. F (answered nt m) s = (t, Ok a))
    | (t, Panic _) \<Rightarrow> False"
    unfolding F [of nt] using tr one ans
    by (cases "snd (nt 0)"; cases r) (simp_all del: others_simps split: if_split)
qed

lemma fst_affected [simp]: "fst (affected e x) = fst x"
  by (cases x; cases "snd x") (auto simp: affected_def)

lemma wrapped_other:
  "wrapped msg x = (t, Err err) \<longleftrightarrow> (\<exists>err'. x = (t, Err err') \<and> err = ErrWrap msg err')"
  "wrapped msg x = (t, Panic p) \<longleftrightarrow> x = (t, Panic p)"
  by (cases x; cases "snd x"; auto)+

lemma calm_wrapped: "calm f \<Longrightarrow> calm (\<lambda>s. wrapped msg (f s))"
  by (auto simp: calm_def wrapped_other)

lemma affected_other:
  "affected e x = (t, Err err) \<longleftrightarrow> x = (t, Err err) \<or> (x = (t, Ok 0) \<and> err = e)"
  "affected e x = (t, Panic p) \<longleftrightarrow> x = (t, Panic p)"
  by (cases x; cases "snd x"; auto simp: affected_def)+

lemma calm_affected: "calm f \<Longrightarrow> \<forall>s t. f s = (t, Ok 0) \<longrightarrow> t = s \<Longrightarrow> calm (\<lambda>s. affected e (f s))"
  by (auto simp: calm_def affected_other)

lemma fst_wrapped [simp]: "fst (wrapped msg x) = fst x"
  by (simp add: wrapped_def)

lemma affected_Err [simp]: "affected e (t, Err err) = (t, Err err)"
  by (simp add: affected_def)

lemma send_atomic: "calm f \<Longrightarrow> all_or_nothing (\<lambda>nt s. wrapped msg (send (nt 0) f s)) nt"
  by (rule one_trip [where g = "\<lambda>s. wrapped msg (f s)" and w = "ErrWrap msg"])
    (simp_all add: send_def Let_def calm_wrapped split: link.split)

lemma affected_atomic:
  "calm f \<Longrightarrow> \<forall>s t. f s = (t, Ok 0) \<longrightarrow> t = s \<Longrightarrow>
   all_or_nothing (\<lambda>nt s. affected e (wrapped msg (send (nt 0) f s))) nt"
  by (rule one_trip [where g = "\<lambda>s. affected e (wrapped msg (f s))" and w = "ErrWrap msg"])
    (simp_all add: send_def Let_def calm_wrapped calm_affected split: link.split)

lemma update_none: "filter p xs = [] \<Longrightarrow> map (\<lambda>r. if p r then f r else r) xs = xs"
  by (induction xs) (auto split: if_splits)

lemma update_job_calm: "calm (update_job P i f)" "update_job P i f s = (t, Ok 0) \<Longrightarrow> t = s"
  by (auto simp: calm_def update_job_def with_uuid_def update_none split: option.splits)

section \<open>The methods\<close>

lemma promote_loop_answered: "m < k \<Longrightarrow> pg_promote_loop P (answered nt m) ts k = pg_promote_loop P nt ts k"
proof -
  have "m < k \<Longrightarrow> pg_promote_loop P (answered nt m) ts k ids s = pg_promote_loop P nt ts k ids s" for ids s
    by (induction ids arbitrary: k s) simp_all
  then show "m < k \<Longrightarrow> pg_promote_loop P (answered nt m) ts k = pg_promote_loop P nt ts k"
    by (simp add: fun_eq_iff)
qed

lemma select_calm: "fst (select_next P lk qs t) = t" "no_panic (select_next P lk qs)"
  "fst (select_due lk' now n t) = t" "no_panic (select_due lk' now n)"
  by (auto simp: select_next_def select_due_def no_panic_def split: list.splits)

lemma read_unlocked_answered: "2 < m \<Longrightarrow> read_unlocked P (answered nt m) i = read_unlocked P nt i"
  by (auto simp: read_unlocked_def fun_eq_iff split: prod.split result.split)

lemmas tx_rules = reads_none reads_locked reads_unlocked reads_select select_calm read_unlocked_answered

lemma Enqueue_atomic: "all_or_nothing (\<lambda>nt. pg_Enqueue P nt e q j) nt"
  unfolding pg_Enqueue_def Let_def
  by (rule tx_atomic [where m = 4], rule refl) (rule tx_rules panic_free | simp)+

lemma tryDequeue_atomic: "all_or_nothing (\<lambda>nt. tryDequeue P nt lk now qs) nt"
  unfolding tryDequeue_def
  by (rule tx_atomic [where m = 5], rule refl) (rule tx_rules panic_free | simp)+

lemma Requeue_atomic: "all_or_nothing (\<lambda>nt. pg_Requeue P nt e i why) nt"
  unfolding pg_Requeue_def Let_def
  by (rule tx_atomic [where m = 4], rule refl) (rule tx_rules panic_free | simp)+

lemma DeleteJob_atomic: "all_or_nothing (\<lambda>nt. pg_DeleteJob P nt e i) nt"
  unfolding pg_DeleteJob_def Let_def
  by (rule tx_atomic [where m = 4], rule refl) (rule tx_rules panic_free | simp)+

lemma ApplyState_atomic: "all_or_nothing (\<lambda>nt. pg_ApplyState P nt e i cur st) nt"
proof -
  have same: "applyStateTx P (answered nt 5) e i st = applyStateTx P nt e i st"
    by (simp add: applyStateTx_def fun_eq_iff)
  show ?thesis
    unfolding pg_ApplyState_def
    by (rule tx_atomic [where m = 5], rule refl) (rule tx_rules panic_free | simp add: same)+
qed

lemma ScheduleRetry_atomic: "all_or_nothing (\<lambda>nt. pg_ScheduleRetry P nt e i at) nt"
  unfolding pg_ScheduleRetry_def Let_def
  by (rule tx_atomic [where m = 7], rule refl) (rule tx_rules panic_free | simp)+

lemma AddScheduled_atomic: "all_or_nothing (\<lambda>nt. pg_AddScheduled P nt e at j) nt"
  unfolding pg_AddScheduled_def Let_def
  by (rule tx_atomic [where m = 5], rule refl) (rule tx_rules panic_free | simp)+

lemma GetDueScheduled_atomic: "all_or_nothing (\<lambda>nt. pg_GetDueScheduled P nt e lk now n) nt"
  unfolding pg_GetDueScheduled_def Let_def
  by (rule tx_atomic [where m = 2], rule refl)
    (rule tx_rules panic_free | simp add: promote_loop_answered)+

lemma AcquireLock_atomic: "all_or_nothing (\<lambda>nt. pg_AcquireLock P nt e res ttl) nt"
proof -
  have body: "no_panic (\<lambda>w. case snd n of
      Delivered \<Rightarrow> insert_lock P res own exp (w\<lparr>db_locks := f (db_locks w)\<rparr>) | Lost b err \<Rightarrow> (w, Err txAborted))" for n own exp f
    by (auto simp: no_panic_def insert_lock_def split: link.splits)
  show ?thesis
    unfolding pg_AcquireLock_def Let_def
    by (rule tx_atomic [where m = 3], rule refl) (rule tx_rules panic_free body | simp)+
qed

lemma Release_atomic: "all_or_nothing (\<lambda>nt s. (fst (pg_Release P nt l s), snd (snd (pg_Release P nt l s)))) nt"
proof -
  have "(fst (pg_Release P nt l s), snd (snd (pg_Release P nt l s))) =
     affected ErrLockNotHeld (wrapped ''release lock'' (send (nt 0) (\<lambda>db.
       if \<not> pg_text P (lk_resource l) then (db, Err badInput) else
       (db\<lparr>db_locks := filter (\<lambda>r. \<not> (lr_resource r = lk_resource l \<and> lr_owner r = lk_ownerID l)) (db_locks db)\<rparr>,
        Ok (length (filter (\<lambda>r. lr_resource r = lk_resource l \<and> lr_owner r = lk_ownerID l) (db_locks db))))) s))" for nt s
    by (simp add: pg_Release_def split_def Let_def del: fst_affected fst_wrapped)
  moreover have "db\<lparr>db_locks := filter (\<lambda>r. \<not> p r) (db_locks db)\<rparr> = db" if "filter p (db_locks db) = []" for p db
  proof -
    have "filter (\<lambda>r. \<not> p r) (db_locks db) = db_locks db"
      using that by (simp add: filter_empty_conv filter_id_conv)
    then show ?thesis by simp
  qed
  ultimately show ?thesis
    by (simp only:) (rule affected_atomic, auto simp: calm_def simp del: de_Morgan_conj)
qed

lemma insert_keyed_atomic: "all_or_nothing (\<lambda>nt. insert_keyed P nt e q j) nt"
  unfolding insert_keyed_def Let_def
  by (rule tx_atomic [where m = 4], rule refl) (rule tx_rules panic_free | simp)+

lemma others_shift: "others (\<lambda>m. nt (Suc m)) n (fst (nt 0) s) = others nt (Suc n) s"
  by (induction n) simp_all

lemma answered_shift: "answered (\<lambda>m. nt (Suc m)) m = (\<lambda>k. answered nt (Suc m) (Suc k))"
  by (simp add: answered_def fun_eq_iff)

lemma EnqueueIdempotent_atomic: "all_or_nothing (\<lambda>nt. pg_EnqueueIdempotent P nt e q j) nt"
proof (cases "j_IdempotencyKey j = ''''")
  case True
  then have "(\<lambda>nt. pg_EnqueueIdempotent P nt e q j) = (\<lambda>nt. insert_keyed P nt e q j)"
    by (simp add: pg_EnqueueIdempotent_def fun_eq_iff)
  then show ?thesis by (simp only: insert_keyed_atomic)
next
  case False
  let ?shift = "\<lambda>nt m. nt (Suc m)"
  show ?thesis
    unfolding all_or_nothing_def
  proof
    fix s
    obtain t x where sel: "send (nt 0) (select_key P (j_IdempotencyKey j)) s = (t, x)"
      by (cases "send (nt 0) (select_key P (j_IdempotencyKey j)) s")
    then have t: "t = fst (nt 0) s" by (auto simp: send_def select_key_def Let_def split: link.splits if_splits)
    have ans: "pg_EnqueueIdempotent P (answered nt (Suc m)) e q j s = insert_keyed P (answered (?shift nt) m) e q j t"
      if "\<forall>i. x \<noteq> Ok i" for m
      using sel that False by (cases x) (simp_all add: pg_EnqueueIdempotent_def answered_shift)
    show "case pg_EnqueueIdempotent P nt e q j s of
        (t, Ok _) \<Rightarrow> True
      | (t, Err _) \<Rightarrow> (\<exists>n. t = others nt n s) \<or> (\<exists>m a. pg_EnqueueIdempotent P (answered nt m) e q j s = (t, Ok a))
      | (t, Panic _) \<Rightarrow> False"
    proof (cases "\<exists>i. x = Ok i")
      case True
      then show ?thesis using sel False by (auto simp: pg_EnqueueIdempotent_def)
    next
      case other: False
      then have run: "pg_EnqueueIdempotent P nt e q j s = insert_keyed P (?shift nt) e q j t"
        using sel False by (cases x) (simp_all add: pg_EnqueueIdempotent_def)
      show ?thesis
        using insert_keyed_atomic [of P e q j "?shift nt", unfolded all_or_nothing_def, rule_format, of t] other
        unfolding run by (auto simp: t others_shift ans [unfolded t, symmetric] split: prod.splits result.splits simp del: others_simps)
    qed
  qed
qed

lemma server_calls_atomic:
  "all_or_nothing (\<lambda>nt. pg_RegisterServer P nt e sv) nt" "all_or_nothing (\<lambda>nt. pg_UnregisterServer P nt i) nt"
  "all_or_nothing (\<lambda>nt. pg_Heartbeat P nt e i) nt"
  unfolding pg_RegisterServer_def [abs_def] pg_UnregisterServer_def [abs_def] pg_Heartbeat_def [abs_def] Let_def
  by (rule send_atomic affected_atomic, auto simp: calm_def update_none)+

lemma recurring_calls_atomic:
  "all_or_nothing (\<lambda>nt. pg_UpsertRecurring P nt e d) nt" "all_or_nothing (\<lambda>nt. pg_RemoveRecurring P nt i) nt"
  "all_or_nothing (\<lambda>nt. pg_UpdateRecurringLastRun P nt e i t1 t2) nt"
  unfolding pg_UpsertRecurring_def [abs_def] pg_RemoveRecurring_def [abs_def] pg_UpdateRecurringLastRun_def [abs_def] Let_def
  by (rule send_atomic affected_atomic, auto simp: calm_def update_none split: option.splits)+

lemma row_calls_atomic:
  "all_or_nothing (\<lambda>nt. pg_RemoveScheduled P nt i) nt" "all_or_nothing (\<lambda>nt. pg_IncrementCounter P nt k d) nt"
  "all_or_nothing (\<lambda>nt. pg_AddContinuation P nt e i c) nt" "all_or_nothing (\<lambda>nt. pg_RemoveContinuations P nt i) nt"
  unfolding pg_RemoveScheduled_def [abs_def] pg_IncrementCounter_def [abs_def] pg_AddContinuation_def [abs_def]
    pg_RemoveContinuations_def [abs_def] Let_def
  by (rule send_atomic;
      auto simp: calm_def with_uuid_def delete_sched_def upsert_counter_def Let_def split: option.splits)+

lemma job_calls_atomic:
  "all_or_nothing (\<lambda>nt. pg_HeartbeatJob P nt e i) nt" "all_or_nothing (\<lambda>nt. pg_SetJobResult P nt e i x) nt"
proof -
  have "calm (\<lambda>db. case y of None \<Rightarrow> update_job P i f db
      | Some x \<Rightarrow> (case pg_jsonb P x of None \<Rightarrow> (db, Err badInput) | Some z \<Rightarrow> update_job P i (g z) db))" for y f g
    using update_job_calm(1) by (auto simp: calm_def split: option.splits)
  moreover have "\<forall>s t. (case y of None \<Rightarrow> update_job P i f s
      | Some x \<Rightarrow> (case pg_jsonb P x of None \<Rightarrow> (s, Err badInput) | Some z \<Rightarrow> update_job P i (g z) s)) = (t, Ok 0) \<longrightarrow> t = s" for y f g
    using update_job_calm(2) by (auto split: option.splits)
  ultimately show "all_or_nothing (\<lambda>nt. pg_SetJobResult P nt e i x) nt"
    unfolding pg_SetJobResult_def [abs_def] Let_def by (rule affected_atomic)
  show "all_or_nothing (\<lambda>nt. pg_HeartbeatJob P nt e i) nt"
    unfolding pg_HeartbeatJob_def [abs_def] by (rule affected_atomic) (auto simp: update_job_calm)
qed

lemma RemoveExpired_atomic: "all_or_nothing (\<lambda>nt. pg_RemoveExpired P nt t) nt"
  unfolding pg_RemoveExpired_def [abs_def]
  by (rule map_atomic, rule send_atomic) (auto simp: calm_def delete_jobs_def Let_def)

lemma no_value_atomic: "all_or_nothing F nt \<Longrightarrow> all_or_nothing (\<lambda>nt s. no_value (F nt s)) nt"
  unfolding no_value_def by (rule map_atomic)

lemmas calls_atomic = Enqueue_atomic tryDequeue_atomic Requeue_atomic DeleteJob_atomic ApplyState_atomic ScheduleRetry_atomic
  AddScheduled_atomic GetDueScheduled_atomic AcquireLock_atomic Release_atomic EnqueueIdempotent_atomic
  server_calls_atomic recurring_calls_atomic row_calls_atomic job_calls_atomic RemoveExpired_atomic

lemma run_atomic: "all_or_nothing (\<lambda>nt. pg_run P nt c) nt"
  by (cases c; simp only: pg_run.simps [abs_def]; (rule no_value_atomic calls_atomic)+)

end
