(* ===== verification/Postgres_Effects.thy ===== *)
theory Postgres_Effects
  imports Postgres_Calls
begin

text \<open>
  What the statements and transactions of the PostgreSQL store do when they succeed, as updates of the
  tables: \<open>set_job\<close>, \<open>add_state\<close>, \<open>bump\<close>. \<open>pg_server\<close> says what is used of the server: UUIDs have one
  canonical form, plain text is a text value, and the JSON texts the store writes are JSON.
\<close>

section \<open>The server\<close>

definition plain :: "string \<Rightarrow> bool" where
  "plain x \<longleftrightarrow> list_all (\<lambda>c. 0 < (of_char c :: nat) \<and> (of_char c :: nat) < 128) x"

definition pg_server :: "pg \<Rightarrow> bool" where
  "pg_server P \<longleftrightarrow>
     (\<forall>i u. pg_uuid P i = Some u \<longrightarrow> pg_uuid P u = Some u) \<and> (\<forall>x. plain x \<longrightarrow> pg_text P x) \<and>
     pg_jsonb P ''{}'' = Some ''{}'' \<and> pg_jsonb P ''[]'' = Some ''[]'' \<and>
     (\<forall>k v. plain k \<longrightarrow> plain v \<longrightarrow> (\<exists>d. pg_jsonb P (pg_marshal P [(k, v)]) = Some d \<and> pg_unmarshal P d = [(k, v)]))"

lemma plain_names [simp]:
  "plain StateEnqueued" "plain StateProcessing" "plain StateSucceeded" "plain StateFailed" "plain StateScheduled"
  "plain StateDeleted" "plain StateDead" "plain StateCancelled" "plain []"
  by (simp_all add: state_defs plain_def)

lemma plain_append [simp]: "plain (x @ y) \<longleftrightarrow> plain x \<and> plain y"
  by (simp add: plain_def)

lemma plain_counters [simp]: "plain ''dequeued''" "plain ''enqueued''" "plain ''scheduled''" "plain ''succeeded''" "plain ''failed''"
  "plain ''dead''" "plain ''server_id''" "plain ''enqueue_at''" "plain ''attempt''" "plain ''retry exhausted''"
  by (simp_all add: plain_def)

lemma plain_show: "plain (show_nat n)" "plain (show_int i)"
proof -
  have nat: "plain (show_nat n)" for n
    using show_nat_digits [of n] by (auto simp: plain_def list_all_iff is_digit_def)
  then show "plain (show_nat n)" .
  have "plain (CHR ''-'' # x) = plain x" for x by (simp add: plain_def)
  then show "plain (show_int i)" using nat by (simp add: show_int_def)
qed

lemma server_text: "pg_server P \<Longrightarrow> plain x \<Longrightarrow> pg_text P x"
  by (simp add: pg_server_def)

lemma server_json: "pg_server P \<Longrightarrow> plain k \<Longrightarrow> plain v \<Longrightarrow> \<exists>d. pg_jsonb P (pg_marshal P [(k, v)]) = Some d"
  unfolding pg_server_def by blast

lemma server_empty: "pg_server P \<Longrightarrow> pg_jsonb P ''{}'' = Some ''{}''"
  by (simp add: pg_server_def)

section \<open>Updates\<close>

definition set_job :: "string \<Rightarrow> (job_row \<Rightarrow> job_row) \<Rightarrow> pg_db \<Rightarrow> pg_db" where
  "set_job u f db = db\<lparr>db_jobs := map (\<lambda>r. if jr_id r = u then f r else r) (db_jobs db)\<rparr>"

definition add_state :: "string \<Rightarrow> string \<Rightarrow> string option \<Rightarrow> string \<Rightarrow> time \<Rightarrow> pg_db \<Rightarrow> pg_db" where
  "add_state u n reason d t db =
     db\<lparr>db_states := db_states db @
          [\<lparr>sr_id = db_seq db, sr_job = u, sr_name = n, sr_reason = reason, sr_data = d, sr_created = micro t\<rparr>],
        db_seq := Suc (db_seq db)\<rparr>"

definition counter :: "pg_db \<Rightarrow> string \<Rightarrow> int" where
  "counter db k = (case map_of (db_counters db) k of None \<Rightarrow> 0 | Some v \<Rightarrow> v)"

definition bump :: "string \<Rightarrow> int \<Rightarrow> pg_db \<Rightarrow> pg_db" where
  "bump k d db = db\<lparr>db_counters := filter (\<lambda>p. fst p \<noteq> k) (db_counters db) @ [(k, counter db k + d)]\<rparr>"

text \<open>No counter is within \<open>n\<close> of the limits of \<^verbatim>\<open>bigint\<close>.\<close>

definition roomy :: "int \<Rightarrow> pg_db \<Rightarrow> bool" where
  "roomy n db \<longleftrightarrow> n < 2 ^ 63 \<and> (\<forall>p\<in>set (db_counters db). abs (snd p) + n < 2 ^ 63)"

lemma update_tables [simp]:
  "db_jobs (set_job u f db) = map (\<lambda>r. if jr_id r = u then f r else r) (db_jobs db)"
  "db_states (set_job u f db) = db_states db" "db_sched (set_job u f db) = db_sched db"
  "db_conts (set_job u f db) = db_conts db" "db_counters (set_job u f db) = db_counters db"
  "db_jobs (add_state u n rs d t db) = db_jobs db" "db_sched (add_state u n rs d t db) = db_sched db"
  "db_conts (add_state u n rs d t db) = db_conts db" "db_counters (add_state u n rs d t db) = db_counters db"
  "db_jobs (bump k c db) = db_jobs db" "db_states (bump k c db) = db_states db" "db_sched (bump k c db) = db_sched db"
  "db_conts (bump k c db) = db_conts db" "db_seq (set_job u f db) = db_seq db" "db_seq (bump k c db) = db_seq db"
  "db_states (add_state u n rs d t db) =
     db_states db @ [\<lparr>sr_id = db_seq db, sr_job = u, sr_name = n, sr_reason = rs, sr_data = d, sr_created = micro t\<rparr>]"
  by (simp_all add: set_job_def add_state_def bump_def)

lemma roomy_updates [simp]: "roomy n (set_job u f db) = roomy n db" "roomy n (add_state u m rs d t db) = roomy n db"
  by (simp_all add: roomy_def)

lemma roomy_bump: "roomy (n + 1) db \<Longrightarrow> 0 \<le> n \<Longrightarrow> abs d \<le> 1 \<Longrightarrow> roomy n (bump k d db)"
  by (auto simp: roomy_def bump_def counter_def split: option.splits dest!: map_of_SomeD)

lemma roomy_counter: "roomy n db \<Longrightarrow> abs d \<le> n \<Longrightarrow> int64_ok (counter db k + d)"
  by (auto simp: roomy_def int64_ok_def counter_def split: option.splits dest!: map_of_SomeD)

section \<open>Statements that succeed\<close>

lemma stmt_quiet [simp]: "stmt (quiet None k) msg f w = wrapped msg (f w)"
  by (simp add: stmt_def quiet_def)

lemma quiet_others [simp]: "fst (quiet c k) s = s"
  by (simp add: quiet_def)

lemma stmt_delivered: "snd n = Delivered \<Longrightarrow> stmt n msg f w = wrapped msg (f w)"
  by (simp add: stmt_def)

lemma update_ok: "pg_uuid P i = Some u \<Longrightarrow>
    update_job P i f db = (set_job u f db, Ok (length (filter (\<lambda>r. jr_id r = u) (db_jobs db))))"
  by (simp add: update_job_def with_uuid_def set_job_def)

lemma insert_state_ok:
  assumes "pg_uuid P i = Some u" "pg_jsonb P data = Some d" "pg_text P n" "\<forall>r. reason = Some r \<longrightarrow> pg_text P r"
    "u \<in> jr_id ` set (db_jobs db)"
  shows "insert_state P i n reason data t db = (add_state u n reason d t db, Ok ())"
  using assms by (auto simp: insert_state_def with_uuid_def add_state_def list_ex_iff split: option.splits)

lemma insert_sched_ok:
  assumes "pg_uuid P i = Some u" "u \<in> jr_id ` set (db_jobs db)" "u \<notin> sc_id ` set (db_sched db)"
  shows "insert_sched P i at db = (db\<lparr>db_sched := db_sched db @ [\<lparr>sc_id = u, sc_job = u, sc_at = micro at\<rparr>]\<rparr>, Ok ())"
  using assms by (auto simp: insert_sched_def with_uuid_def list_ex_iff image_iff)

lemma bump_ok:
  assumes "pg_text P k" "roomy 1 db" "abs (sint d) \<le> 1" "snd n = Delivered"
  shows "pg_bumpCounter P n k d db = (bump k (sint d) db, Ok ())"
  using assms roomy_counter [OF assms(2,3), of k]
  by (simp add: pg_bumpCounter_def stmt_delivered upsert_counter_def bump_def counter_def)

lemma in_tx_delivered:
  assumes "snd b = Delivered" "reads (fst b s) = (s2, Ok x)" "writes x s2 = (w, Ok a)" "commit = Delivered"
  shows "in_tx b msg reads writes commit wrap s = (w, Ok a)"
  using assms by (simp add: in_tx_def send_def)

lemma in_tx_read_error:
  assumes "snd b = Delivered" "reads (fst b s) = (s2, Err err)"
  shows "in_tx b msg reads writes commit wrap s = (s2, Err err)"
  using assms by (simp add: in_tx_def send_def)

lemma in_tx_write_error:
  assumes "snd b = Delivered" "reads (fst b s) = (s2, Ok x)" "snd (writes x s2) = Err err"
  shows "in_tx b msg reads writes commit wrap s = (s2, Err err)"
  using assms by (cases "writes x s2") (simp add: in_tx_def send_def)

lemma find_job: "distinct (map jr_id rs) \<Longrightarrow> r \<in> set rs \<Longrightarrow> find (\<lambda>x. jr_id x = jr_id r) rs = Some r"
  by (induction rs) auto

lemma find_none: "u \<notin> jr_id ` set rs \<Longrightarrow> find (\<lambda>x. jr_id x = u) rs = None"
  by (auto simp: find_None_iff)

lemma wf_distinct: "pg_wf db \<Longrightarrow> distinct (map jr_id (db_jobs db))"
  by (simp add: pg_wf_def pg_struct_def)

lemma count_one: "distinct (map jr_id rs) \<Longrightarrow> r \<in> set rs \<Longrightarrow> length (filter (\<lambda>x. jr_id x = jr_id r) rs) = 1"
  by (induction rs) (auto simp: filter_empty_conv image_iff)

lemma set_job_ids: "same_key f \<Longrightarrow> jr_id ` set (db_jobs (set_job u f db)) = jr_id ` set (db_jobs db)"
  using same_key_map(1) [of f "\<lambda>r. jr_id r = u" "db_jobs db"] by (metis set_map update_tables(1))

section \<open>ApplyState\<close>

definition counter_name :: "string \<Rightarrow> string option" where
  "counter_name n = (if n = StateSucceeded then Some ''succeeded'' else if n = StateFailed then Some ''failed''
     else if n = StateDead then Some ''dead'' else None)"

definition applied :: "string \<Rightarrow> string \<Rightarrow> string option \<Rightarrow> string \<Rightarrow> time \<Rightarrow> pg_db \<Rightarrow> pg_db" where
  "applied u n reason d t db =
     (let db = add_state u n reason d t (set_job u (\<lambda>r. r\<lparr>jr_state := n,
            jr_progress := (if n \<noteq> StateProcessing then None else jr_progress r), jr_updated := micro t\<rparr>) db)
      in case counter_name n of None \<Rightarrow> db | Some k \<Rightarrow> bump k 1 db)"

lemma bumpForState_ok:
  assumes "pg_server P" "roomy 1 db" "snd n = Delivered"
  shows "bumpCounterForState P n name db = (case counter_name name of None \<Rightarrow> db | Some k \<Rightarrow> bump k 1 db, Ok ())"
proof -
  have "pg_text P ''succeeded'' \<and> pg_text P ''failed'' \<and> pg_text P ''dead''"
    using server_text [OF assms(1)] by simp
  then show ?thesis
    using bump_ok [OF _ assms(2) _ assms(3), of P _ 1]
    by (simp add: bumpCounterForState_def counter_name_def)
qed

lemma applyStateTx_ok:
  assumes P: "pg_server P" "roomy 1 db" and nt: "\<And>k. snd (nt k) = Delivered"
    and u: "pg_uuid P i = Some u" "u \<in> jr_id ` set (db_jobs db)"
    and st: "pg_text P (js_Name st)" "pg_text P (js_Reason st)" "pg_jsonb P (marshalStateData P (js_Data st)) = Some d"
  shows "applyStateTx P nt e i st db =
    (applied u (js_Name st) (nullIfEmpty (js_Reason st)) d (if js_CreatedAt st = 0 then now_at e 0 else js_CreatedAt st) db, Ok ())"
proof -
  let ?t = "if js_CreatedAt st = 0 then now_at e 0 else js_CreatedAt st"
  let ?db = "set_job u (\<lambda>r. r\<lparr>jr_state := js_Name st,
      jr_progress := (if js_Name st \<noteq> StateProcessing then None else jr_progress r), jr_updated := micro ?t\<rparr>) db"
  have "u \<in> jr_id ` set (db_jobs ?db)" using u(2) by (simp only: set_job_ids same_key_simps)
  with u(1) st have ins: "insert_state P i (js_Name st) (nullIfEmpty (js_Reason st)) (marshalStateData P (js_Data st)) ?t ?db =
      (add_state u (js_Name st) (nullIfEmpty (js_Reason st)) d ?t ?db, Ok ())"
    by (intro insert_state_ok) (auto simp: nullIfEmpty_def split: if_splits)
  have bump: "bumpCounterForState P (nt 4) (js_Name st) (add_state u (js_Name st) (nullIfEmpty (js_Reason st)) d ?t ?db) =
      (applied u (js_Name st) (nullIfEmpty (js_Reason st)) d ?t db, Ok ())"
    using bumpForState_ok [OF P(1) _ nt] P(2) by (simp add: applied_def Let_def if_distrib cong: if_cong)
  show ?thesis
    using st(1) nt ins bump by (simp add: applyStateTx_def Let_def stmt_delivered update_ok [OF u(1)])
qed

text \<open>The row lock is taken on the tables as the others left them.\<close>

definition row_of :: "pg_db \<Rightarrow> string \<Rightarrow> job_row option" where
  "row_of db u = find (\<lambda>r. jr_id r = u) (db_jobs db)"

lemma row_of_Some: "row_of db u = Some r \<Longrightarrow> r \<in> set (db_jobs db) \<and> jr_id r = u"
  by (auto simp: row_of_def find_Some_iff)

lemma row_of_in: "pg_wf db \<Longrightarrow> r \<in> set (db_jobs db) \<Longrightarrow> row_of db (jr_id r) = Some r"
  using find_job wf_distinct unfolding row_of_def by blast

lemma row_of_updates [simp]:
  "row_of (add_state u n rs d t db) = row_of db" "row_of (bump k c db) = row_of db" "row_of (db\<lparr>db_sched := xs\<rparr>) = row_of db"
  by (simp_all add: row_of_def fun_eq_iff)

lemma row_of_set_job:
  assumes "same_key f" shows "row_of (set_job u f db) v = (if v = u then map_option f (row_of db u) else row_of db v)"
proof -
  have "find (\<lambda>r. jr_id r = v) (map (\<lambda>r. if jr_id r = u then f r else r) rs) =
      (if v = u then map_option f (find (\<lambda>r. jr_id r = u) rs) else find (\<lambda>r. jr_id r = v) rs)" for rs
    using assms by (induction rs) (auto simp: same_key_def)
  then show ?thesis by (simp add: row_of_def)
qed

lemma select_state_row: "pg_uuid P i = Some u \<Longrightarrow>
    select_state P i db = (db, case row_of db u of None \<Rightarrow> Err noRows | Some r \<Rightarrow> Ok (jr_state r))"
  by (simp add: select_state_def with_uuid_def row_of_def)

lemma read_locked_row:
  assumes "pg_uuid P i = Some u" "snd n = Delivered"
  shows "read_locked P n i msg cur s = (fst n s, case row_of (fst n s) u of
      None \<Rightarrow> Err ErrNotFound | Some r \<Rightarrow> if jr_state r \<noteq> cur then Err ErrStateConflict else Ok ())"
  using assms by (auto simp: read_locked_def read_stmt_def select_state_row no_rows_to_def noRows_def split: option.split)

lemma ApplyState_run:
  assumes P: "pg_server P" and nt: "\<And>k. snd (nt k) = Delivered" and t: "t = fst (nt 1) (fst (nt 0) s)" "roomy 1 t"
    and u: "pg_uuid P i = Some u"
    and st: "pg_text P (js_Name st)" "pg_text P (js_Reason st)" "pg_jsonb P (marshalStateData P (js_Data st)) = Some d"
  shows "pg_ApplyState P nt e i cur st s =
    (case row_of t u of
       None \<Rightarrow> (t, Err ErrNotFound)
     | Some r \<Rightarrow>
         if jr_state r \<noteq> cur then (t, Err ErrStateConflict)
         else (applied u (js_Name st) (nullIfEmpty (js_Reason st)) d (if js_CreatedAt st = 0 then now_at e 0 else js_CreatedAt st) t, Ok ()))"
proof (cases "\<exists>r. row_of t u = Some r \<and> jr_state r = cur")
  case True
  then obtain r where r: "row_of t u = Some r" "jr_state r = cur" by blast
  then have "u \<in> jr_id ` set (db_jobs t)" using row_of_Some [OF r(1)] by auto
  from applyStateTx_ok [where e = e and nt = nt, OF P t(2) nt u this st] r show ?thesis
    unfolding pg_ApplyState_def by (subst in_tx_delivered) (use nt t(1) u in \<open>auto simp: read_locked_row\<close>)
next
  case False
  then show ?thesis
    unfolding pg_ApplyState_def using nt t(1) u
    by (cases "row_of t u") (auto simp: read_locked_row intro!: in_tx_read_error)
qed

section \<open>ScheduleRetry, SetJobResult\<close>

definition scheduled :: "string \<Rightarrow> string \<Rightarrow> time \<Rightarrow> time \<Rightarrow> pg_db \<Rightarrow> pg_db" where
  "scheduled u d t at db =
     (let db = add_state u StateScheduled None d t (set_job u (\<lambda>r. r\<lparr>jr_state := StateScheduled, jr_updated := micro t\<rparr>) db)
      in bump ''scheduled'' 1
           (db\<lparr>db_sched := filter (\<lambda>r. sc_job r \<noteq> u) (db_sched db) @ [\<lparr>sc_id = u, sc_job = u, sc_at = micro at\<rparr>]\<rparr>))"

lemma ScheduleRetry_run:
  assumes P: "pg_server P" and s: "pg_wf s" "roomy 1 s" and u: "pg_uuid P i = Some u" "row_of s u = Some r" "jr_state r = StateFailed"
    and d: "pg_jsonb P (pg_marshal P [(''enqueue_at'', pg_rfc3339 P at)]) = Some d"
  shows "pg_ScheduleRetry P (quiet None) e i at s = (scheduled u d (now_at e 0) at s, Ok ())"
proof -
  let ?f = "\<lambda>r. r\<lparr>jr_state := StateScheduled, jr_updated := micro (now_at e 0)\<rparr>"
  let ?a = "set_job u ?f s"
  let ?b = "add_state u StateScheduled None d (now_at e 0) ?a"
  let ?c = "?b\<lparr>db_sched := filter (\<lambda>r. sc_job r \<noteq> u) (db_sched s)\<rparr>"
  let ?d = "?c\<lparr>db_sched := db_sched ?c @ [\<lparr>sc_id = u, sc_job = u, sc_at = micro at\<rparr>]\<rparr>"
  have ids: "u \<in> jr_id ` set (db_jobs ?a)"
    using row_of_Some [OF u(2)] by (simp only: set_job_ids same_key_simps) auto
  have ins: "insert_state P i StateScheduled None (pg_marshal P [(''enqueue_at'', pg_rfc3339 P at)]) (now_at e 0) ?a = (?b, Ok ())"
    by (rule insert_state_ok [OF u(1) d _ _ ids]) (use P in \<open>auto simp: pg_server_def\<close>)
  have del: "delete_sched P i ?b = (?c, Ok ())" using u(1) by (simp add: delete_sched_def with_uuid_def)
  have "\<forall>x\<in>set (db_sched s). sc_id x = sc_job x"
    using s(1) by (simp add: pg_wf_def pg_struct_def)
  then have "u \<notin> sc_id ` set (db_sched ?c)" by auto
  then have sched: "insert_sched P i at ?c = (?d, Ok ())"
    using insert_sched_ok [OF u(1), of ?c at] ids by simp
  have "pg_text P ''scheduled''" "roomy 1 ?d"
    using server_text [OF P] s(2) by (simp_all add: roomy_def)
  then have cnt: "pg_bumpCounter P (quiet None 6) ''scheduled'' 1 ?d = (bump ''scheduled'' 1 ?d, Ok ())"
    using bump_ok [of P "''scheduled''" ?d 1] by (simp add: quiet_link)
  have "bump ''scheduled'' 1 ?d = scheduled u d (now_at e 0) at s" by (simp add: scheduled_def Let_def)
  with cnt show ?thesis
    unfolding pg_ScheduleRetry_def Let_def
    by (subst in_tx_delivered) (use u del sched ins in \<open>auto simp: read_locked_row quiet_link update_ok [OF u(1)]\<close>)
qed

section \<open>An instance\<close>

text \<open>
  A server for concrete runs: texts are plain, every name is its own UUID, a text is taken for JSON when
  it starts like an object or an array, and string maps are written as terminated fields.
\<close>

definition enc_fields :: "(string \<times> string) list \<Rightarrow> string" where
  "enc_fields m = CHR ''{'' # concat (map (\<lambda>(k, v). k @ CHR 0x00 # v @ [CHR 0x00]) m)"

definition dec_field :: "string \<Rightarrow> (string \<times> string) list" where
  "dec_field x =
     (let y = tl x; k = takeWhile (\<lambda>c. c \<noteq> CHR 0x00) y; v = takeWhile (\<lambda>c. c \<noteq> CHR 0x00) (tl (dropWhile (\<lambda>c. c \<noteq> CHR 0x00) y))
      in [(k, v)])"

definition pg0 :: pg where
  "pg0 = \<lparr>pg_jsonb = (\<lambda>x. if x \<noteq> [] \<and> (hd x = CHR ''{'' \<or> hd x = CHR ''['') then Some x else None), pg_uuid = Some,
     pg_text = plain, pg_le = (\<lambda>x y. length x \<le> length y), pg_now = (\<lambda>e. now_at e 0), pg_marshal = enc_fields,
     pg_unmarshal = dec_field, pg_rfc3339 = show_int, pg_serverID = ''n1''\<rparr>"

lemma pg0_server: "pg_server pg0" "plain (pg_serverID pg0)" "plain (pg_rfc3339 pg0 t)"
proof -
  have nul: "plain x \<Longrightarrow> CHR 0x00 \<notin> set x" for x by (auto simp: plain_def list_all_iff)
  have "dec_field (enc_fields [(k, v)]) = [(k, v)]" if "plain k" "plain v" for k v
  proof -
    have "\<forall>c\<in>set k. c \<noteq> CHR 0x00" "\<forall>c\<in>set v. c \<noteq> CHR 0x00" using nul that by metis+
    then show ?thesis by (simp add: dec_field_def enc_fields_def Let_def)
  qed
  then show "pg_server pg0" by (simp add: pg_server_def pg0_def enc_fields_def)
qed (simp_all add: pg0_def plain_def plain_show [unfolded plain_def])

definition pg_env :: "time \<Rightarrow> string \<Rightarrow> env" where
  "pg_env t u = \<lparr>now_at = (\<lambda>_. t), new_uuid = (\<lambda>_. u), key_order = [], rfc3339 = (\<lambda>_. [])\<rparr>"

definition pg_empty :: pg_db where
  "pg_empty = \<lparr>db_jobs = [], db_states = [], db_sched = [], db_recurring = [], db_conts = [], db_servers = [], db_counters = [],
     db_locks = [], db_seq = 0\<rparr>"

text \<open>One job: waiting, claimed, or scheduled.\<close>

definition pg_row :: "string \<Rightarrow> time option \<Rightarrow> job_row" where
  "pg_row st progress = \<lparr>jr_id = ''a'', jr_token = 0, jr_name = ''n'', jr_args = ''[]'', jr_queue = ''q'', jr_state = st,
     jr_retry_max = 10, jr_timeout_ms = 0, jr_progress = progress, jr_created = 9000, jr_updated = 9000, jr_result = None,
     jr_idem = Some ''k''\<rparr>"

definition pg_with :: "string \<Rightarrow> time option \<Rightarrow> sched_row list \<Rightarrow> pg_db" where
  "pg_with st progress sched = pg_empty\<lparr>db_jobs := [pg_row st progress],
     db_states := [\<lparr>sr_id = 1, sr_job = ''a'', sr_name = st, sr_reason = None, sr_data = ''{}'', sr_created = 9000\<rparr>],
     db_sched := sched, db_seq := 2\<rparr>"

definition pg_waiting :: pg_db where "pg_waiting = pg_with StateEnqueued None []"
definition pg_claimed :: pg_db where "pg_claimed = pg_with StateProcessing (Some 9000) []"
definition pg_later :: pg_db where
  "pg_later = pg_with StateScheduled None [\<lparr>sc_id = ''a'', sc_job = ''a'', sc_at = 20000\<rparr>]"

lemmas pg_dbs = pg_waiting_def pg_claimed_def pg_later_def pg_with_def pg_empty_def pg_row_def

lemma pg_tables_wf: "pg_wf pg_empty" "pg_wf pg_waiting" "pg_wf pg_claimed" "pg_wf pg_later"
  by (simp_all add: pg_dbs pg_wf_def pg_struct_def refers_def last_name_def)

lemma pg_tables_roomy: "n < 2 ^ 63 \<Longrightarrow> roomy n pg_waiting" "n < 2 ^ 63 \<Longrightarrow> roomy n pg_claimed" "n < 2 ^ 63 \<Longrightarrow> roomy n pg_later"
  by (simp_all add: pg_dbs roomy_def)

lemma pg_tables_row: "row_of pg_waiting ''a'' = Some (pg_row StateEnqueued None)"
  "row_of pg_claimed ''a'' = Some (pg_row StateProcessing (Some 9000))" "row_of pg_later ''a'' = Some (pg_row StateScheduled None)"
  by (simp_all add: pg_dbs row_of_def)

lemma pg0_text: "pg_text pg0 = plain"
  by (simp add: pg0_def)

lemma pg0_uuid [simp]: "pg_uuid pg0 i = Some i"
  by (simp add: pg0_def)

end
