(* ===== verification/Postgres_Properties.thy ===== *)
theory Postgres_Properties
  imports Postgres_Effects Engine_Core
begin

text \<open>
  What the PostgreSQL store does for its clients: claiming, the engine's verdict, promotion, idempotency
  and reading back, and four places where it does not do what its callers expect.
\<close>

section \<open>Claiming\<close>

definition eligible :: "string list \<Rightarrow> string list \<Rightarrow> job_row \<Rightarrow> bool" where
  "eligible locked queues r \<longleftrightarrow> jr_state r = StateEnqueued \<and> jr_queue r \<in> set queues \<and> jr_id r \<notin> set locked"

definition claimed :: "string \<Rightarrow> string \<Rightarrow> time \<Rightarrow> pg_db \<Rightarrow> pg_db" where
  "claimed u d now db = bump ''dequeued'' 1 (add_state u StateProcessing None d now
     (set_job u (\<lambda>r. r\<lparr>jr_state := StateProcessing, jr_progress := Some (micro now), jr_updated := micro now\<rparr>) db))"

lemma select_next_eligible:
  "list_all (pg_text P) qs \<Longrightarrow> select_next P lk qs db = (db, case sort_key jr_token (filter (eligible lk qs) (db_jobs db)) of
      [] \<Rightarrow> Err noRows | r # _ \<Rightarrow> Ok (jr_id r))"
  by (simp add: select_next_def eligible_def [abs_def])

lemma select_next_least:
  assumes wf: "pg_wf db" and qs: "list_all (pg_text P) qs" and r: "r \<in> set (db_jobs db)" "eligible lk qs r"
    and least: "\<forall>x\<in>set (db_jobs db). eligible lk qs x \<longrightarrow> jr_token r \<le> jr_token x"
  shows "select_next P lk qs db = (db, Ok (jr_id r))"
proof -
  let ?xs = "sort_key jr_token (filter (eligible lk qs) (db_jobs db))"
  have set: "set ?xs = {x \<in> set (db_jobs db). eligible lk qs x}" by simp
  with r obtain y ys where y: "?xs = y # ys" by (metis (no_types, lifting) list.exhaust mem_Collect_eq empty_iff empty_set)
  then have "y \<in> set (db_jobs db)" "eligible lk qs y" using set by auto
  moreover have "jr_token y \<le> jr_token r"
  proof -
    have "r \<in> set (y # ys)" using r set y by auto
    moreover have "sorted (map jr_token (y # ys))" using y by (metis sorted_sort_key)
    ultimately show ?thesis by auto
  qed
  ultimately have "jr_token y = jr_token r" using least by force
  moreover have "inj_on jr_token (set (db_jobs db))"
    using wf by (metis (mono_tags, lifting) distinct_map pg_struct_def pg_wf_def strict_sorted_iff)
  ultimately have "y = r" using \<open>y \<in> set (db_jobs db)\<close> r(1) by (simp add: inj_on_eq_iff)
  then show ?thesis using y qs by (simp add: select_next_eligible)
qed

lemma select_next_none: "list_all (pg_text P) qs \<Longrightarrow> \<forall>x\<in>set (db_jobs db). \<not> eligible lk qs x \<Longrightarrow> select_next P lk qs db = (db, Err noRows)"
  by (simp add: select_next_eligible cong: filter_cong)

lemma tryDequeue_claims:
  assumes P: "pg_server P" and nt: "\<And>k. snd (nt k) = Delivered" and t: "t = fst (nt 1) (fst (nt 0) s)" "roomy 1 t"
    and sel: "select_next P lk qs t = (t, Ok u)" and u: "pg_uuid P u = Some u" "u \<in> jr_id ` set (db_jobs t)"
    and d: "pg_jsonb P (pg_marshal P [(''server_id'', pg_serverID P)]) = Some d"
  shows "tryDequeue P nt lk now qs s =
    (claimed u d now t, Ok \<lparr>t_JobID = u, t_Token = ''tok-'' @ u @ ''-'' @ show_int (sint (UnixNano now))\<rparr>)"
proof -
  let ?a = "set_job u (\<lambda>r. r\<lparr>jr_state := StateProcessing, jr_progress := Some (micro now), jr_updated := micro now\<rparr>) t"
  let ?b = "add_state u StateProcessing None d now ?a"
  have texts: "pg_text P StateProcessing" "pg_text P ''dequeued''" using server_text [OF P] by simp_all
  have "u \<in> jr_id ` set (db_jobs ?a)" using u(2) by (simp only: set_job_ids same_key_simps)
  then have ins: "insert_state P u StateProcessing None (pg_marshal P [(''server_id'', pg_serverID P)]) now ?a = (?b, Ok ())"
    using insert_state_ok [OF u(1) d texts(1)] by simp
  have "pg_bumpCounter P (nt 4) ''dequeued'' 1 ?b = (claimed u d now t, Ok ())"
    using bump_ok [OF texts(2) _ _ nt, of ?b 1] t(2) by (simp add: claimed_def)
  then show ?thesis
    unfolding tryDequeue_def
    by (subst in_tx_delivered) (use nt sel t(1) ins in \<open>auto simp: read_stmt_def no_rows_to_def stmt_delivered update_ok [OF u(1)]\<close>)
qed

lemma tryDequeue_empty:
  assumes "\<And>k. snd (nt k) = Delivered" "t = fst (nt 1) (fst (nt 0) s)" "\<forall>x\<in>set (db_jobs t). \<not> eligible lk qs x"
    "list_all (pg_text P) qs"
  shows "tryDequeue P nt lk now qs s = (t, Err ErrQueueEmpty)"
  unfolding tryDequeue_def
  by (rule in_tx_read_error) (use assms select_next_none [OF assms(4,3)] in \<open>simp_all add: read_stmt_def no_rows_to_def\<close>)

section \<open>All calls\<close>

text \<open>
  C7. The invariant of the tables. Whatever call a client makes, whatever the other clients (keeping the
  invariant) do before each of its trips and whichever trips fail, the tables stay well-formed: unique
  ids and idempotency keys, growing sequence numbers, no dangling state, schedule or continuation row,
  and every job's state column is the name of the last state row inserted for it. The same holds for
  the polling loop of \<^verbatim>\<open>Dequeue\<close> when it returns.
\<close>

theorem pg_invariant:
  assumes "\<forall>k t. pg_wf t \<longrightarrow> pg_wf (fst (nt k) t)" and "pg_wf s"
  shows "pg_wf (fst (pg_run P nt c s)) \<and>
    (\<forall>s' r. (\<forall>p\<in>set ws. \<forall>t. pg_wf t \<longrightarrow> pg_wf (fst p t)) \<longrightarrow> pg_Dequeue P nt e lk qs ws s = Some (s', r) \<longrightarrow> pg_wf s')"
proof (intro conjI allI impI)
  have nt: "rely pg_wf nt" using assms(1) by (simp add: rely_def)
  show "pg_wf (fst (pg_run P nt c s))" using run_wf [OF nt] assms(2) by (simp add: keeps_def)
  show "pg_wf s'" if "\<forall>p\<in>set ws. \<forall>t. pg_wf t \<longrightarrow> pg_wf (fst p t)" "pg_Dequeue P nt e lk qs ws s = Some (s', r)" for s' r
    using that dequeue_loop_wf [OF nt that(1), of P e lk qs 0 s s' r] assms(2)
    by (auto simp: pg_Dequeue_def split: if_splits)
qed

theorem pg_invariant_witness:
  "pg_wf (fst (pg_run pg0 (\<lambda>k. (\<lambda>t. fst (pg_run pg0 (quiet None) (CEnqueue (pg_env 1 ''b'') ''q'' (new_job ''n'' None ''q'')) t), Lost (k = 4) CtxCanceled))
     (CApplyState (pg_env 1 ''c'') ''a'' StateProcessing (new_state StateSucceeded [] [] 0)) pg_claimed)) \<and>
   (\<exists>s' r. pg_Dequeue pg0 (quiet None) (pg_env 1 ''c'') (\<lambda>_. []) [''z''] [(id, WDeadline)] pg_waiting = Some (s', r) \<and> pg_wf s')"
proof
  have other: "pg_wf (fst (pg_run pg0 (quiet None) c t))" if "pg_wf t" for c t
    using run_wf [OF rely_quiet] that by (simp add: keeps_def)
  show "pg_wf (fst (pg_run pg0 (\<lambda>k. (\<lambda>t. fst (pg_run pg0 (quiet None) (CEnqueue (pg_env 1 ''b'') ''q'' (new_job ''n'' None ''q'')) t), Lost (k = 4) CtxCanceled))
     (CApplyState (pg_env 1 ''c'') ''a'' StateProcessing (new_state StateSucceeded [] [] 0)) pg_claimed))"
    by (rule pg_invariant [THEN conjunct1]) (use other pg_tables_wf in \<open>auto simp del: pg_run.simps\<close>)
  have "tryDequeue pg0 (\<lambda>m. quiet None (m + 6 * 0)) [] 1 [''z''] pg_waiting = (pg_waiting, Err ErrQueueEmpty)"
    by (rule tryDequeue_empty) (simp_all add: quiet_link pg_dbs eligible_def pg0_def plain_def)
  then have "pg_Dequeue pg0 (quiet None) (pg_env 1 ''c'') (\<lambda>_. []) [''z''] [(id, WDeadline)] pg_waiting = Some (pg_waiting, Err ErrQueueEmpty)"
    by (simp add: pg_Dequeue_def pg_env_def)
  moreover have "\<forall>s' r. (\<forall>p\<in>set [(id, WDeadline)]. \<forall>t. pg_wf t \<longrightarrow> pg_wf (fst p t)) \<longrightarrow>
      pg_Dequeue pg0 (quiet None) (pg_env 1 ''c'') (\<lambda>_. []) [''z''] [(id, WDeadline)] pg_waiting = Some (s', r) \<longrightarrow> pg_wf s'"
    by (rule pg_invariant [where c = "CRemoveScheduled ''a''", THEN conjunct2]) (simp_all add: pg_tables_wf)
  ultimately show "\<exists>s' r. pg_Dequeue pg0 (quiet None) (pg_env 1 ''c'') (\<lambda>_. []) [''z''] [(id, WDeadline)] pg_waiting = Some (s', r) \<and> pg_wf s'"
    by simp
qed

text \<open>
  C8. All or nothing. No call panics, and a call that returns an error left the tables as the other
  clients made them, or did all of its work: with the answer of one trip delivered it succeeds and leads
  to the same tables.
\<close>

theorem pg_all_or_nothing:
  "case pg_run P nt c s of
     (t, Ok _) \<Rightarrow> True
   | (t, Err _) \<Rightarrow> (\<exists>n. t = others nt n s) \<or> (\<exists>m. pg_run P (answered nt m) c s = (t, Ok ()))
   | (t, Panic _) \<Rightarrow> False"
  using run_atomic [of P c nt, unfolded all_or_nothing_def, rule_format, of s] by simp

section \<open>The verdict\<close>

text \<open>Job \<open>u\<close> goes to state \<open>n\<close>: one state row, its own job row, nothing else of the jobs.\<close>

definition moved :: "string \<Rightarrow> string \<Rightarrow> pg_db \<Rightarrow> pg_db \<Rightarrow> bool" where
  "moved u n s s' \<longleftrightarrow> pg_wf s' \<and> (\<exists>x. db_states s' = db_states s @ [x] \<and> sr_job x = u \<and> sr_name x = n) \<and>
     (\<exists>r. row_of s' u = Some r \<and> jr_state r = n) \<and> (\<forall>v. v \<noteq> u \<longrightarrow> row_of s' v = row_of s v) \<and> db_conts s' = db_conts s"

lemma same_key_applied: "same_key (\<lambda>r. r\<lparr>jr_state := n, jr_progress := f r, jr_updated := t\<rparr>)"
  by (simp add: same_key_def)

lemma applied_tables:
  "row_of (applied u n rs d t db) v = (if v = u then map_option (\<lambda>r. r\<lparr>jr_state := n,
      jr_progress := (if n \<noteq> StateProcessing then None else jr_progress r), jr_updated := micro t\<rparr>) (row_of db u) else row_of db v)"
  "db_states (applied u n rs d t db) =
     db_states db @ [\<lparr>sr_id = db_seq db, sr_job = u, sr_name = n, sr_reason = rs, sr_data = d, sr_created = micro t\<rparr>]"
  "db_sched (applied u n rs d t db) = db_sched db"
  "db_conts (applied u n rs d t db) = db_conts db"
  by (simp_all add: applied_def Let_def row_of_set_job same_key_applied split: option.split)

lemma applied_roomy: "roomy (n + 1) db \<Longrightarrow> 0 \<le> n \<Longrightarrow> roomy n (applied u m rs d t db)"
  by (auto simp: applied_def Let_def intro!: roomy_bump split: option.split) (auto simp: roomy_def)

lemma apply_moves:
  assumes P: "pg_server P" and s: "pg_wf s" "roomy 1 s" and u: "pg_uuid P i = Some u" "row_of s u = Some r" "jr_state r = cur"
    and st: "plain (js_Name st)" "plain (js_Reason st)" "js_Data st = [] \<or> (\<exists>k v. js_Data st = [(k, v)] \<and> plain k \<and> plain v)"
  obtains s' where "pg_ApplyState P (quiet None) e i cur st s = (s', Ok ())" "moved u (js_Name st) s s'" "db_sched s' = db_sched s"
    "\<And>n. 0 \<le> n \<Longrightarrow> roomy (n + 1) s \<Longrightarrow> roomy n s'"
proof -
  have "\<exists>d. pg_jsonb P (marshalStateData P (js_Data st)) = Some d"
    using st(3) by (elim disjE exE conjE) (simp_all add: marshalStateData_def server_json [OF P] server_empty [OF P])
  then obtain d where d: "pg_jsonb P (marshalStateData P (js_Data st)) = Some d" by blast
  let ?s = "applied u (js_Name st) (nullIfEmpty (js_Reason st)) d (if js_CreatedAt st = 0 then now_at e 0 else js_CreatedAt st) s"
  have run: "pg_ApplyState P (quiet None) e i cur st s = (?s, Ok ())"
    using ApplyState_run [where nt = "quiet None" and s = s and t = s and e = e and cur = cur,
        OF P quiet_link _ s(2) u(1) server_text [OF P st(1)] server_text [OF P st(2)] d] u(2,3)
    by simp
  then have "pg_wf ?s" using ApplyState_wf [of "quiet None" P e i cur st] s(1) unfolding keeps_def by (metis fst_conv rely_quiet)
  then have "moved u (js_Name st) s ?s"
    using u(2) by (auto simp: moved_def applied_tables)
  with run show thesis by (rule that) (simp_all add: applied_tables applied_roomy)
qed

lemma retry_moves:
  assumes P: "pg_server P" and s: "pg_wf s" "roomy 1 s" and u: "pg_uuid P i = Some u" "row_of s u = Some r" "jr_state r = StateFailed"
    and at: "plain (pg_rfc3339 P at)"
  obtains s' where "pg_ScheduleRetry P (quiet None) e i at s = (s', Ok ())" "moved u StateScheduled s s'"
    "db_sched s' = filter (\<lambda>r. sc_job r \<noteq> u) (db_sched s) @ [\<lparr>sc_id = u, sc_job = u, sc_at = micro at\<rparr>]"
proof -
  obtain d where "pg_jsonb P (pg_marshal P [(''enqueue_at'', pg_rfc3339 P at)]) = Some d"
    using server_json [OF P _ at, of "''enqueue_at''"] by auto
  then have run: "pg_ScheduleRetry P (quiet None) e i at s = (scheduled u d (now_at e 0) at s, Ok ())"
    by (rule ScheduleRetry_run [OF P s u])
  then have "pg_wf (scheduled u d (now_at e 0) at s)"
    using ScheduleRetry_wf [of "quiet None" P e i at] s(1) unfolding keeps_def by (metis fst_conv rely_quiet)
  then have "moved u StateScheduled s (scheduled u d (now_at e 0) at s)"
    using u(2) by (auto simp: moved_def scheduled_def Let_def row_of_set_job same_key_def)
  with run show thesis by (rule that) (simp add: scheduled_def Let_def)
qed

definition stored_result :: "bytes \<Rightarrow> bytes" where
  "stored_result result = (if blen result > 65536 then btake 65536 result else result)"

lemma SetJobResult_run:
  assumes s: "pg_wf s" and u: "pg_uuid P i = Some u" "row_of s u = Some r"
    and x: "stored_result result = Some x" "pg_jsonb P x = Some y"
  shows "pg_SetJobResult P (quiet None) e i result s =
    (set_job u (\<lambda>r. r\<lparr>jr_result := Some y, jr_updated := micro (pg_now P e)\<rparr>) s, Ok ())"
proof -
  have "length (filter (\<lambda>x. jr_id x = u) (db_jobs s)) = 1"
    using count_one [OF wf_distinct [OF s]] row_of_Some [OF u(2)] by auto
  then show ?thesis
    using x u(1) by (simp add: pg_SetJobResult_def stored_result_def update_ok affected_def)
qed

lemma SetJobResult_rejects:
  assumes "stored_result result = Some x" "pg_jsonb P x = None"
  shows "pg_SetJobResult P (quiet None) e i result s = (s, Err (ErrWrap ''set job result'' badInput))"
  using assms by (simp add: pg_SetJobResult_def stored_result_def affected_def)

lemma moved_trans:
  assumes "moved u n s s'" "moved u m s' s''"
  shows "\<exists>sts. db_states s'' = db_states s @ sts \<and> map sr_name sts = [n, m] \<and> (\<forall>x\<in>set sts. sr_job x = u)"
    "\<forall>v. v \<noteq> u \<longrightarrow> row_of s'' v = row_of s v" "db_conts s'' = db_conts s"
  using assms by (auto simp: moved_def)

lemma moved_sts: "moved u n s s' \<Longrightarrow>
    \<exists>sts. db_states s' = db_states s @ sts \<and> map sr_name sts = [n] \<and> (\<forall>x\<in>set sts. sr_job x = u)"
  by (auto simp: moved_def)

text \<open>What a finished job looks like in the tables.\<close>

definition finished :: "string \<Rightarrow> string list \<Rightarrow> pg_db \<Rightarrow> pg_db \<Rightarrow> bool" where
  "finished u names s s' \<longleftrightarrow> pg_wf s' \<and>
     (\<exists>sts. db_states s' = db_states s @ sts \<and> map sr_name sts = names \<and> (\<forall>x\<in>set sts. sr_job x = u)) \<and>
     (\<exists>r. row_of s' u = Some r \<and> jr_state r = last names) \<and> (\<forall>v. v \<noteq> u \<longrightarrow> row_of s' v = row_of s v) \<and>
     db_conts s' = db_conts s \<and>
     (if last names = StateScheduled
      then \<exists>at. db_sched s' = filter (\<lambda>r. sc_job r \<noteq> u) (db_sched s) @ [\<lparr>sc_id = u, sc_job = u, sc_at = at\<rparr>]
      else db_sched s' = db_sched s)"

lemma finished_one: "moved u n s s' \<Longrightarrow> db_sched s' = db_sched s \<Longrightarrow> n \<noteq> StateScheduled \<Longrightarrow> finished u [n] s s'"
  using moved_sts [of u n s s'] by (auto simp: finished_def moved_def)

lemma success_run:
  assumes P: "pg_server P" and s: "pg_wf s" "roomy 1 s" and u: "pg_uuid P i = Some u" "row_of s u = Some r" "jr_state r = StateProcessing"
    and c: "c 0 = None" "c (Suc 0) = None"
    and json: "0 < blen result \<longrightarrow> (\<exists>x y. stored_result result = Some x \<and> pg_jsonb P x = Some y)"
  shows "\<exists>s'. finalizeSuccess (pg_ops P env0) w c i result s = (s', Ok StateSucceeded) \<and> finished u [StateSucceeded] s s'"
proof -
  define t where "t = fst (if 0 < blen result then pg_SetJobResult P (quiet None) env0 i result s else (s, Ok ()))"
  let ?f = "\<lambda>y r. r\<lparr>jr_result := Some y, jr_updated := micro (pg_now P env0)\<rparr>"
  have step: "(if 0 < blen result then pg_SetJobResult P (quiet None) env0 i result s else (s, Ok ())) = (t, Ok ())"
    and t: "t = s \<or> (\<exists>y. t = set_job u (?f y) s)"
    using SetJobResult_run [OF s(1) u(1,2)] json by (auto simp: t_def)
  have wf: "pg_wf t"
    using SetJobResult_wf [of "quiet None" P env0 i result] s(1) unfolding t_def keeps_def by auto
  have tabs: "roomy 1 t" "db_states t = db_states s" "db_sched t = db_sched s" "db_conts t = db_conts s"
    "\<And>v. v \<noteq> u \<Longrightarrow> row_of t v = row_of s v"
    using t s(2) by (auto simp: row_of_set_job)
  obtain r' where r': "row_of t u = Some r'" "jr_state r' = StateProcessing"
    using t u(2,3) by (auto simp: row_of_set_job)
  obtain s' where s': "pg_ApplyState P (quiet None) (w 0) i StateProcessing (new_state StateSucceeded '''' [] 0) t = (s', Ok ())"
    "moved u StateSucceeded t s'" "db_sched s' = db_sched t"
    by (rule apply_moves [OF P wf tabs(1) u(1) r', where st = "new_state StateSucceeded '''' [] 0" and e = "w 0"]) (auto simp: new_state_def)
  have "finished u [StateSucceeded] s s'"
    using finished_one [OF s'(2,3)] tabs by (simp add: finished_def state_defs)
  then show ?thesis
    using step s'(1) c by (cases "0 < blen result") (simp_all add: finalizeSuccess_def pg_ops_def)
qed

lemma failure_run:
  assumes P: "pg_server P" "\<forall>t. plain (pg_rfc3339 P t)" and s: "pg_wf s" "roomy 2 s"
    and u: "pg_uuid P (j_ID job) = Some u" "row_of s u = Some r" "jr_state r = StateProcessing"
    and c: "c 0 = None" "c (Suc 0) = None" and err: "plain (Error err)"
  shows "\<exists>s'. finalizeFailure (pg_ops P env0) w c jitter job attempt err s =
      (s', Ok (terminal_of (verdict (Ret result (Some err)) attempt (j_RetryMax job)))) \<and>
    finished u (verdict (Ret result (Some err)) attempt (j_RetryMax job)) s s'"
proof -
  have room: "roomy 1 s" using s(2) by (auto simp: roomy_def)
  note move = apply_moves [OF P(1) s(1) room u, where e = "w 0"]
  note ops = pg_ops_def c finalizeFailure_def Let_def is_cancel_def terminal_of_def
  show ?thesis
  proof (cases "is_cancel err")
    case True
    obtain s' where "pg_ApplyState P (quiet None) (w 0) (j_ID job) StateProcessing (new_state StateCancelled (Error err) [] 0) s = (s', Ok ())"
      "moved u StateCancelled s s'" "db_sched s' = db_sched s"
      by (rule move [where st = "new_state StateCancelled (Error err) [] 0"]) (auto simp: new_state_def err)
    then show ?thesis using True finished_one [of u StateCancelled s s'] by (auto simp: ops state_defs)
  next
    case False
    let ?st = "new_state StateFailed (Error err) [(''attempt'', show_int (attempt + 1))] 0"
    obtain s1 where s1: "pg_ApplyState P (quiet None) (w 0) (j_ID job) StateProcessing ?st s = (s1, Ok ())"
      "moved u StateFailed s s1" "db_sched s1 = db_sched s" "\<And>n. 0 \<le> n \<Longrightarrow> roomy (n + 1) s \<Longrightarrow> roomy n s1"
      by (rule move [where st = ?st]) (auto simp: new_state_def err plain_show)
    then obtain r1 where r1: "pg_wf s1" "roomy 1 s1" "row_of s1 u = Some r1" "jr_state r1 = StateFailed"
      using s(2) s1(4) [of 1] by (auto simp: moved_def)
    show ?thesis
    proof (cases "attempt + 1 \<ge> effectiveRetryMax (j_RetryMax job)")
      case True
      obtain s2 where s2: "pg_ApplyState P (quiet None) (w 1) (j_ID job) StateFailed (new_state StateDead ''retry exhausted'' [] 0) s1 = (s2, Ok ())"
        "moved u StateDead s1 s2" "db_sched s2 = db_sched s1"
        by (rule apply_moves [OF P(1) r1(1,2) u(1) r1(3,4), where st = "new_state StateDead ''retry exhausted'' [] 0" and e = "w 1"])
          (auto simp: new_state_def)
      have "finished u [StateFailed, StateDead] s s2"
        using moved_trans [OF s1(2) s2(2)] s2(2,3) s1(3) by (simp add: finished_def moved_def state_defs)
      then show ?thesis using False True s1(1) s2(1) by (auto simp: ops state_defs)
    next
      case retry: False
      let ?at = "time_add (now_at (w 1) 9) (RetryDelay jitter attempt)"
      obtain s2 where s2: "pg_ScheduleRetry P (quiet None) (w 1) (j_ID job) ?at s1 = (s2, Ok ())" "moved u StateScheduled s1 s2"
        "db_sched s2 = filter (\<lambda>r. sc_job r \<noteq> u) (db_sched s1) @ [\<lparr>sc_id = u, sc_job = u, sc_at = micro ?at\<rparr>]"
        by (rule retry_moves [OF P(1) r1(1,2) u(1) r1(3,4) P(2) [rule_format], where e = "w 1"])
      have "finished u [StateFailed, StateScheduled] s s2"
        using moved_trans [OF s1(2) s2(2)] s2(2,3) s1(3) by (simp add: finished_def moved_def)
      then show ?thesis using False retry s1(1) s2(1) by (auto simp: ops)
    qed
  qed
qed

text \<open>
  C6. The engine's verdict over PostgreSQL: finishing a job that is Processing appends, in one
  transaction each, the state rows its outcome calls for, sets the state column to the last of them,
  schedules the retry of a failure that has tries left (replacing an older entry) and keeps every other
  job, the continuations and the invariant. The result of a success must be JSON.
\<close>

theorem pg_verdict:
  assumes "pg_server P" "\<forall>t. plain (pg_rfc3339 P t)" and "pg_wf s" "roomy 2 s"
    and "pg_uuid P (j_ID job) = Some u" "row_of s u = Some r" "jr_state r = StateProcessing"
    and "c 0 = None" "c 1 = None" and "out = Ret result err" and "\<forall>x. err = Some x \<longrightarrow> plain (Error x)"
    and "err = None \<longrightarrow> 0 < blen result \<longrightarrow> (\<exists>x y. stored_result result = Some x \<and> pg_jsonb P x = Some y)"
  shows "\<exists>s'. finish (pg_ops P env0) w c jitter job attempt out s =
      (s', Ok (terminal_of (verdict out attempt (j_RetryMax job)))) \<and>
    finished u (verdict out attempt (j_RetryMax job)) s s'"
proof (cases err)
  case None
  have "roomy 1 s" using assms(4) by (auto simp: roomy_def)
  then show ?thesis
    using success_run [where c = c and result = result and w = w and ?env0.0 = env0, OF assms(1,3) _ assms(5-8)] assms(9,10,12) None
    by (simp add: finish_def terminal_of_def state_defs)
next
  case (Some x)
  then show ?thesis
    using failure_run [where c = c and err = x and ?env0.0 = env0 and w = w and jitter = jitter and attempt = attempt and result = result,
        OF assms(1-8)] assms(9,10,11) by (simp add: finish_def)
qed

theorem pg_verdict_witness:
  "\<exists>s'. finish (pg_ops pg0 (pg_env 1 [])) (\<lambda>_. pg_env 1 []) (\<lambda>_. None) 0 ((new_job ''n'' None ''q'')\<lparr>j_ID := ''a''\<rparr>) 0
     (Ret (Some ''[1]'') None) pg_claimed = (s', Ok StateSucceeded) \<and> finished ''a'' [StateSucceeded] pg_claimed s'"
proof -
  have "stored_result (Some ''[1]'') = Some ''[1]''" "pg_jsonb pg0 ''[1]'' = Some ''[1]''"
    by (simp_all add: stored_result_def blen_def pg0_def)
  then have j: "(None :: error option) = None \<longrightarrow> 0 < blen (Some ''[1]'') \<longrightarrow> (\<exists>x y. stored_result (Some ''[1]'') = Some x \<and> pg_jsonb pg0 x = Some y)"
    by blast
  show ?thesis
    using pg_verdict [where c = "\<lambda>_. None" and job = "(new_job ''n'' None ''q'')\<lparr>j_ID := ''a''\<rparr>" and w = "\<lambda>_. pg_env 1 []" and jitter = 0
        and attempt = 0 and out = "Ret (Some ''[1]'') None" and ?env0.0 = "pg_env 1 []", OF pg0_server(1) _ pg_tables_wf(3) pg_tables_roomy(2) _ pg_tables_row(2) _ refl refl refl _ j]
    by (simp add: pg0_server(3) pg_row_def terminal_of_def state_defs)
qed

section \<open>Requeue and DeleteJob\<close>

definition requeued :: "string \<Rightarrow> string \<Rightarrow> time \<Rightarrow> pg_db \<Rightarrow> pg_db" where
  "requeued u why t db = add_state u StateEnqueued (Some why) ''{}'' t
     (set_job u (\<lambda>r. r\<lparr>jr_state := StateEnqueued, jr_progress := None, jr_updated := micro t\<rparr>) db)"

definition deleted :: "string \<Rightarrow> time \<Rightarrow> pg_db \<Rightarrow> pg_db" where
  "deleted u t db = add_state u StateDeleted None ''{}'' t
     (set_job u (\<lambda>r. r\<lparr>jr_state := StateDeleted, jr_progress := None, jr_updated := micro t\<rparr>) db)"

lemma read_unlocked_row:
  assumes "pg_uuid P i = Some u" "snd (nt 1) = Delivered"
  shows "read_unlocked P nt i s = (case row_of (fst (nt 1) s) u of
      None \<Rightarrow> (fst (nt 1) s, Err ErrNotFound)
    | Some r \<Rightarrow> if IrreversibleStates (jr_state r) then (fst (nt 1) s, Err ErrTerminalState) else (fst (nt 2) (fst (nt 1) s), Ok ()))"
  using assms by (auto simp: read_unlocked_def read_stmt_def select_state_row split: option.split)

lemma change_run:
  assumes P: "pg_server P" and t: "pg_wf t" and u: "pg_uuid P i = Some u" "row_of t u = Some r"
    and f: "same_key f" and n: "pg_text P n" "\<forall>x. why = Some x \<longrightarrow> pg_text P x"
    and links: "snd n1 = Delivered" "snd n2 = Delivered"
  shows "and_then (affected ErrNotFound (stmt n1 m1 (update_job P i f) t)) (\<lambda>w _. stmt n2 m2 (insert_state P i n why ''{}'' ts) w) =
    (add_state u n why ''{}'' ts (set_job u f t), Ok ())"
proof -
  have "length (filter (\<lambda>x. jr_id x = u) (db_jobs t)) = 1"
    using count_one [OF wf_distinct [OF t]] row_of_Some [OF u(2)] by auto
  moreover have "u \<in> jr_id ` set (db_jobs (set_job u f t))"
    using row_of_Some [OF u(2)] by (simp only: set_job_ids f) auto
  ultimately show ?thesis
    using insert_state_ok [OF u(1) server_empty [OF P] n] links
    by (simp add: stmt_delivered update_ok [OF u(1)] affected_def)
qed

lemma Requeue_run:
  assumes P: "pg_server P" and nt: "\<And>k. snd (nt k) = Delivered"
    and t: "t = fst (nt 1) (fst (nt 0) s)" "row_of t u = Some r" "\<not> IrreversibleStates (jr_state r)"
    and t2: "pg_wf (fst (nt 2) t)" "row_of (fst (nt 2) t) u = Some r2" and u: "pg_uuid P i = Some u" "plain why"
  shows "pg_Requeue P nt e i why s = (requeued u why (now_at e 0) (fst (nt 2) t), Ok ())"
proof -
  let ?f = "\<lambda>r. r\<lparr>jr_state := StateEnqueued, jr_progress := None, jr_updated := micro (now_at e 0)\<rparr>"
  have "pg_text P StateEnqueued" "\<forall>x. Some why = Some x \<longrightarrow> pg_text P x" using server_text [OF P] u(2) by simp_all
  from change_run [OF P t2(1) u(1) t2(2) _ this nt nt, of ?f] show ?thesis
    unfolding pg_Requeue_def Let_def
    by (subst in_tx_delivered) (use nt t u in \<open>auto simp: read_unlocked_row requeued_def\<close>)
qed

lemma Requeue_terminal:
  assumes "\<And>k. snd (nt k) = Delivered" "t = fst (nt 1) (fst (nt 0) s)" "row_of t u = Some r" "IrreversibleStates (jr_state r)"
    "pg_uuid P i = Some u"
  shows "pg_Requeue P nt e i why s = (t, Err ErrTerminalState)"
  unfolding pg_Requeue_def Let_def by (rule in_tx_read_error) (use assms in \<open>auto simp: read_unlocked_row\<close>)

lemma DeleteJob_run:
  assumes P: "pg_server P" and s: "pg_wf s" "row_of s u = Some r" "\<not> IrreversibleStates (jr_state r)" and u: "pg_uuid P i = Some u"
  shows "pg_DeleteJob P (quiet None) e i s = (deleted u (now_at e 0) s, Ok ())"
proof -
  let ?f = "\<lambda>r. r\<lparr>jr_state := StateDeleted, jr_progress := None, jr_updated := micro (now_at e 0)\<rparr>"
  have "pg_text P StateDeleted" using server_text [OF P] by simp
  from change_run [OF P s(1) u s(2) _ this _ quiet_link quiet_link, of ?f None] show ?thesis
    unfolding pg_DeleteJob_def Let_def
    by (subst in_tx_delivered) (use s u in \<open>auto simp: read_unlocked_row deleted_def quiet_link\<close>)
qed

lemma quiet_wf: "keeps pg_wf f \<Longrightarrow> f s = (t, r) \<Longrightarrow> pg_wf s \<Longrightarrow> pg_wf t"
  unfolding keeps_def by (metis fst_conv)

lemma eligible_set_job:
  assumes "jr_id (f r) = jr_id r" "jr_token (f r) = jr_token r" "jr_queue (f r) = jr_queue r" "jr_state (f r) = StateEnqueued"
    and "r \<in> set (db_jobs db)" "jr_queue r \<in> set qs" "jr_id r \<notin> set lk"
    and "\<forall>x\<in>set (db_jobs db). eligible lk qs x \<longrightarrow> jr_token r \<le> jr_token x" "distinct (map jr_id (db_jobs db))"
  shows "f r \<in> set (db_jobs (set_job (jr_id r) f db))" "eligible lk qs (f r)"
    "\<forall>x\<in>set (db_jobs (set_job (jr_id r) f db)). eligible lk qs x \<longrightarrow> jr_token (f r) \<le> jr_token x"
proof -
  show "f r \<in> set (db_jobs (set_job (jr_id r) f db))" using assms(5) by force
  show "eligible lk qs (f r)" using assms(1-4,6,7) by (simp add: eligible_def)
  have "x = r" if "x \<in> set (db_jobs db)" "jr_id x = jr_id r" for x
    using assms(5,9) that by (metis distinct_map inj_on_eq_iff)
  then show "\<forall>x\<in>set (db_jobs (set_job (jr_id r) f db)). eligible lk qs x \<longrightarrow> jr_token (f r) \<le> jr_token x"
    using assms(2,8) by auto (metis order_refl)
qed

lemma server_data: "pg_server P \<Longrightarrow> plain k \<Longrightarrow> plain v \<Longrightarrow>
    \<exists>d. pg_jsonb P (pg_marshal P [(k, v)]) = Some d \<and> pg_unmarshal P d = [(k, v)]"
  by (simp add: pg_server_def)

text \<open>A job that is requeued while no older one waits is the next to be claimed.\<close>

lemma requeued_claims:
  assumes P: "pg_server P" "plain (pg_serverID P)" "list_all (pg_text P) qs" "plain why" and s: "pg_wf s" "roomy 1 s"
    and r: "row_of s (jr_id r) = Some r" "\<not> IrreversibleStates (jr_state r)" "pg_uuid P (jr_id r) = Some (jr_id r)"
    and q: "jr_queue r \<in> set qs" "jr_id r \<notin> set lk" "\<forall>x\<in>set (db_jobs s). eligible lk qs x \<longrightarrow> jr_token r \<le> jr_token x"
  shows "\<exists>d s2. pg_Requeue P (quiet None) e (jr_id r) why s = (s2, Ok ()) \<and>
    tryDequeue P (quiet None) lk now qs s2 =
      (claimed (jr_id r) d now s2, Ok \<lparr>t_JobID = jr_id r, t_Token = ''tok-'' @ jr_id r @ ''-'' @ show_int (sint (UnixNano now))\<rparr>)"
proof -
  obtain d where d: "pg_jsonb P (pg_marshal P [(''server_id'', pg_serverID P)]) = Some d"
    using server_data [OF P(1) plain_counters(7) P(2)] by blast
  let ?s2 = "requeued (jr_id r) why (now_at e 0) s"
  let ?g = "\<lambda>r. (r\<lparr>jr_state := StateEnqueued, jr_progress := None, jr_updated := micro (now_at e 0)\<rparr>)"
  have req: "pg_Requeue P (quiet None) e (jr_id r) why s = (?s2, Ok ())"
    using Requeue_run [where nt = "quiet None" and s = s and t = s and e = e, OF P(1) quiet_link _ r(1,2) _ _ r(3) P(4)] s(1) r(1)
    by simp
  have wf2: "pg_wf ?s2" by (rule quiet_wf [OF Requeue_wf [OF rely_quiet] req s(1)])
  have jobs: "db_jobs ?s2 = db_jobs (set_job (jr_id r) ?g s)" by (simp add: requeued_def)
  have el: "?g r \<in> set (db_jobs ?s2)" "eligible lk qs (?g r)"
      "\<forall>x\<in>set (db_jobs ?s2). eligible lk qs x \<longrightarrow> jr_token (?g r) \<le> jr_token x"
    unfolding jobs
    by (rule eligible_set_job [where f = ?g, OF _ _ _ _ conjunct1 [OF row_of_Some [OF r(1)]] q wf_distinct [OF s(1)]]; simp)+
  have room2: "roomy 1 ?s2" using s(2) by (simp add: requeued_def)
  have u2: "jr_id r \<in> jr_id ` set (db_jobs ?s2)" using imageI [OF el(1), of jr_id] by simp
  have sel2: "select_next P lk qs ?s2 = (?s2, Ok (jr_id r))" using select_next_least [OF wf2 P(3) el] by simp
  have "tryDequeue P (quiet None) lk now qs ?s2 = (claimed (jr_id r) d now ?s2,
      Ok \<lparr>t_JobID = jr_id r, t_Token = ''tok-'' @ jr_id r @ ''-'' @ show_int (sint (UnixNano now))\<rparr>)"
    by (rule tryDequeue_claims [where nt = "quiet None", OF P(1) quiet_link _ room2 sel2 r(3) u2 d]) simp
  with req show ?thesis by blast
qed

lemma claimed_eligible:
  assumes "x \<in> set (db_jobs (claimed u d now t))" "eligible lk qs x"
  shows "x \<in> set (db_jobs t)"
  using assms by (auto simp: claimed_def eligible_def state_defs split: if_splits)

lemma queue_order_irrelevant: "set qs' = set qs \<Longrightarrow> tryDequeue P nt lk now qs' = tryDequeue P nt lk now qs"
proof -
  assume "set qs' = set qs"
  then have "select_next P lk qs' = select_next P lk qs" by (intro ext) (simp add: select_next_def list_all_iff)
  then show ?thesis by (simp only: tryDequeue_def)
qed

text \<open>
  C9. One pass of Dequeue over PostgreSQL, on the tables as the other clients left them: with nothing
  eligible it reports the empty queue and changes nothing; otherwise it claims the eligible job that was
  enqueued first over all the queues given. The order in which the queues are listed plays no role,
  although the configuration documents it as their priority. A job that is requeued keeps its place: the
  next pass claims it again before every later job.
\<close>

theorem pg_dequeue_oldest:
  assumes P: "pg_server P" "plain (pg_serverID P)" "list_all (pg_text P) qs" and nt: "\<forall>k. snd (nt k) = Delivered"
    and t: "t = fst (nt 1) (fst (nt 0) s)" "pg_wf t" "roomy 2 t" "\<forall>x\<in>set (db_jobs t). pg_uuid P (jr_id x) = Some (jr_id x)"
  shows "((\<forall>x\<in>set (db_jobs t). \<not> eligible lk qs x) \<longrightarrow> tryDequeue P nt lk now qs s = (t, Err ErrQueueEmpty)) \<and>
    (\<forall>r\<in>set (db_jobs t). eligible lk qs r \<and> (\<forall>x\<in>set (db_jobs t). eligible lk qs x \<longrightarrow> jr_token r \<le> jr_token x) \<longrightarrow>
      (\<exists>d s1 s2 s3 tk. tryDequeue P nt lk now qs s =
          (s1, Ok \<lparr>t_JobID = jr_id r, t_Token = ''tok-'' @ jr_id r @ ''-'' @ show_int (sint (UnixNano now))\<rparr>) \<and>
        s1 = claimed (jr_id r) d now t \<and> pg_unmarshal P d = [(''server_id'', pg_serverID P)] \<and>
        (plain why \<longrightarrow> pg_Requeue P (quiet None) e (jr_id r) why s1 = (s2, Ok ()) \<and>
          tryDequeue P (quiet None) lk now2 qs s2 = (s3, Ok tk) \<and> t_JobID tk = jr_id r))) \<and>
    (\<forall>qs'. set qs' = set qs \<longrightarrow> tryDequeue P nt lk now qs' s = tryDequeue P nt lk now qs s)"
proof (intro conjI impI ballI allI, goal_cases)
  case 1
  then show ?case using tryDequeue_empty [where nt = nt and t = t and s = s] P(3) nt t(1) by blast
next
  case (2 r)
  from P obtain d where d: "pg_jsonb P (pg_marshal P [(''server_id'', pg_serverID P)]) = Some d" "pg_unmarshal P d = [(''server_id'', pg_serverID P)]"
    using server_data [OF P(1) plain_counters(7)] by blast
  have u: "pg_uuid P (jr_id r) = Some (jr_id r)" "jr_id r \<in> jr_id ` set (db_jobs t)" using 2 t(4) by auto
  have room: "roomy 1 t" using t(3) by (auto simp: roomy_def)
  let ?s1 = "claimed (jr_id r) d now t"
  let ?r1 = "r\<lparr>jr_state := StateProcessing, jr_progress := Some (micro now), jr_updated := micro now\<rparr>"
  have sel: "select_next P lk qs t = (t, Ok (jr_id r))" by (rule select_next_least [OF t(2) P(3)]) (use 2 in auto)
  have one: "tryDequeue P nt lk now qs s =
      (?s1, Ok \<lparr>t_JobID = jr_id r, t_Token = ''tok-'' @ jr_id r @ ''-'' @ show_int (sint (UnixNano now))\<rparr>)"
    by (rule tryDequeue_claims [where nt = nt, OF P(1) _ t(1) room sel u d(1)]) (use nt in simp)
  have "tryDequeue P (quiet None) lk now qs t = (?s1, Ok \<lparr>t_JobID = jr_id r, t_Token = ''tok-'' @ jr_id r @ ''-'' @ show_int (sint (UnixNano now))\<rparr>)"
    by (rule tryDequeue_claims [where nt = "quiet None", OF P(1) quiet_link _ room sel u d(1)]) simp
  from quiet_wf [OF tryDequeue_wf [OF rely_quiet] this t(2)] have wf1: "pg_wf ?s1" .
  have row: "row_of ?s1 (jr_id ?r1) = Some ?r1"
    using row_of_in [OF t(2)] 2 by (simp add: claimed_def row_of_set_job)
  have room1: "roomy 1 ?s1" using roomy_bump [of 1] t(3) by (simp add: claimed_def)
  have least: "\<forall>x\<in>set (db_jobs t). eligible lk qs x \<longrightarrow> jr_token r \<le> jr_token x" using 2 by blast
  have q: "jr_queue ?r1 \<in> set qs" "jr_id ?r1 \<notin> set lk" using 2 by (simp_all add: eligible_def)
  have q3: "\<forall>x\<in>set (db_jobs ?s1). eligible lk qs x \<longrightarrow> jr_token ?r1 \<le> jr_token x"
    using least claimed_eligible by (metis job_row.select_convs(2) job_row.surjective job_row.update_convs(6,9,11))
  have irr: "\<not> IrreversibleStates (jr_state ?r1)" "pg_uuid P (jr_id ?r1) = Some (jr_id ?r1)" using u(1) by simp_all
  show ?case
  proof (cases "plain why")
    case True
    obtain d2 s2 where again: "pg_Requeue P (quiet None) e (jr_id r) why ?s1 = (s2, Ok ())"
        "tryDequeue P (quiet None) lk now2 qs s2 = (claimed (jr_id r) d2 now2 s2,
           Ok \<lparr>t_JobID = jr_id r, t_Token = ''tok-'' @ jr_id r @ ''-'' @ show_int (sint (UnixNano now2))\<rparr>)"
      using requeued_claims [OF P True wf1 room1 row irr q q3, of e now2] by auto
    with one d(2) show ?thesis
      by (intro exI [of _ d] exI [of _ ?s1] exI [of _ s2] exI conjI impI) (assumption | rule refl | simp only: jobTicket.select_convs)+
  qed (use one d(2) in blast)
next
  case (3 qs')
  then show ?case by (rule fun_cong [OF queue_order_irrelevant])
qed

theorem pg_dequeue_oldest_witness:
  "\<exists>d s1 s2 s3 tk. tryDequeue pg0 (quiet None) [] 10000 [''q''] pg_waiting =
      (s1, Ok \<lparr>t_JobID = ''a'', t_Token = ''tok-'' @ ''a'' @ ''-'' @ show_int (sint (UnixNano 10000))\<rparr>) \<and>
    s1 = claimed ''a'' d 10000 pg_waiting \<and>
    pg_Requeue pg0 (quiet None) (pg_env 11000 []) ''a'' ''orphan'' s1 = (s2, Ok ()) \<and>
    tryDequeue pg0 (quiet None) [] 12000 [''q''] s2 = (s3, Ok tk) \<and> t_JobID tk = ''a''"
  using pg_dequeue_oldest [where P = pg0 and nt = "quiet None" and t = pg_waiting and s = pg_waiting and lk = "[]" and qs = "[''q'']"
      and now = 10000 and e = "pg_env 11000 []" and why = "''orphan''" and ?now2.0 = 12000, THEN conjunct2, THEN conjunct1, rule_format,
      OF pg0_server(1,2) _ quiet_link _ pg_tables_wf(2) pg_tables_roomy(1), of "pg_row StateEnqueued None"]
  by (simp add: pg_dbs eligible_def plain_def pg0_text) blast

text \<open>
  C40. A handler's output that is not JSON (a plain line of text, or JSON cut at 64 KiB) cannot be stored:
  finishing the successful job fails before its state is touched, so the tables stay as they are and the job
  stays Processing. Once its sign of life is old enough, orphan recovery lists it and requeues it, the next
  Dequeue that has no older job to claim claims it, and when that run succeeds with the same output finishing
  fails again and leaves it Processing as before.
\<close>

theorem pg_plain_result:
  assumes P: "pg_server P" "plain (pg_serverID P)" "list_all (pg_text P) qs" "plain why" and s: "pg_wf s" "roomy 1 s"
    and bad: "stored_result result = Some x" "0 < blen result" "pg_jsonb P x = None" and c: "c 0 = None"
    and job: "j_ID job = jr_id r" "row_of s (jr_id r) = Some r" "pg_uuid P (jr_id r) = Some (jr_id r)"
    and old: "jr_state r = StateProcessing" "jr_progress r = Some t" "t < micro (time_add (now_at e 0) (- age))"
    and q: "jr_queue r \<in> set qs" "jr_id r \<notin> set lk" "\<forall>x\<in>set (db_jobs s). eligible lk qs x \<longrightarrow> jr_token r \<le> jr_token x"
  shows "finish (pg_ops P env0) w c jitter job attempt (Ret result None) s = (s, Err (ErrWrap ''set job result'' badInput)) \<and>
    (\<exists>ts. pg_GetOrphanedJobs P (quiet None) e age s = (s, Ok ts) \<and> j_ID job \<in> t_JobID ` set ts) \<and>
    (\<exists>s2 s3 tk r3. pg_Requeue P (quiet None) e2 (j_ID job) why s = (s2, Ok ()) \<and>
      tryDequeue P (quiet None) lk now qs s2 = (s3, Ok tk) \<and> t_JobID tk = j_ID job \<and>
      row_of s3 (j_ID job) = Some r3 \<and> jr_state r3 = StateProcessing \<and>
      finish (pg_ops P env0) w c jitter job attempt' (Ret result None) s3 = (s3, Err (ErrWrap ''set job result'' badInput)))"
proof -
  have fails: "finish (pg_ops P env0) w c jitter job a (Ret result None) s' = (s', Err (ErrWrap ''set job result'' badInput))" for a s'
    using SetJobResult_rejects [OF bad(1,3)] bad(2) c by (simp add: finish_def finalizeSuccess_def pg_ops_def)
  have listed: "\<exists>ts. pg_GetOrphanedJobs P (quiet None) e age s = (s, Ok ts) \<and> j_ID job \<in> t_JobID ` set ts"
    using row_of_Some [OF job(2)] job(1) old by (force simp: pg_GetOrphanedJobs_def orphan_row_def)
  have live: "\<not> IrreversibleStates (jr_state r)" using old(1) by simp
  obtain d s2 where again: "pg_Requeue P (quiet None) e2 (jr_id r) why s = (s2, Ok ())"
      "tryDequeue P (quiet None) lk now qs s2 = (claimed (jr_id r) d now s2,
         Ok \<lparr>t_JobID = jr_id r, t_Token = ''tok-'' @ jr_id r @ ''-'' @ show_int (sint (UnixNano now))\<rparr>)"
    using requeued_claims [OF P s job(2) live job(3) q, of e2 now] by blast
  have "s2 = requeued (jr_id r) why (now_at e2 0) s"
    using Requeue_run [where nt = "quiet None" and s = s and t = s and e = e2, OF P(1) quiet_link _ job(2) live _ _ job(3) P(4)] s(1) job(2) again(1)
    by simp
  then obtain r3 where r3: "row_of (claimed (jr_id r) d now s2) (jr_id r) = Some r3" "jr_state r3 = StateProcessing"
    using job(2) by (simp add: claimed_def requeued_def row_of_set_job)
  let ?s3 = "claimed (jr_id r) d now s2"
  have "\<exists>s2 s3 tk r3. pg_Requeue P (quiet None) e2 (j_ID job) why s = (s2, Ok ()) \<and>
      tryDequeue P (quiet None) lk now qs s2 = (s3, Ok tk) \<and> t_JobID tk = j_ID job \<and>
      row_of s3 (j_ID job) = Some r3 \<and> jr_state r3 = StateProcessing \<and>
      finish (pg_ops P env0) w c jitter job attempt' (Ret result None) s3 = (s3, Err (ErrWrap ''set job result'' badInput))"
    unfolding job(1)
    by (rule exI [of _ s2], rule exI [of _ ?s3], rule exI, rule exI [of _ r3])
      (intro conjI; (rule again r3 fails)?; simp)
  with fails listed show ?thesis by blast
qed

theorem pg_plain_result_witness:
  "\<exists>s2 s3 tk. finish (pg_ops pg0 (pg_env 1 [])) (\<lambda>_. pg_env 1 []) (\<lambda>_. None) 0 ((new_job ''n'' None ''q'')\<lparr>j_ID := ''a''\<rparr>) 0
     (Ret (Some ''hello'') None) pg_claimed = (pg_claimed, Err (ErrWrap ''set job result'' badInput)) \<and>
   pg_Requeue pg0 (quiet None) (pg_env 20001 []) ''a'' ''orphan recovery'' pg_claimed = (s2, Ok ()) \<and>
   tryDequeue pg0 (quiet None) [] 20002 [''q''] s2 = (s3, Ok tk) \<and> t_JobID tk = ''a''"
proof -
  let ?r = "pg_row StateProcessing (Some 9000)" and ?job = "(new_job ''n'' None ''q'')\<lparr>j_ID := ''a''\<rparr>"
  have id: "jr_id ?r = ''a''" by (simp add: pg_row_def)
  have q: "list_all (pg_text pg0) [''q'']" "plain ''orphan recovery''" by (simp_all add: pg0_text plain_def)
  have bad: "stored_result (Some ''hello'') = Some ''hello''" "0 < blen (Some ''hello'')" "pg_jsonb pg0 ''hello'' = None"
    by (simp_all add: stored_result_def blen_def append_nil_def pg0_def)
  have job: "j_ID ?job = jr_id ?r" "row_of pg_claimed (jr_id ?r) = Some ?r" "jr_state ?r = StateProcessing" "jr_progress ?r = Some 9000"
    by (simp_all add: pg_dbs row_of_def)
  have old: "9000 < micro (time_add (now_at (pg_env 20000 []) 0) (- 1000))" by (simp add: pg_env_def time_add_def micro_def)
  have place: "jr_queue ?r \<in> set [''q'']" "jr_id ?r \<notin> set []" "\<forall>x\<in>set (db_jobs pg_claimed). eligible [] [''q''] x \<longrightarrow> jr_token ?r \<le> jr_token x"
    by (simp_all add: pg_dbs)
  have uuid: "pg_uuid pg0 (jr_id ?r) = Some (jr_id ?r)" by (rule pg0_uuid)
  from pg_plain_result [where job = ?job and r = ?r and c = "\<lambda>_. None" and ?e2.0 = "pg_env 20001 []" and now = 20002
      and ?env0.0 = "pg_env 1 []" and w = "\<lambda>_. pg_env 1 []" and jitter = 0 and attempt = 0 and attempt' = 1,
      OF pg0_server(1,2) q pg_tables_wf(3) pg_tables_roomy(2) bad refl job(1,2) uuid job(3,4) old place]
  show ?thesis unfolding id by auto
qed

end
