(* ===== verification/Postgres_Services.thy ===== *)
theory Postgres_Services
  imports Postgres_Properties "HOL-Library.Multiset"
begin

text \<open>
  Promotion, idempotent enqueueing and reading back over PostgreSQL, and what goes wrong when calls
  overlap or the clocks of the servers differ.
\<close>

section \<open>Overlapping calls\<close>

text \<open>
  C39. Requeue reads the state without locking the row. Once a job has Succeeded a Requeue is refused;
  but a success that is recorded between the read and the update is overwritten: the job goes back to the
  queue with Succeeded and Enqueued as its last states, and it runs again.
\<close>

theorem pg_requeue_race:
  assumes P: "pg_server P" and s: "pg_wf s" "roomy 1 s" and u: "pg_uuid P i = Some u" "row_of s u = Some r" "jr_state r = StateProcessing"
    and why: "plain why"
    and nt: "\<forall>k. nt k = (if k = 2 then \<lambda>t. fst (pg_ApplyState P (quiet None) e' i StateProcessing (new_state StateSucceeded '''' [] 0) t) else id, Delivered)"
  shows "\<exists>s1. pg_ApplyState P (quiet None) e' i StateProcessing (new_state StateSucceeded '''' [] 0) s = (s1, Ok ()) \<and>
    pg_Requeue P (quiet None) e i why s1 = (s1, Err ErrTerminalState) \<and>
    (\<exists>s2 r2 sts. pg_Requeue P nt e i why s = (s2, Ok ()) \<and> row_of s2 u = Some r2 \<and> jr_state r2 = StateEnqueued \<and>
      db_states s2 = db_states s @ sts \<and> map sr_name sts = [StateSucceeded, StateEnqueued] \<and> (\<forall>x\<in>set sts. sr_job x = u))"
proof -
  obtain s1 where s1: "pg_ApplyState P (quiet None) e' i StateProcessing (new_state StateSucceeded '''' [] 0) s = (s1, Ok ())"
    "moved u StateSucceeded s s1"
    by (rule apply_moves [OF P s u, where st = "new_state StateSucceeded '''' [] 0" and e = e']) (auto simp: new_state_def)
  then obtain r1 where r1: "pg_wf s1" "row_of s1 u = Some r1" "jr_state r1 = StateSucceeded" by (auto simp: moved_def)
  have refused: "pg_Requeue P (quiet None) e i why s1 = (s1, Err ErrTerminalState)"
    by (rule Requeue_terminal [where nt = "quiet None", OF quiet_link _ r1(2) _ u(1)])
      (simp_all add: r1(3) IrreversibleStates_def)
  have "\<not> IrreversibleStates (jr_state r)" by (simp add: u(3) IrreversibleStates_def state_defs)
  moreover have "fst (nt 2) s = s1" using nt s1(1) by simp
  ultimately have "pg_Requeue P nt e i why s = (requeued u why (now_at e 0) s1, Ok ())"
    using Requeue_run [where nt = nt and s = s and t = s and e = e, OF P _ _ u(2) _ _ _ u(1) why] nt r1 by simp
  then show ?thesis
    using s1 refused r1(2) by (fastforce simp: requeued_def row_of_set_job moved_def)
qed

theorem pg_requeue_race_witness:
  "\<exists>s2 r2. pg_Requeue pg0 (\<lambda>k. (if k = 2 then \<lambda>t. fst (pg_ApplyState pg0 (quiet None) (pg_env 10000 []) ''a'' StateProcessing (new_state StateSucceeded [] [] 0) t)
      else id, Delivered)) (pg_env 11000 []) ''a'' ''orphan'' pg_claimed = (s2, Ok ()) \<and> row_of s2 ''a'' = Some r2 \<and> jr_state r2 = StateEnqueued"
proof -
  have "jr_state (pg_row StateProcessing (Some 9000)) = StateProcessing" "plain ''orphan''" by (simp_all add: pg_row_def plain_def)
  from pg_requeue_race [where P = pg0 and e = "pg_env 11000 []" and e' = "pg_env 10000 []" and nt = "\<lambda>k. (if k = 2 then
      \<lambda>t. fst (pg_ApplyState pg0 (quiet None) (pg_env 10000 []) ''a'' StateProcessing (new_state StateSucceeded [] [] 0) t) else id, Delivered)",
      OF pg0_server(1) pg_tables_wf(3) pg_tables_roomy(2) pg0_uuid pg_tables_row(2) this] show ?thesis by auto
qed

text \<open>
  C38. Idempotency keys over PostgreSQL. A call whose key is taken returns the job that has it and changes
  nothing. A call that looked before another one inserted the key is stopped by the unique index: it
  changes nothing, but it reports an error instead of that job.
\<close>

theorem pg_idempotency:
  assumes key: "key = j_IdempotencyKey job" "key \<noteq> ''''" "pg_text P key" and nt: "\<forall>k. snd (nt k) = Delivered"
    and t0: "t0 = fst (nt 0) s" and t1: "t1 = fst (nt 1) t0" "pg_wf t1" "r \<in> set (db_jobs t1)" "jr_idem r = Some key"
    and job: "pg_uuid P (j_ID (pg_fill_job e (if queue = '''' then ''default'' else queue) job)) = Some u"
      "pg_jsonb P (raw (j_Args (pg_fill_job e (if queue = '''' then ''default'' else queue) job))) = Some args"
      "list_all (pg_text P) [j_Name job, if queue = '''' then ''default'' else queue]"
      "int32 (if j_RetryMax job = 0 then 10 else j_RetryMax job)"
  shows "(r \<in> set (db_jobs t0) \<and> pg_wf t0 \<longrightarrow> pg_EnqueueIdempotent P nt e queue job s = (t0, Ok (jr_id r, False))) \<and>
    ((\<forall>x\<in>set (db_jobs t0). jr_idem x \<noteq> Some key) \<longrightarrow>
      pg_EnqueueIdempotent P nt e queue job s = (t1, Err (ErrWrap ''enqueue insert job'' uniqueViolation)))"
proof -
  let ?job = "pg_fill_job e (if queue = '''' then ''default'' else queue) job"
  have sel: "send (nt 0) (select_key P key) s = (t0, case find (\<lambda>x. jr_idem x = Some key) (db_jobs t0) of None \<Rightarrow> Err noRows | Some x \<Rightarrow> Ok (jr_id x))"
    using nt t0 key(3) by (simp add: send_def select_key_def Let_def)
  have "find (\<lambda>x. jr_idem x = Some key) (db_jobs t0) = Some r" if r0: "r \<in> set (db_jobs t0)" "pg_wf t0"
  proof -
    have "find (\<lambda>x. jr_idem x = Some key) rs = Some r" if "r \<in> set rs" "distinct (keys rs)" for rs
      using that t1(4) by (induction rs) (auto simp: in_keys split: option.splits)
    then show ?thesis using r0 by (simp add: pg_wf_def pg_struct_def)
  qed
  moreover have "insert_job P ?job StateEnqueued tm (nullIfEmpty key) now t1 = (t1, Err uniqueViolation)" for tm now
    using job t1(3,4) key(2,3) by (auto simp: insert_job_def nullIfEmpty_def list_ex_iff pg_fill_job_def)
  then have "insert_keyed P (\<lambda>m. nt (Suc m)) e queue job t0 = (t1, Err (ErrWrap ''enqueue insert job'' uniqueViolation))"
    unfolding insert_keyed_def Let_def
    by (intro in_tx_write_error) (use nt t1(1) key(1) in \<open>simp_all add: no_reads_def stmt_delivered\<close>)
  moreover have "find (\<lambda>x. jr_idem x = Some key) (db_jobs t0) = None" if "\<forall>x\<in>set (db_jobs t0). jr_idem x \<noteq> Some key"
    using that by (simp add: find_None_iff)
  ultimately show ?thesis
    using sel key(1,2) by (auto simp: pg_EnqueueIdempotent_def)
qed

theorem pg_idempotency_witness:
  "pg_EnqueueIdempotent pg0 (quiet None) (pg_env 1 ''b'') ''q'' ((new_job ''n'' None ''q'')\<lparr>j_IdempotencyKey := ''k''\<rparr>) pg_waiting =
     (pg_waiting, Ok (''a'', False)) \<and>
   pg_EnqueueIdempotent pg0 (\<lambda>k. (if k = 1 then \<lambda>_. pg_waiting else id, Delivered)) (pg_env 1 ''b'') ''q''
     ((new_job ''n'' None ''q'')\<lparr>j_IdempotencyKey := ''k''\<rparr>) pg_empty = (pg_waiting, Err (ErrWrap ''enqueue insert job'' uniqueViolation))"
proof -
  note inst = pg_idempotency [where P = pg0 and e = "pg_env 1 ''b''" and queue = "''q''" and key = "''k''" and r = "pg_row StateEnqueued None"
      and job = "(new_job ''n'' None ''q'')\<lparr>j_IdempotencyKey := ''k''\<rparr>" and u = "''b''" and args = "''[]''" and ?t1.0 = pg_waiting]
  note facts = pg0_def plain_def new_job_def pg_fill_job_def pg_env_def int32_def raw_def quiet_link
  have row: "pg_row StateEnqueued None \<in> set (db_jobs pg_waiting)" "jr_idem (pg_row StateEnqueued None) = Some ''k''" "jr_id (pg_row StateEnqueued None) = ''a''"
    "db_jobs pg_empty = []" by (simp_all add: pg_dbs)
  show ?thesis
    using inst [where nt = "quiet None" and s = pg_waiting and ?t0.0 = pg_waiting]
      inst [where nt = "\<lambda>k. (if k = 1 then \<lambda>_. pg_waiting else id, Delivered)" and s = pg_empty and ?t0.0 = pg_empty] pg_tables_wf(2)
    by (simp add: facts row)
qed

section \<open>Promotion\<close>

definition promoted :: "time \<Rightarrow> string \<Rightarrow> pg_db \<Rightarrow> pg_db" where
  "promoted ts u db = bump ''enqueued'' 1 (bump ''scheduled'' (- 1) (add_state u StateEnqueued (Some ''scheduled'') ''{}'' ts
     (set_job u (\<lambda>r. r\<lparr>jr_state := StateEnqueued, jr_updated := micro ts\<rparr>)
       (db\<lparr>db_sched := filter (\<lambda>r. sc_job r \<noteq> u) (db_sched db)\<rparr>))))"

lemma promoted_tables:
  "row_of (promoted ts u db) v = (if v = u then map_option (\<lambda>r. r\<lparr>jr_state := StateEnqueued, jr_updated := micro ts\<rparr>) (row_of db u) else row_of db v)"
  "db_sched (promoted ts u db) = filter (\<lambda>r. sc_job r \<noteq> u) (db_sched db)"
  "db_states (promoted ts u db) = db_states db @ [\<lparr>sr_id = db_seq db, sr_job = u, sr_name = StateEnqueued,
     sr_reason = Some ''scheduled'', sr_data = ''{}'', sr_created = micro ts\<rparr>]"
  "db_conts (promoted ts u db) = db_conts db"
  by (auto simp: promoted_def row_of_set_job same_key_def)

lemma promoted_ids: "jr_id ` set (db_jobs (promoted ts u db)) = jr_id ` set (db_jobs db)"
  using set_job_ids [of "\<lambda>r. r\<lparr>jr_state := StateEnqueued, jr_updated := micro ts\<rparr>" u "db\<lparr>db_sched := filter (\<lambda>r. sc_job r \<noteq> u) (db_sched db)\<rparr>"]
  by (simp add: promoted_def same_key_def)

lemma roomy_mono: "roomy n db \<Longrightarrow> m \<le> n \<Longrightarrow> roomy m db"
  by (auto simp: roomy_def)

lemma roomy_sched [simp]: "roomy n (db\<lparr>db_sched := xs\<rparr>) = roomy n db"
  by (simp add: roomy_def)

lemma promoted_roomy: "roomy (n + 2) db \<Longrightarrow> 0 \<le> n \<Longrightarrow> roomy n (promoted ts u db)"
  unfolding promoted_def by (intro roomy_bump) (simp_all add: algebra_simps)

lemma promote_loop_run:
  assumes P: "pg_server P" and nt: "\<And>k. snd (nt k) = Delivered"
  shows "\<forall>u\<in>set ids. pg_uuid P u = Some u \<and> u \<in> jr_id ` set (db_jobs db) \<Longrightarrow> roomy (2 * int (length ids)) db \<Longrightarrow>
    pg_promote_loop P nt ts k ids db = (fold (promoted ts) ids db, Ok (map (\<lambda>u. \<lparr>t_JobID = u, t_Token = ''sched-'' @ u\<rparr>) ids))"
proof (induction ids arbitrary: db k)
  case (Cons u ids)
  let ?f = "\<lambda>r. r\<lparr>jr_state := StateEnqueued, jr_updated := micro ts\<rparr>"
  let ?a = "db\<lparr>db_sched := filter (\<lambda>r. sc_job r \<noteq> u) (db_sched db)\<rparr>"
  let ?b = "set_job u ?f ?a"
  let ?c = "add_state u StateEnqueued (Some ''scheduled'') ''{}'' ts ?b"
  have u: "pg_uuid P u = Some u" "u \<in> jr_id ` set (db_jobs ?a)" using Cons.prems(1) by simp_all
  then have "u \<in> jr_id ` set (db_jobs ?b)" by (simp only: set_job_ids same_key_simps)
  then have ins: "insert_state P u StateEnqueued (Some ''scheduled'') ''{}'' ts ?b = (?c, Ok ())"
    by (intro insert_state_ok [OF u(1) server_empty [OF P]]) (simp_all add: server_text [OF P])
  have room: "roomy (2 * int (length ids) + 2) db" using Cons.prems(2) by (simp add: algebra_simps)
  then have "roomy 1 ?c" using roomy_mono [of _ db 1] by simp
  then have c1: "pg_bumpCounter P (nt (k + 3)) ''scheduled'' (- 1) ?c = (bump ''scheduled'' (- 1) ?c, Ok ())"
    using bump_ok [OF server_text [OF P plain_counters(3)] _ _ nt, of ?c "- 1" "k + 3"] by simp
  have "roomy 1 (bump ''scheduled'' (- 1) ?c)" using roomy_mono [OF room, of 2] roomy_bump [of 1 ?c "- 1"] by simp
  then have c2: "pg_bumpCounter P (nt (k + 4)) ''enqueued'' 1 (bump ''scheduled'' (- 1) ?c) = (promoted ts u db, Ok ())"
    using bump_ok [OF server_text [OF P plain_counters(2)] _ _ nt, of _ 1 "k + 4"] by (simp add: promoted_def)
  have "pg_promote_loop P nt ts (k + 5) ids (promoted ts u db) =
      (fold (promoted ts) ids (promoted ts u db), Ok (map (\<lambda>u. \<lparr>t_JobID = u, t_Token = ''sched-'' @ u\<rparr>) ids))"
    by (rule Cons.IH) (use Cons.prems(1) room in \<open>auto simp: promoted_ids promoted_roomy\<close>)
  moreover have "delete_sched P u db = (?a, Ok ())" using u(1) by (simp add: delete_sched_def with_uuid_def)
  ultimately show ?case using ins c1 c2 by (simp add: stmt_delivered nt update_ok [OF u(1)])
qed simp

lemma fold_promoted:
  "distinct ids \<Longrightarrow> row_of (fold (promoted ts) ids db) v =
     (if v \<in> set ids then map_option (\<lambda>r. r\<lparr>jr_state := StateEnqueued, jr_updated := micro ts\<rparr>) (row_of db v) else row_of db v)"
  "db_sched (fold (promoted ts) ids db) = filter (\<lambda>r. sc_job r \<notin> set ids) (db_sched db)"
  "\<exists>sts. db_states (fold (promoted ts) ids db) = db_states db @ sts \<and> map sr_job sts = ids \<and> (\<forall>x\<in>set sts. sr_name x = StateEnqueued)"
  "db_conts (fold (promoted ts) ids db) = db_conts db"
proof (induction ids arbitrary: db)
  case (Cons u ids)
  { case 1 then show ?case using Cons.IH(1) [of "promoted ts u db"] by (auto simp: promoted_tables)
  next
    case 2 show ?case using Cons.IH(2) [of "promoted ts u db"] by (auto simp: promoted_tables intro: filter_cong)
  next
    case 3
    from Cons.IH(3) [of "promoted ts u db"] obtain sts where
      "db_states (fold (promoted ts) ids (promoted ts u db)) = db_states (promoted ts u db) @ sts" "map sr_job sts = ids"
      "\<forall>x\<in>set sts. sr_name x = StateEnqueued" by blast
    then show ?case
      by (intro exI [of _ "\<lparr>sr_id = db_seq db, sr_job = u, sr_name = StateEnqueued,
        sr_reason = Some ''scheduled'', sr_data = ''{}'', sr_created = micro ts\<rparr> # sts"]) (simp add: promoted_tables)
  next
    case 4 show ?case using Cons.IH(4) by (simp add: promoted_tables)
  }
qed simp_all

lemma due_distinct:
  assumes "pg_wf s"
  shows "distinct (map sc_job (take n (sort_key sc_at (filter q (db_sched s)))))"
proof -
  have "\<forall>x\<in>set (db_sched s). sc_id x = sc_job x" "distinct (map sc_id (db_sched s))"
    using assms by (simp_all add: pg_wf_def pg_struct_def)
  then have "distinct (map sc_job (db_sched s))" by (simp cong: map_cong)
  then have "distinct (map sc_job (sort_key sc_at (filter q (db_sched s))))"
    by (auto simp: distinct_map intro: inj_on_subset)
  then show ?thesis using distinct_take [of "map sc_job (sort_key sc_at (filter q (db_sched s)))" n] by (simp add: take_map)
qed

lemma promotion_run:
  assumes P: "pg_server P" and s: "pg_wf s" "roomy (2 * int (length ids)) s" and canon: "\<forall>x\<in>set (db_sched s). pg_uuid P (sc_job x) = Some (sc_job x)"
    and ids: "ids = map sc_job (take (nat n) (sort_key sc_at (filter (\<lambda>x. sc_at x \<le> micro now \<and> sc_id x \<notin> set lk) (db_sched s))))"
    and n: "n = (if batch \<le> 0 then 100 else batch)"
  shows "pg_GetDueScheduled P (quiet None) e lk now batch s =
    (fold (promoted (now_at e 0)) ids s, Ok (map (\<lambda>u. \<lparr>t_JobID = u, t_Token = ''sched-'' @ u\<rparr>) ids))"
proof -
  have sub: "set ids \<subseteq> sc_job ` set (db_sched s)"
    unfolding ids by (auto dest!: in_set_takeD)
  have wf: "\<forall>x\<in>set (db_sched s). sc_job x \<in> jr_id ` set (db_jobs s)"
    using s(1) by (simp add: pg_wf_def pg_struct_def refers_def)
  have "pg_promote_loop P (quiet None) (now_at e 0) 3 ids s =
      (fold (promoted (now_at e 0)) ids s, Ok (map (\<lambda>u. \<lparr>t_JobID = u, t_Token = ''sched-'' @ u\<rparr>) ids))"
    by (rule promote_loop_run [where nt = "quiet None", OF P quiet_link _ s(2)]) (use sub canon wf in blast)
  then show ?thesis
    unfolding pg_GetDueScheduled_def Let_def
    by (intro in_tx_delivered) (auto simp: read_stmt_def quiet_link select_due_def ids n)
qed

text \<open>
  C10. GetDueScheduled over PostgreSQL promotes the due entries no other transaction holds, the earliest
  first and at most the batch size, in one transaction: exactly their rows leave the schedule, each of
  their jobs becomes Enqueued with one state row, in that order, and no other job changes.
\<close>

theorem pg_promotion:
  assumes "pg_server P" "pg_wf s" "roomy (2 * int (length ids)) s" "\<forall>x\<in>set (db_sched s). pg_uuid P (sc_job x) = Some (sc_job x)"
    and "ids = map sc_job (take (nat n) (sort_key sc_at (filter (\<lambda>x. sc_at x \<le> micro now \<and> sc_id x \<notin> set lk) (db_sched s))))"
    and "n = (if batch \<le> 0 then 100 else batch)"
  shows "\<exists>s' sts. pg_GetDueScheduled P (quiet None) e lk now batch s =
      (s', Ok (map (\<lambda>u. \<lparr>t_JobID = u, t_Token = ''sched-'' @ u\<rparr>) ids)) \<and>
    pg_wf s' \<and> distinct ids \<and> db_sched s' = filter (\<lambda>x. sc_job x \<notin> set ids) (db_sched s) \<and>
    db_states s' = db_states s @ sts \<and> map sr_job sts = ids \<and> (\<forall>x\<in>set sts. sr_name x = StateEnqueued) \<and>
    (\<forall>v. row_of s' v = (if v \<in> set ids then map_option (\<lambda>r. r\<lparr>jr_state := StateEnqueued, jr_updated := micro (now_at e 0)\<rparr>) (row_of s v)
                        else row_of s v))"
proof -
  note run = promotion_run [where e = e, OF assms]
  let ?s = "fold (promoted (now_at e 0)) ids s"
  have dist: "distinct ids" unfolding assms(5) by (rule due_distinct [OF assms(2)])
  have wf: "pg_wf ?s" by (rule quiet_wf [OF GetDueScheduled_wf [OF rely_quiet] run assms(2)])
  obtain sts where "db_states ?s = db_states s @ sts" "map sr_job sts = ids" "\<forall>x\<in>set sts. sr_name x = StateEnqueued"
    using fold_promoted(3) by blast
  then show ?thesis
    using run wf dist fold_promoted(1) [OF dist, of "now_at e 0" s] fold_promoted(2) [of "now_at e 0" ids s]
    by (intro exI [of _ ?s] exI [of _ sts] conjI allI) assumption+
qed

lemma later_due: "[''a''] = map sc_job (take (nat 100) (sort_key sc_at (filter (\<lambda>x. sc_at x \<le> micro 30000 \<and> sc_id x \<notin> set []) (db_sched pg_later))))"
  by (simp add: pg_dbs micro_def)

theorem pg_promotion_witness:
  "\<exists>s' sts. pg_GetDueScheduled pg0 (quiet None) (pg_env 30000 []) [] 30000 0 pg_later = (s', Ok [\<lparr>t_JobID = ''a'', t_Token = ''sched-a''\<rparr>]) \<and>
     db_sched s' = [] \<and> db_states s' = db_states pg_later @ sts \<and> map sr_job sts = [''a'']"
proof -
  have "\<forall>x\<in>set (db_sched pg_later). pg_uuid pg0 (sc_job x) = Some (sc_job x)" by simp
  from pg_promotion [where batch = 0 and e = "pg_env 30000 []", OF pg0_server(1) pg_tables_wf(4) pg_tables_roomy(3) this later_due] show ?thesis
    by (auto simp: pg_dbs)
qed

text \<open>
  A scheduled job that is deleted comes back: DeleteJob leaves its schedule entry in place and
  GetDueScheduled does not look at the job's state, so when the time comes the Deleted job is Enqueued
  and the next free worker claims it.
\<close>

lemma pg_deleted_promoted:
  assumes P: "pg_server P" and s: "pg_wf s" "roomy (2 * int (length ids)) s"
    and canon: "\<forall>x\<in>set (db_sched s). pg_uuid P (sc_job x) = Some (sc_job x)"
    and u: "row_of s u = Some r" "jr_state r = StateScheduled" "u \<in> set ids"
    and ids: "ids = map sc_job (take (nat n) (sort_key sc_at (filter (\<lambda>x. sc_at x \<le> micro now \<and> sc_id x \<notin> set lk) (db_sched s))))"
    and n: "n = (if batch \<le> 0 then 100 else batch)"
  shows "\<exists>s1 s2 r1 r2 ts. pg_DeleteJob P (quiet None) e u s = (s1, Ok ()) \<and> row_of s1 u = Some r1 \<and> jr_state r1 = StateDeleted \<and>
    pg_GetDueScheduled P (quiet None) e2 lk now batch s1 = (s2, Ok ts) \<and> u \<in> t_JobID ` set ts \<and>
    row_of s2 u = Some r2 \<and> jr_state r2 = StateEnqueued"
proof -
  have uu: "pg_uuid P u = Some u" using canon u(3) unfolding ids by (auto dest!: in_set_takeD)
  let ?s1 = "deleted u (now_at e 0) s"
  have del: "pg_DeleteJob P (quiet None) e u s = (?s1, Ok ())"
    by (rule DeleteJob_run [OF P s(1) u(1) _ uu]) (simp add: u(2) IrreversibleStates_def state_defs)
  have wf: "pg_wf ?s1" by (rule quiet_wf [OF DeleteJob_wf [OF rely_quiet] del s(1)])
  have tabs: "db_sched ?s1 = db_sched s" "roomy k ?s1 = roomy k s" for k by (simp_all add: deleted_def)
  have run: "pg_GetDueScheduled P (quiet None) e2 lk now batch ?s1 =
      (fold (promoted (now_at e2 0)) ids ?s1, Ok (map (\<lambda>u. \<lparr>t_JobID = u, t_Token = ''sched-'' @ u\<rparr>) ids))"
    using promotion_run [where e = e2 and s = ?s1, OF P wf _ _ _ n, of ids now lk] s(2) canon ids by (simp add: tabs)
  have r1: "row_of ?s1 u = Some (r\<lparr>jr_state := StateDeleted, jr_progress := None, jr_updated := micro (now_at e 0)\<rparr>)"
    using u(1) by (simp add: deleted_def row_of_set_job)
  have dist: "distinct ids" unfolding ids by (rule due_distinct [OF s(1)])
  show ?thesis
    by (intro exI conjI, rule del, rule r1, simp, rule run) (use u(3) r1 fold_promoted(1) [OF dist, of "now_at e2 0" ?s1 u] in \<open>auto simp: image_image\<close>)
qed

section \<open>Reading back\<close>

definition rows_of :: "pg_db \<Rightarrow> string \<Rightarrow> state_row list" where
  "rows_of db u = filter (\<lambda>x. sr_job x = u) (db_states db)"

lemma GetJob_run:
  assumes "pg_uuid P i = Some u" "row_of s u = Some r"
  shows "pg_GetJob P (quiet None) i s =
    (s, Ok \<lparr>jw_Job = scanJobFromRow r, jw_States = map (state_of_row P) (sort_key sr_created (rows_of s u))\<rparr>)"
  using assms by (simp add: pg_GetJob_def scanJob_def with_uuid_def pg_loadStates_def select_states_def rows_of_def row_of_def)

lemma sort_older: "\<forall>y\<in>set xs. f x < f y \<Longrightarrow> sort_key f (xs @ [x]) = x # sort_key f xs"
proof (induction xs)
  case (Cons y xs)
  then have "sort_key f ((y # xs) @ [x]) = insort_key f y (x # sort_key f xs)" by simp
  also have "\<dots> = x # insort_key f y (sort_key f xs)" using Cons.prems by auto
  finally show ?case by simp
qed simp

lemma last_row:
  assumes "pg_wf s" "row_of s u = Some r"
  shows "rows_of s u \<noteq> [] \<and> sr_name (last (rows_of s u)) = jr_state r"
proof -
  have "last_name s u = Some (jr_state r)"
    using assms(1) row_of_Some [OF assms(2)] by (auto simp: pg_wf_def)
  then show ?thesis
    by (cases "rows_of s u" rule: rev_cases) (simp_all add: last_name_def rows_of_def)
qed

text \<open>The claim of a worker whose clock is behind every state of the job, as readers see it.\<close>

lemma slow_claim:
  assumes P: "pg_server P" and s: "pg_wf s" and row: "row_of s u = Some r" and u: "pg_uuid P u = Some u"
    and qs: "list_all (pg_text P) qs" "plain (pg_serverID P)" "roomy 1 s" "eligible lk qs r"
      "\<forall>x\<in>set (db_jobs s). eligible lk qs x \<longrightarrow> jr_token r \<le> jr_token x"
    and old: "\<forall>y\<in>set (rows_of s u). micro now < sr_created y" and ne: "map (state_of_row P) (sort_key sr_created (rows_of s u)) \<noteq> []"
  defines "h \<equiv> map (state_of_row P) (sort_key sr_created (rows_of s u))"
  shows "\<exists>s1 r1 st tk. tryDequeue P (quiet None) lk now qs s = (s1, Ok tk) \<and> t_JobID tk = u \<and>
        row_of s1 u = Some r1 \<and> jr_state r1 = StateProcessing \<and> js_Name st = StateProcessing \<and>
        pg_GetJob P (quiet None) u s1 = (s1, Ok \<lparr>jw_Job = scanJobFromRow r1, jw_States = st # h\<rparr>) \<and>
        current_of (st # h) = current_of h"
proof -
  have r: "r \<in> set (db_jobs s)" "jr_id r = u" using row_of_Some [OF row] by simp_all
  obtain d where d: "pg_jsonb P (pg_marshal P [(''server_id'', pg_serverID P)]) = Some d"
    using server_data [OF P plain_counters(7) qs(2)] by blast
  let ?s1 = "claimed u d now s"
  let ?r1 = "r\<lparr>jr_state := StateProcessing, jr_progress := Some (micro now), jr_updated := micro now\<rparr>"
  let ?x = "\<lparr>sr_id = db_seq s, sr_job = u, sr_name = StateProcessing, sr_reason = None, sr_data = d, sr_created = micro now\<rparr>"
  have run: "tryDequeue P (quiet None) lk now qs s =
      (?s1, Ok \<lparr>t_JobID = u, t_Token = ''tok-'' @ u @ ''-'' @ show_int (sint (UnixNano now))\<rparr>)"
    by (rule tryDequeue_claims [where nt = "quiet None", OF P quiet_link _ qs(3)
          select_next_least [OF s qs(1) r(1) qs(4,5), unfolded r(2)] u _ d]) (use r in auto)
  have row1: "row_of ?s1 u = Some ?r1" using row by (simp add: claimed_def row_of_set_job)
  have "rows_of ?s1 u = rows_of s u @ [?x]" by (simp add: rows_of_def claimed_def)
  with old have "sort_key sr_created (rows_of ?s1 u) = ?x # sort_key sr_created (rows_of s u)"
    by (simp only:) (rule sort_older, simp)
  then have get: "pg_GetJob P (quiet None) u ?s1 = (?s1, Ok \<lparr>jw_Job = scanJobFromRow ?r1, jw_States = state_of_row P ?x # h\<rparr>)"
    using GetJob_run [OF u row1] by (simp add: h_def)
  have "current_of (state_of_row P ?x # h) = current_of h" using ne by (simp add: current_of_def h_def)
  moreover have "js_Name (state_of_row P ?x) = StateProcessing" by (simp add: state_of_row_def new_state_def)
  moreover have "jr_state ?r1 = StateProcessing" by simp
  ultimately show ?thesis
    using run row1 get
    by (intro exI [of _ ?s1] exI [of _ ?r1] exI [of _ "state_of_row P ?x"] exI conjI) (assumption | simp only: jobTicket.select_convs)+
qed

text \<open>
  C37. GetJob over PostgreSQL, for any stored job in any state: it returns the job's row and exactly its
  state rows, ordered by the clocks that wrote them. When those never ran backwards this is the order
  in which the states happened, and the last one is the state column. A worker whose clock is behind the
  clock of the process that enqueued the job claims it, but its Processing state sorts before all others:
  readers go on seeing the state the job had before.
\<close>

theorem pg_history:
  assumes P: "pg_server P" and s: "pg_wf s"
    and r: "row_of s i = Some r" "pg_uuid P i = Some i"
  shows "\<exists>h. pg_GetJob P (quiet None) i s = (s, Ok \<lparr>jw_Job = scanJobFromRow r, jw_States = h\<rparr>) \<and> h \<noteq> [] \<and>
    mset h = mset (map (state_of_row P) (rows_of s i)) \<and> sorted (map js_CreatedAt h) \<and>
    (sorted (map sr_created (rows_of s i)) \<longrightarrow> h = map (state_of_row P) (rows_of s i) \<and> current_of h = jr_state r) \<and>
    (\<forall>qs lk now. list_all (pg_text P) qs \<and> plain (pg_serverID P) \<and> roomy 1 s \<and> eligible lk qs r \<and>
      (\<forall>x\<in>set (db_jobs s). eligible lk qs x \<longrightarrow> jr_token r \<le> jr_token x) \<and>
      (\<forall>y\<in>set (rows_of s i). micro now < sr_created y) \<longrightarrow>
      (\<exists>s1 r1 st tk. tryDequeue P (quiet None) lk now qs s = (s1, Ok tk) \<and> t_JobID tk = i \<and>
        row_of s1 i = Some r1 \<and> jr_state r1 = StateProcessing \<and> js_Name st = StateProcessing \<and>
        pg_GetJob P (quiet None) i s1 = (s1, Ok \<lparr>jw_Job = scanJobFromRow r1, jw_States = st # h\<rparr>) \<and>
        current_of (st # h) = current_of h))"
proof -
  let ?h = "map (state_of_row P) (sort_key sr_created (rows_of s i))"
  note last = last_row [OF s r(1)]
  then have ne: "?h \<noteq> []" by (metis Nil_is_map_conv length_0_conv length_sort)
  have created: "map js_CreatedAt (map (state_of_row P) rs) = map sr_created rs" for rs
    by (simp add: state_of_row_def new_state_def)
  have perm: "mset ?h = mset (map (state_of_row P) (rows_of s i))" by (simp only: mset_map mset_sort)
  have sorted: "sorted (map js_CreatedAt ?h)" unfolding created by simp
  have one: "?h = map (state_of_row P) (rows_of s i) \<and> current_of ?h = jr_state r" if "sorted (map sr_created (rows_of s i))"
    using that last by (simp add: sort_key_id_if_sorted current_of_def last_map state_of_row_def new_state_def)
  have two: "\<exists>s1 r1 st tk. tryDequeue P (quiet None) lk now qs s = (s1, Ok tk) \<and> t_JobID tk = i \<and>
        row_of s1 i = Some r1 \<and> jr_state r1 = StateProcessing \<and> js_Name st = StateProcessing \<and>
        pg_GetJob P (quiet None) i s1 = (s1, Ok \<lparr>jw_Job = scanJobFromRow r1, jw_States = st # ?h\<rparr>) \<and>
        current_of (st # ?h) = current_of ?h"
    if qs: "list_all (pg_text P) qs" "plain (pg_serverID P)" "roomy 1 s" "eligible lk qs r"
      "\<forall>x\<in>set (db_jobs s). eligible lk qs x \<longrightarrow> jr_token r \<le> jr_token x" and old: "\<forall>y\<in>set (rows_of s i). micro now < sr_created y" for qs lk now
    by (rule slow_claim [OF P s r qs old ne])
  show ?thesis
    by (rule exI [of _ ?h]) (use GetJob_run [OF r(2,1)] ne perm sorted one two in blast)
qed

theorem pg_history_witness:
  "\<exists>h st s1 r1 h2. pg_GetJob pg0 (quiet None) ''a'' pg_waiting = (pg_waiting, Ok \<lparr>jw_Job = scanJobFromRow (pg_row StateEnqueued None), jw_States = h\<rparr>) \<and>
     current_of h = StateEnqueued \<and> row_of s1 ''a'' = Some r1 \<and> jr_state r1 = StateProcessing \<and>
     pg_GetJob pg0 (quiet None) ''a'' s1 = (s1, Ok \<lparr>jw_Job = scanJobFromRow r1, jw_States = st # h\<rparr>) \<and> current_of (st # h) = StateEnqueued \<and>
     pg_GetJob pg0 (quiet None) ''a'' pg_claimed = (pg_claimed, Ok \<lparr>jw_Job = scanJobFromRow (pg_row StateProcessing (Some 9000)), jw_States = h2\<rparr>) \<and>
     current_of h2 = StateProcessing"
proof -
  let ?r = "pg_row StateEnqueued None" and ?r2 = "pg_row StateProcessing (Some 9000)"
  have r: "row_of pg_waiting ''a'' = Some ?r" "row_of pg_claimed ''a'' = Some ?r2" "jr_state ?r = StateEnqueued" "jr_state ?r2 = StateProcessing"
    by (simp_all add: pg_dbs row_of_def)
  have q: "list_all (pg_text pg0) [''q''] \<and> plain (pg_serverID pg0) \<and> roomy 1 pg_waiting \<and> eligible [] [''q''] ?r \<and>
      (\<forall>x\<in>set (db_jobs pg_waiting). eligible [] [''q''] x \<longrightarrow> jr_token ?r \<le> jr_token x) \<and>
      (\<forall>y\<in>set (rows_of pg_waiting ''a''). micro 5000 < sr_created y)"
    using pg0_server(2) by (simp add: pg_tables_roomy pg0_text plain_def) (simp add: pg_dbs eligible_def rows_of_def micro_def)
  have sorted: "sorted (map sr_created (rows_of pg_waiting ''a''))" "sorted (map sr_created (rows_of pg_claimed ''a''))"
    by (simp_all add: pg_dbs rows_of_def)
  note A = pg_history [OF pg0_server(1) pg_tables_wf(2) r(1) pg0_uuid]
    and B = pg_history [OF pg0_server(1) pg_tables_wf(3) r(2) pg0_uuid]
  from A show ?thesis
  proof (elim exE conjE, goal_cases)
    case (1 h)
    note A = 1
    have cur: "current_of h = StateEnqueued" using conjunct2 [OF mp [OF A(5) sorted(1)]] r(3) by (rule trans)
    from A(6) [rule_format, OF q] show ?case
    proof (elim exE conjE, goal_cases)
      case (1 s1 r1 st tk)
      note C = 1
      from B show ?case
      proof (elim exE conjE, goal_cases)
        case (1 h2)
        have "current_of h2 = StateProcessing" using conjunct2 [OF mp [OF 1(5) sorted(2)]] r(4) by (rule trans)
        moreover have "current_of (st # h) = StateEnqueued" using C(7) cur by (rule trans)
        ultimately show ?case
          by (intro exI [of _ h] exI [of _ st] exI [of _ s1] exI [of _ r1] exI [of _ h2] conjI) (rule A(1) cur C(3,4,6) 1(1) | assumption)+
      qed
    qed
  qed
qed

end
