(* ===== verification/Api_Conformance.thy ===== *)
theory Api_Conformance
  imports Api_Properties
begin

text \<open>
  The OpenAPI document against the server: the operations it documents are the routes, its references
  resolve, and every success the handlers answer has a documented status.
\<close>

section \<open>What is documented\<close>

fun segments :: "string \<Rightarrow> string \<Rightarrow> string list" where
  "segments cur [] = [cur]"
| "segments cur (c # cs) = (if c = CHR ''/'' then cur # segments [] cs else segments (cur @ [c]) cs)"

definition path_segs :: "string \<Rightarrow> seg list" where
  "path_segs p = map (\<lambda>s. if s \<noteq> [] \<and> hd s = CHR ''{'' then Wild else Lit s) (tl (segments [] p))"

definition http_method :: "string \<Rightarrow> string" where
  "http_method m = (if m = ''get'' then ''GET'' else if m = ''post'' then ''POST'' else if m = ''delete'' then ''DELETE'' else m)"

definition documented :: "(string \<times> seg list \<times> string list) list" where
  "documented = map (\<lambda>(p, m, op). (http_method m, path_segs p, doc_statuses op)) doc_operations"

lemma refs_resolve: "set (refs openapiSpec) \<subseteq> set doc_schemas"
  by code_simp

text \<open>The status of a success.\<close>

fun success :: "endpoint \<Rightarrow> nat" where
  "success EEnqueue = 201"
| "success EBatchEnqueue = 201"
| "success ESchedule = 201"
| "success EContinue = 201"
| "success ECreateRecurring = 201"
| "success ETriggerRecurring = 201"
| "success _ = 200"

lemma documented_success:
  "\<forall>(m, p, ep)\<in>set routes. \<forall>(m', p', sts)\<in>set documented. m' = m \<and> p' = p \<longrightarrow> show_nat (success ep) \<in> set sts"
  by code_simp

lemma documented_routes:
  "set (map (\<lambda>(m, p, _). (m, p)) documented) = set (map (\<lambda>(m, p, _). (m, p)) (filter (\<lambda>(_, _, ep). ep \<noteq> EMetrics \<and> ep \<noteq> EOpenAPI) routes))"
  by code_simp

section \<open>What is answered\<close>

lemmas job_handlers = handleEnqueue_def handleSchedule_def handleGetJob_def handleListJobs_def handleRequeue_def handleCancel_def
  handleDelete_def handleContinue_def handleBatchEnqueue_def

lemma answers:
  assumes "dispatch sv w ep v r x = (x', Resp n b)" "n < 300"
  shows "n = success ep"
  using assms
  by (cases ep)
    (auto simp: keep_def on_store_def job_handlers writeError_def Let_def handleHealthz_def handleReadyz_def handleListQueues_def
      handleGetQueue_def handleListServers_def handleMetrics_def handleOpenAPI_def handleListRecurring_def handleCreateRecurring_def
      handleDeleteRecurring_def handleTriggerRecurring_def
      split: result.splits option.splits if_splits prod.splits)

section \<open>Conformance\<close>

fun jarr :: "json \<Rightarrow> json list" where
  "jarr (JArr xs) = xs"
| "jarr _ = []"

definition path_params :: "json \<Rightarrow> json list" where
  "path_params op = map (jfield ''name'') (filter (\<lambda>j. jfield ''in'' j = JStr ''path'') (jarr (jfield ''parameters'' op)))"

definition wildcards :: "string \<Rightarrow> json list" where
  "wildcards p = map (\<lambda>s. JStr (butlast (tl s))) (filter (\<lambda>s. s \<noteq> [] \<and> hd s = CHR ''{'') (segments [] p))"

lemma params_declared: "\<forall>(p, _, op)\<in>set doc_operations. path_params op = wildcards p"
  by code_simp

text \<open>
  C18. The OpenAPI document describes the server: its operations are exactly the routes other than the
  metrics and the document itself, each declares the wildcards of its path as path parameters, every
  reference to a schema resolves, and a success that the handler of a route answers, over any store and
  in any state, has a status the document lists for it.
\<close>

theorem openapi_conforms:
  "set (map (\<lambda>(m, p, _). (m, p)) documented) =
     set (map (\<lambda>(m, p, _). (m, p)) (filter (\<lambda>(_, _, ep). ep \<noteq> EMetrics \<and> ep \<noteq> EOpenAPI) routes)) \<and>
   list_all (\<lambda>(p, _, op). path_params op = wildcards p) doc_operations \<and>
   set (refs openapiSpec) \<subseteq> set doc_schemas \<and>
   (\<forall>m p ep sts sv w v r x x' n b. (m, p, ep) \<in> set routes \<and> (m, p, sts) \<in> set documented \<and>
      dispatch sv w ep v r (x :: 's backend_state) = (x', Resp n b) \<and> n < 300 \<longrightarrow> show_nat n \<in> set sts)"
proof (intro conjI allI impI)
  show "list_all (\<lambda>(p, _, op). path_params op = wildcards p) doc_operations"
    using params_declared by (simp add: list_all_iff)
  fix m p ep sts and sv :: "'s server" and w v r and x x' :: "'s backend_state" and n b
  assume a: "(m, p, ep) \<in> set routes \<and> (m, p, sts) \<in> set documented \<and> dispatch sv w ep v r x = (x', Resp n b) \<and> n < 300"
  then have "n = success ep" using answers by blast
  with a documented_success show "show_nat n \<in> set sts" by fastforce
qed (rule documented_routes refs_resolve)+

theorem openapi_conforms_witness:
  "(''GET'', [Lit ''healthz''], EHealthz) \<in> set routes \<and> (''GET'', [Lit ''healthz''], [''200'']) \<in> set documented \<and>
   (\<exists>b. dispatch demo_server (\<lambda>_. test_env 5 ''a'' []) EHealthz [] (demo_request [] ''GET'' [''healthz'']) (mem_New, None) =
      ((mem_New, None), Resp 200 b)) \<and> show_nat 200 \<in> set [''200'']"
proof -
  have route: "(''GET'', [Lit ''healthz''], EHealthz) \<in> set routes" by (simp add: routes_def)
  have doc: "(''GET'', [Lit ''healthz''], [''200'']) \<in> set documented" by code_simp
  have run: "\<exists>b. dispatch demo_server (\<lambda>_. test_env 5 ''a'' []) EHealthz [] (demo_request [] ''GET'' [''healthz'']) (mem_New, None) =
      ((mem_New, None), Resp 200 b)"
    by (simp add: keep_def handleHealthz_def)
  then obtain b where "dispatch demo_server (\<lambda>_. test_env 5 ''a'' []) EHealthz [] (demo_request [] ''GET'' [''healthz'']) (mem_New, None) =
      ((mem_New, None), Resp 200 b)" by blast
  then have "show_nat 200 \<in> set [''200'']"
    by (intro openapi_conforms [THEN conjunct2, THEN conjunct2, THEN conjunct2, rule_format])
      (use route doc in \<open>auto simp del: dispatch.simps\<close>)
  with route doc run show ?thesis by blast
qed

end
