(* ===== verification/Storage_Backends.thy ===== *)
theory Storage_Backends
  imports Gfire_Config Redis_Store Postgres_Store
begin

text \<open>
  Opening a store: \<^verbatim>\<open>Open\<close> of the two database packages (\<^verbatim>\<open>storage/redis/storage.go\<close>,
  \<^verbatim>\<open>storage/postgres/storage.go\<close>) and the choice between the backends (\<^verbatim>\<open>config/storage.go\<close>). The driver
  packages are a parameter: parsing a DSN, connecting, and pinging the server a connection reaches.
\<close>

section \<open>Opening\<close>

record ('c, 'db) drivers =
  dr_ParseConfig :: "string \<Rightarrow> 'c result"
  dr_NewWithConfig :: "'c \<Rightarrow> pg result"
  dr_pgPing :: "pg \<Rightarrow> unit result"
  dr_NewClient :: "string \<Rightarrow> string \<Rightarrow> int \<Rightarrow> 'db redis"
  dr_redisPing :: "'db redis \<Rightarrow> unit result"

definition redis_Open :: "('c, 'db) drivers \<Rightarrow> string \<Rightarrow> string \<Rightarrow> int \<Rightarrow> 'db redis result" where
  "redis_Open dr addr password db =
     (let addr = (if addr = '''' then ''localhost:6379'' else addr);
          client = dr_NewClient dr addr password db
      in case dr_redisPing dr client of
           Err err \<Rightarrow> Err (ErrWrap ''redis: ping'' err)
         | Panic p \<Rightarrow> Panic p
         | Ok _ \<Rightarrow> Ok (redis_New client))"

definition pg_Open :: "('c, 'db) drivers \<Rightarrow> string \<Rightarrow> pg result" where
  "pg_Open dr dsn =
     (case dr_ParseConfig dr dsn of
        Err err \<Rightarrow> Err (ErrWrap ''postgres: parse dsn'' err)
      | Panic p \<Rightarrow> Panic p
      | Ok cfg \<Rightarrow>
          (case dr_NewWithConfig dr cfg of
             Err err \<Rightarrow> Err (ErrWrap ''postgres: connect'' err)
           | Panic p \<Rightarrow> Panic p
           | Ok pool \<Rightarrow>
               (case dr_pgPing dr pool of
                  Err err \<Rightarrow> Err (ErrWrap ''postgres: ping'' err)
                | Panic p \<Rightarrow> Panic p
                | Ok _ \<Rightarrow> Ok (pg_New pool))))"

datatype 'db backend = MemoryBackend | PostgresBackend pg | RedisBackend "'db redis"

definition OpenStorage :: "('c, 'db) drivers \<Rightarrow> storageConfig \<Rightarrow> string \<Rightarrow> 'db backend result" where
  "OpenStorage dr cfg serverID =
     (let b = st_Backend cfg in
      if b = '''' \<or> b = ''memory'' then Ok MemoryBackend
      else if b = ''postgres'' \<or> b = ''postgresql'' then
        map_result (\<lambda>st. PostgresBackend (if serverID \<noteq> '''' then pg_SetServerID serverID st else st))
          (pg_Open dr (pg_DSN (st_Postgres cfg)))
      else if b = ''redis'' \<or> b = ''valkey'' then
        map_result (\<lambda>st. RedisBackend (if serverID \<noteq> '''' then SetServerID serverID st else st))
          (redis_Open dr (rd_Addr (st_Redis cfg)) (rd_Password (st_Redis cfg)) (rd_DB (st_Redis cfg)))
      else Err (ErrMsg (''unknown storage backend '' @ quoted b)))"

section \<open>What is opened\<close>

text \<open>
  A configuration that loads is one whose backend exists: whatever the file and the environment say,
  Load returns only configurations that pass validation, and for those OpenStorage gives the memory
  store or the outcome of opening the configured database, never an unknown backend. Validation is
  stricter than OpenStorage, though: the backends named valkey, postgresql and the empty name, which
  OpenStorage accepts, are rejected.
\<close>

lemma open_aliases:
  "OpenStorage dr (cfg\<lparr>st_Backend := ''valkey''\<rparr>) sid = OpenStorage dr (cfg\<lparr>st_Backend := ''redis''\<rparr>) sid"
  "OpenStorage dr (cfg\<lparr>st_Backend := ''postgresql''\<rparr>) sid = OpenStorage dr (cfg\<lparr>st_Backend := ''postgres''\<rparr>) sid"
  "OpenStorage dr (cfg\<lparr>st_Backend := ''''\<rparr>) sid = Ok MemoryBackend"
  by (simp_all add: OpenStorage_def)

lemma aliases_invalid:
  "b \<in> {'''', ''valkey'', ''postgresql''} \<Longrightarrow> Validate (cfg\<lparr>fc_Storage := (fc_Storage cfg)\<lparr>st_Backend := b\<rparr>\<rparr>) \<noteq> Ok ()"
  by (auto simp: Validate_def)

text \<open>The id that claimed jobs carry, when the store is opened.\<close>

fun claim_id :: "'db backend \<Rightarrow> string option" where
  "claim_id MemoryBackend = None"
| "claim_id (PostgresBackend st) = Some (pg_serverID st)"
| "claim_id (RedisBackend st) = Some (rd_serverID st)"

lemma open_claim_id:
  "OpenStorage dr cfg sid = Ok b \<Longrightarrow> claim_id b \<in> {None, Some (if sid = '''' then ''local'' else sid)}"
  by (auto simp: OpenStorage_def pg_Open_def redis_Open_def pg_New_def redis_New_def pg_SetServerID_def SetServerID_def
      Let_def split: if_splits result.splits)

end
