(* ===== verification/App_Server.thy ===== *)
theory App_Server
  imports Api_Conformance Storage_Backends
begin

text \<open>
  The process (\<^verbatim>\<open>internal/app\<close>, \<^verbatim>\<open>internal/version\<close>): the start-up summary and \<^verbatim>\<open>RunServer\<close>, which opens
  the store, starts the engine, serves requests until something ends it, and shuts down. The machine
  it runs on is the record \<open>host\<close>. What requests and goroutines do while the server is up, and while it
  shuts down, are arguments, as is the event that ends it.
\<close>

section \<open>The machine\<close>

record build =
  bd_Version :: string
  bd_Commit :: string
  bd_Branch :: string
  bd_BuildDate :: string

text \<open>The values of \<^verbatim>\<open>version.go\<close> before the linker sets them.\<close>

definition unstamped :: build where
  "unstamped = \<lparr>bd_Version = ''dev'', bd_Commit = ''unknown'', bd_Branch = ''unknown'', bd_BuildDate = ''unknown''\<rparr>"

record ('c, 'db) host =
  ho_build :: build
  ho_GOOS :: string
  ho_GOARCH :: string
  ho_numCPU :: int
  ho_Hostname :: string
  ho_GFIRE_CONFIG :: string
  ho_viper :: viper
  ho_urls :: urls
  ho_drivers :: "('c, 'db) drivers"
  ho_lib :: lib
  ho_proc :: "string \<Rightarrow> bytes \<Rightarrow> proc_event"

text \<open>What a process writes: to standard output, through a tab writer, to standard error, to the log.\<close>

datatype attr = AStr string | AInt int | AStrs "string list" | ABool bool

datatype printed = Stdout string | Table string | Stderr string | Logged string "(string \<times> attr) list"

text \<open>The databases that the machine's drivers reach; the memory store lives in the process.\<close>

record 'db databases =
  dbs_postgres :: pg_db
  dbs_redis :: 'db

text \<open>A routine over the interface, run on the store that was opened.\<close>

definition on_backend ::
  "env \<Rightarrow> 'db backend \<Rightarrow> (mstate storage_ops \<Rightarrow> mstate \<Rightarrow> mstate \<times> 'a) \<Rightarrow> (pg_db storage_ops \<Rightarrow> pg_db \<Rightarrow> pg_db \<times> 'a) \<Rightarrow>
     ('db storage_ops \<Rightarrow> 'db \<Rightarrow> 'db \<times> 'a) \<Rightarrow> 'db databases \<Rightarrow> 'db databases \<times> 'a" where
  "on_backend e b fm fp fr D =
     (case b of
        MemoryBackend \<Rightarrow> (D, snd (fm memory_ops mem_New))
      | PostgresBackend P \<Rightarrow>
          let (db, a) = fp (pg_ops P e) (dbs_postgres D) in (D\<lparr>dbs_postgres := db\<rparr>, a)
      | RedisBackend R \<Rightarrow>
          let (db, a) = fr (redis_ops R) (dbs_redis D) in (D\<lparr>dbs_redis := db\<rparr>, a))"

text \<open>\<^verbatim>\<open>defer store.Close()\<close>.\<close>

definition closing :: "'s storage_ops \<Rightarrow> ('s \<Rightarrow> 's \<times> 'a) \<Rightarrow> 's \<Rightarrow> 's \<times> 'a" where
  "closing ops f s = (let (s, a) = f s in (fst (op_Close ops s), a))"

section \<open>Start-up summary\<close>

definition authLabel :: "bool \<Rightarrow> string" where
  "authLabel enabled = (if enabled then ''on'' else ''off'')"

definition app_joinHostPort :: "string \<Rightarrow> int \<Rightarrow> string" where
  "app_joinHostPort host port =
     (if CHR '':'' \<in> set host \<and> \<not> has_prefix ''['' host then ''['' @ host @ '']:'' @ show_int port
      else host @ '':'' @ show_int port)"

definition BaseURL :: "fileConfig \<Rightarrow> string" where
  "BaseURL c =
     (let host = sc_Host (fc_Server c);
          host = (if host = '''' \<or> host = ''0.0.0.0'' \<or> host = ''::'' \<or> host = ''[::]'' then ''127.0.0.1'' else host);
          port = sc_Port (fc_Server c);
          port = (if port = 0 then 8080 else port)
      in ''http://'' @ app_joinHostPort host port)"

definition WriteStartupBanner :: "('c, 'db) host \<Rightarrow> fileConfig option \<Rightarrow> string \<Rightarrow> string" where
  "WriteStartupBanner h cfg serverID =
     (case cfg of
        None \<Rightarrow> []
      | Some c \<Rightarrow>
          ''gfire '' @ bd_Version (ho_build h) @ '' | build '' @ bd_BuildDate (ho_build h) @
          '' | commit '' @ bd_Commit (ho_build h) @ '' | platform '' @ ho_GOOS h @ ''/'' @ ho_GOARCH h @
          '' | listen '' @ ListenAddr c @ '' | storage '' @ StorageSummary (ho_urls h) c @
          '' | workers '' @ show_int (sc_Workers (fc_Server c)) @ '' | queues '' @ join '','' (sc_Queues (fc_Server c)) @
          '' | handlers '' @ HandlersSummary c @ '' | auth '' @ authLabel (au_Enabled (fc_Auth c)) @ nl)"

definition LogStartup :: "('c, 'db) host \<Rightarrow> fileConfig \<Rightarrow> string \<Rightarrow> printed list" where
  "LogStartup h c serverID =
     (let base = BaseURL c in
      [Stderr (WriteStartupBanner h (Some c) serverID),
       Logged ''gfire starting''
         [(''version'', AStr (bd_Version (ho_build h))), (''commit'', AStr (bd_Commit (ho_build h))),
          (''server_id'', AStr serverID), (''api'', AStr (base @ ''/v1'')), (''health'', AStr (base @ ''/healthz'')),
          (''storage'', AStr (StorageSummary (ho_urls h) c)), (''workers'', AInt (sc_Workers (fc_Server c))),
          (''queues'', AStrs (sc_Queues (fc_Server c))), (''handlers'', AStr (HandlersSummary c)),
          (''auth'', AStr (authLabel (au_Enabled (fc_Auth c)))), (''metrics'', ABool (fc_MetricsEnabled c))]])"

section \<open>The server process\<close>

definition NewServer :: "('c, 'db) host \<Rightarrow> fileConfig \<Rightarrow> 's storage_ops \<Rightarrow> 's server" where
  "NewServer h cfg store = \<lparr>ap_cfg = cfg, ap_store = store, ap_lib = ho_lib h, ap_version = bd_Version (ho_build h),
     ap_commit = bd_Commit (ho_build h)\<rparr>"

definition choose_runner :: "('c, 'db) host \<Rightarrow> string list \<Rightarrow> fileConfig \<Rightarrow> runner" where
  "choose_runner h order c =
     (let reg = HandlerRegistry order c in
      if length (fc_Handlers c) = 0 then EchoRunner else Registry_Run (ho_proc h) reg)"

text \<open>
  What the three cases of the \<^verbatim>\<open>select\<close> receive. \<open>lf_serve\<close> is what happens between the start and that
  event, given the API server, \<open>lf_shutdown\<close> what happens while \<^verbatim>\<open>apiSrv.Shutdown\<close> waits, and
  \<open>lf_drained\<close> whether the goroutines end before the shutdown context does, whose error is \<open>lf_error\<close>.
\<close>

datatype stop_event = ListenFailed error | Signalled string | CtxDone

record 's life =
  lf_serve :: "'s server \<Rightarrow> engine \<times> 's \<Rightarrow> engine \<times> 's"
  lf_event :: stop_event
  lf_shutdown :: "engine \<times> 's \<Rightarrow> engine \<times> 's"
  lf_drained :: bool
  lf_error :: error

text \<open>What \<^verbatim>\<open>RunServer\<close> does with the opened store; the engine is returned as the process leaves it.\<close>

definition serve_store ::
  "('c, 'db) host \<Rightarrow> env \<Rightarrow> ctx \<Rightarrow> fileConfig \<Rightarrow> string \<Rightarrow> 's life \<Rightarrow> 's storage_ops \<Rightarrow> 's
     \<Rightarrow> 's \<times> engine \<times> printed list \<times> unit result" where
  "serve_store h e c cfg serverID lf ops s =
     (let runner = choose_runner h (key_order e) cfg;
          eng = engine_New (ho_numCPU h) (EngineConfig cfg serverID) runner;
          ((eng, s), r) = Start ops e c eng s
      in case r of
           Err err \<Rightarrow> (s, eng, [], Err (ErrWrap ''start engine'' err))
         | Panic p \<Rightarrow> (s, eng, [], Panic p)
         | Ok _ \<Rightarrow>
             let apiSrv = NewServer h cfg ops;
                 base = BaseURL cfg;
                 log = [Logged ''listening'' [(''url'', AStr base), (''api'', AStr (base @ ''/v1'')),
                         (''bind'', AStr (ListenAddr cfg))]];
                 (eng, s) = lf_serve lf apiSrv (eng, s);
                 stop = (\<lambda>log.
                   let (eng, s) = lf_shutdown lf (eng, s);
                       ((eng, s), r) = Stop ops (lf_drained lf) (lf_error lf) eng s
                   in (s, eng, log, r))
             in case lf_event lf of
                  ListenFailed err \<Rightarrow> (s, eng, log, Err err)
                | Signalled sig \<Rightarrow> stop (log @ [Logged ''shutdown signal'' [(''signal'', AStr sig)]])
                | CtxDone \<Rightarrow> stop log)"

definition RunServer ::
  "('c, 'db) host \<Rightarrow> env \<Rightarrow> ctx \<Rightarrow> fileConfig \<Rightarrow> mstate life \<Rightarrow> pg_db life \<Rightarrow> 'db life \<Rightarrow> 'db databases
     \<Rightarrow> 'db databases \<times> engine option \<times> printed list \<times> unit result" where
  "RunServer h e c cfg lm lp lr D =
     (let serverID = sc_ServerID (fc_Server cfg);
          serverID = (if serverID = '''' then ho_Hostname h else serverID);
          out = LogStartup h cfg serverID
      in case OpenStorage (ho_drivers h) (fc_Storage cfg) serverID of
           Err err \<Rightarrow> (D, None, out, Err (ErrWrap ''open storage'' err))
         | Panic p \<Rightarrow> (D, None, out, Panic p)
         | Ok b \<Rightarrow>
             let (D, eng, log, r) =
                   on_backend e b
                     (\<lambda>ops. closing ops (serve_store h e c cfg serverID lm ops))
                     (\<lambda>ops. closing ops (serve_store h e c cfg serverID lp ops))
                     (\<lambda>ops. closing ops (serve_store h e c cfg serverID lr ops)) D
             in (D, Some eng, out @ log, r))"

section \<open>Lemmas\<close>

lemma close_ops [simp]: "op_Close (pg_ops P e) db = (db, Ok ())" "op_Close (redis_ops R) rdb = (rdb, Ok ())"
  by (simp_all add: pg_ops_def redis_ops_def)

lemma app_joinHostPort: "app_joinHostPort = joinHostPort"
  by (simp add: fun_eq_iff app_joinHostPort_def joinHostPort_def)

definition server_id :: "('c, 'db) host \<Rightarrow> fileConfig \<Rightarrow> string" where
  "server_id h cfg = (if sc_ServerID (fc_Server cfg) = '''' then ho_Hostname h else sc_ServerID (fc_Server cfg))"

text \<open>The id the engine registers is the id the opened store stamps on the jobs it claims.\<close>

lemma engine_id:
  "cfg_ServerID (normalize n (EngineConfig cfg (server_id h cfg))) = (if server_id h cfg = '''' then ''local'' else server_id h cfg)"
  by (simp add: normalize_def EngineConfig_id server_id_def)

lemma same_id:
  assumes "OpenStorage dr (fc_Storage cfg) (server_id h cfg) = Ok (PostgresBackend P)"
  shows "cfg_ServerID (normalize n (EngineConfig cfg (server_id h cfg))) = pg_serverID P"
  using open_claim_id [OF assms] by (simp only: engine_id) auto

text \<open>The fields of the engine that only \<^verbatim>\<open>Start\<close> and \<^verbatim>\<open>Stop\<close> write.\<close>

definition keeps_engine :: "(engine \<times> 's \<Rightarrow> engine \<times> 's) \<Rightarrow> bool" where
  "keeps_engine f \<longleftrightarrow> (\<forall>x. let en = fst x; en' = fst (f x) in
     e_cfg en' = e_cfg en \<and> e_stopOnce en' = e_stopOnce en \<and> e_runCtx en' = e_runCtx en \<and> e_goroutines en' = e_goroutines en)"

lemma keeps_engineD:
  assumes "keeps_engine f" "f (en, s) = (en', s')"
  shows "e_cfg en' = e_cfg en" "e_stopOnce en' = e_stopOnce en" "e_runCtx en' = e_runCtx en" "e_goroutines en' = e_goroutines en"
  using assms(1) [unfolded keeps_engine_def Let_def, rule_format, of "(en, s)"] assms(2) by simp_all

definition registered :: "string \<Rightarrow> pg_db \<Rightarrow> bool" where
  "registered i db \<longleftrightarrow> list_ex (\<lambda>r. sv_ID r = i \<and> sv_Status r = ServerStatusActive) (db_servers db)"

text \<open>The texts of the row a server registers are texts of the database.\<close>

definition storable :: "pg \<Rightarrow> config \<Rightarrow> bool" where
  "storable P c \<longleftrightarrow> list_all (pg_text P) (cfg_ServerID c # ServerStatusActive # cfg_Queues c) \<and> cfg_Queues c \<noteq> [] \<and>
     int32 (cfg_Workers c)"

lemma register_pg:
  assumes "server_texts P sv" "sv_Status sv = ServerStatusActive" "sv_Queues sv \<noteq> []"
  obtains db' where "pg_RegisterServer P (quiet None) e sv db = (db', Ok ())" "registered (sv_ID sv) db'"
proof (cases "\<exists>r \<in> set (db_servers db). sv_ID r = sv_ID sv")
  case True
  show thesis
    by (rule that) (use assms True in \<open>auto simp: pg_RegisterServer_def Let_def server_texts_def list_ex_iff registered_def ServerStatusActive_def bex_Un\<close>)
next
  case False
  show thesis
    by (rule that) (use assms False in \<open>auto simp: pg_RegisterServer_def Let_def server_texts_def list_ex_iff registered_def ServerStatusActive_def\<close>)
qed

lemma start_pg:
  assumes "storable P (e_cfg en)" "\<not> e_startOnce en"
  obtains en' db' where "Start (pg_ops P e0) e None en db = ((en', db'), Ok ())" "registered (cfg_ServerID (e_cfg en)) db'"
    "e_cfg en' = e_cfg en" "e_stopOnce en' = e_stopOnce en" "e_runCtx en' = Some None" "GScheduler \<in> set (e_goroutines en')"
proof -
  let ?sv = "\<lparr>sv_ID = cfg_ServerID (e_cfg en), sv_StartedAt = now_at e 5, sv_LastHeartbeat = 0,
    sv_WorkerCount = cfg_Workers (e_cfg en), sv_Queues = cfg_Queues (e_cfg en), sv_Status = ServerStatusActive\<rparr>"
  have "server_texts P ?sv" "sv_Queues ?sv \<noteq> []" using assms(1) by (simp_all add: storable_def server_texts_def)
  then obtain db' where reg: "pg_RegisterServer P (quiet None) e ?sv db = (db', Ok ())" "registered (cfg_ServerID (e_cfg en)) db'"
    using register_pg [of P ?sv e db] by auto
  show thesis
    by (rule that [of "fst (fst (Start (pg_ops P e0) e None en db))" "snd (fst (Start (pg_ops P e0) e None en db))"])
      (use assms(2) reg in \<open>simp_all add: Start_def Let_def pg_ops_def\<close>)
qed

lemma stop_pg:
  assumes "pg_text P (cfg_ServerID (e_cfg en))" "\<not> e_stopOnce en" "e_runCtx en = Some None"
  obtains en' db' where "Stop (pg_ops P e0) drained err en db = ((en', db'), if drained then Ok () else Err err)"
    "\<not> registered (cfg_ServerID (e_cfg en)) db'" "e_runCtx en' = Some (Some CtxCanceled)" "drained \<longrightarrow> e_goroutines en' = []"
proof -
  let ?db = "db\<lparr>db_servers := filter (\<lambda>r. sv_ID r \<noteq> cfg_ServerID (e_cfg en)) (db_servers db)\<rparr>"
  have un: "pg_UnregisterServer P (quiet None) (cfg_ServerID (e_cfg en)) db = (?db, Ok ())"
    using assms(1) by (simp add: pg_UnregisterServer_def)
  have gone: "\<not> registered (cfg_ServerID (e_cfg en)) ?db" by (auto simp: registered_def list_ex_iff)
  show thesis
    by (rule that [of "fst (fst (Stop (pg_ops P e0) drained err en db))" "snd (fst (Stop (pg_ops P e0) drained err en db))"])
      (use assms(2,3) un gone in \<open>simp_all add: Stop_def Let_def pg_ops_def\<close>)
qed

lemma serve_store_pg:
  assumes "storable P (normalize (ho_numCPU h) (EngineConfig cfg sid))"
    and keep: "\<And>sv. keeps_engine (lf_serve lp sv)" "keeps_engine (lf_shutdown lp)"
    and run: "serve_store h e None cfg sid lp (pg_ops P e) db = (db2, en2, out, r)"
    and i: "i = cfg_ServerID (normalize (ho_numCPU h) (EngineConfig cfg sid))"
  obtains en0 db0 en1 db1 where "registered i db0" "e_runCtx en0 = Some None"
    "lf_serve lp (NewServer h cfg (pg_ops P e)) (en0, db0) = (en1, db1)"
    "case lf_event lp of
       ListenFailed err \<Rightarrow> r = Err err \<and> db2 = db1 \<and> en2 = en1 \<and> e_runCtx en2 = Some None \<and> GScheduler \<in> set (e_goroutines en2)
     | _ \<Rightarrow> r = (if lf_drained lp then Ok () else Err (lf_error lp)) \<and> \<not> registered i db2 \<and>
         e_runCtx en2 = Some (Some CtxCanceled) \<and> (lf_drained lp \<longrightarrow> e_goroutines en2 = [])"
proof -
  let ?eng = "engine_New (ho_numCPU h) (EngineConfig cfg sid) (choose_runner h (key_order e) cfg)"
  have "storable P (e_cfg ?eng)" "\<not> e_startOnce ?eng" using assms(1) by (simp_all add: engine_New_def)
  then obtain en0 db0 where start: "Start (pg_ops P e) e None ?eng db = ((en0, db0), Ok ())"
    and reg: "registered (cfg_ServerID (e_cfg ?eng)) db0"
    and en0: "e_cfg en0 = e_cfg ?eng" "e_stopOnce en0 = e_stopOnce ?eng" "e_runCtx en0 = Some None" "GScheduler \<in> set (e_goroutines en0)"
    by (rule start_pg [where e0 = e and e = e and db = db])
  obtain en1 db1 where serve: "lf_serve lp (NewServer h cfg (pg_ops P e)) (en0, db0) = (en1, db1)" by fastforce
  obtain en db' where down: "lf_shutdown lp (en1, db1) = (en, db')" by fastforce
  have en1: "cfg_ServerID (e_cfg en1) = i" "\<not> e_stopOnce en1" "e_runCtx en1 = Some None" "GScheduler \<in> set (e_goroutines en1)"
    using keeps_engineD [OF keep(1) serve] en0 i by (simp_all add: engine_New_def)
  have en: "cfg_ServerID (e_cfg en) = i" "\<not> e_stopOnce en" "e_runCtx en = Some None"
    using keeps_engineD [OF keep(2) down] en1 by simp_all
  from assms(1) i have "pg_text P (cfg_ServerID (e_cfg en))" by (simp add: en storable_def)
  then obtain en' db'' where stop: "Stop (pg_ops P e) (lf_drained lp) (lf_error lp) en db' =
      ((en', db''), if lf_drained lp then Ok () else Err (lf_error lp))"
    and gone: "\<not> registered i db''" "e_runCtx en' = Some (Some CtxCanceled)" "lf_drained lp \<longrightarrow> e_goroutines en' = []"
    using stop_pg [OF _ en(2,3), where db = db' and ?e0.0 = e] en(1) by metis
  show thesis
  proof (rule that [OF _ en0(3) serve])
    show "registered i db0" using reg i by (simp add: engine_New_def)
    show "case lf_event lp of
       ListenFailed err \<Rightarrow> r = Err err \<and> db2 = db1 \<and> en2 = en1 \<and> e_runCtx en2 = Some None \<and> GScheduler \<in> set (e_goroutines en2)
     | _ \<Rightarrow> r = (if lf_drained lp then Ok () else Err (lf_error lp)) \<and> \<not> registered i db2 \<and>
         e_runCtx en2 = Some (Some CtxCanceled) \<and> (lf_drained lp \<longrightarrow> e_goroutines en2 = [])"
      using run gone en1 by (cases "lf_event lp") (auto simp: serve_store_def Let_def start serve down stop)
  qed
qed

section \<open>Properties\<close>

text \<open>
  C16. The life of a server process over PostgreSQL. It registers under the id that the opened store stamps
  on the jobs it claims and serves with a live run context, whatever the configuration and the host
  name. When a signal or the caller's context ends it, the server is unregistered whatever requests and
  workers did meanwhile, the run context is cancelled, and the call succeeds exactly when the goroutines
  drained in time. When listening fails, the process returns that error without stopping the engine:
  the server row stays as it was and the run context is never cancelled.
\<close>

theorem run_server:
  assumes opened: "OpenStorage (ho_drivers h) (fc_Storage cfg) (server_id h cfg) = Ok (PostgresBackend P)"
    and rows: "storable P (normalize (ho_numCPU h) (EngineConfig cfg (server_id h cfg)))"
    and keep: "\<And>sv. keeps_engine (lf_serve lp sv)" "keeps_engine (lf_shutdown lp)"
    and run: "RunServer h e None cfg lm lp lr D = (D', en, out, r)"
  shows "\<exists>en0 db0 en1 db1 en2 db2. registered (pg_serverID P) db0 \<and> e_runCtx en0 = Some None \<and>
    lf_serve lp (NewServer h cfg (pg_ops P e)) (en0, db0) = (en1, db1) \<and> en = Some en2 \<and> D' = D\<lparr>dbs_postgres := db2\<rparr> \<and>
    (case lf_event lp of
       ListenFailed err \<Rightarrow> r = Err err \<and> db2 = db1 \<and> en2 = en1 \<and> e_runCtx en2 = Some None \<and> GScheduler \<in> set (e_goroutines en2)
     | _ \<Rightarrow> r = (if lf_drained lp then Ok () else Err (lf_error lp)) \<and> \<not> registered (pg_serverID P) db2 \<and>
         e_runCtx en2 = Some (Some CtxCanceled) \<and> (lf_drained lp \<longrightarrow> e_goroutines en2 = []))"
proof -
  obtain db2 en2 log r' where body:
    "serve_store h e None cfg (server_id h cfg) lp (pg_ops P e) (dbs_postgres D) = (db2, en2, log, r')"
    by (metis prod_cases4)
  from run opened have "en = Some en2" "D' = D\<lparr>dbs_postgres := db2\<rparr>" "r = r'"
    by (auto simp: RunServer_def server_id_def [symmetric] Let_def on_backend_def closing_def body)
  note out = this
  show ?thesis
  proof (rule serve_store_pg [OF rows keep body same_id [OF opened, symmetric]], goal_cases)
    case (1 en0 db0 en1 db1)
    show ?case
      by (rule exI [of _ en0], rule exI [of _ db0], rule exI [of _ en1], rule exI [of _ db1], rule exI [of _ en2],
          rule exI [of _ db2], intro conjI)
        (fact 1 out 1(4) [folded out(3)])+
  qed
qed

definition demo_pg :: pg where
  "demo_pg = \<lparr>pg_jsonb = Some, pg_uuid = Some, pg_text = \<lambda>x. CHR 0x00 \<notin> set x, pg_le = \<lambda>x y. length x \<le> length y,
     pg_now = \<lambda>e. now_at e 0, pg_marshal = \<lambda>_. ''{}'', pg_unmarshal = \<lambda>_. [], pg_rfc3339 = show_int, pg_serverID = ''local''\<rparr>"

definition demo_redis :: "unit redis" where
  "demo_redis = \<lparr>rd_call = \<lambda>_ s. (s, RError ''ERR down''), rd_scan = \<lambda>_ _. [], rd_codec =
     \<lparr>cd_marshalState = \<lambda>_. Err ErrNotFound, cd_unmarshalState = \<lambda>_. Err ErrNotFound, cd_marshalServer = \<lambda>_. Err ErrNotFound,
      cd_unmarshalServer = \<lambda>_. Err ErrNotFound, cd_marshalRecurring = \<lambda>_. Err ErrNotFound,
      cd_unmarshalRecurring = \<lambda>_. Err ErrNotFound, cd_marshalContinuation = \<lambda>_. Err ErrNotFound,
      cd_unmarshalContinuation = \<lambda>_. Err ErrNotFound, cd_RFC3339Nano = show_int, cd_RFC3339 = show_int, cd_Parse = parse_int\<rparr>,
     rd_serverID = ''local''\<rparr>"

definition demo_host :: "(unit, unit) host" where
  "demo_host = \<lparr>ho_build = unstamped, ho_GOOS = ''linux'', ho_GOARCH = ''amd64'', ho_numCPU = 2, ho_Hostname = ''node-7'',
     ho_GFIRE_CONFIG = [], ho_viper = \<lparr>vp_ReadInConfig = \<lambda>_. None, vp_Unmarshal = \<lambda>_ _ c. Ok c\<rparr>,
     ho_urls = \<lparr>url_Parse = \<lambda>_. None, url_String = \<lambda>_. []\<rparr>,
     ho_drivers = \<lparr>dr_ParseConfig = \<lambda>_. Ok (), dr_NewWithConfig = \<lambda>_. Ok demo_pg, dr_pgPing = \<lambda>_. Ok (),
       dr_NewClient = \<lambda>_ _ _. demo_redis, dr_redisPing = \<lambda>_. Err (ErrMsg ''refused'')\<rparr>,
     ho_lib = demo_lib, ho_proc = \<lambda>_ _. StartFails (ErrMsg ''no such file'')\<rparr>"

definition demo_life :: "stop_event \<Rightarrow> 's life" where
  "demo_life ev = \<lparr>lf_serve = \<lambda>_ x. x, lf_event = ev, lf_shutdown = \<lambda>x. x, lf_drained = True, lf_error = CtxDeadlineExceeded\<rparr>"

definition pg_config :: fileConfig where
  "pg_config = Defaults\<lparr>fc_Storage := (fc_Storage Defaults)\<lparr>st_Backend := ''postgres''\<rparr>\<rparr>"

definition empty_dbs :: "unit databases" where
  "empty_dbs = \<lparr>dbs_postgres = \<lparr>db_jobs = [], db_states = [], db_sched = [], db_recurring = [], db_conts = [], db_servers = [],
     db_counters = [], db_locks = [], db_seq = 1\<rparr>, dbs_redis = ()\<rparr>"

lemma demo_opened: "OpenStorage (ho_drivers demo_host) (fc_Storage pg_config) (server_id demo_host pg_config) =
    Ok (PostgresBackend (demo_pg\<lparr>pg_serverID := ''node-7''\<rparr>))"
  by (simp add: OpenStorage_def demo_host_def pg_config_def Defaults_def server_id_def pg_Open_def pg_New_def pg_SetServerID_def demo_pg_def)

lemma demo_rows: "storable (demo_pg\<lparr>pg_serverID := ''node-7''\<rparr>)
    (normalize (ho_numCPU demo_host) (EngineConfig pg_config (server_id demo_host pg_config)))"
  by (simp add: storable_def normalize_def EngineConfig_def demo_host_def pg_config_def Defaults_def server_id_def demo_pg_def
      ServerStatusActive_def int32_def)

lemma demo_life_keeps: "keeps_engine (lf_serve (demo_life ev) sv)" "keeps_engine (lf_shutdown (demo_life ev))"
  by (simp_all add: keeps_engine_def demo_life_def)

theorem run_server_witness:
  "(let (D, en, out, r) = RunServer demo_host (test_env 5 ''a'' []) None pg_config (demo_life CtxDone)
         (demo_life (ListenFailed (ErrMsg ''address already in use''))) (demo_life CtxDone) empty_dbs
    in r = Err (ErrMsg ''address already in use'') \<and> registered ''node-7'' (dbs_postgres D)) \<and>
   (let (D, en, out, r) = RunServer demo_host (test_env 5 ''a'' []) None pg_config (demo_life CtxDone)
         (demo_life (Signalled ''terminated'')) (demo_life CtxDone) empty_dbs
    in r = Ok () \<and> \<not> registered ''node-7'' (dbs_postgres D))"
proof -
  note use = run_server [OF demo_opened demo_rows demo_life_keeps, where e = "test_env 5 ''a'' []" and lm = "demo_life CtxDone"
    and lr = "demo_life CtxDone" and D = empty_dbs]
  obtain D1 en1 out1 r1 where 1: "RunServer demo_host (test_env 5 ''a'' []) None pg_config (demo_life CtxDone)
         (demo_life (ListenFailed (ErrMsg ''address already in use''))) (demo_life CtxDone) empty_dbs = (D1, en1, out1, r1)"
    by (metis prod_cases4)
  obtain D2 en2 out2 r2 where 2: "RunServer demo_host (test_env 5 ''a'' []) None pg_config (demo_life CtxDone)
         (demo_life (Signalled ''terminated'')) (demo_life CtxDone) empty_dbs = (D2, en2, out2, r2)"
    by (metis prod_cases4)
  from use [OF 1] use [OF 2] show ?thesis unfolding 1 2 by (auto simp: demo_life_def)
qed

text \<open>
  C32. What the start-up banner says of the handlers against what runs. Without handlers the banner says
  echo and the echo runner runs. With entries, the names announced are those of the named entries, and
  a job runs the command of the last entry with its name that also has a command; a job with no such
  entry fails as an unknown handler, even one that was announced. When every entry lacks a name the
  banner says echo, but every job fails.
\<close>

theorem announced_handlers:
  assumes "\<forall>en \<in> set (fc_Handlers c). he_Name en \<in> set order"
  shows "case fc_Handlers c of
      [] \<Rightarrow> HandlersSummary c = ''echo (dev default)'' \<and> choose_runner h order c = EchoRunner
    | _ \<Rightarrow>
      (let named = filter (\<lambda>en. he_Name en \<noteq> '''') (fc_Handlers c);
           complete = filter (\<lambda>en. he_Cmd en \<noteq> '''') named
       in HandlersSummary c = (if named = [] then ''echo (dev default)'' else join '', '' (map he_Name named)) \<and>
          (\<forall>cx job. choose_runner h order c cx job =
             (case find (\<lambda>en. he_Name en = j_Name job) (rev complete) of
                None \<Rightarrow> Ret None (Some (ErrMsg (''unknown handler: '' @ j_Name job)))
              | Some en \<Rightarrow> snd (runSubprocess (ho_proc h) (he_Cmd en) (j_Args job)))))"
proof (cases "fc_Handlers c")
  case Nil
  then show ?thesis by (simp add: HandlersSummary_def choose_runner_def fun_eq_iff)
next
  case (Cons x xs)
  let ?named = "filter (\<lambda>en. he_Name en \<noteq> '''') (fc_Handlers c)"
  have "filter (\<lambda>en. he_Cmd en \<noteq> '''') ?named = filter (\<lambda>h. he_Name h \<noteq> '''' \<and> he_Cmd h \<noteq> '''') (fc_Handlers c)"
    by (simp add: conj_commute)
  moreover have "HandlersSummary c = (if ?named = [] then ''echo (dev default)'' else join '', '' (map he_Name ?named))"
    using Cons by (simp add: HandlersSummary_def Let_def)
  ultimately show ?thesis
    by (auto simp: choose_runner_def Let_def Cons Registry_Run_def registry_lookup [OF assms] split: option.split)
qed

theorem announced_handlers_witness:
  "(let c = Defaults\<lparr>fc_Handlers := [\<lparr>he_Name = [], he_Cmd = ''/opt/mail''\<rparr>]\<rparr> in
    HandlersSummary c = ''echo (dev default)'' \<and>
    choose_runner demo_host [[]] c None (new_job ''mail'' None ''default'') = Ret None (Some (ErrMsg (''unknown handler: '' @ ''mail'')))) \<and>
   (let c = Defaults\<lparr>fc_Handlers := [\<lparr>he_Name = ''mail'', he_Cmd = []\<rparr>]\<rparr> in
    HandlersSummary c = ''mail'' \<and>
    choose_runner demo_host [''mail''] c None (new_job ''mail'' None ''default'') = Ret None (Some (ErrMsg (''unknown handler: '' @ ''mail''))))"
  using announced_handlers [of "Defaults\<lparr>fc_Handlers := [\<lparr>he_Name = [], he_Cmd = ''/opt/mail''\<rparr>]\<rparr>" "[[]]" demo_host]
    announced_handlers [of "Defaults\<lparr>fc_Handlers := [\<lparr>he_Name = ''mail'', he_Cmd = []\<rparr>]\<rparr>" "[''mail'']" demo_host]
  by (simp add: Let_def new_job_def)

end
