(* ===== verification/Command_Line.thy ===== *)
theory Command_Line
  imports App_Server
begin

text \<open>
  The command line (\<^verbatim>\<open>internal/cli\<close>, \<^verbatim>\<open>cmd\<close>): the configuration it loads, one function per command and
  the dispatch between them. Cobra, which splits the arguments into a command and its flags, is not
  modelled: a command is a value of the datatype \<open>command\<close>. The JSON encoder of \<^verbatim>\<open>job get\<close>, the migrate
  executable and the HTTP transport are arguments. Writing to standard output does not fail; a \<open>Table\<close>
  is the text given to the tab writer.
\<close>

section \<open>Configuration and store\<close>

definition loadConfig :: "('c, 'db) host \<Rightarrow> string \<Rightarrow> fileConfig option \<Rightarrow> fileConfig option \<times> fileConfig result" where
  "loadConfig h cfgFile cfg =
     (case cfg of
        Some c \<Rightarrow> (cfg, Ok c)
      | None \<Rightarrow>
          (case Load (ho_viper h) (ho_GFIRE_CONFIG h) cfgFile of
             Ok c \<Rightarrow> (Some c, Ok c)
           | Err err \<Rightarrow> (None, Err err)
           | Panic p \<Rightarrow> (None, Panic p)))"

definition openCLIStore :: "('c, 'db) host \<Rightarrow> fileConfig \<Rightarrow> 'db backend result" where
  "openCLIStore h c = OpenStorage (ho_drivers h) (fc_Storage c) (sc_ServerID (fc_Server c))"

type_synonym done_cmd = "printed list \<times> unit result"

text \<open>What the commands that need the store share: open it, run, close it.\<close>

definition with_store ::
  "('c, 'db) host \<Rightarrow> env \<Rightarrow> fileConfig \<Rightarrow> (mstate storage_ops \<Rightarrow> mstate \<Rightarrow> mstate \<times> done_cmd) \<Rightarrow>
     (pg_db storage_ops \<Rightarrow> pg_db \<Rightarrow> pg_db \<times> done_cmd) \<Rightarrow> ('db storage_ops \<Rightarrow> 'db \<Rightarrow> 'db \<times> done_cmd) \<Rightarrow>
     'db databases \<Rightarrow> 'db databases \<times> done_cmd" where
  "with_store h e c fm fp fr D =
     (case openCLIStore h c of
        Err err \<Rightarrow> (D, [], Err err)
      | Panic p \<Rightarrow> (D, [], Panic p)
      | Ok b \<Rightarrow> on_backend e b (\<lambda>ops. closing ops (fm ops)) (\<lambda>ops. closing ops (fp ops)) (\<lambda>ops. closing ops (fr ops)) D)"

section \<open>Jobs (\<^verbatim>\<open>job.go\<close>)\<close>

definition tabbed :: "string list \<Rightarrow> string" where
  "tabbed cells = join (bytes_of [9]) cells @ nl"

definition job_line :: "jobWithStates \<Rightarrow> string" where
  "job_line jw = tabbed [j_ID (jw_Job jw), j_Name (jw_Job jw), j_Queue (jw_Job jw), CurrentState jw]"

definition job_list :: "env \<Rightarrow> string \<Rightarrow> int \<Rightarrow> 's storage_ops \<Rightarrow> 's \<Rightarrow> 's \<times> done_cmd" where
  "job_list e state limit store s =
     (case op_GetJobsByState store e None state 0 limit s of
        Err err \<Rightarrow> (s, [], Err err)
      | Panic p \<Rightarrow> (s, [], Panic p)
      | Ok jobs \<Rightarrow> (s, [Table (tabbed [''ID'', ''NAME'', ''QUEUE'', ''STATE''] @ concat (map job_line jobs))], Ok ()))"

definition job_get :: "(jobWithStates \<Rightarrow> string result) \<Rightarrow> string \<Rightarrow> 's storage_ops \<Rightarrow> 's \<Rightarrow> 's \<times> done_cmd" where
  "job_get encode i store s =
     (case op_GetJob store None i s of
        Err err \<Rightarrow> (s, [], Err err)
      | Panic p \<Rightarrow> (s, [], Panic p)
      | Ok jw \<Rightarrow>
          (case encode jw of
             Err err \<Rightarrow> (s, [], Err err)
           | Panic p \<Rightarrow> (s, [], Panic p)
           | Ok t \<Rightarrow> (s, [Stdout t], Ok ())))"

definition job_requeue :: "env \<Rightarrow> string \<Rightarrow> 's storage_ops \<Rightarrow> 's \<Rightarrow> 's \<times> done_cmd" where
  "job_requeue e i store s = (let (s, r) = op_Requeue store e None i ''cli requeue'' s in (s, [], r))"

text \<open>
  \<^verbatim>\<open>http.NewRequest(MethodPost, url, nil)\<close>: the URL is refused for a control character or a malformed escape in its
  path or fragment; the path is what stands between the authority and the query, its segments unescaped. The
  client sets no header but its own. The authority is taken as it is: a configured host that is none, and a bad
  port, which \<^verbatim>\<open>url.Parse\<close> refuses, are outside the model. So are the job ids \<^verbatim>\<open>.\<close> and \<^verbatim>\<open>..\<close>, for which the path is not
  clean and \<^verbatim>\<open>ServeMux\<close> answers with a redirect before any handler; the API hands out UUIDs only.
\<close>

definition hex_value :: "char \<Rightarrow> nat option" where
  "hex_value ch =
     (let n = (of_char ch :: nat) in
      if 48 \<le> n \<and> n \<le> 57 then Some (n - 48) else if 97 \<le> n \<and> n \<le> 102 then Some (n - 87)
      else if 65 \<le> n \<and> n \<le> 70 then Some (n - 55) else None)"

fun unescape :: "string \<Rightarrow> string + string" where
  "unescape [] = Inr []"
| "unescape (ch # s) =
     (if ch = CHR ''%'' then
        (case s of
           a # b # t \<Rightarrow>
             (case (hex_value a, hex_value b) of
                (Some x, Some y) \<Rightarrow>
                  (case unescape t of Inl bad \<Rightarrow> Inl bad | Inr u \<Rightarrow> Inr (char_of (16 * x + y) # u))
              | _ \<Rightarrow> Inl [ch, a, b])
         | _ \<Rightarrow> Inl (ch # s))
      else case unescape s of Inl bad \<Rightarrow> Inl bad | Inr u \<Rightarrow> Inr (ch # u))"

fun unescape_all :: "string list \<Rightarrow> string + string list" where
  "unescape_all [] = Inr []"
| "unescape_all (x # xs) =
     (case unescape x of
        Inl bad \<Rightarrow> Inl bad
      | Inr u \<Rightarrow> (case unescape_all xs of Inl bad \<Rightarrow> Inl bad | Inr us \<Rightarrow> Inr (u # us)))"

definition is_ctl :: "char \<Rightarrow> bool" where
  "is_ctl ch \<longleftrightarrow> (of_char ch :: nat) < 32 \<or> (of_char ch :: nat) = 127"

definition post_to :: "string list \<Rightarrow> request" where
  "post_to path = \<lparr>rq_method = ''POST'', rq_path = path,
     rq_header = (\<lambda>k. if k = ''User-Agent'' then ''Go-http-client/1.1'' else if k = ''Accept-Encoding'' then ''gzip'' else ''''),
     rq_query = (\<lambda>_. ''''), rq_body = '''', rq_limit = 0, rq_ctx = None, rq_id = ''''\<rparr>"

definition NewRequest :: "string \<Rightarrow> request result" where
  "NewRequest url =
     (let refuse = (\<lambda>why. Err (ErrMsg (''parse '' @ quoted url @ '': '' @ why))) in
      if list_ex is_ctl url then refuse ''net/url: invalid control character in URL''
      else
        let rest = takeWhile (\<lambda>ch. ch \<noteq> CHR ''#'') url;
            frag = dropWhile (\<lambda>ch. ch \<noteq> CHR ''#'') url;
            path = takeWhile (\<lambda>ch. ch \<noteq> CHR ''?'') rest
        in case unescape_all (tl (segments [] (drop (length ''http://'') path)) @ [frag]) of
             Inl bad \<Rightarrow> refuse (''invalid URL escape '' @ quoted bad)
           | Inr segs \<Rightarrow> Ok (post_to (butlast segs)))"

definition cancel_url :: "fileConfig \<Rightarrow> string \<Rightarrow> string" where
  "cancel_url c i = ''http://'' @ ListenAddr c @ ''/v1/jobs/'' @ i @ ''/cancel''"

text \<open>\<open>Do\<close> gives the status and the body, or the error of \<^verbatim>\<open>http.DefaultClient.Do\<close>.\<close>

definition job_cancel ::
  "(request \<Rightarrow> 'x \<Rightarrow> 'x \<times> (nat \<times> string) result) \<Rightarrow> fileConfig \<Rightarrow> string \<Rightarrow> 'x \<Rightarrow> 'x \<times> done_cmd" where
  "job_cancel Do c i x =
     (case NewRequest (cancel_url c i) of
        Err err \<Rightarrow> (x, [], Err err)
      | Panic p \<Rightarrow> (x, [], Panic p)
      | Ok req \<Rightarrow>
          let (x, resp) = Do req x
          in case resp of
               Err err \<Rightarrow> (x, [], Err (ErrMsg (''cancel request failed: '' @ Error err @ '' (is the server running?)'')))
             | Panic p \<Rightarrow> (x, [], Panic p)
             | Ok (status, body) \<Rightarrow>
                 if status \<noteq> 200
                 then (x, [], Err (ErrMsg (''cancel failed (status '' @ show_nat status @ ''): '' @ TrimSpace body)))
                 else (x, [Stdout (''Job '' @ i @ '': cancel request sent.'' @ nl)], Ok ()))"

section \<open>Queues and servers (\<^verbatim>\<open>queue.go\<close>, \<^verbatim>\<open>server_status.go\<close>)\<close>

definition queue_list :: "env \<Rightarrow> 's storage_ops \<Rightarrow> 's \<Rightarrow> 's \<times> done_cmd" where
  "queue_list e store s =
     (case op_GetQueues store e None s of
        Err err \<Rightarrow> (s, [], Err err)
      | Panic p \<Rightarrow> (s, [], Panic p)
      | Ok queues \<Rightarrow> (s, [Table (tabbed [''QUEUE'', ''DEPTH''] @
          concat (map (\<lambda>q. tabbed [q, show_int (depth_of store None q s)]) queues))], Ok ()))"

text \<open>\<^verbatim>\<open>d.Round(m)\<close>: to the nearest multiple, halves away from zero, saturating.\<close>

definition Round :: "duration \<Rightarrow> duration \<Rightarrow> duration" where
  "Round d m =
     (let d' = sint d; m' = sint m; r = \<bar>d'\<bar> mod m' in
      if m' \<le> 0 then d
      else if d' < 0 then
        (if r + r < m' then word_of_int (d' + r) else word_of_int (max min_duration (d' - m' + r)))
      else (if r + r < m' then word_of_int (d' - r) else word_of_int (min max_duration (d' + m' - r))))"

definition server_row :: "(duration \<Rightarrow> string) \<Rightarrow> time \<Rightarrow> serverInfo \<Rightarrow> string" where
  "server_row dstr now sv =
     (let queues = (if sv_Queues sv = [] then [''default''] else sv_Queues sv);
          uptime = Round (time_sub now (sv_StartedAt sv)) second;
          ago = Round (time_sub now (sv_LastHeartbeat sv)) second
      in tabbed [sv_ID sv, sv_Status sv, show_int (sv_WorkerCount sv), ''['' @ join '' '' queues @ '']'', dstr ago @ '' ago'',
           dstr uptime])"

definition server_status :: "(duration \<Rightarrow> string) \<Rightarrow> env \<Rightarrow> 's storage_ops \<Rightarrow> 's \<Rightarrow> 's \<times> done_cmd" where
  "server_status dstr e store s =
     (case op_GetServers store e None s of
        Err err \<Rightarrow> (s, [], Err err)
      | Panic p \<Rightarrow> (s, [], Panic p)
      | Ok servers \<Rightarrow>
          if length servers = 0 then (s, [Stdout (''No servers registered.'' @ nl)], Ok ())
          else (s, [Table (tabbed [''SERVER ID'', ''STATUS'', ''WORKERS'', ''QUEUES'', ''LAST HEARTBEAT'', ''UPTIME''] @
            concat (map (server_row dstr (now_at e 1)) servers))], Ok ()))"

section \<open>Migrations (\<^verbatim>\<open>migrate.go\<close>)\<close>

definition MigrationsPath :: string where
  "MigrationsPath = ''internal/storage/postgres/migrations''"

text \<open>\<open>found\<close> is whether \<^verbatim>\<open>exec.LookPath\<close> finds the tool, \<open>exec\<close> what running it with its arguments gives.\<close>

definition migrate :: "bool \<Rightarrow> (string list \<Rightarrow> 'x \<Rightarrow> 'x \<times> unit result) \<Rightarrow> fileConfig \<Rightarrow> 'x \<Rightarrow> 'x \<times> done_cmd" where
  "migrate found exec c x =
     (if st_Backend (fc_Storage c) \<noteq> ''postgres'' then
        (x, [], Err (ErrMsg (''migrations require storage.backend = postgres (current: '' @ st_Backend (fc_Storage c) @
           ''); Redis/ValKey need no schema migrate'')))
      else
        let dsn = pg_DSN (st_Postgres (fc_Storage c)) in
        if dsn = '''' then (x, [], Err (ErrMsg ''storage.postgres.dsn is required''))
        else if \<not> found then
          (x, [], Err (ErrMsg (''migrate CLI not found in PATH. Install: go install -tags '' @ bytes_of [39] @ ''postgres'' @
             bytes_of [39] @ '' github.com/golang-migrate/migrate/v4/cmd/migrate@latest'')))
        else
          let (x, r) = exec [''migrate'', ''-path'', MigrationsPath, ''-database'', dsn, ''up''] x in (x, [], r))"

section \<open>The command tree (\<^verbatim>\<open>root.go\<close>, \<^verbatim>\<open>main.go\<close>)\<close>

datatype command =
    CVersion | CServer | CJobList string int | CJobGet string | CJobRequeue string | CJobCancel string | CQueueList
  | CMigrate | CStatus

text \<open>
  Each command with its \<^verbatim>\<open>RunE\<close>. The machine \<open>'x\<close> beyond the databases is what the transport and the
  migration tool act on; the last three arguments are the life of the server if it is run.
\<close>

record ('db, 'x) outside =
  os_encode :: "jobWithStates \<Rightarrow> string result"
  os_Do :: "request \<Rightarrow> 'x \<Rightarrow> 'x \<times> (nat \<times> string) result"
  os_migrate_found :: bool
  os_migrate :: "string list \<Rightarrow> 'x \<Rightarrow> 'x \<times> unit result"
  os_life_memory :: "mstate life"
  os_life_postgres :: "pg_db life"
  os_life_redis :: "'db life"

fun run_with ::
  "('c, 'db) host \<Rightarrow> ('db, 'x) outside \<Rightarrow> env \<Rightarrow> fileConfig \<Rightarrow> command \<Rightarrow> 'db databases \<times> 'x
     \<Rightarrow> ('db databases \<times> 'x) \<times> done_cmd" where
  "run_with h ot e c CVersion (D, x) = ((D, x), [Stdout (''gfire '' @ bd_Version (ho_build h) @ nl)], Ok ())"
| "run_with h ot e c CServer (D, x) =
     (let (D, _, out, r) = RunServer h e None c (os_life_memory ot) (os_life_postgres ot) (os_life_redis ot) D
      in ((D, x), out, r))"
| "run_with h ot e c (CJobList state limit) (D, x) =
     (let (D, r) = with_store h e c (job_list e state limit) (job_list e state limit) (job_list e state limit) D in ((D, x), r))"
| "run_with h ot e c (CJobGet i) (D, x) =
     (let (D, r) = with_store h e c (job_get (os_encode ot) i) (job_get (os_encode ot) i) (job_get (os_encode ot) i) D in ((D, x), r))"
| "run_with h ot e c (CJobRequeue i) (D, x) =
     (let (D, r) = with_store h e c (job_requeue e i) (job_requeue e i) (job_requeue e i) D in ((D, x), r))"
| "run_with h ot e c (CJobCancel i) (D, x) = (let (x, r) = job_cancel (os_Do ot) c i x in ((D, x), r))"
| "run_with h ot e c CQueueList (D, x) =
     (let (D, r) = with_store h e c (queue_list e) (queue_list e) (queue_list e) D in ((D, x), r))"
| "run_with h ot e c CMigrate (D, x) = (let (x, r) = migrate (os_migrate_found ot) (os_migrate ot) c x in ((D, x), r))"
| "run_with h ot e c CStatus (D, x) =
     (let f = lib_Duration_String (ho_lib h);
          (D, r) = with_store h e c (server_status f e) (server_status f e) (server_status f e) D in ((D, x), r))"

text \<open>\<^verbatim>\<open>Execute\<close>: the error on standard error and exit status 1. Version needs no configuration.\<close>

definition Execute_cli ::
  "('c, 'db) host \<Rightarrow> ('db, 'x) outside \<Rightarrow> env \<Rightarrow> string \<Rightarrow> command \<Rightarrow> 'db databases \<times> 'x
     \<Rightarrow> ('db databases \<times> 'x) \<times> printed list \<times> nat" where
  "Execute_cli h ot e cfgFile cmd st =
     (let (st, out, r) =
        (if cmd = CVersion then run_with h ot e Defaults cmd st
         else case snd (loadConfig h cfgFile None) of
                Err err \<Rightarrow> (st, [], Err err)
              | Panic p \<Rightarrow> (st, [], Panic p)
              | Ok c \<Rightarrow> run_with h ot e c cmd st)
      in case r of
           Ok _ \<Rightarrow> (st, out, 0)
         | Err err \<Rightarrow> (st, out @ [Stderr (Error err @ nl)], 1)
         | Panic p \<Rightarrow> (st, out @ [Stderr (''panic: '' @ p @ nl)], 2))"

section \<open>Lemmas\<close>

text \<open>Text that stands for itself in a URL.\<close>

definition url_plain :: "string \<Rightarrow> bool" where
  "url_plain s \<longleftrightarrow> list_all (\<lambda>ch. \<not> is_ctl ch \<and> ch \<notin> {CHR ''/'', CHR ''?'', CHR ''#'', CHR ''%''}) s"

lemma unescape_plain: "CHR ''%'' \<notin> set s \<Longrightarrow> unescape s = Inr s"
  by (induction s) auto

lemma unescape_all_plain: "(\<And>x. x \<in> set xs \<Longrightarrow> CHR ''%'' \<notin> set x) \<Longrightarrow> unescape_all xs = Inr xs"
  by (induction xs) (simp_all add: unescape_plain)

lemma segments_last: "CHR ''/'' \<notin> set a \<Longrightarrow> segments cur a = [cur @ a]"
  by (induction a arbitrary: cur) auto

lemma segments_first: "CHR ''/'' \<notin> set a \<Longrightarrow> segments cur (a @ CHR ''/'' # s) = (cur @ a) # segments [] s"
  by (induction a arbitrary: cur) auto

lemma segments_path:
  "CHR ''/'' \<notin> set a \<Longrightarrow> (\<And>x. x \<in> set xs \<Longrightarrow> CHR ''/'' \<notin> set x) \<Longrightarrow>
     segments [] (a @ concat (map (\<lambda>x. ''/'' @ x) xs)) = a # xs"
proof (induction xs arbitrary: a)
  case Nil
  then show ?case by (simp add: segments_last)
next
  case (Cons x xs)
  then show ?case by (simp add: segments_first)
qed

lemma plain_chars: "url_plain s \<Longrightarrow> ch \<in> set s \<Longrightarrow> \<not> is_ctl ch \<and> ch \<notin> {CHR ''/'', CHR ''?'', CHR ''#'', CHR ''%''}"
  by (auto simp: url_plain_def list_all_iff)

lemma NewRequest_split:
  assumes "\<forall>ch \<in> set p. \<not> is_ctl ch \<and> ch \<noteq> CHR ''?'' \<and> ch \<noteq> CHR ''#''" "rest = [] \<or> hd rest = CHR ''?''"
    and "\<forall>ch \<in> set rest. \<not> is_ctl ch \<and> ch \<noteq> CHR ''#''"
    and "segments [] (drop (length ''http://'') p) = host # xs" "unescape_all (xs @ [[]]) = Inr (xs @ [[]])"
  shows "NewRequest (p @ rest) = Ok (post_to xs)"
proof -
  have all: "\<forall>ch \<in> set (p @ rest). \<not> is_ctl ch \<and> ch \<noteq> CHR ''#''" using assms(1,3) by auto
  then have hash: "takeWhile (\<lambda>ch. ch \<noteq> CHR ''#'') (p @ rest) = p @ rest" "dropWhile (\<lambda>ch. ch \<noteq> CHR ''#'') (p @ rest) = []"
    unfolding takeWhile_eq_all_conv dropWhile_eq_Nil_conv by blast+
  have "takeWhile (\<lambda>ch. ch \<noteq> CHR ''?'') rest = []" using assms(2) by (cases rest) auto
  then have query: "takeWhile (\<lambda>ch. ch \<noteq> CHR ''?'') (p @ rest) = p" using assms(1) by (subst takeWhile_append2) auto
  have "\<not> list_ex is_ctl (p @ rest)" using all unfolding list_ex_iff by blast
  then show ?thesis using assms(4,5) by (simp add: NewRequest_def Let_def hash query)
qed

lemma NewRequest_path:
  assumes "url_plain host" "\<forall>x \<in> set xs. url_plain x" "rest = [] \<or> hd rest = CHR ''?''"
    and "\<forall>ch \<in> set rest. \<not> is_ctl ch \<and> ch \<noteq> CHR ''#''"
  shows "NewRequest (''http://'' @ host @ concat (map (\<lambda>x. ''/'' @ x) xs) @ rest) = Ok (post_to xs)"
proof -
  let ?ok = "\<lambda>ch. \<not> is_ctl ch \<and> ch \<noteq> CHR ''?'' \<and> ch \<noteq> CHR ''#''"
  have plain: "\<forall>ch \<in> set s. ?ok ch" if "url_plain s" for s using plain_chars [OF that] by blast
  have "\<forall>ch \<in> set ''http://''. ?ok ch" by (simp add: is_ctl_def)
  moreover have "\<forall>ch \<in> set host. ?ok ch" using assms(1) by (rule plain)
  moreover have "\<forall>ch \<in> set (concat (map (\<lambda>x. ''/'' @ x) xs)). ?ok ch"
  proof -
    have slash: "?ok CHR ''/''" by (simp add: is_ctl_def)
    have "\<forall>ch \<in> set x. ?ok ch" if "x \<in> set xs" for x using assms(2) that plain by blast
    with slash show ?thesis by (simp only: set_concat set_map set_append) fastforce
  qed
  ultimately have path: "\<forall>ch \<in> set (''http://'' @ host @ concat (map (\<lambda>x. ''/'' @ x) xs)). ?ok ch"
    by (simp only: set_append ball_Un simp_thms)
  have "segments [] (drop (length ''http://'') (''http://'' @ host @ concat (map (\<lambda>x. ''/'' @ x) xs))) = host # xs"
    using segments_path [of host xs] assms(1,2) plain_chars by auto
  moreover have "unescape_all (xs @ [[]]) = Inr (xs @ [[]])"
    by (rule unescape_all_plain) (use assms(2) plain_chars in auto)
  ultimately show ?thesis using NewRequest_split [OF path assms(3,4)] by (simp only: append_assoc)
qed

text \<open>
  A server reached over HTTP: its handler, with the JSON value of a response encoded as \<^verbatim>\<open>writeJSON\<close> does
  (an encoder error leaves the body empty); a handler that panics closes the connection.
\<close>

definition body_text :: "lib \<Rightarrow> json \<Rightarrow> string" where
  "body_text l j = (case cd_Marshal (lib_codec l) j of Some t \<Rightarrow> t @ nl | None \<Rightarrow> '''')"

definition over_http ::
  "'s server \<Rightarrow> world \<Rightarrow> request \<Rightarrow> 's backend_state \<Rightarrow> 's backend_state \<times> (nat \<times> string) result" where
  "over_http sv w r x =
     (let (x, _, resp) = Handler sv w r x
      in (x, case resp of
               Resp n j \<Rightarrow> Ok (n, body_text (ap_lib sv) j)
             | RespText n t \<Rightarrow> Ok (n, t)
             | Abort _ \<Rightarrow> Err (ErrMsg ''EOF'')))"

lemma cancel_sends:
  assumes "url_plain (ListenAddr c)" "url_plain i"
  shows "NewRequest (cancel_url c i) = Ok (post_to [''v1'', ''jobs'', i, ''cancel''])"
    "NewRequest (cancel_url c (i @ ''/delete?'')) = Ok (post_to [''v1'', ''jobs'', i, ''delete''])"
proof -
  have lits: "url_plain ''v1''" "url_plain ''jobs''" "url_plain ''cancel''" "url_plain ''delete''"
    by (simp_all add: url_plain_def is_ctl_def)
  show "NewRequest (cancel_url c i) = Ok (post_to [''v1'', ''jobs'', i, ''cancel''])"
    using NewRequest_path [of "ListenAddr c" "[''v1'', ''jobs'', i, ''cancel'']" "[]"] assms lits by (simp add: cancel_url_def)
  show "NewRequest (cancel_url c (i @ ''/delete?'')) = Ok (post_to [''v1'', ''jobs'', i, ''delete''])"
    using NewRequest_path [of "ListenAddr c" "[''v1'', ''jobs'', i, ''delete'']" "''?/cancel''"] assms lits
    by (simp add: is_ctl_def cancel_url_def)
qed

lemma post_to_sel [simp]: "rq_method (post_to p) = ''POST''" "rq_path (post_to p) = p" "rq_header (post_to p) ''Authorization'' = ''''"
  "rq_ctx (post_to p) = None"
  by (simp_all add: post_to_def)

lemma open_handler:
  assumes "\<not> au_Enabled (fc_Auth (ap_cfg sv))" "mux_match ''POST'' p = Inl (ep, v)"
    and "\<And>a b. dispatch sv (later 1 w) ep v ((post_to p)\<lparr>rq_limit := a, rq_id := b\<rparr>) x = (x', resp)"
  shows "\<exists>hs. Handler sv w (post_to p) x = (x', hs, resp)"
  using assms(1,2) unfolding Handler_def Let_def maxBody_def requestID_def mux_def
  by (simp add: assms(3) [unfolded One_nat_def] split_beta)

lemma shown_status: "show_nat 401 = ''401''" "show_nat 409 = ''409''"
  by code_simp+

lemma job_cancel_answer:
  assumes "NewRequest (cancel_url c i) = Ok r" "\<exists>hs. Handler sv w r x = (x', hs, Resp n j)"
  shows "job_cancel (over_http sv w) c i x =
    (if n = 200 then (x', [Stdout (''Job '' @ i @ '': cancel request sent.'' @ nl)], Ok ())
     else (x', [], Err (ErrMsg (''cancel failed (status '' @ show_nat n @ ''): '' @ TrimSpace (body_text (ap_lib sv) j)))))"
  using assms by (auto simp: job_cancel_def over_http_def)

text \<open>
  C17. Cancelling from the command line. The command sends no credentials, so a server with authentication
  refuses it, always, and nothing changes. Without authentication it cancels exactly the job the server
  is running under that id and reports every other answer as an error. The id goes into the URL
  as it is: an id that ends in \<^verbatim>\<open>/delete?\<close> deletes the job, and the command reports a cancellation.
\<close>

theorem cli_cancel:
  assumes "url_plain (ListenAddr c)" "url_plain i" "i \<noteq> ''''"
  shows "(au_Enabled (fc_Auth (ap_cfg sv)) \<longrightarrow>
       job_cancel (over_http sv w) c i x =
         (x, [], Err (ErrMsg (''cancel failed (status 401): '' @
            TrimSpace (body_text (ap_lib sv) (JObj [(''error'', JStr ''unauthorized'')])))))) \<and>
     (\<not> au_Enabled (fc_Auth (ap_cfg sv)) \<longrightarrow>
       job_cancel (over_http sv w) c i (s, Some en) =
         (case e_cancels en i of
            Some k \<Rightarrow> ((s, Some (en\<lparr>e_cancelled := insert k (e_cancelled en)\<rparr>)), [Stdout (''Job '' @ i @ '': cancel request sent.'' @ nl)], Ok ())
          | None \<Rightarrow> ((s, Some en), [], Err (ErrMsg (''cancel failed (status 409): '' @
              TrimSpace (body_text (ap_lib sv) (JObj [(''error'', JStr ''job not processing on this engine'')]))))))) \<and>
     (\<not> au_Enabled (fc_Auth (ap_cfg sv)) \<longrightarrow> op_DeleteJob (ap_store sv) (w 1) None i s = (s', Ok ()) \<longrightarrow>
       job_cancel (over_http sv w) c (i @ ''/delete?'') (s, Some en) =
         ((s', Some en), [Stdout (''Job '' @ i @ ''/delete?'' @ '': cancel request sent.'' @ nl)], Ok ()))"
proof (intro conjI impI)
  assume "au_Enabled (fc_Auth (ap_cfg sv))"
  then have "\<exists>hs. Handler sv w (post_to [''v1'', ''jobs'', i, ''cancel'']) x =
      (x, hs, Resp 401 (JObj [(''error'', JStr ''unauthorized'')]))"
    by (simp add: Handler_def Let_def bearerAuth_cases public_path_def writeError_def)
  from job_cancel_answer [OF cancel_sends(1) [OF assms(1,2)] this]
  show "job_cancel (over_http sv w) c i x = (x, [], Err (ErrMsg (''cancel failed (status 401): '' @
      TrimSpace (body_text (ap_lib sv) (JObj [(''error'', JStr ''unauthorized'')])))))"
    by (simp add: shown_status)
next
  assume off: "\<not> au_Enabled (fc_Auth (ap_cfg sv))"
  have m: "mux_match ''POST'' [''v1'', ''jobs'', i, ''cancel''] = Inl (ECancel, i)"
    using assms(3) by (simp add: mux_match_def route_for_def routes_def)
  have none: "\<exists>hs. Handler sv w (post_to [''v1'', ''jobs'', i, ''cancel'']) (s, Some en) = ((s, Some en), hs,
      Resp 409 (JObj [(''error'', JStr ''job not processing on this engine'')]))" if "e_cancels en i = None"
    by (rule open_handler [OF off m]) (simp add: that handleCancel_def CancelJob_def writeError_def ErrNotProcessing_def)
  have some: "\<exists>hs. Handler sv w (post_to [''v1'', ''jobs'', i, ''cancel'']) (s, Some en) =
      ((s, Some (en\<lparr>e_cancelled := insert k (e_cancelled en)\<rparr>)), hs, Resp 200 (JObj [(''status'', JStr ''cancelling'')]))"
    if "e_cancels en i = Some k" for k
    by (rule open_handler [OF off m]) (simp add: that handleCancel_def CancelJob_def)
  note answer = job_cancel_answer [OF cancel_sends(1) [OF assms(1,2)]]
  show "job_cancel (over_http sv w) c i (s, Some en) =
         (case e_cancels en i of
            Some k \<Rightarrow> ((s, Some (en\<lparr>e_cancelled := insert k (e_cancelled en)\<rparr>)), [Stdout (''Job '' @ i @ '': cancel request sent.'' @ nl)], Ok ())
          | None \<Rightarrow> ((s, Some en), [], Err (ErrMsg (''cancel failed (status 409): '' @
              TrimSpace (body_text (ap_lib sv) (JObj [(''error'', JStr ''job not processing on this engine'')]))))))"
    by (cases "e_cancels en i") (simp_all add: answer [OF none] answer [OF some] shown_status)
  assume del: "op_DeleteJob (ap_store sv) (w 1) None i s = (s', Ok ())"
  have m: "mux_match ''POST'' [''v1'', ''jobs'', i, ''delete''] = Inl (EDelete, i)"
    using assms(3) by (simp add: mux_match_def route_for_def routes_def)
  have "\<exists>hs. Handler sv w (post_to [''v1'', ''jobs'', i, ''delete'']) (s, Some en) =
      ((s', Some en), hs, Resp 200 (JObj [(''status'', JStr ''deleted'')]))"
    by (rule open_handler [OF off m]) (use del in \<open>simp add: on_store_def handleDelete_def later_def\<close>)
  from job_cancel_answer [OF cancel_sends(2) [OF assms(1,2)] this]
  show "job_cancel (over_http sv w) c (i @ ''/delete?'') (s, Some en) =
         ((s', Some en), [Stdout (''Job '' @ i @ ''/delete?'' @ '': cancel request sent.'' @ nl)], Ok ())"
    by simp
qed

definition busy_engine :: engine where
  "busy_engine = (engine_New 2 (DefaultConfig 2) EchoRunner)\<lparr>e_cancels := [''7f'' \<mapsto> 3]\<rparr>"

theorem cli_cancel_witness:
  "url_plain (ListenAddr Defaults) \<and>
   fst (job_cancel (over_http demo_server (\<lambda>_. test_env 5 ''a'' [])) Defaults ''7f'' (mem_New, Some busy_engine)) = (mem_New, Some busy_engine) \<and>
   (\<exists>en. job_cancel (over_http (demo_server\<lparr>ap_cfg := Defaults\<rparr>) (\<lambda>_. test_env 5 ''a'' [])) Defaults ''7f'' (mem_New, Some busy_engine) =
      ((mem_New, Some en), [Stdout (''Job '' @ ''7f'' @ '': cancel request sent.'' @ nl)], Ok ()) \<and> 3 \<in> e_cancelled en)"
proof -
  have host: "url_plain (ListenAddr Defaults)"
  proof -
    have "show_nat 8080 = ''8080''" by (simp add: show_nat.simps digit_char_def) code_simp
    then have "ListenAddr Defaults = ''0.0.0.0:8080''" by (simp add: ListenAddr_def Defaults_def joinHostPort_def show_int_def)
    then show ?thesis by (simp add: url_plain_def is_ctl_def)
  qed
  have i: "url_plain ''7f''" "''7f'' \<noteq> ''''" by (simp_all add: url_plain_def is_ctl_def)
  have k: "e_cancels busy_engine ''7f'' = Some 3" by (simp add: busy_engine_def)
  have on: "au_Enabled (fc_Auth (ap_cfg demo_server))" and off: "\<not> au_Enabled (fc_Auth (ap_cfg (demo_server\<lparr>ap_cfg := Defaults\<rparr>)))"
    by (simp_all add: demo_server_def Defaults_def)
  show ?thesis
    using cli_cancel [OF host i, THEN conjunct1, rule_format, OF on, of "\<lambda>_. test_env 5 ''a'' []" "(mem_New, Some busy_engine)"]
      cli_cancel [OF host i, THEN conjunct2, THEN conjunct1, rule_format, OF off, of "\<lambda>_. test_env 5 ''a'' []" mem_New busy_engine]
      host k by simp
qed

text \<open>
  Over the memory backend, which is the default, each command opens a new store of its own: listing jobs
  or queues prints the header alone, the status command reports no servers, and getting or requeueing a
  job fails with exit status 1 because it is not found; the databases are not touched.
\<close>

lemma cli_memory:
  assumes "Load (ho_viper h) (ho_GFIRE_CONFIG h) cfgFile = Ok c" "st_Backend (fc_Storage c) = ''memory''"
  shows "Execute_cli h ot e cfgFile (CJobList state limit) st = (st, [Table (tabbed [''ID'', ''NAME'', ''QUEUE'', ''STATE''])], 0) \<and>
    Execute_cli h ot e cfgFile CQueueList st = (st, [Table (tabbed [''QUEUE'', ''DEPTH''])], 0) \<and>
    Execute_cli h ot e cfgFile CStatus st = (st, [Stdout (''No servers registered.'' @ nl)], 0) \<and>
    Execute_cli h ot e cfgFile (CJobGet i) st = (st, [Stderr (''not found'' @ nl)], 1) \<and>
    Execute_cli h ot e cfgFile (CJobRequeue i) st = (st, [Stderr (''not found'' @ nl)], 1)"
proof -
  obtain D x where st: "st = (D, x)" by fastforce
  have cfg: "snd (loadConfig h cfgFile None) = Ok c" using assms(1) by (simp add: loadConfig_def)
  have run: "with_store h e c fm fp fr D = (D, snd (closing memory_ops (fm memory_ops) mem_New))" for fm fp fr
    using assms(2) by (simp add: with_store_def openCLIStore_def OpenStorage_def on_backend_def)
  have empty: "range_keys Map.empty order = []" for order :: "string list" by (simp add: range_keys_def)
  show ?thesis
    unfolding st Execute_cli_def cfg
    by (intro conjI)
      (simp_all add: run job_list_def job_get_def job_requeue_def queue_list_def server_status_def closing_def
        mem_GetJobsByState_def mem_matching_def mem_GetQueues_def mem_GetServers_def mem_GetJob_def mem_Requeue_def mem_New_def empty)
qed

end
