(* ===== verification/Spec2Isabelle.thy ===== *)
theory Spec2Isabelle
  imports Service Worker_Pool Redis_Services Postgres_Services Command_Line
begin

text \<open>
  A verification development for gfire, a background-job server written in Go (\<^verbatim>\<open>src/\<close>).

  \<^bold>\<open>The program.\<close> Clients post jobs over a REST API (\<^verbatim>\<open>internal/api\<close>). A store (\<^verbatim>\<open>internal/storage\<close>)
  keeps jobs, their append-only state histories, queues, the schedule, recurring definitions,
  continuations, servers, counters and locks. The engine (\<^verbatim>\<open>internal/engine\<close>) runs worker goroutines that
  dequeue tickets, run the handler (\<^verbatim>\<open>internal/handler\<close>) behind a middleware pipeline
  (\<^verbatim>\<open>internal/middleware\<close>), record the verdict and release continuations, and timers that promote scheduled
  jobs, recover orphans, sweep dead servers, clean up and fire recurring jobs. Configuration
  (\<^verbatim>\<open>internal/config\<close>) chooses the backend and the handlers; \<^verbatim>\<open>internal/app\<close> runs the server process and
  \<^verbatim>\<open>internal/cli\<close> the commands that inspect a store or call a server.

  \<^bold>\<open>How code becomes definitions.\<close> A Go struct is a record with prefixed fields, a method is a function of
  the same name (prefixed \<open>mem_\<close>, \<open>redis_\<close>, \<open>pg_\<close> for the three stores) that takes the state it changes as its last
  argument and returns it with a \<open>result\<close>: \<open>Ok\<close>, \<open>Err\<close> (Go's error value) or \<open>Panic\<close>. The clock, fresh
  UUIDs, the iteration order of maps and the location of times come from an \<open>env\<close>; a routine that makes
  several calls gets a \<open>world\<close>, one environment per call. Durations are 64-bit words; instants are
  unbounded integers of nanoseconds. Blocking calls and loops run over the list of what their \<^verbatim>\<open>select\<close>
  receives, each entry with the effect of the other goroutines before it, so no fuel is needed: a loop
  whose list ends is still waiting (\<open>None\<close>, or the state reached so far).

  \<^bold>\<open>Theories.\<close>
  \<^item> \<open>Gfire_Prelude\<close>, \<open>Job_Domain\<close>: scalars, results, errors, environments, decimal printing, trimming; the
    records and constants of \<^verbatim>\<open>internal/job\<close>.
  \<^item> \<open>Storage_Interface\<close>: \<^verbatim>\<open>storage.Storage\<close> as the record \<open>storage_ops\<close>; its contract, the locale
    \<open>storage_contract\<close>, in which the engine's lemmas are proved once for every store.
  \<^item> \<open>Memory_Store\<close>, \<open>Memory_Invariant\<close>, \<open>Memory_Lifecycle\<close>, \<open>Memory_Contract\<close>, \<open>Memory_Properties\<close>: the methods of
    \<^verbatim>\<open>storage/memory/memory.go\<close>; well-formedness and its preservation by every method (\<open>mem_step\<close>,
    \<open>mem_reachable\<close>); the lifecycle invariant of the regular operations (\<open>core_step\<close>, \<open>core_inv\<close>); the
    interpretation \<open>mem\<close> of the contract; dispatch, idempotency, locks, cleanup, promotion, paging.
  \<^item> \<open>Remote_Calls\<close>: numbered trips to a shared server, with what others do before each and whether it fails.
  \<^item> \<open>Redis_Server\<close>, \<open>Redis_Store\<close>, \<open>Redis_Contract\<close>, \<open>Redis_Instance\<close>, \<open>Redis_Properties\<close>, \<open>Redis_Services\<close>:
    commands, replies and their documented behaviour (locale \<open>redis_server\<close>); \<^verbatim>\<open>storage/redis\<close> with its Lua scripts,
    every round trip open to interference and failure; the sublocale that makes it a store in the sense
    of the contract; a server that keeps the laws (interpretation \<open>kvs\<close>); round trip, claims, verdict,
    promotion, orphans, locks, and what is lost where several round trips are not atomic.
  \<^item> \<open>Postgres_Store\<close>, \<open>Postgres_Invariant\<close>, \<open>Postgres_Calls\<close>, \<open>Postgres_Effects\<close>, \<open>Postgres_Properties\<close>,
    \<open>Postgres_Services\<close>: \<^verbatim>\<open>storage/postgres\<close> over tables as lists of rows, with transactions and row locks; triples
    over statements and the invariant of the tables; all calls as a datatype, each all or nothing; what
    the statements do when they succeed; claiming, verdict, promotion, idempotency, history and races.
    The store is no instance of the contract: it refuses results that are not JSON and orders histories
    by the clocks that wrote them.
  \<^item> \<open>Retry_Policy\<close>, \<open>Handler_Pipeline\<close>, \<open>Continuations\<close>, \<open>Engine_Core\<close>, \<open>Engine_Properties\<close>: \<^verbatim>\<open>engine/retry.go\<close>,
    \<^verbatim>\<open>handler\<close> and \<^verbatim>\<open>middleware\<close>, \<^verbatim>\<open>engine/continuations.go\<close>, \<^verbatim>\<open>engine/engine.go\<close> and \<^verbatim>\<open>worker.go\<close>; the verdict on
    a ticket, retries until Dead, stale workers, start and stop, retry delays and their overflow.
  \<^item> \<open>Worker_Pool\<close>: the worker loop as a program-counter machine, all interleavings of several workers; the two
    steps of a job are the sections of \<^verbatim>\<open>processTicket\<close> before and after its handler.
  \<^item> \<open>Coordinator\<close>, \<open>Coordinator_Properties\<close>: \<^verbatim>\<open>engine/coordinator.go\<close> and the scheduler and cleanup loops.
  \<^item> \<open>Recurring_Manager\<close>: \<^verbatim>\<open>engine/recurring.go\<close> over a parameter for the cron library.
  \<^item> \<open>Gfire_Config\<close>, \<open>Storage_Backends\<close>: \<^verbatim>\<open>internal/config\<close>, with opening the three stores.
  \<^item> \<open>Api_Openapi\<close>, \<open>Api_Server\<close>, \<open>Api_Properties\<close>, \<open>Api_Conformance\<close>: \<^verbatim>\<open>internal/api\<close>, the OpenAPI document, routes,
    middleware and every handler; authentication, batches, routing; the document against the
    routes and the answers of the handlers.
  \<^item> \<open>App_Server\<close>, \<open>Command_Line\<close>: \<^verbatim>\<open>internal/app\<close>, \<^verbatim>\<open>internal/version\<close> and \<^verbatim>\<open>internal/cli\<close>; the life of a server process,
    the banner against the handlers, what the commands see and send.
  \<^item> \<open>Service_Calls\<close>, \<open>Service\<close> and this theory: the running server over the in-memory store. Every store call any
    part of the server makes (\<open>service_call\<close>) keeps \<open>service_inv\<close>: sound histories, and each job in the place its
    state names. Each routine is run over any store in the sense of the locale \<open>served\<close>; \<open>interleaved\<close> is such a
    store, in which the other goroutines act before each call, so routines are interleaved at the
    grain of the calls between which the mutex is free, not as atomic steps. \<open>service\<close> closes
    requests, claims, work, heartbeats, the loops, callbacks, start and stop under this.

  \<^bold>\<open>Parameters.\<close> Code outside the repository is an argument: the cron library (\<open>cron\<close>, \<open>cron_ops\<close> with
  \<open>cron_laws\<close>), viper (\<open>viper\<close>), database drivers (\<open>drivers\<close>), URL parsing (\<open>urls\<close>), JSON and duration
  parsing and the text of instants (\<open>json_codec\<close>, \<open>lib\<close>), subprocesses and when they are killed (\<open>proc_event\<close>), the Redis server and the text encoding of its
  records (\<open>redis\<close> with the laws of \<open>redis_server\<close>), what the PostgreSQL server decides (\<open>pg\<close> with \<open>pg_server\<close>). Each property with a law about such a
  parameter has a witness with a concrete function.

  \<^bold>\<open>Not modelled.\<close> Flag parsing and usage text (cobra); log lines after start-up; \<^verbatim>\<open>http.Server\<close> itself: its listener
  enters as the event that ends a process, its transport as a function from requests to answers; the
  helpers of tests (\<^verbatim>\<open>FlushDB\<close>, temporary handler scripts);
  request paths \<^verbatim>\<open>ServeMux\<close> redirects because they are not clean, and listen addresses that are no host
  and port.
\<close>

section \<open>Properties across components\<close>

text \<open>
  C1. Whatever the server does over the in-memory store, from its empty state and however requests (manual
  requeue and delete among them), claims, the work on tickets, job heartbeats, the scheduler, the
  coordinator with its orphan recovery, the server sweep, cleanup and recurring callbacks interleave between any two of
  their store calls, the history of every job is sound: it starts Enqueued or Scheduled; Succeeded,
  Failed and Cancelled follow Processing only, and there are no more of them than claims; Dead and a
  retry's Scheduled follow Failed only; Deleted, and Enqueued other than by the scheduler, never follow
  Succeeded, Dead, Cancelled or Deleted. No job is stranded: an Enqueued job is in its queue, a
  Scheduled one in the schedule, a Processing one in the processing and the progress table.
\<close>
theorem service_lifecycle:
  assumes "service mem_New s" and "m_jobStates s i = Some h"
  shows "(js_Name (hd h) = StateEnqueued \<or> js_Name (hd h) = StateScheduled) \<and>
    (\<forall>k. Suc k < length h \<longrightarrow>
       (let a = js_Name (h ! k); b = js_Name (h ! Suc k);
            final = a \<in> {StateSucceeded, StateDead, StateCancelled, StateDeleted} in
        (b = StateProcessing \<or> b \<in> {StateSucceeded, StateFailed, StateCancelled} \<and> a = StateProcessing \<or>
         b \<in> {StateDead, StateScheduled} \<and> a = StateFailed \<or> b = StateDeleted \<and> \<not> final \<or>
         b = StateEnqueued \<and> (js_Reason (h ! Suc k) = ''scheduled'' \<or> \<not> final)))) \<and>
    outcomes h \<le> claims h \<and>
    (\<exists>j. m_jobs s i = Some j \<and> (current_of h = StateEnqueued \<longrightarrow> i \<in> set (list_at (m_queues s) (j_Queue j)))) \<and>
    (current_of h = StateScheduled \<longrightarrow> m_scheduled s i \<noteq> None) \<and>
    (current_of h = StateProcessing \<longrightarrow> m_processing s i \<noteq> None \<and> m_progress s i \<noteq> None)"
proof -
  have inv: "service_inv s" using assms(1) service_inv_New by (rule service_keeps)
  note sound = service_inv_sound [OF inv assms(2), unfolded sound_history_def]
  obtain j where j: "m_jobs s i = Some j" using mem_wf_hist_job [OF service_inv_wf [OF inv] assms(2)] by blast
  have edge: "job_edge (h ! k) (h ! Suc k)" if "Suc k < length h" for k
    using sound that by (simp add: successively_conv_nth)
  have "outcomes h \<le> claims h" using sound outcome_per_claim [of h] by linarith
  moreover have "m_progress s i \<noteq> None" if "m_processing s i \<noteq> None"
    using that service_inv_wf [OF inv] by (auto simp: mem_wf_def)
  ultimately show ?thesis
    using sound edge service_inv_placed [OF inv, of i] j
    by (auto simp: placed_def cur_known [OF assms(2)] job_edge_def IrreversibleStates_def Let_def)
qed

definition shared_store :: "(mstate \<times> nat) storage_ops" where
  "shared_store = interleaved (\<lambda>_ s. s) (\<lambda>_ _ s. s)"

definition shared_server :: "(mstate \<times> nat) server" where
  "shared_server = \<lparr>ap_cfg = ap_cfg demo_server, ap_store = shared_store, ap_lib = demo_lib, ap_version = ''dev'',
     ap_commit = ''none''\<rparr>"

definition answered :: "string list \<Rightarrow> mstate \<Rightarrow> mstate" where
  "answered path s = fst (fst (fst (Handler shared_server (\<lambda>_. test_env 5 ''a'' [])
     (demo_request ''Bearer s3cret'' ''POST'' path) ((s, 0), None))))"

lemma answered_service: "service s (answered path s)"
  unfolding answered_def
  by (rule service.request [of "\<lambda>_ s. s" _ "\<lambda>_ _ s. s"]) (simp_all add: shared_server_def shared_store_def service.idle)

lemma shared_store_calls:
  "op_Enqueue shared_store e c q j t = turn (\<lambda>_ s. s) (mem_Enqueue e c q j) t"
  "op_Requeue shared_store e c i why t = turn (\<lambda>_ s. s) (mem_Requeue e c i why) t"
  by (simp_all add: shared_store_def interleaved_def)

lemmas answered_simps = answered_def Handler_def shared_server_def shared_store_calls turn_def
  demo_server_def demo_request_def Defaults_def Let_def bearerAuth_cases maxBody_def requestID_def mux_def
  mux_match_def route_for_def routes_def on_store_def later_def

lemma answered_enqueue:
  "answered [''v1'', ''jobs'', ''enqueue''] s =
     fst (mem_Enqueue (test_env 5 ''a'' []) None ''default'' (new_job ''mail'' (Some ''{}'') ''default'') s)"
  by (simp add: answered_simps handleEnqueue_def demo_lib_def request_job_def submit_def args_or_empty_def or_else_def
      blen_def new_job_def split_beta split: result.split)

lemma answered_requeue:
  "answered [''v1'', ''jobs'', ''a'', ''requeue''] s =
     fst (mem_Requeue (test_env 5 ''a'' []) None ''a'' ''manual requeue'' s)"
  by (simp add: answered_simps handleRequeue_def split_beta split: result.split)

definition requeued_by_hand :: mstate where
  "requeued_by_hand = answered [''v1'', ''jobs'', ''a'', ''requeue''] (answered [''v1'', ''jobs'', ''enqueue''] mem_New)"

theorem service_lifecycle_witness:
  "\<exists>h j. service mem_New requeued_by_hand \<and> m_jobStates requeued_by_hand ''a'' = Some h \<and>
     map js_Name h = [StateEnqueued, StateEnqueued] \<and> m_jobs requeued_by_hand ''a'' = Some j \<and>
     ''a'' \<in> set (list_at (m_queues requeued_by_hand) (j_Queue j))"
proof -
  have run: "service mem_New requeued_by_hand"
    unfolding requeued_by_hand_def by (rule service.seq [OF answered_service answered_service])
  let ?h = "[new_state StateEnqueued [] [] 5, new_state StateEnqueued ''manual requeue'' [] 5]"
  have h: "m_jobStates requeued_by_hand ''a'' = Some ?h"
    by (simp add: requeued_by_hand_def answered_requeue answered_enqueue mem_Requeue_def mem_Enqueue_def Let_def
        new_job_def list_at_def)
  have "\<exists>j. m_jobs requeued_by_hand ''a'' = Some j \<and>
      (current_of ?h = StateEnqueued \<longrightarrow> ''a'' \<in> set (list_at (m_queues requeued_by_hand) (j_Queue j)))"
    using service_lifecycle [OF run h] by blast
  with run h show ?thesis by (auto simp: current_of_def)
qed

end
